(* ===== verification/Pcsc_Prelude.thy ===== *)
theory Pcsc_Prelude
  imports Main "HOL-Library.Word"
begin

unbundle bit_operations_syntax

text \<open>
  Shared vocabulary of the development: the machine types of the daemon (LP64, so
  \<^verbatim>\<open>LONG\<close> is a signed and \<^verbatim>\<open>DWORD\<close> an unsigned 64-bit integer), the constants of
  \<^verbatim>\<open>src/src/PCSC/pcsclite.h.in\<close>, \<^verbatim>\<open>src/src/PCSC/ifdhandler.h\<close>, \<^verbatim>\<open>src/src/pcscd.h.in\<close>,
  \<^verbatim>\<open>src/src/eventhandler.h\<close> and \<^verbatim>\<open>src/src/prothandler.h\<close>, the wrap-around of the
  fixed-width signed counters, and the list and word lemmas the components share.

  Status codes (\<^verbatim>\<open>LONG\<close>, \<^verbatim>\<open>RESPONSECODE\<close>) and handles (\<^verbatim>\<open>SCARDHANDLE\<close>,
  \<^verbatim>\<open>SCARDCONTEXT\<close>) are only copied and compared by the code, so they are integers;
  bit masks are words of the width the code gives them.
\<close>

named_theorems frame_simps \<open>fields an operation leaves alone\<close>
named_theorems sharing_defs \<open>definitions of the sharing and handle operations\<close>

type_synonym LONG = int
type_synonym RESPONSECODE = int
type_synonym SCARDHANDLE = int
type_synonym SCARDCONTEXT = int
type_synonym DWORD = "64 word"
type_synonym u32 = "32 word"
type_synonym UCHAR = "8 word"
type_synonym bytes = "8 word list"

section \<open>Status codes of pcsclite.h\<close>

abbreviation (input) SCARD_S_SUCCESS :: LONG where "SCARD_S_SUCCESS \<equiv> 0"
abbreviation (input) SCARD_F_INTERNAL_ERROR :: LONG where "SCARD_F_INTERNAL_ERROR \<equiv> 0x80100001"
abbreviation (input) SCARD_E_CANCELLED :: LONG where "SCARD_E_CANCELLED \<equiv> 0x80100002"
abbreviation (input) SCARD_E_INVALID_HANDLE :: LONG where "SCARD_E_INVALID_HANDLE \<equiv> 0x80100003"
abbreviation (input) SCARD_E_INVALID_PARAMETER :: LONG where "SCARD_E_INVALID_PARAMETER \<equiv> 0x80100004"
abbreviation (input) SCARD_E_INVALID_TARGET :: LONG where "SCARD_E_INVALID_TARGET \<equiv> 0x80100005"
abbreviation (input) SCARD_E_NO_MEMORY :: LONG where "SCARD_E_NO_MEMORY \<equiv> 0x80100006"
abbreviation (input) SCARD_E_INSUFFICIENT_BUFFER :: LONG where "SCARD_E_INSUFFICIENT_BUFFER \<equiv> 0x80100008"
abbreviation (input) SCARD_E_UNKNOWN_READER :: LONG where "SCARD_E_UNKNOWN_READER \<equiv> 0x80100009"
abbreviation (input) SCARD_E_SHARING_VIOLATION :: LONG where "SCARD_E_SHARING_VIOLATION \<equiv> 0x8010000B"
abbreviation (input) SCARD_E_NO_SMARTCARD :: LONG where "SCARD_E_NO_SMARTCARD \<equiv> 0x8010000C"
abbreviation (input) SCARD_E_PROTO_MISMATCH :: LONG where "SCARD_E_PROTO_MISMATCH \<equiv> 0x8010000F"
abbreviation (input) SCARD_E_INVALID_VALUE :: LONG where "SCARD_E_INVALID_VALUE \<equiv> 0x80100011"
abbreviation (input) SCARD_F_UNKNOWN_ERROR :: LONG where "SCARD_F_UNKNOWN_ERROR \<equiv> 0x80100014"
abbreviation (input) SCARD_E_NOT_TRANSACTED :: LONG where "SCARD_E_NOT_TRANSACTED \<equiv> 0x80100016"
abbreviation (input) SCARD_E_READER_UNAVAILABLE :: LONG where "SCARD_E_READER_UNAVAILABLE \<equiv> 0x80100017"
abbreviation (input) SCARD_E_DUPLICATE_READER :: LONG where "SCARD_E_DUPLICATE_READER \<equiv> 0x8010001B"
abbreviation (input) SCARD_E_SERVICE_STOPPED :: LONG where "SCARD_E_SERVICE_STOPPED \<equiv> 0x8010001E"
abbreviation (input) SCARD_E_UNSUPPORTED_FEATURE :: LONG where "SCARD_E_UNSUPPORTED_FEATURE \<equiv> 0x8010001F"
abbreviation (input) SCARD_W_UNRESPONSIVE_CARD :: LONG where "SCARD_W_UNRESPONSIVE_CARD \<equiv> 0x80100066"
abbreviation (input) SCARD_W_UNPOWERED_CARD :: LONG where "SCARD_W_UNPOWERED_CARD \<equiv> 0x80100067"
abbreviation (input) SCARD_W_RESET_CARD :: LONG where "SCARD_W_RESET_CARD \<equiv> 0x80100068"
abbreviation (input) SCARD_W_REMOVED_CARD :: LONG where "SCARD_W_REMOVED_CARD \<equiv> 0x80100069"
abbreviation (input) SCARD_W_SECURITY_VIOLATION :: LONG where "SCARD_W_SECURITY_VIOLATION \<equiv> 0x8010006A"

section \<open>Modes, masks and limits\<close>

abbreviation (input) SCARD_SCOPE_USER :: DWORD where "SCARD_SCOPE_USER \<equiv> 0"
abbreviation (input) SCARD_SCOPE_TERMINAL :: DWORD where "SCARD_SCOPE_TERMINAL \<equiv> 1"
abbreviation (input) SCARD_SCOPE_SYSTEM :: DWORD where "SCARD_SCOPE_SYSTEM \<equiv> 2"
abbreviation (input) SCARD_SCOPE_GLOBAL :: DWORD where "SCARD_SCOPE_GLOBAL \<equiv> 3"

abbreviation (input) SCARD_PROTOCOL_UNDEFINED :: "'a::len word" where "SCARD_PROTOCOL_UNDEFINED \<equiv> 0"
abbreviation (input) SCARD_PROTOCOL_T0 :: "'a::len word" where "SCARD_PROTOCOL_T0 \<equiv> 1"
abbreviation (input) SCARD_PROTOCOL_T1 :: "'a::len word" where "SCARD_PROTOCOL_T1 \<equiv> 2"
abbreviation (input) SCARD_PROTOCOL_RAW :: "'a::len word" where "SCARD_PROTOCOL_RAW \<equiv> 4"
abbreviation (input) SCARD_PROTOCOL_T15 :: "'a::len word" where "SCARD_PROTOCOL_T15 \<equiv> 8"
abbreviation (input) SCARD_PROTOCOL_ANY_OLD :: "'a::len word" where "SCARD_PROTOCOL_ANY_OLD \<equiv> 0x1000"

abbreviation (input) SCARD_SHARE_EXCLUSIVE :: DWORD where "SCARD_SHARE_EXCLUSIVE \<equiv> 1"
abbreviation (input) SCARD_SHARE_SHARED :: DWORD where "SCARD_SHARE_SHARED \<equiv> 2"
abbreviation (input) SCARD_SHARE_DIRECT :: DWORD where "SCARD_SHARE_DIRECT \<equiv> 3"

abbreviation (input) SCARD_LEAVE_CARD :: DWORD where "SCARD_LEAVE_CARD \<equiv> 0"
abbreviation (input) SCARD_RESET_CARD :: DWORD where "SCARD_RESET_CARD \<equiv> 1"
abbreviation (input) SCARD_UNPOWER_CARD :: DWORD where "SCARD_UNPOWER_CARD \<equiv> 2"
abbreviation (input) SCARD_EJECT_CARD :: DWORD where "SCARD_EJECT_CARD \<equiv> 3"

abbreviation (input) SCARD_UNKNOWN :: "'a::len word" where "SCARD_UNKNOWN \<equiv> 1"
abbreviation (input) SCARD_ABSENT :: "'a::len word" where "SCARD_ABSENT \<equiv> 2"
abbreviation (input) SCARD_PRESENT :: "'a::len word" where "SCARD_PRESENT \<equiv> 4"
abbreviation (input) SCARD_SWALLOWED :: "'a::len word" where "SCARD_SWALLOWED \<equiv> 8"
abbreviation (input) SCARD_POWERED :: "'a::len word" where "SCARD_POWERED \<equiv> 0x10"
abbreviation (input) SCARD_NEGOTIABLE :: "'a::len word" where "SCARD_NEGOTIABLE \<equiv> 0x20"

abbreviation (input) SCARD_RESET :: DWORD where "SCARD_RESET \<equiv> 1"
abbreviation (input) SCARD_REMOVED :: DWORD where "SCARD_REMOVED \<equiv> 4"

abbreviation (input) MAX_ATR_SIZE :: nat where "MAX_ATR_SIZE \<equiv> 33"
abbreviation (input) MAX_READERNAME :: nat where "MAX_READERNAME \<equiv> 128"
abbreviation (input) MAX_BUFFER_SIZE :: nat where "MAX_BUFFER_SIZE \<equiv> 264"
abbreviation (input) MAX_BUFFER_SIZE_EXTENDED :: nat where "MAX_BUFFER_SIZE_EXTENDED \<equiv> 65548"
abbreviation (input) READER_NOT_INITIALIZED :: u32 where "READER_NOT_INITIALIZED \<equiv> 34"
abbreviation (input) PCSCLITE_MAX_READERS_CONTEXTS :: nat where "PCSCLITE_MAX_READERS_CONTEXTS \<equiv> 16"

abbreviation (input) PCSCLITE_SHARING_LAST_CONTEXT :: int where "PCSCLITE_SHARING_LAST_CONTEXT \<equiv> 1"
abbreviation (input) PCSCLITE_SHARING_NO_CONTEXT :: int where "PCSCLITE_SHARING_NO_CONTEXT \<equiv> 0"
abbreviation (input) PCSCLITE_SHARING_EXCLUSIVE_CONTEXT :: int where "PCSCLITE_SHARING_EXCLUSIVE_CONTEXT \<equiv> - 1"

section \<open>Codes and tags of the IFD handler interface\<close>

abbreviation (input) IFD_SUCCESS :: RESPONSECODE where "IFD_SUCCESS \<equiv> 0"
abbreviation (input) IFD_ERROR_TAG :: RESPONSECODE where "IFD_ERROR_TAG \<equiv> 600"
abbreviation (input) IFD_ERROR_NOT_SUPPORTED :: RESPONSECODE where "IFD_ERROR_NOT_SUPPORTED \<equiv> 606"
abbreviation (input) IFD_PROTOCOL_NOT_SUPPORTED :: RESPONSECODE where "IFD_PROTOCOL_NOT_SUPPORTED \<equiv> 607"
abbreviation (input) IFD_COMMUNICATION_ERROR :: RESPONSECODE where "IFD_COMMUNICATION_ERROR \<equiv> 612"
abbreviation (input) IFD_NOT_SUPPORTED :: RESPONSECODE where "IFD_NOT_SUPPORTED \<equiv> 614"
abbreviation (input) IFD_ICC_PRESENT :: RESPONSECODE where "IFD_ICC_PRESENT \<equiv> 615"
abbreviation (input) IFD_ICC_NOT_PRESENT :: RESPONSECODE where "IFD_ICC_NOT_PRESENT \<equiv> 616"
abbreviation (input) IFD_NO_SUCH_DEVICE :: RESPONSECODE where "IFD_NO_SUCH_DEVICE \<equiv> 617"
abbreviation (input) IFD_ERROR_INSUFFICIENT_BUFFER :: RESPONSECODE where "IFD_ERROR_INSUFFICIENT_BUFFER \<equiv> 618"

abbreviation (input) IFD_POWER_UP :: DWORD where "IFD_POWER_UP \<equiv> 500"
abbreviation (input) IFD_POWER_DOWN :: DWORD where "IFD_POWER_DOWN \<equiv> 501"
abbreviation (input) IFD_RESET :: DWORD where "IFD_RESET \<equiv> 502"

abbreviation (input) IFD_HVERSION_2_0 :: int where "IFD_HVERSION_2_0 \<equiv> 0x00020000"
abbreviation (input) IFD_HVERSION_3_0 :: int where "IFD_HVERSION_3_0 \<equiv> 0x00030000"

abbreviation (input) TAG_IFD_SLOT_THREAD_SAFE :: DWORD where "TAG_IFD_SLOT_THREAD_SAFE \<equiv> 0x0FAC"
abbreviation (input) TAG_IFD_THREAD_SAFE :: DWORD where "TAG_IFD_THREAD_SAFE \<equiv> 0x0FAD"
abbreviation (input) TAG_IFD_SLOTS_NUMBER :: DWORD where "TAG_IFD_SLOTS_NUMBER \<equiv> 0x0FAE"
abbreviation (input) TAG_IFD_SIMULTANEOUS_ACCESS :: DWORD where "TAG_IFD_SIMULTANEOUS_ACCESS \<equiv> 0x0FAF"
abbreviation (input) TAG_IFD_POLLING_THREAD_KILLABLE :: DWORD where "TAG_IFD_POLLING_THREAD_KILLABLE \<equiv> 0x0FB1"
abbreviation (input) TAG_IFD_STOP_POLLING_THREAD :: DWORD where "TAG_IFD_STOP_POLLING_THREAD \<equiv> 0x0FB2"
abbreviation (input) TAG_IFD_POLLING_THREAD_WITH_TIMEOUT :: DWORD where "TAG_IFD_POLLING_THREAD_WITH_TIMEOUT \<equiv> 0x0FB3"
abbreviation (input) TAG_IFD_DEVICE_REMOVED :: DWORD where "TAG_IFD_DEVICE_REMOVED \<equiv> 0x0FB4"

abbreviation (input) SCARD_ATTR_DEVICE_FRIENDLY_NAME :: DWORD where "SCARD_ATTR_DEVICE_FRIENDLY_NAME \<equiv> 0x7FFF0003"
abbreviation (input) SCARD_ATTR_DEVICE_SYSTEM_NAME :: DWORD where "SCARD_ATTR_DEVICE_SYSTEM_NAME \<equiv> 0x7FFF0004"

section \<open>Signed counters of fixed width\<close>

text \<open>
  Assigning to an \<^verbatim>\<open>int32_t\<close> or an atomic \<^verbatim>\<open>int\<close> keeps the low 32 bits and reads them as
  two's complement; \<^verbatim>\<open>int16_t\<close> the low 16.
\<close>

definition int32 :: "int \<Rightarrow> int" where
  "int32 x = signed_take_bit 31 x"

definition int16 :: "int \<Rightarrow> int" where
  "int16 x = signed_take_bit 15 x"

lemma int32_id: "- (2 ^ 31) \<le> x \<Longrightarrow> x < 2 ^ 31 \<Longrightarrow> int32 x = x"
  by (simp add: int32_def signed_take_bit_int_eq_self)

lemma int16_id: "- (2 ^ 15) \<le> x \<Longrightarrow> x < 2 ^ 15 \<Longrightarrow> int16 x = x"
  by (simp add: int16_def signed_take_bit_int_eq_self)

lemma int32_bounds: "- (2 ^ 31) \<le> int32 x \<and> int32 x < 2 ^ 31"
  unfolding int32_def
  using signed_take_bit_int_greater_eq_minus_exp [of 31 x] signed_take_bit_int_less_exp [of 31 x]
  by simp

lemma int16_bounds: "- (2 ^ 15) \<le> int16 x \<and> int16 x < 2 ^ 15"
  unfolding int16_def
  using signed_take_bit_int_greater_eq_minus_exp [of 15 x] signed_take_bit_int_less_exp [of 15 x]
  by simp

lemma int32_numeral_simps [simp]:
  "int32 0 = 0" "int32 1 = 1" "int32 (- 1) = - 1"
  by (simp_all add: int32_id)

section \<open>Lists\<close>

text \<open>Deleting the element at one position, as \<^verbatim>\<open>list_delete_at\<close> does.\<close>

definition remove_nth :: "nat \<Rightarrow> 'a list \<Rightarrow> 'a list" where
  "remove_nth n xs = take n xs @ drop (Suc n) xs"

lemma length_remove_nth [simp]: "n < length xs \<Longrightarrow> length (remove_nth n xs) = length xs - 1"
  by (simp add: remove_nth_def)

lemma set_remove_nth_subset: "set (remove_nth n xs) \<subseteq> set xs"
  by (auto simp: remove_nth_def dest: in_set_takeD in_set_dropD)

lemma remove_nth_split: "remove_nth (length ys) (ys @ x # zs) = ys @ zs"
  by (simp add: remove_nth_def)

lemma distinct_remove_nth: "distinct xs \<Longrightarrow> distinct (remove_nth n xs)"
  by (cases "n < length xs")
    (auto simp: remove_nth_def set_take_disj_set_drop_if_distinct id_take_nth_drop [symmetric]
      dest: in_set_takeD in_set_dropD)

lemma map_remove_nth: "map f (remove_nth n xs) = remove_nth n (map f xs)"
  by (simp add: remove_nth_def take_map drop_map)

text \<open>The position of the first element that satisfies a predicate.\<close>

fun position :: "('a \<Rightarrow> bool) \<Rightarrow> 'a list \<Rightarrow> nat option" where
  "position P [] = None"
| "position P (x # xs) = (if P x then Some 0 else map_option Suc (position P xs))"

lemma position_None_iff: "position P xs = None \<longleftrightarrow> (\<forall>x \<in> set xs. \<not> P x)"
  by (induction xs) auto

lemma position_SomeD:
  "position P xs = Some n \<Longrightarrow> n < length xs \<and> P (xs ! n) \<and> (\<forall>m < n. \<not> P (xs ! m))"
proof (induction xs arbitrary: n)
  case Nil
  then show ?case by simp
next
  case (Cons x xs)
  show ?case
  proof (cases "P x")
    case True
    with Cons.prems show ?thesis by simp
  next
    case False
    with Cons.prems obtain k where "position P xs = Some k" and "n = Suc k"
      by auto
    with Cons.IH [of k] False show ?thesis
      by (auto simp: less_Suc_eq_0_disj)
  qed
qed

lemma find_position: "find P xs = map_option ((!) xs) (position P xs)"
  by (induction xs) (auto simp: option.map_comp comp_def)

lemma position_SomeI: "x \<in> set xs \<Longrightarrow> P x \<Longrightarrow> \<exists>n. position P xs = Some n"
  using position_None_iff [of P xs] by (cases "position P xs") auto

lemma remove_nth_position_eq:
  "position (\<lambda>y. y = x) xs = Some n \<Longrightarrow> remove_nth n xs = remove1 x xs"
proof (induction xs arbitrary: n)
  case Nil
  then show ?case by simp
next
  case (Cons y ys)
  then show ?case
    by (cases "y = x") (auto simp: remove_nth_def)
qed

lemma find_append: "find P (xs @ ys) = (case find P xs of None \<Rightarrow> find P ys | Some x \<Rightarrow> Some x)"
  by (induction xs) auto

lemma find_remove1_other: "\<not> P x \<Longrightarrow> find P (remove1 x xs) = find P xs"
  by (induction xs) auto

lemma find_key_in: "find (\<lambda>x. f x = k) xs = Some x \<Longrightarrow> x \<in> set xs \<and> f x = k"
  by (auto simp: find_Some_iff)

lemma find_key_None_iff: "find (\<lambda>x. f x = k) xs = None \<longleftrightarrow> k \<notin> f ` set xs"
  by (auto simp: find_None_iff)

lemma find_key_Some_iff: "(\<exists>x. find (\<lambda>x. f x = k) xs = Some x) \<longleftrightarrow> k \<in> f ` set xs"
  using find_key_None_iff [of f k xs] by (cases "find (\<lambda>x. f x = k) xs") auto

lemma map_remove1_key:
  "distinct (map f xs) \<Longrightarrow> x \<in> set xs \<Longrightarrow> map f (remove1 x xs) = remove1 (f x) (map f xs)"
proof (induction xs)
  case Nil
  then show ?case by simp
next
  case (Cons a xs)
  then show ?case
    by (cases "x = a") (auto simp: image_iff)
qed

end
