(* ===== verification/Simclist.thy ===== *)
theory Simclist
  imports Pcsc_Prelude
begin

text \<open>
  The linked lists of \<^verbatim>\<open>src/src/simclist.c\<close> that hold the daemon's card handles, client
  contexts and waiting clients. A \<^verbatim>\<open>list_t\<close> is a doubly linked chain between two
  sentinels with a \<^verbatim>\<open>mid\<close> pointer that halves the walks of \<^verbatim>\<open>list_findpos\<close>, a free list
  of spare nodes and an iterator. A node pointer is modelled by the position of its node in
  the chain: \<open>-1\<close> is the head sentinel, the number of nodes is the tail sentinel, and
  following \<^verbatim>\<open>next\<close> or \<^verbatim>\<open>prev\<close> adds or subtracts one. The walks, the counters and the
  corrections of \<^verbatim>\<open>mid\<close> are those of the source; \<open>list_repOk\<close> is the
  source's own representation check, and the refinement lemmas show that under it every
  operation is the corresponding operation on the list of elements.

  The quarter tests of \<^verbatim>\<open>list_findpos\<close> compare a single-precision quotient with 0.25, 0.5
  and 0.75; for fewer than \<open>2 ^ 23\<close> elements these agree with the exact comparisons used
  here (the daemon's lists are limited to a few hundred elements).
  \<open>mem\<close> says whether \<^verbatim>\<open>malloc\<close> succeeds. A comparator is modelled by when it
  returns 0, and comparison of references (no comparator set) by equality of elements.
\<close>

section \<open>Data\<close>

abbreviation (input) SIMCLIST_MAX_SPARE_ELEMS :: nat where "SIMCLIST_MAX_SPARE_ELEMS \<equiv> 5"

record 'a list_t =
  entries :: "'a list"
  mid :: "int option"
  numels :: nat
  spareelsnum :: nat
  iter_active :: bool
  iter_pos :: nat
  iter_curentry :: int
  comparator :: "('a \<Rightarrow> 'a \<Rightarrow> bool) option"
  seeker :: "('a \<Rightarrow> int \<Rightarrow> bool) option"
  copy_data :: bool

text \<open>The data of the node a pointer refers to; the sentinels hold \<^verbatim>\<open>NULL\<close>.\<close>

definition data_at :: "'a list_t \<Rightarrow> int \<Rightarrow> 'a option" where
  "data_at l p = (if 0 \<le> p \<and> nat p < length (entries l) then Some (entries l ! nat p) else None)"

section \<open>Operations\<close>

definition list_init :: "'a list_t" where
  "list_init = \<lparr>entries = [], mid = None, numels = 0, spareelsnum = 0,
     iter_active = False, iter_pos = 0, iter_curentry = 0,
     comparator = None, seeker = None, copy_data = False\<rparr>"

definition list_attributes_comparator :: "'a list_t \<Rightarrow> ('a \<Rightarrow> 'a \<Rightarrow> bool) \<Rightarrow> int \<times> 'a list_t" where
  "list_attributes_comparator l f = (0, l\<lparr>comparator := Some f\<rparr>)"

definition list_attributes_seeker :: "'a list_t \<Rightarrow> ('a \<Rightarrow> int \<Rightarrow> bool) \<Rightarrow> int \<times> 'a list_t" where
  "list_attributes_seeker l f = (0, l\<lparr>seeker := Some f\<rparr>)"

definition list_attributes_copy :: "'a list_t \<Rightarrow> bool \<Rightarrow> bool \<Rightarrow> int \<times> 'a list_t" where
  "list_attributes_copy l metric_fun copy =
     (if \<not> metric_fun \<and> copy then (- 1, l) else (0, l\<lparr>copy_data := copy\<rparr>))"

text \<open>The two directions of the \<^verbatim>\<open>for\<close> loops of \<^verbatim>\<open>list_findpos\<close>.\<close>

function walk_next :: "int \<Rightarrow> int \<Rightarrow> int \<Rightarrow> int" where
  "walk_next i posstart ptr =
     (if i < posstart then walk_next (i + 1) posstart (ptr + 1) else ptr)"
  by pat_completeness auto
termination
  by (relation "measure (\<lambda>(i, posstart, ptr). nat (posstart - i))") auto

function walk_prev :: "int \<Rightarrow> int \<Rightarrow> int \<Rightarrow> int" where
  "walk_prev i posstart ptr =
     (if posstart < i then walk_prev (i - 1) posstart (ptr - 1) else ptr)"
  by pat_completeness auto
termination
  by (relation "measure (\<lambda>(i, posstart, ptr). nat (i - posstart))") auto

declare walk_next.simps [simp del] walk_prev.simps [simp del]

definition list_findpos :: "'a list_t \<Rightarrow> int \<Rightarrow> int option" where
  "list_findpos l posstart =
     (let n = int (numels l) in
      if posstart < - 1 \<or> posstart > n then None
      else if numels l \<noteq> 0 \<and> 4 * (posstart + 1) \<le> n then
        Some (walk_next (- 1) posstart (- 1))
      else if numels l \<noteq> 0 \<and> 2 * (posstart + 1) < n then
        map_option (walk_prev ((n - 1) div 2) posstart) (mid l)
      else if numels l \<noteq> 0 \<and> 4 * (posstart + 1) \<le> 3 * n then
        map_option (walk_next ((n - 1) div 2) posstart) (mid l)
      else Some (walk_prev n posstart (int (length (entries l)))))"

definition list_get_at :: "'a list_t \<Rightarrow> nat \<Rightarrow> 'a option" where
  "list_get_at l pos =
     (case list_findpos l (int pos) of None \<Rightarrow> None | Some tmp \<Rightarrow> data_at l tmp)"

text \<open>
  Linking a new node after \<open>prec\<close> moves every later node, \<^verbatim>\<open>mid\<close> included, one
  position up; then the source corrects \<^verbatim>\<open>mid\<close> by one node at most.
\<close>

definition insert_mid :: "int option \<Rightarrow> int \<Rightarrow> nat \<Rightarrow> nat \<Rightarrow> int option" where
  "insert_mid m prec pos n' =
     (let m' = map_option (\<lambda>p. if prec < p then p + 1 else p) m in
      if n' = 1 then Some (prec + 1)
      else if odd n' then
        (if pos \<ge> (n' - 1) div 2 then map_option (\<lambda>p. p + 1) m' else m')
      else
        (if pos \<le> (n' - 1) div 2 then map_option (\<lambda>p. p - 1) m' else m'))"

definition list_insert_at :: "bool \<Rightarrow> 'a list_t \<Rightarrow> 'a \<Rightarrow> nat \<Rightarrow> int \<times> 'a list_t" where
  "list_insert_at mem l data pos =
     (if iter_active l \<or> pos > numels l then (- 1, l)
      else if spareelsnum l = 0 \<and> \<not> mem then (- 1, l)
      else let l = l\<lparr>spareelsnum := spareelsnum l - 1\<rparr> in
        if copy_data l \<and> \<not> mem then (- 1, l)
        else case list_findpos l (int pos - 1) of
            None \<Rightarrow> (- 1, l)
          | Some prec \<Rightarrow>
              let at = nat (prec + 1); n' = numels l + 1 in
              (1, l\<lparr>entries := take at (entries l) @ data # drop at (entries l),
                    numels := n', mid := insert_mid (mid l) prec pos n'\<rparr>))"

definition list_append :: "bool \<Rightarrow> 'a list_t \<Rightarrow> 'a \<Rightarrow> int \<times> 'a list_t" where
  "list_append mem l data = list_insert_at mem l data (numels l)"

definition list_prepend :: "bool \<Rightarrow> 'a list_t \<Rightarrow> 'a \<Rightarrow> int \<times> 'a list_t" where
  "list_prepend mem l data = list_insert_at mem l data 0"

text \<open>
  \<^verbatim>\<open>list_drop_elem\<close> first corrects \<^verbatim>\<open>mid\<close> with respect to the chain before the removal;
  unlinking the node at \<open>tmp\<close> then moves every later node one position down.
\<close>

definition drop_mid :: "int option \<Rightarrow> nat \<Rightarrow> nat \<Rightarrow> int option" where
  "drop_mid m n pos =
     (if odd n then
        (if n = 1 then None
         else if pos \<ge> n div 2 then map_option (\<lambda>p. p - 1) m else m)
      else (if pos < n div 2 then map_option (\<lambda>p. p + 1) m else m))"

definition list_drop_elem :: "'a list_t \<Rightarrow> int option \<Rightarrow> nat \<Rightarrow> int \<times> 'a list_t" where
  "list_drop_elem l tmp pos =
     (case tmp of
        None \<Rightarrow> (- 1, l)
      | Some t \<Rightarrow>
          (0, l\<lparr>entries := remove_nth (nat t) (entries l),
                mid := map_option (\<lambda>p. if t < p then p - 1 else p) (drop_mid (mid l) (numels l) pos),
                spareelsnum := (if spareelsnum l < SIMCLIST_MAX_SPARE_ELEMS
                  then spareelsnum l + 1 else spareelsnum l)\<rparr>))"

definition list_delete_at :: "'a list_t \<Rightarrow> nat \<Rightarrow> int \<times> 'a list_t" where
  "list_delete_at l pos =
     (if iter_active l \<or> pos \<ge> numels l then (- 1, l)
      else let l' = snd (list_drop_elem l (list_findpos l (int pos)) pos) in
        (0, l'\<lparr>numels := numels l' - 1\<rparr>))"

definition list_extract_at :: "'a list_t \<Rightarrow> nat \<Rightarrow> 'a option \<times> 'a list_t" where
  "list_extract_at l pos =
     (if iter_active l \<or> pos \<ge> numels l then (None, l)
      else case list_findpos l (int pos) of
          None \<Rightarrow> (None, l)
        | Some tmp \<Rightarrow>
            let l' = snd (list_drop_elem l (Some tmp) pos) in
            (data_at l tmp, l'\<lparr>numels := numels l' - 1\<rparr>))"

definition list_fetch :: "'a list_t \<Rightarrow> 'a option \<times> 'a list_t" where
  "list_fetch l = list_extract_at l 0"

definition list_clear :: "'a list_t \<Rightarrow> int \<times> 'a list_t" where
  "list_clear l =
     (if iter_active l then (- 1, l)
      else (int (numels l),
        l\<lparr>entries := [], numels := 0, mid := None,
          spareelsnum := min SIMCLIST_MAX_SPARE_ELEMS (spareelsnum l + length (entries l))\<rparr>))"

definition list_destroy :: "'a list_t \<Rightarrow> 'a list_t" where
  "list_destroy l = (snd (list_clear l))\<lparr>spareelsnum := 0\<rparr>"

definition list_size :: "'a list_t \<Rightarrow> nat" where
  "list_size l = numels l"

definition list_empty :: "'a list_t \<Rightarrow> bool" where
  "list_empty l = (numels l = 0)"

definition list_locate :: "'a list_t \<Rightarrow> 'a \<Rightarrow> int" where
  "list_locate l data =
     (case position (\<lambda>el. case comparator l of None \<Rightarrow> el = data | Some c \<Rightarrow> c data el) (entries l) of
        None \<Rightarrow> - 1 | Some pos \<Rightarrow> int pos)"

definition list_delete :: "'a list_t \<Rightarrow> 'a \<Rightarrow> int \<times> 'a list_t" where
  "list_delete l data =
     (let pos = list_locate l data in
      if pos < 0 then (- 1, l)
      else case list_delete_at l (nat pos) of
          (r, l') \<Rightarrow> if r < 0 then (- 1, l') else (0, l'))"

definition list_seek :: "'a list_t \<Rightarrow> int \<Rightarrow> 'a option" where
  "list_seek l indicator =
     (case seeker l of None \<Rightarrow> None | Some s \<Rightarrow> find (\<lambda>el. s el indicator) (entries l))"

definition list_contains :: "'a list_t \<Rightarrow> 'a \<Rightarrow> bool" where
  "list_contains l data = (list_locate l data \<ge> 0)"

text \<open>
  \<^verbatim>\<open>list_delete_range\<close> moves \<^verbatim>\<open>mid\<close> to the node that is the middle once the range is gone,
  then unlinks the range (later nodes move down by its size). Emptying the whole list is
  \<^verbatim>\<open>list_clear\<close>.
\<close>

definition range_mid :: "nat \<Rightarrow> nat \<Rightarrow> nat \<Rightarrow> int" where
  "range_mid n posstart numdel =
     (let midposafter = (n - 1 - numdel) div 2 in
      int (if midposafter < posstart then midposafter else midposafter + numdel))"

definition list_delete_range :: "'a list_t \<Rightarrow> nat \<Rightarrow> nat \<Rightarrow> int \<times> 'a list_t" where
  "list_delete_range l posstart posend =
     (if iter_active l \<or> posend < posstart \<or> posend \<ge> numels l then (- 1, l)
      else let numdel = posend - posstart + 1 in
        if numdel = numels l then list_clear l
        else let movedx = range_mid (numels l) posstart numdel - (int (numels l) - 1) div 2;
                 m = map_option (\<lambda>p. p + movedx) (mid l) in
          case list_findpos l (int posstart) of
            None \<Rightarrow> (- 1, l)
          | Some tmp \<Rightarrow>
              (int numdel,
               l\<lparr>entries := take (nat tmp) (entries l) @ drop (nat tmp + numdel) (entries l),
                 mid := map_option (\<lambda>p. if tmp < p then p - int numdel else p) m,
                 numels := numels l - numdel,
                 spareelsnum := min SIMCLIST_MAX_SPARE_ELEMS (spareelsnum l + numdel)\<rparr>))"

text \<open>
  \<^verbatim>\<open>list_concat\<close> puts \<^verbatim>\<open>mid\<close> on the last node of the first list and then walks it right or
  left (\<^verbatim>\<open>/\<close> of C truncates towards zero).
\<close>

definition concat_mid :: "int \<Rightarrow> int \<Rightarrow> int" where
  "concat_mid n1 n2 =
     (let err = n2 - n1 in
      if err + 1 \<ge> 2 then n1 - 1 + (err + 1) div 2
      else if err \<le> - 2 then n1 - 1 - (- err) div 2
      else n1 - 1)"

definition list_concat :: "bool \<Rightarrow> 'a list_t \<Rightarrow> 'a list_t \<Rightarrow> int \<times> 'a list_t" where
  "list_concat mem l1 l2 =
     (let dest = list_init in
      if numels l1 + numels l2 = 0 then (0, dest)
      else if \<not> mem then (- 1, dest\<lparr>numels := numels l1 + numels l2\<rparr>)
      else (0, dest\<lparr>numels := numels l1 + numels l2,
          entries := entries l1 @ entries l2,
          mid := Some (concat_mid (int (numels l1)) (int (numels l2)))\<rparr>))"

section \<open>Iteration\<close>

definition list_iterator_start :: "'a list_t \<Rightarrow> int \<times> 'a list_t" where
  "list_iterator_start l =
     (if iter_active l then (0, l)
      else (1, l\<lparr>iter_pos := 0, iter_active := True, iter_curentry := 0\<rparr>))"

definition list_iterator_next :: "'a list_t \<Rightarrow> 'a option \<times> 'a list_t" where
  "list_iterator_next l =
     (if \<not> iter_active l then (None, l)
      else (data_at l (iter_curentry l),
        l\<lparr>iter_curentry := iter_curentry l + 1, iter_pos := iter_pos l + 1\<rparr>))"

definition list_iterator_hasnext :: "'a list_t \<Rightarrow> bool" where
  "list_iterator_hasnext l = (iter_active l \<and> iter_pos l < numels l)"

definition list_iterator_stop :: "'a list_t \<Rightarrow> int \<times> 'a list_t" where
  "list_iterator_stop l =
     (if \<not> iter_active l then (0, l) else (1, l\<lparr>iter_pos := 0, iter_active := False\<rparr>))"

section \<open>The representation check\<close>

text \<open>
  \<^verbatim>\<open>list_repOk\<close>: the chain has \<^verbatim>\<open>numels\<close> nodes, \<^verbatim>\<open>mid\<close> is the node half way, and the free
  list is within its array. The links themselves are correct by construction of the model.
\<close>

definition list_repOk :: "'a list_t \<Rightarrow> bool" where
  "list_repOk l =
     (numels l = length (entries l) \<and>
      mid l = (if numels l = 0 then None else Some ((int (numels l) - 1) div 2)) \<and>
      spareelsnum l \<le> SIMCLIST_MAX_SPARE_ELEMS)"


section \<open>Every walk ends at the position asked for\<close>

lemma walk_next_eq: "i \<le> posstart \<Longrightarrow> walk_next i posstart ptr = ptr + (posstart - i)"
proof (induction i posstart ptr rule: walk_next.induct)
  case (1 i posstart ptr)
  then show ?case
    by (cases "i < posstart") (subst walk_next.simps, simp)+
qed

lemma walk_prev_eq: "posstart \<le> i \<Longrightarrow> walk_prev i posstart ptr = ptr - (i - posstart)"
proof (induction i posstart ptr rule: walk_prev.induct)
  case (1 i posstart ptr)
  then show ?case
    by (cases "posstart < i") (subst walk_prev.simps, simp)+
qed

lemma list_findpos_repOk:
  assumes "list_repOk l"
  shows "list_findpos l pos = (if - 1 \<le> pos \<and> pos \<le> int (numels l) then Some pos else None)"
proof -
  let ?n = "int (numels l)"
  have len: "length (entries l) = numels l"
    and m: "mid l = (if numels l = 0 then None else Some ((?n - 1) div 2))"
    using assms by (auto simp: list_repOk_def)
  have "pos \<le> (?n - 1) div 2" if "2 * (pos + 1) < ?n"
    using that by presburger
  moreover have "(?n - 1) div 2 \<le> pos" if "\<not> 2 * (pos + 1) < ?n"
    using that by presburger
  ultimately show ?thesis
    by (auto simp: list_findpos_def Let_def m len walk_next_eq walk_prev_eq)
qed

lemma list_get_at_repOk:
  "list_repOk l \<Longrightarrow> list_get_at l pos = (if pos < numels l then Some (entries l ! pos) else None)"
  by (auto simp: list_get_at_def list_findpos_repOk data_at_def list_repOk_def)

section \<open>Insertion and removal\<close>

lemma insert_mid_half:
  assumes "pos \<le> n" "m = (if n = 0 then None else Some ((int n - 1) div 2))"
  shows "insert_mid m (int pos - 1) pos (n + 1) = Some (int n div 2)"
proof (cases "n = 0")
  case True
  with assms show ?thesis by (simp add: insert_mid_def)
next
  case False
  show ?thesis
  proof (cases "even n")
    case True
    then obtain k where n: "n = 2 * k" by auto
    with False have k: "0 < k" by simp
    have h: "(int n - 1) div 2 = int k - 1" using n by simp
    from False k show ?thesis unfolding assms(2) h
      by (auto simp: insert_mid_def n)
  next
    case odd: False
    then obtain k where n: "n = 2 * k + 1" by (auto elim: oddE)
    have h: "(int n - 1) div 2 = int k" using n by simp
    have h2: "int n div 2 = int k" using n by simp
    show ?thesis unfolding assms(2) h h2
      by (auto simp: insert_mid_def n)
  qed
qed

lemma list_insert_at_repOk:
  assumes ok: "list_repOk l" and "\<not> iter_active l" and "pos \<le> numels l" and mem: "mem"
  shows "fst (list_insert_at mem l x pos) = 1"
    and "entries (snd (list_insert_at mem l x pos)) = take pos (entries l) @ x # drop pos (entries l)"
    and "list_repOk (snd (list_insert_at mem l x pos))"
proof -
  let ?l = "l\<lparr>spareelsnum := spareelsnum l - 1\<rparr>"
  have ok': "list_repOk ?l"
    using ok by (auto simp: list_repOk_def)
  have fp: "list_findpos ?l (int pos - 1) = Some (int pos - 1)"
    using list_findpos_repOk [OF ok', of "int pos - 1"] assms(3) by simp
  have len: "numels l = length (entries l)"
    and m: "mid l = (if numels l = 0 then None else Some ((int (numels l) - 1) div 2))"
    using ok by (auto simp: list_repOk_def)
  have mid': "insert_mid (mid l) (int pos - 1) pos (Suc (numels l)) = Some (int (numels l) div 2)"
    using insert_mid_half [OF assms(3) m] by simp
  show "fst (list_insert_at mem l x pos) = 1"
    and "entries (snd (list_insert_at mem l x pos)) = take pos (entries l) @ x # drop pos (entries l)"
    using assms fp by (auto simp: list_insert_at_def Let_def)
  show "list_repOk (snd (list_insert_at mem l x pos))"
    using assms fp mid' len ok by (auto simp: list_insert_at_def Let_def list_repOk_def)
qed

lemma list_insert_at_attrs [simp]:
  "iter_active (snd (list_insert_at mem l x pos)) = iter_active l"
  "comparator (snd (list_insert_at mem l x pos)) = comparator l"
  "seeker (snd (list_insert_at mem l x pos)) = seeker l"
  "copy_data (snd (list_insert_at mem l x pos)) = copy_data l"
  by (auto simp: list_insert_at_def Let_def split: option.splits)

text \<open>A failed insertion leaves the elements alone.\<close>

lemma list_insert_at_fail:
  "fst (list_insert_at mem l x pos) < 0 \<Longrightarrow> entries (snd (list_insert_at mem l x pos)) = entries l"
  by (auto simp: list_insert_at_def Let_def split: if_splits option.splits)

lemma list_insert_at_repOk_any:
  assumes "list_repOk l"
  shows "list_repOk (snd (list_insert_at mem l x pos))"
proof (cases "\<not> iter_active l \<and> pos \<le> numels l \<and> \<not> (copy_data l \<and> \<not> mem) \<and> (spareelsnum l \<noteq> 0 \<or> mem)")
  case True
  let ?l = "l\<lparr>spareelsnum := spareelsnum l - 1\<rparr>"
  have ok': "list_repOk ?l"
    using assms by (auto simp: list_repOk_def)
  have fp: "list_findpos ?l (int pos - 1) = Some (int pos - 1)"
    using list_findpos_repOk [OF ok', of "int pos - 1"] True by simp
  from assms have m: "mid l = (if numels l = 0 then None else Some ((int (numels l) - 1) div 2))"
    by (simp add: list_repOk_def)
  have "insert_mid (mid l) (int pos - 1) pos (Suc (numels l)) = Some (int (numels l) div 2)"
    using insert_mid_half [OF _ m, of pos] True by simp
  with True fp assms show ?thesis
    by (auto simp: list_insert_at_def Let_def list_repOk_def)
next
  case False
  with assms show ?thesis
    by (auto simp: list_insert_at_def Let_def list_repOk_def)
qed

lemma drop_mid_half:
  assumes "pos < n" "m = Some ((int n - 1) div 2)"
  shows "map_option (\<lambda>p. if int pos < p then p - 1 else p) (drop_mid m n pos) =
    (if n = 1 then None else Some ((int n - 2) div 2))"
proof (cases "even n")
  case True
  then obtain k where n: "n = 2 * k" by auto
  have "(int n - 1) div 2 = int k - 1" "(int n - 2) div 2 = int k - 1"
    using n by simp_all
  with assms n show ?thesis by (auto simp: drop_mid_def)
next
  case False
  then obtain k where n: "n = 2 * k + 1" by (auto elim: oddE)
  have "(int n - 1) div 2 = int k" "(int n - 2) div 2 = int k - 1"
    using n by simp_all
  with assms n show ?thesis by (auto simp: drop_mid_def)
qed

lemma list_delete_at_repOk:
  assumes ok: "list_repOk l" and "\<not> iter_active l" and pos: "pos < numels l"
  shows "fst (list_delete_at l pos) = 0"
    and "entries (snd (list_delete_at l pos)) = remove_nth pos (entries l)"
    and "list_repOk (snd (list_delete_at l pos))"
proof -
  have fp: "list_findpos l (int pos) = Some (int pos)"
    using list_findpos_repOk [OF ok, of "int pos"] pos by simp
  have len: "length (entries l) = numels l" and m: "mid l = Some ((int (numels l) - 1) div 2)"
    using ok pos by (auto simp: list_repOk_def)
  have mid': "map_option (\<lambda>p. if int pos < p then p - 1 else p) (drop_mid (mid l) (numels l) pos) =
      (if numels l = 1 then None else Some ((int (numels l) - 2) div 2))"
    using drop_mid_half [OF pos m] .
  show "fst (list_delete_at l pos) = 0"
    and "entries (snd (list_delete_at l pos)) = remove_nth pos (entries l)"
    using assms fp by (auto simp: list_delete_at_def list_drop_elem_def Let_def)
  show "list_repOk (snd (list_delete_at l pos))"
    using assms fp mid' len
    by (auto simp: list_delete_at_def list_drop_elem_def Let_def list_repOk_def of_nat_diff)
qed

lemma list_delete_at_attrs [simp]:
  "iter_active (snd (list_delete_at l pos)) = iter_active l"
  "comparator (snd (list_delete_at l pos)) = comparator l"
  "seeker (snd (list_delete_at l pos)) = seeker l"
  "copy_data (snd (list_delete_at l pos)) = copy_data l"
  by (auto simp: list_delete_at_def list_drop_elem_def Let_def split: option.splits)

section \<open>Removal by element, emptying, ranges and concatenation\<close>

lemma list_locate_eq:
  assumes "comparator l = None \<or> comparator l = Some (=)"
  shows "list_locate l x = (case position (\<lambda>y. y = x) (entries l) of None \<Rightarrow> - 1 | Some n \<Rightarrow> int n)"
proof -
  have "(\<lambda>el. case comparator l of None \<Rightarrow> el = x | Some c \<Rightarrow> c x el) = (\<lambda>y. y = x)"
    using assms by auto
  then show ?thesis by (simp add: list_locate_def)
qed

lemma list_delete_repOk:
  assumes ok: "list_repOk l" "\<not> iter_active l"
    and cmp: "comparator l = None \<or> comparator l = Some (=)"
  shows "fst (list_delete l x) = (if x \<in> set (entries l) then 0 else - 1)"
    and "entries (snd (list_delete l x)) = remove1 x (entries l)"
    and "list_repOk (snd (list_delete l x))"
proof -
  have "fst (list_delete l x) = (if x \<in> set (entries l) then 0 else - 1) \<and>
      entries (snd (list_delete l x)) = remove1 x (entries l) \<and> list_repOk (snd (list_delete l x))"
  proof (cases "position (\<lambda>y. y = x) (entries l)")
    case None
    then have "x \<notin> set (entries l)"
      by (auto simp: position_None_iff)
    with None ok show ?thesis
      by (simp add: list_delete_def list_locate_eq [OF cmp] remove1_idem)
  next
    case (Some n)
    from position_SomeD [OF Some] have n: "n < numels l" and "x \<in> set (entries l)"
      using ok(1) by (auto simp: list_repOk_def)
    note d = list_delete_at_repOk [OF ok n]
    have "list_delete l x = (0, snd (list_delete_at l n))"
      using d(1) Some by (simp add: list_delete_def list_locate_eq [OF cmp] case_prod_beta)
    with d remove_nth_position_eq [OF Some] \<open>x \<in> set (entries l)\<close> show ?thesis
      by simp
  qed
  then show "fst (list_delete l x) = (if x \<in> set (entries l) then 0 else - 1)"
    and "entries (snd (list_delete l x)) = remove1 x (entries l)"
    and "list_repOk (snd (list_delete l x))"
    by blast+
qed

lemma list_delete_attrs [simp]:
  "iter_active (snd (list_delete l x)) = iter_active l"
  "comparator (snd (list_delete l x)) = comparator l"
  "seeker (snd (list_delete l x)) = seeker l"
  "copy_data (snd (list_delete l x)) = copy_data l"
  by (auto simp: list_delete_def Let_def case_prod_beta)

lemma list_clear_repOk:
  "\<not> iter_active l \<Longrightarrow> entries (snd (list_clear l)) = []"
  "list_repOk l \<Longrightarrow> list_repOk (snd (list_clear l))"
  by (auto simp: list_clear_def list_repOk_def)

lemma list_clear_attrs [simp]:
  "iter_active (snd (list_clear l)) = iter_active l"
  "comparator (snd (list_clear l)) = comparator l"
  "seeker (snd (list_clear l)) = seeker l"
  by (auto simp: list_clear_def)

lemma range_mid_half:
  assumes "a + d < n" and "0 < d"
  shows "(if int a < range_mid n a d then range_mid n a d - int d else range_mid n a d) =
    (int n - int d - 1) div 2"
proof -
  let ?m = "(n - 1 - d) div 2"
  have half: "(int n - int d - 1) div 2 = int ?m"
    using assms by (simp add: zdiv_int of_nat_diff algebra_simps)
  show ?thesis
    unfolding half using assms(2) by (simp add: range_mid_def Let_def)
qed

lemma list_delete_range_repOk:
  assumes ok: "list_repOk l" and "\<not> iter_active l" and "a \<le> b" and "b < numels l"
  shows "fst (list_delete_range l a b) = int (b - a + 1)"
    and "entries (snd (list_delete_range l a b)) = take a (entries l) @ drop (b + 1) (entries l)"
    and "list_repOk (snd (list_delete_range l a b))"
proof -
  let ?d = "b - a + 1"
  have len: "length (entries l) = numels l" and m: "mid l = Some ((int (numels l) - 1) div 2)"
    using ok assms(4) by (auto simp: list_repOk_def)
  have fp: "list_findpos l (int a) = Some (int a)"
    using list_findpos_repOk [OF ok, of "int a"] assms(3,4) by simp
  have ab: "a + ?d = b + 1" using assms(3) by simp
  show "fst (list_delete_range l a b) = int ?d"
    and "entries (snd (list_delete_range l a b)) = take a (entries l) @ drop (b + 1) (entries l)"
    using assms fp ab len
    by (auto simp: list_delete_range_def Let_def list_clear_def not_less)
  show "list_repOk (snd (list_delete_range l a b))"
  proof (cases "?d = numels l")
    case True
    with assms show ?thesis
      by (simp add: list_delete_range_def list_clear_repOk)
  next
    case False
    with assms(3,4) have lt: "?d < numels l" by simp
    show ?thesis
    proof (cases "a + ?d < numels l")
      case True
      from range_mid_half [OF True] have
        "(if int a < range_mid (numels l) a ?d then range_mid (numels l) a ?d - int ?d
          else range_mid (numels l) a ?d) = (int (numels l) - int ?d - 1) div 2"
        by simp
      with assms fp ab len m False lt show ?thesis
        by (auto simp: list_delete_range_def Let_def list_repOk_def of_nat_diff algebra_simps)
    next
      case end_of_list: False
      with ab assms(4) have n: "numels l = a + ?d" and "0 < a" using lt by auto
      have "range_mid (numels l) a ?d = int ((a - 1) div 2)"
        using n \<open>0 < a\<close> by (auto simp: range_mid_def Let_def)
      moreover have "int ((a - 1) div 2) = (int a - 1) div 2"
        using \<open>0 < a\<close> by (simp add: zdiv_int of_nat_diff)
      ultimately show ?thesis
        using assms fp ab len m False lt n \<open>0 < a\<close>
        by (auto simp: list_delete_range_def Let_def list_repOk_def of_nat_diff algebra_simps)
    qed
  qed
qed

lemma concat_mid_half:
  assumes "0 \<le> n1" "0 \<le> n2" "0 < n1 + n2"
  shows "concat_mid n1 n2 = (n1 + n2 - 1) div 2"
  using assms unfolding concat_mid_def Let_def by (auto; presburger)

lemma list_concat_repOk:
  assumes "list_repOk l1" "list_repOk l2"
  shows "fst (list_concat True l1 l2) = 0"
    and "entries (snd (list_concat True l1 l2)) = entries l1 @ entries l2"
    and "list_repOk (snd (list_concat True l1 l2))"
proof -
  have c: "concat_mid (int (numels l1)) (int (numels l2)) = (int (numels l1) + int (numels l2) - 1) div 2"
    if "numels l1 + numels l2 \<noteq> 0"
    using that by (intro concat_mid_half) auto
  show "fst (list_concat True l1 l2) = 0"
    and "entries (snd (list_concat True l1 l2)) = entries l1 @ entries l2"
    using assms by (auto simp: list_concat_def Let_def list_init_def list_repOk_def)
  show "list_repOk (snd (list_concat True l1 l2))"
  proof (cases "numels l1 + numels l2 = 0")
    case True
    then show ?thesis
      by (simp add: list_concat_def list_init_def list_repOk_def)
  next
    case False
    with c assms show ?thesis
      by (auto simp: list_concat_def Let_def list_init_def list_repOk_def)
  qed
qed

section \<open>The interface the daemon relies on\<close>

text \<open>
  What a client of the lists may assume: a state with an abstraction to a HOL list, an
  invariant every operation keeps, and the effect of each operation on the abstraction.
  \<open>keyed_sequence\<close> adds search by a key, which is how card handles and client
  contexts are found.
\<close>

locale sequence =
  fixes abs :: "'s \<Rightarrow> 'a list"
    and inv :: "'s \<Rightarrow> bool"
    and append :: "bool \<Rightarrow> 's \<Rightarrow> 'a \<Rightarrow> int \<times> 's"
    and delete_at :: "'s \<Rightarrow> nat \<Rightarrow> int \<times> 's"
    and delete :: "'s \<Rightarrow> 'a \<Rightarrow> int \<times> 's"
    and get_at :: "'s \<Rightarrow> nat \<Rightarrow> 'a option"
    and size_of :: "'s \<Rightarrow> nat"
  assumes size_of: "inv s \<Longrightarrow> size_of s = length (abs s)"
    and get_at: "inv s \<Longrightarrow> get_at s n = (if n < length (abs s) then Some (abs s ! n) else None)"
    and append_ok: "inv s \<Longrightarrow> fst (append True s x) = 1 \<and> abs (snd (append True s x)) = abs s @ [x]"
    and append_fail: "inv s \<Longrightarrow> fst (append m s x) < 0 \<Longrightarrow> abs (snd (append m s x)) = abs s"
    and inv_append: "inv s \<Longrightarrow> inv (snd (append m s x))"
    and delete_at_ok: "inv s \<Longrightarrow> n < length (abs s) \<Longrightarrow>
      fst (delete_at s n) = 0 \<and> abs (snd (delete_at s n)) = remove_nth n (abs s)"
    and inv_delete_at: "inv s \<Longrightarrow> n < length (abs s) \<Longrightarrow> inv (snd (delete_at s n))"
    and delete_ok: "inv s \<Longrightarrow> abs (snd (delete s x)) = remove1 x (abs s)"
    and inv_delete: "inv s \<Longrightarrow> inv (snd (delete s x))"
begin

text \<open>Repeatedly deleting the first element empties the list: the shutdown loops.\<close>

lemma delete_first_repeated:
  "inv s \<Longrightarrow> n = length (abs s) \<Longrightarrow>
    inv (((\<lambda>t. snd (delete_at t 0)) ^^ n) s) \<and> abs (((\<lambda>t. snd (delete_at t 0)) ^^ n) s) = []"
proof (induction n arbitrary: s)
  case 0
  then show ?case by simp
next
  case (Suc n)
  let ?t = "snd (delete_at s 0)"
  from Suc.prems(2) [symmetric] have "0 < length (abs s)" by simp
  with delete_at_ok [of s 0] inv_delete_at [of s 0] Suc.prems
  have "inv ?t" and "length (abs ?t) = n"
    by auto
  with Suc.IH [of ?t] show ?case
    by (simp add: funpow_Suc_right del: funpow.simps)
qed

lemma append_delete: "inv s \<Longrightarrow> x \<notin> set (abs s) \<Longrightarrow> abs (snd (delete (snd (append True s x)) x)) = abs s"
  using append_ok [of s x] inv_append [of s True x]
  by (simp add: delete_ok remove1_append)

end

locale keyed_sequence = sequence abs inv append delete_at delete get_at size_of
  for abs :: "'s \<Rightarrow> 'a list" and inv and append and delete_at and delete and get_at and size_of +
  fixes key :: "'a \<Rightarrow> int"
    and seek :: "'s \<Rightarrow> int \<Rightarrow> 'a option"
  assumes seek: "inv s \<Longrightarrow> seek s k = find (\<lambda>x. key x = k) (abs s)"
begin

lemma seek_None_iff: "inv s \<Longrightarrow> seek s k = None \<longleftrightarrow> k \<notin> key ` set (abs s)"
  by (simp add: seek find_key_None_iff)

lemma seek_Some: "inv s \<Longrightarrow> seek s k = Some x \<Longrightarrow> x \<in> set (abs s) \<and> key x = k"
  using find_key_in [of key k "abs s" x] by (simp add: seek)

lemma seek_append:
  "inv s \<Longrightarrow> key x \<notin> key ` set (abs s) \<Longrightarrow> seek (snd (append True s x)) (key x) = Some x"
  using append_ok [of s x] inv_append [of s True x]
  by (simp add: seek find_append find_key_None_iff [THEN iffD2])

lemma seek_append_other:
  "inv s \<Longrightarrow> k \<noteq> key x \<Longrightarrow> seek (snd (append True s x)) k = seek s k"
  using append_ok [of s x] inv_append [of s True x]
  by (auto simp: seek find_append split: option.splits)

lemma distinct_keys_append:
  "inv s \<Longrightarrow> distinct (map key (abs s)) \<Longrightarrow> key x \<notin> key ` set (abs s) \<Longrightarrow>
    distinct (map key (abs (snd (append True s x))))"
  using append_ok [of s x] by simp

lemma delete_sought:
  assumes "inv s" and "seek s k = Some x"
  shows "length (abs (snd (delete s x))) = length (abs s) - 1"
    and "distinct (map key (abs s)) \<Longrightarrow> map key (abs (snd (delete s x))) = remove1 k (map key (abs s))"
proof -
  from seek_Some [OF assms] have x: "x \<in> set (abs s)" and k: "key x = k"
    by simp_all
  from x show "length (abs (snd (delete s x))) = length (abs s) - 1"
    by (simp add: delete_ok [OF assms(1)] length_remove1)
  from x k show "distinct (map key (abs s)) \<Longrightarrow>
      map key (abs (snd (delete s x))) = remove1 k (map key (abs s))"
    by (simp add: delete_ok [OF assms(1)] map_remove1_key)
qed

end

text \<open>
  The lists of the source implement the interface whenever their representation is
  correct, no iteration is under way, and elements are compared by reference or by value.
\<close>

definition list_ok :: "'a list_t \<Rightarrow> bool" where
  "list_ok l = (list_repOk l \<and> \<not> iter_active l \<and> (comparator l = None \<or> comparator l = Some (=)))"

lemma list_append_repOk:
  assumes "list_ok l"
  shows "fst (list_append True l x) = 1"
    and "entries (snd (list_append True l x)) = entries l @ [x]"
    and "list_ok (snd (list_append m l x))"
  using assms list_insert_at_repOk [of l "numels l" True x] list_insert_at_repOk_any [of l m x "numels l"]
  by (auto simp: list_append_def list_ok_def list_repOk_def)

lemma list_append_fail:
  "fst (list_append m l x) < 0 \<Longrightarrow> entries (snd (list_append m l x)) = entries l"
  by (simp add: list_append_def list_insert_at_fail)

interpretation simclist: sequence entries list_ok list_append list_delete_at list_delete
  list_get_at list_size
proof
  fix s :: "'a list_t" and x :: 'a and n :: nat and m :: bool
  assume ok: "list_ok s"
  then have r: "list_repOk s" "\<not> iter_active s" "comparator s = None \<or> comparator s = Some (=)"
    and n: "numels s = length (entries s)"
    by (auto simp: list_ok_def list_repOk_def)
  show "list_size s = length (entries s)"
    by (simp add: list_size_def n)
  show "list_get_at s n = (if n < length (entries s) then Some (entries s ! n) else None)"
    by (simp add: list_get_at_repOk [OF r(1)] n)
  show "fst (list_append True s x) = 1 \<and> entries (snd (list_append True s x)) = entries s @ [x]"
    using list_append_repOk [OF ok] by blast
  show "fst (list_append m s x) < 0 \<Longrightarrow> entries (snd (list_append m s x)) = entries s"
    by (rule list_append_fail)
  show "list_ok (snd (list_append m s x))"
    using list_append_repOk [OF ok] by blast
  show "n < length (entries s) \<Longrightarrow> fst (list_delete_at s n) = 0 \<and>
      entries (snd (list_delete_at s n)) = remove_nth n (entries s)"
    and "n < length (entries s) \<Longrightarrow> list_ok (snd (list_delete_at s n))"
    using list_delete_at_repOk [OF r(1,2)] r n by (auto simp: list_ok_def)
  show "entries (snd (list_delete s x)) = remove1 x (entries s)"
    and "list_ok (snd (list_delete s x))"
    using list_delete_repOk [OF r] r by (auto simp: list_ok_def)
qed

end
