(* ===== verification/Reader_Types.thy ===== *)
theory Reader_Types
  imports Simclist
begin

text \<open>
  The daemon's data: the reader structures of \<^verbatim>\<open>src/src/readers.h\<close>, the client handles of
  \<^verbatim>\<open>src/src/readerfactory.h\<close>, the power states of \<^verbatim>\<open>src/src/pcscd.h.in\<close>, and the global
  variables of \<^verbatim>\<open>src/src/readerfactory.c\<close> and \<^verbatim>\<open>src/src/eventhandler.c\<close>, gathered in one
  record.

  A \<^verbatim>\<open>READER_CONTEXT *\<close> is an index into \<open>sReadersContexts\<close>. The counters behind
  \<^verbatim>\<open>pFeeds\<close> and \<^verbatim>\<open>pMutex\<close>, which several readers share through their pointers, live in an
  explicit store (\<open>intCells\<close>), so that aliasing is part of the model. Character arrays
  that hold C strings are strings without the terminating NUL.

  An IFD handler (a reader driver) is third-party code loaded with \<^verbatim>\<open>dlopen\<close>: its functions
  are parameters over a driver state of arbitrary type \<open>'d\<close>. A function pointer is an
  optional function, \<open>None\<close> being \<^verbatim>\<open>NULL\<close>. A pointer that a driver hands out as the value
  of a capability (the polling functions) is kept as the bytes of its address, and
  \<open>callable\<close> of the driver's library gives the function at that address.
\<close>

section \<open>Power states\<close>

datatype power_state =
  POWER_STATE_UNPOWERED | POWER_STATE_POWERED | POWER_STATE_GRACE_PERIOD | POWER_STATE_IN_USE

text \<open>The code compares power states with \<^verbatim>\<open><=\<close>; the order is that of the enumeration.\<close>

fun power_rank :: "power_state \<Rightarrow> nat" where
  "power_rank POWER_STATE_UNPOWERED = 0"
| "power_rank POWER_STATE_POWERED = 1"
| "power_rank POWER_STATE_GRACE_PERIOD = 2"
| "power_rank POWER_STATE_IN_USE = 3"

lemma power_rank_inj [simp]: "power_rank a = power_rank b \<longleftrightarrow> a = b"
  by (cases a; cases b) simp_all

instantiation power_state :: linorder
begin

definition less_eq_power_state :: "power_state \<Rightarrow> power_state \<Rightarrow> bool" where
  "less_eq_power_state a b = (power_rank a \<le> power_rank b)"

definition less_power_state :: "power_state \<Rightarrow> power_state \<Rightarrow> bool" where
  "less_power_state a b = (power_rank a < power_rank b)"

instance
  by standard (auto simp: less_eq_power_state_def less_power_state_def)

end

section \<open>Client handles\<close>

record RDR_CLIHANDLES =
  hCard :: SCARDHANDLE
  dwEventStatus :: DWORD

definition RDR_CLIHANDLES_seeker :: "RDR_CLIHANDLES \<Rightarrow> int \<Rightarrow> bool" where
  "RDR_CLIHANDLES_seeker el key = (hCard el = key)"

section \<open>The public reader state\<close>

text \<open>
  The bit field the source also calls \<^verbatim>\<open>readerState\<close> is \<open>rsState\<close> here. \<open>pastAtr\<close> is what
  the memory holds after the last byte of \<^verbatim>\<open>cardAtr\<close>, by offset from the start of the
  buffer: the ATR decoder can read a few of these bytes.
\<close>

record READER_STATE =
  readerName :: string
  eventCounter :: u32
  rsState :: u32
  readerSharing :: int
  cardAtr :: bytes
  pastAtr :: "nat \<Rightarrow> UCHAR"
  cardAtrLength :: u32
  cardProtocol :: u32

section \<open>IFD handlers\<close>

record SCARD_IO_HEADER =
  ioProtocol :: DWORD
  ioLength :: DWORD

text \<open>
  \<^verbatim>\<open>FCT_MAP_V2\<close> and \<^verbatim>\<open>FCT_MAP_V3\<close> agree on their first eight members; the two \<^verbatim>\<open>pvfControl\<close>
  of the union have different types and are two members here. Output buffers are results:
  a driver function returns its code, what it wrote, and the new driver state.
\<close>

record 'd FCT_MAP =
  pvfCreateChannel :: "(int \<Rightarrow> int \<Rightarrow> 'd \<Rightarrow> RESPONSECODE \<times> 'd) option"
  pvfCloseChannel :: "(int \<Rightarrow> 'd \<Rightarrow> RESPONSECODE \<times> 'd) option"
  pvfGetCapabilities :: "(int \<Rightarrow> DWORD \<Rightarrow> DWORD \<Rightarrow> 'd \<Rightarrow> (RESPONSECODE \<times> DWORD \<times> bytes) \<times> 'd) option"
  pvfSetCapabilities :: "(int \<Rightarrow> DWORD \<Rightarrow> bytes \<Rightarrow> 'd \<Rightarrow> RESPONSECODE \<times> 'd) option"
  pvfSetProtocolParameters ::
    "(int \<Rightarrow> DWORD \<Rightarrow> UCHAR \<Rightarrow> UCHAR \<Rightarrow> UCHAR \<Rightarrow> UCHAR \<Rightarrow> 'd \<Rightarrow> RESPONSECODE \<times> 'd) option"
  pvfPowerICC :: "(int \<Rightarrow> DWORD \<Rightarrow> bytes \<Rightarrow> DWORD \<Rightarrow> 'd \<Rightarrow> (RESPONSECODE \<times> bytes \<times> DWORD) \<times> 'd) option"
  pvfTransmitToICC ::
    "(int \<Rightarrow> SCARD_IO_HEADER \<Rightarrow> bytes \<Rightarrow> DWORD \<Rightarrow> SCARD_IO_HEADER \<Rightarrow> 'd \<Rightarrow>
      (RESPONSECODE \<times> bytes \<times> DWORD \<times> SCARD_IO_HEADER) \<times> 'd) option"
  pvfICCPresence :: "(int \<Rightarrow> 'd \<Rightarrow> RESPONSECODE \<times> 'd) option"
  pvfControl_v2 :: "(int \<Rightarrow> bytes \<Rightarrow> DWORD \<Rightarrow> 'd \<Rightarrow> (RESPONSECODE \<times> bytes \<times> DWORD) \<times> 'd) option"
  pvfControl_v3 ::
    "(int \<Rightarrow> DWORD \<Rightarrow> bytes \<Rightarrow> DWORD \<Rightarrow> DWORD \<Rightarrow> 'd \<Rightarrow> (RESPONSECODE \<times> bytes \<times> DWORD) \<times> 'd) option"
  pvfCreateChannelByName :: "(int \<Rightarrow> string \<Rightarrow> 'd \<Rightarrow> RESPONSECODE \<times> 'd) option"

definition fct_map_null :: "'d FCT_MAP" where
  "fct_map_null = \<lparr>pvfCreateChannel = None, pvfCloseChannel = None, pvfGetCapabilities = None,
     pvfSetCapabilities = None, pvfSetProtocolParameters = None, pvfPowerICC = None,
     pvfTransmitToICC = None, pvfICCPresence = None, pvfControl_v2 = None,
     pvfControl_v3 = None, pvfCreateChannelByName = None\<rparr>"

text \<open>
  What \<^verbatim>\<open>dlsym\<close> finds in a library, and the functions at the addresses the driver hands
  out: \<open>callable\<close> takes the bytes of the pointer and the arguments (slot, timeout).
\<close>

record 'd ifd_library =
  symbols :: "'d FCT_MAP"
  callable :: "bytes \<Rightarrow> int \<Rightarrow> int \<Rightarrow> 'd \<Rightarrow> RESPONSECODE \<times> 'd"

section \<open>Readers\<close>

record 'd READER_CONTEXT =
  library :: string
  device :: string
  pthThread :: bool
  pthCardEvent :: "bytes option"
  mMutex :: "nat option"
  handlesList :: "RDR_CLIHANDLES list_t"
  psFunctions :: "'d FCT_MAP"
  vHandle :: "string option"
  version :: int
  port :: int
  slot :: int
  hLockId :: SCARDHANDLE
  LockCount :: int
  contexts :: int
  pFeeds :: "nat option"
  pMutex :: "nat option"
  powerState :: power_state
  reference :: int
  readerState :: READER_STATE

text \<open>The handles of the clients connected to a reader.\<close>

definition handles :: "'d READER_CONTEXT \<Rightarrow> SCARDHANDLE list" where
  "handles r = map hCard (entries (handlesList r))"

section \<open>The daemon\<close>

text \<open>
  The part of the world a driver call can change: the driver's own state, the hotplug
  signals sent to the daemon (\<^verbatim>\<open>SendHotplugSignal\<close>), and \<open>fault\<close>, which records that a
  \<^verbatim>\<open>NULL\<close> pointer was called or dereferenced, an array was accessed out of its bounds, or a
  loop made no progress (the model then continues with an error code or the old value).
\<close>

record 'd ifd_env =
  driver :: 'd
  hotplugSignals :: nat
  fault :: bool

record 'd pcscd =
  sReadersContexts :: "'d READER_CONTEXT list"
  intCells :: "nat \<Rightarrow> int"
  freshAddr :: nat
  maxReaderHandles :: int
  ReaderEvents :: int
  ClientsWaitingForEvent :: "int list_t"
  signalled :: "(int \<times> LONG) list"
  ifd :: "'d ifd_env"
  memOk :: bool
  threadOk :: bool
  randoms :: "int list"
  dynlib :: "string \<Rightarrow> 'd ifd_library option"
  getenv :: "string \<Rightarrow> string option"
  dlclosed :: "string list"

text \<open>
  \<open>signalled\<close> lists the (file descriptor, rv) pairs of the \<^verbatim>\<open>wait_reader_state_change\<close>
  messages sent to clients; \<open>memOk\<close> and \<open>threadOk\<close> say whether \<^verbatim>\<open>malloc\<close> and
  \<^verbatim>\<open>ThreadCreate\<close> succeed; \<open>randoms\<close> are the values \<^verbatim>\<open>SYS_RandomInt\<close> will return;
  \<open>dynlib\<close> is the dynamic loader, \<open>getenv\<close> the environment, and \<open>dlclosed\<close> lists the
  libraries closed by \<^verbatim>\<open>dlclose\<close>.
  \<^verbatim>\<open>pcsclite_max_reader_context\<close> is the length of \<open>sReadersContexts\<close>.
\<close>

abbreviation pcsclite_max_reader_context :: "'d pcscd \<Rightarrow> nat" where
  "pcsclite_max_reader_context w \<equiv> length (sReadersContexts w)"

definition rdr :: "'d pcscd \<Rightarrow> nat \<Rightarrow> 'd READER_CONTEXT" where
  "rdr w i = sReadersContexts w ! i"

definition set_rdr :: "nat \<Rightarrow> 'd READER_CONTEXT \<Rightarrow> 'd pcscd \<Rightarrow> 'd pcscd" where
  "set_rdr i r w = w\<lparr>sReadersContexts := (sReadersContexts w)[i := r]\<rparr>"

definition upd_rdr :: "nat \<Rightarrow> ('d READER_CONTEXT \<Rightarrow> 'd READER_CONTEXT) \<Rightarrow> 'd pcscd \<Rightarrow> 'd pcscd" where
  "upd_rdr i f w = set_rdr i (f (rdr w i)) w"

text \<open>Assignments to members of the public state of a reader.\<close>

definition upd_state :: "(READER_STATE \<Rightarrow> READER_STATE) \<Rightarrow> 'd READER_CONTEXT \<Rightarrow> 'd READER_CONTEXT" where
  "upd_state f r = r\<lparr>readerState := f (readerState r)\<rparr>"

lemma rdr_set_rdr [simp]:
  "i < length (sReadersContexts w) \<Longrightarrow> rdr (set_rdr i r w) j = (if i = j then r else rdr w j)"
  by (simp add: rdr_def set_rdr_def nth_list_update)

lemma length_set_rdr [simp]: "length (sReadersContexts (set_rdr i r w)) = length (sReadersContexts w)"
  by (simp add: set_rdr_def)

lemma set_rdr_frame [simp]:
  "intCells (set_rdr i r w) = intCells w" "freshAddr (set_rdr i r w) = freshAddr w"
  "maxReaderHandles (set_rdr i r w) = maxReaderHandles w" "ReaderEvents (set_rdr i r w) = ReaderEvents w"
  "ClientsWaitingForEvent (set_rdr i r w) = ClientsWaitingForEvent w"
  "signalled (set_rdr i r w) = signalled w" "ifd (set_rdr i r w) = ifd w"
  "memOk (set_rdr i r w) = memOk w" "threadOk (set_rdr i r w) = threadOk w"
  "randoms (set_rdr i r w) = randoms w" "dynlib (set_rdr i r w) = dynlib w"
  "getenv (set_rdr i r w) = getenv w" "dlclosed (set_rdr i r w) = dlclosed w"
  by (simp_all add: set_rdr_def)

lemma rdr_frame [simp]:
  "rdr (w\<lparr>intCells := a\<rparr>) i = rdr w i" "rdr (w\<lparr>freshAddr := b\<rparr>) i = rdr w i"
  "rdr (w\<lparr>ReaderEvents := c\<rparr>) i = rdr w i" "rdr (w\<lparr>ClientsWaitingForEvent := d\<rparr>) i = rdr w i"
  "rdr (w\<lparr>signalled := e\<rparr>) i = rdr w i" "rdr (w\<lparr>ifd := f\<rparr>) i = rdr w i"
  "rdr (w\<lparr>randoms := g\<rparr>) i = rdr w i" "rdr (w\<lparr>dlclosed := h\<rparr>) i = rdr w i"
  by (simp_all add: rdr_def)

lemma upd_state_frame [simp]:
  "handlesList (upd_state f r) = handlesList r" "contexts (upd_state f r) = contexts r"
  "hLockId (upd_state f r) = hLockId r" "LockCount (upd_state f r) = LockCount r"
  "vHandle (upd_state f r) = vHandle r" "reference (upd_state f r) = reference r"
  "powerState (upd_state f r) = powerState r" "version (upd_state f r) = version r"
  "slot (upd_state f r) = slot r" "psFunctions (upd_state f r) = psFunctions r"
  "handles (upd_state f r) = handles r" "pFeeds (upd_state f r) = pFeeds r"
  "pMutex (upd_state f r) = pMutex r" "readerState (upd_state f r) = f (readerState r)"
  by (simp_all add: upd_state_def handles_def)

end
