(* ===== verification/Ifdwrapper.thy ===== *)
theory Ifdwrapper
  imports Reader_Types
begin

text \<open>
  The wrappers of \<^verbatim>\<open>src/src/ifdwrapper.c\<close> around the functions of a reader driver (dynamic
  drivers: \<^verbatim>\<open>PCSCLITE_STATIC_DRIVER\<close> is not defined). Each takes the reader it is called
  on, reads only its slot, port, device, version and function pointers, and changes only
  the driver environment \<open>ifd_env\<close>; the frame of every wrapper is therefore in its type.
  Mutexes are not part of the state: the daemon is modelled one call at a time. The one
  place where the wrapper itself reacts to a busy mutex, \<^verbatim>\<open>IFDCloseIFD\<close>, takes the outcomes
  of \<^verbatim>\<open>pthread_mutex_trylock\<close> as an argument.
\<close>

section \<open>The wrappers\<close>

definition null_call :: "'a \<Rightarrow> 'd ifd_env \<Rightarrow> 'a \<times> 'd ifd_env" where
  "null_call x e = (x, e\<lparr>fault := True\<rparr>)"

text \<open>Running a driver function on the driver's state.\<close>

definition drv_call :: "('d \<Rightarrow> 'a \<times> 'd) \<Rightarrow> 'd ifd_env \<Rightarrow> 'a \<times> 'd ifd_env" where
  "drv_call f e = (case f (driver e) of (x, d) \<Rightarrow> (x, e\<lparr>driver := d\<rparr>))"

definition SendHotplugSignal :: "'d ifd_env \<Rightarrow> 'd ifd_env" where
  "SendHotplugSignal e = e\<lparr>hotplugSignals := hotplugSignals e + 1\<rparr>"

definition IFDSetPTS ::
  "'d READER_CONTEXT \<Rightarrow> DWORD \<Rightarrow> UCHAR \<Rightarrow> UCHAR \<Rightarrow> UCHAR \<Rightarrow> UCHAR \<Rightarrow> 'd ifd_env \<Rightarrow>
     RESPONSECODE \<times> 'd ifd_env" where
  "IFDSetPTS rContext dwProtocol ucFlags ucPTS1 ucPTS2 ucPTS3 e =
     (case pvfSetProtocolParameters (psFunctions rContext) of
        None \<Rightarrow> (SCARD_E_UNSUPPORTED_FEATURE, e)
      | Some f \<Rightarrow> drv_call (f (slot rContext) dwProtocol ucFlags ucPTS1 ucPTS2 ucPTS3) e)"

definition IFDOpenIFD :: "'d READER_CONTEXT \<Rightarrow> 'd ifd_env \<Rightarrow> RESPONSECODE \<times> 'd ifd_env" where
  "IFDOpenIFD rContext e =
     (let create_channel = pvfCreateChannel (psFunctions rContext);
          create_channel_by_name = (if version rContext = IFD_HVERSION_2_0 then None
            else pvfCreateChannelByName (psFunctions rContext));
          by_port = (case create_channel of
              None \<Rightarrow> null_call IFD_COMMUNICATION_ERROR e
            | Some f \<Rightarrow> drv_call (f (slot rContext) (port rContext)) e)
      in case create_channel_by_name of
          None \<Rightarrow> by_port
        | Some f \<Rightarrow>
            if device rContext \<noteq> [] then drv_call (f (slot rContext) (device rContext)) e
            else by_port)"

text \<open>
  \<open>close_lock trylock n repeat\<close> is the \<^verbatim>\<open>again\<close> loop from its \<open>n\<close>-th attempt:
  \<open>trylock n\<close> says whether that attempt returns \<^verbatim>\<open>EBUSY\<close>. The result is \<^verbatim>\<open>do_unlock\<close>
  and the number of attempts made.
\<close>

fun close_lock :: "(nat \<Rightarrow> bool) \<Rightarrow> nat \<Rightarrow> nat \<Rightarrow> bool \<times> nat" where
  "close_lock trylock n 0 = (False, n)"
| "close_lock trylock n (Suc repeat) =
     (if \<not> trylock n then (True, n + 1)
      else if repeat \<noteq> 0 then close_lock trylock (n + 1) repeat
      else (False, n + 1))"

definition IFDCloseIFD ::
  "'d READER_CONTEXT \<Rightarrow> (nat \<Rightarrow> bool) \<Rightarrow> 'd ifd_env \<Rightarrow> (RESPONSECODE \<times> bool) \<times> 'd ifd_env" where
  "IFDCloseIFD rContext trylock e =
     (let do_unlock = fst (close_lock trylock 0 5) in
      case pvfCloseChannel (psFunctions rContext) of
        None \<Rightarrow> null_call (IFD_COMMUNICATION_ERROR, do_unlock) e
      | Some f \<Rightarrow> (case drv_call (f (slot rContext)) e of (rv, e') \<Rightarrow> ((rv, do_unlock), e')))"

definition IFDSetCapabilities ::
  "'d READER_CONTEXT \<Rightarrow> DWORD \<Rightarrow> bytes \<Rightarrow> 'd ifd_env \<Rightarrow> RESPONSECODE \<times> 'd ifd_env" where
  "IFDSetCapabilities rContext dwTag pucValue e =
     (case pvfSetCapabilities (psFunctions rContext) of
        None \<Rightarrow> null_call IFD_COMMUNICATION_ERROR e
      | Some f \<Rightarrow> drv_call (f (slot rContext) dwTag pucValue) e)"

definition IFDGetCapabilities ::
  "'d READER_CONTEXT \<Rightarrow> DWORD \<Rightarrow> DWORD \<Rightarrow> 'd ifd_env \<Rightarrow> (RESPONSECODE \<times> DWORD \<times> bytes) \<times> 'd ifd_env" where
  "IFDGetCapabilities rContext dwTag dwLength e =
     (case pvfGetCapabilities (psFunctions rContext) of
        None \<Rightarrow> null_call (IFD_COMMUNICATION_ERROR, dwLength, []) e
      | Some f \<Rightarrow> drv_call (f (slot rContext) dwTag dwLength) e)"

definition IFDStatusICC :: "'d READER_CONTEXT \<Rightarrow> 'd ifd_env \<Rightarrow> (LONG \<times> DWORD) \<times> 'd ifd_env" where
  "IFDStatusICC rContext e =
     (case (case pvfICCPresence (psFunctions rContext) of
              None \<Rightarrow> null_call IFD_COMMUNICATION_ERROR e
            | Some f \<Rightarrow> drv_call (f (slot rContext)) e) of
        (rv, e) \<Rightarrow>
          if rv = IFD_SUCCESS \<or> rv = IFD_ICC_PRESENT then ((SCARD_S_SUCCESS, SCARD_PRESENT), e)
          else if rv = IFD_ICC_NOT_PRESENT then ((SCARD_S_SUCCESS, SCARD_ABSENT), e)
          else if rv = IFD_NO_SUCH_DEVICE
            then ((SCARD_E_READER_UNAVAILABLE, SCARD_UNKNOWN), SendHotplugSignal e)
          else ((SCARD_E_NOT_TRANSACTED, SCARD_UNKNOWN), e))"

text \<open>
  \<open>pucAtr\<close> and \<open>atrLen\<close> are the caller's buffer and length on entry; the result has
  their values on return. A caller that passes \<^verbatim>\<open>NULL\<close> ignores them.
\<close>

definition IFDPowerICC ::
  "'d READER_CONTEXT \<Rightarrow> DWORD \<Rightarrow> bytes \<Rightarrow> DWORD \<Rightarrow> 'd ifd_env \<Rightarrow>
     (RESPONSECODE \<times> bytes \<times> DWORD) \<times> 'd ifd_env" where
  "IFDPowerICC rContext dwAction pucAtr atrLen e =
     (case IFDStatusICC rContext e of ((rv, dwStatus), e) \<Rightarrow>
        if rv \<noteq> SCARD_S_SUCCESS then ((rv, pucAtr, atrLen), e)
        else if dwStatus AND SCARD_ABSENT \<noteq> 0 then ((SCARD_W_REMOVED_CARD, pucAtr, atrLen), e)
        else
          case (case pvfPowerICC (psFunctions rContext) of
                  None \<Rightarrow> null_call (IFD_COMMUNICATION_ERROR, pucAtr, atrLen) e
                | Some f \<Rightarrow> drv_call (f (slot rContext) dwAction pucAtr atrLen) e) of
            ((rv, atr, len), e) \<Rightarrow>
              if rv \<noteq> IFD_SUCCESS then
                (if rv = IFD_NO_SUCH_DEVICE
                 then ((SCARD_E_READER_UNAVAILABLE, atr[0 := 0], 0), SendHotplugSignal e)
                 else ((SCARD_E_NOT_TRANSACTED, atr[0 := 0], 0), e))
              else ((rv, atr, len), e))"

definition IFDControl_v2 ::
  "'d READER_CONTEXT \<Rightarrow> bytes \<Rightarrow> DWORD \<Rightarrow> 'd ifd_env \<Rightarrow> (LONG \<times> bytes \<times> DWORD) \<times> 'd ifd_env" where
  "IFDControl_v2 rContext TxBuffer RxLength e =
     (if version rContext \<noteq> IFD_HVERSION_2_0 then ((SCARD_E_UNSUPPORTED_FEATURE, [], RxLength), e)
      else
        case (case pvfControl_v2 (psFunctions rContext) of
                None \<Rightarrow> null_call (IFD_COMMUNICATION_ERROR, [], RxLength) e
              | Some f \<Rightarrow> drv_call (f (slot rContext) TxBuffer RxLength) e) of
          ((rv, rx, len), e) \<Rightarrow>
            if rv = IFD_SUCCESS then ((SCARD_S_SUCCESS, rx, len), e)
            else ((SCARD_E_NOT_TRANSACTED, rx, len), e))"

text \<open>The error codes of a version 3.0 control call.\<close>

definition control_status :: "RESPONSECODE \<Rightarrow> LONG" where
  "control_status rv =
     (if rv = IFD_SUCCESS then SCARD_S_SUCCESS
      else if rv = IFD_NO_SUCH_DEVICE then SCARD_E_READER_UNAVAILABLE
      else if rv = IFD_ERROR_NOT_SUPPORTED \<or> rv = IFD_NOT_SUPPORTED then SCARD_E_UNSUPPORTED_FEATURE
      else if rv = IFD_ERROR_INSUFFICIENT_BUFFER then SCARD_E_INSUFFICIENT_BUFFER
      else SCARD_E_NOT_TRANSACTED)"

definition IFDControl ::
  "'d READER_CONTEXT \<Rightarrow> DWORD \<Rightarrow> bytes \<Rightarrow> DWORD \<Rightarrow> DWORD \<Rightarrow> 'd ifd_env \<Rightarrow>
     (LONG \<times> bytes \<times> DWORD) \<times> 'd ifd_env" where
  "IFDControl rContext ControlCode TxBuffer RxLength BytesReturned e =
     (if version rContext < IFD_HVERSION_3_0
      then ((SCARD_E_UNSUPPORTED_FEATURE, [], BytesReturned), e)
      else
        case (case pvfControl_v3 (psFunctions rContext) of
                None \<Rightarrow> null_call (IFD_COMMUNICATION_ERROR, [], BytesReturned) e
              | Some f \<Rightarrow> drv_call (f (slot rContext) ControlCode TxBuffer RxLength BytesReturned) e) of
          ((rv, rx, len), e) \<Rightarrow>
            ((control_status rv, rx, len),
             if rv = IFD_NO_SUCH_DEVICE then SendHotplugSignal e else e))"

definition transmit_status :: "RESPONSECODE \<Rightarrow> LONG" where
  "transmit_status rv =
     (if rv = IFD_SUCCESS then SCARD_S_SUCCESS
      else if rv = IFD_NO_SUCH_DEVICE then SCARD_E_READER_UNAVAILABLE
      else if rv = IFD_ICC_NOT_PRESENT then SCARD_E_NO_SMARTCARD
      else SCARD_E_NOT_TRANSACTED)"

definition IFDTransmit ::
  "'d READER_CONTEXT \<Rightarrow> SCARD_IO_HEADER \<Rightarrow> bytes \<Rightarrow> DWORD \<Rightarrow> SCARD_IO_HEADER \<Rightarrow> 'd ifd_env \<Rightarrow>
     (LONG \<times> bytes \<times> DWORD \<times> SCARD_IO_HEADER) \<times> 'd ifd_env" where
  "IFDTransmit rContext pioTxPci pucTxBuffer rxLength pioRxPci e =
     (case (case pvfTransmitToICC (psFunctions rContext) of
              None \<Rightarrow> null_call (IFD_COMMUNICATION_ERROR, [], rxLength, pioRxPci) e
            | Some f \<Rightarrow> drv_call (f (slot rContext) pioTxPci pucTxBuffer rxLength pioRxPci) e) of
        ((rv, rx, len, rxPci), e) \<Rightarrow>
          ((transmit_status rv, rx, len, rxPci),
           if rv = IFD_NO_SUCH_DEVICE then SendHotplugSignal e else e))"

section \<open>What the wrappers promise\<close>

lemma IFDStatusICC_cases:
  assumes "IFDStatusICC r e = ((rv, st), e')"
  shows "(rv = SCARD_S_SUCCESS \<and> (st = SCARD_PRESENT \<or> st = SCARD_ABSENT)) \<or>
    (rv \<in> {SCARD_E_READER_UNAVAILABLE, SCARD_E_NOT_TRANSACTED} \<and> st = SCARD_UNKNOWN)"
  using assms by (auto simp: IFDStatusICC_def split: prod.splits if_splits)

lemma IFDPowerICC_codes:
  assumes "IFDPowerICC r a atr len e = ((rv, atr', len'), e')"
  shows "rv \<in> {IFD_SUCCESS, SCARD_W_REMOVED_CARD, SCARD_E_READER_UNAVAILABLE, SCARD_E_NOT_TRANSACTED}"
  using assms
  by (auto simp: IFDPowerICC_def split: prod.splits if_splits dest: IFDStatusICC_cases)

text \<open>The retry loop makes at least one and at most five attempts.\<close>

lemma close_lock_attempts:
  "0 < k \<Longrightarrow> n < snd (close_lock t n k) \<and> snd (close_lock t n k) \<le> n + k \<and>
    fst (close_lock t n k) = (\<exists>j. n \<le> j \<and> j < n + k \<and> \<not> t j)"
proof (induction t n k rule: close_lock.induct)
  case (1 t n)
  then show ?case by simp
next
  case (2 t n k)
  show ?case
  proof (cases "t n \<and> k \<noteq> 0")
    case True
    have "(\<exists>j. n \<le> j \<and> j < n + Suc k \<and> \<not> t j) = (\<exists>j. Suc n \<le> j \<and> j < Suc n + k \<and> \<not> t j)"
      using True by (metis Suc_leI add_Suc add_Suc_right le_neq_implies_less less_imp_le_nat Suc_le_eq)
    with 2 True show ?thesis by auto
  next
    case False
    then show ?thesis by (auto simp: le_less_Suc_eq intro: exI [of _ n])
  qed
qed

lemma transmit_status_success: "transmit_status rv = SCARD_S_SUCCESS \<longleftrightarrow> rv = IFD_SUCCESS"
  by (simp add: transmit_status_def)

lemma control_status_success: "control_status rv = SCARD_S_SUCCESS \<longleftrightarrow> rv = IFD_SUCCESS"
  by (simp add: control_status_def)

end
