(* ===== verification/Lock_Spec.thy ===== *)
theory Lock_Spec
  imports Pcsc_Prelude
begin

text \<open>
  The contract of the transaction lock of a reader, apart from its implementation: a
  re-entrant lock that is free or held by one card handle some number of times. The locale
  \<open>reentrant_lock\<close> is the interface the API functions rely on; what holds of every
  implementation (balanced nesting, mutual exclusion over any interleaving of requests) is
  proved in it once.
\<close>

datatype lock_view = Free | Held SCARDHANDLE nat

fun depth :: "lock_view \<Rightarrow> nat" where
  "depth Free = 0"
| "depth (Held h n) = n"

fun may_enter :: "SCARDHANDLE \<Rightarrow> lock_view \<Rightarrow> bool" where
  "may_enter h Free = True"
| "may_enter h (Held k n) = (k = h)"

definition spec_lock :: "SCARDHANDLE \<Rightarrow> lock_view \<Rightarrow> LONG \<times> lock_view" where
  "spec_lock h v = (if may_enter h v then (SCARD_S_SUCCESS, Held h (depth v + 1))
     else (SCARD_E_SHARING_VIOLATION, v))"

definition spec_unlock :: "SCARDHANDLE \<Rightarrow> lock_view \<Rightarrow> LONG \<times> lock_view" where
  "spec_unlock h v =
     (if \<not> may_enter h v then (SCARD_E_SHARING_VIOLATION, v)
      else if depth v = 0 then (SCARD_E_NOT_TRANSACTED, v)
      else (SCARD_S_SUCCESS, if depth v = 1 then Free else Held h (depth v - 1)))"

definition spec_unlock_all :: "SCARDHANDLE \<Rightarrow> lock_view \<Rightarrow> LONG \<times> lock_view" where
  "spec_unlock_all h v =
     (if may_enter h v then (SCARD_S_SUCCESS, Free) else (SCARD_E_SHARING_VIOLATION, v))"

text \<open>A lock that nobody or the caller holds.\<close>

lemma may_enter_cases: "may_enter h v \<longleftrightarrow> v = Free \<or> (\<exists>n. v = Held h n)"
  by (cases v) auto

section \<open>Requests of several clients\<close>

datatype request = Lock SCARDHANDLE | Unlock SCARDHANDLE

fun requester :: "request \<Rightarrow> SCARDHANDLE" where
  "requester (Lock h) = h"
| "requester (Unlock h) = h"

fun serve :: "(SCARDHANDLE \<Rightarrow> 's \<Rightarrow> LONG \<times> 's) \<Rightarrow> (SCARDHANDLE \<Rightarrow> 's \<Rightarrow> LONG \<times> 's) \<Rightarrow>
    request \<Rightarrow> 's \<Rightarrow> LONG \<times> 's" where
  "serve lock unlock (Lock h) s = lock h s"
| "serve lock unlock (Unlock h) s = unlock h s"

text \<open>Serving requests in order: each request with its answer, and the final state.\<close>

fun serve_all :: "(SCARDHANDLE \<Rightarrow> 's \<Rightarrow> LONG \<times> 's) \<Rightarrow> (SCARDHANDLE \<Rightarrow> 's \<Rightarrow> LONG \<times> 's) \<Rightarrow>
    request list \<Rightarrow> 's \<Rightarrow> (request \<times> LONG) list \<times> 's" where
  "serve_all lock unlock [] s = ([], s)"
| "serve_all lock unlock (q # qs) s =
     (case serve lock unlock q s of (rv, s') \<Rightarrow>
        case serve_all lock unlock qs s' of (log, s'') \<Rightarrow> ((q, rv) # log, s''))"

text \<open>
  \<open>keeps h n qs\<close>: starting with \<open>n\<close> acquisitions, \<open>h\<close> never releases its last one
  while \<open>qs\<close> are served.
\<close>

fun keeps :: "SCARDHANDLE \<Rightarrow> nat \<Rightarrow> request list \<Rightarrow> bool" where
  "keeps h n [] = (0 < n)"
| "keeps h n (Lock k # qs) = (0 < n \<and> keeps h (if k = h then n + 1 else n) qs)"
| "keeps h n (Unlock k # qs) = (0 < n \<and> keeps h (if k = h then n - 1 else n) qs)"

lemma keeps_pos: "keeps h n qs \<Longrightarrow> 0 < n"
  by (cases qs; simp; cases "hd qs"; simp)

section \<open>The interface\<close>

locale reentrant_lock =
  fixes lock unlock :: "SCARDHANDLE \<Rightarrow> 's \<Rightarrow> LONG \<times> 's"
    and view :: "'s \<Rightarrow> lock_view"
    and ok :: "'s \<Rightarrow> bool"
    and cap :: nat
  assumes lock_refines: "ok s \<Longrightarrow> h \<noteq> 0 \<Longrightarrow> depth (view s) < cap \<Longrightarrow>
      ok (snd (lock h s)) \<and> (fst (lock h s), view (snd (lock h s))) = spec_lock h (view s)"
    and unlock_refines: "ok s \<Longrightarrow> h \<noteq> 0 \<Longrightarrow>
      ok (snd (unlock h s)) \<and> (fst (unlock h s), view (snd (unlock h s))) = spec_unlock h (view s)"
begin

lemma serve_refines:
  assumes "ok s" "requester q \<noteq> 0" "depth (view s) < cap"
  shows "ok (snd (serve lock unlock q s))"
    and "fst (serve lock unlock q s) = fst (serve spec_lock spec_unlock q (view s))"
    and "view (snd (serve lock unlock q s)) = snd (serve spec_lock spec_unlock q (view s))"
proof (atomize (full), cases q)
  case (Lock h)
  with assms lock_refines [of s h] show "ok (snd (serve lock unlock q s)) \<and>
      fst (serve lock unlock q s) = fst (serve spec_lock spec_unlock q (view s)) \<and>
      view (snd (serve lock unlock q s)) = snd (serve spec_lock spec_unlock q (view s))"
    by (auto simp: prod_eq_iff)
next
  case (Unlock h)
  with assms unlock_refines [of s h] show "ok (snd (serve lock unlock q s)) \<and>
      fst (serve lock unlock q s) = fst (serve spec_lock spec_unlock q (view s)) \<and>
      view (snd (serve lock unlock q s)) = snd (serve spec_lock spec_unlock q (view s))"
    by (auto simp: prod_eq_iff)
qed

lemma depth_serve: "depth (snd (serve spec_lock spec_unlock q v)) \<le> Suc (depth v)"
  by (cases q) (auto simp: spec_lock_def spec_unlock_def)

text \<open>Any sequence of requests gets the answers of the specification.\<close>

lemma serve_all_refines:
  assumes "ok s" "\<forall>q \<in> set qs. requester q \<noteq> 0" "depth (view s) + length qs \<le> cap"
  shows "ok (snd (serve_all lock unlock qs s)) \<and>
    fst (serve_all lock unlock qs s) = fst (serve_all spec_lock spec_unlock qs (view s)) \<and>
    view (snd (serve_all lock unlock qs s)) = snd (serve_all spec_lock spec_unlock qs (view s))"
  using assms
proof (induction qs arbitrary: s)
  case Nil
  then show ?case by simp
next
  case (Cons q qs)
  let ?s = "snd (serve lock unlock q s)"
  have q: "requester q \<noteq> 0" "depth (view s) < cap" using Cons.prems by auto
  note r = serve_refines [OF Cons.prems(1) q]
  have "depth (view ?s) + length qs \<le> cap"
    using r(3) depth_serve [of q "view s"] Cons.prems(3) by simp
  with Cons.IH [of ?s] r Cons.prems show ?case
    by (simp add: split_beta)
qed

end

section \<open>Mutual exclusion\<close>

text \<open>While \<open>h\<close> keeps the lock, every request of another handle is refused.\<close>

lemma spec_exclusion:
  assumes "keeps h n qs" "(q, rv) \<in> set (fst (serve_all spec_lock spec_unlock qs (Held h n)))"
    and "requester q \<noteq> h"
  shows "rv = SCARD_E_SHARING_VIOLATION"
  using assms
proof (induction h n qs rule: keeps.induct)
  case (1 h n)
  then show ?case by simp
next
  case (2 h n k qs)
  then show ?case
    by (cases "k = h") (auto simp: spec_lock_def split_beta)
next
  case (3 h n k qs)
  then have "n - 1 \<noteq> 0" if "k = h" using that keeps_pos [of h "n - 1" qs] by auto
  with 3 show ?case
    by (cases "k = h") (auto simp: spec_unlock_def split_beta split: if_splits)
qed

context reentrant_lock
begin

lemma exclusion:
  assumes "ok s" "view s = Held h n" "keeps h n qs" "\<forall>q \<in> set qs. requester q \<noteq> 0"
    and "n + length qs \<le> cap"
    and "(q, rv) \<in> set (fst (serve_all lock unlock qs s))" "requester q \<noteq> h"
  shows "rv = SCARD_E_SHARING_VIOLATION"
  using serve_all_refines [OF assms(1,4)] spec_exclusion [OF assms(3) _ assms(7)] assms
  by simp

text \<open>As many releases as acquisitions give the lock back.\<close>

lemma nested_lock:
  assumes "ok s" "h \<noteq> 0" "may_enter h (view s)" "depth (view s) + n \<le> cap"
  shows "ok (((\<lambda>t. snd (lock h t)) ^^ n) s) \<and>
    view (((\<lambda>t. snd (lock h t)) ^^ n) s) = (if n = 0 then view s else Held h (depth (view s) + n))"
  using assms
proof (induction n)
  case 0
  then show ?case by simp
next
  case (Suc n)
  let ?s = "((\<lambda>t. snd (lock h t)) ^^ n) s"
  from Suc have s: "ok ?s" "may_enter h (view ?s)" "depth (view ?s) = depth (view s) + n"
    by auto
  with lock_refines [of ?s h] Suc.prems show ?case
    by (simp add: spec_lock_def)
qed

lemma nested_unlock:
  assumes "ok s" "h \<noteq> 0" "view s = Held h (d + n)" "0 < d + n"
  shows "ok (((\<lambda>t. snd (unlock h t)) ^^ n) s) \<and>
    view (((\<lambda>t. snd (unlock h t)) ^^ n) s) = (if d = 0 then Free else Held h d)"
  using assms
proof (induction n arbitrary: s)
  case 0
  then show ?case by simp
next
  case (Suc n)
  let ?s = "snd (unlock h s)"
  have s: "ok ?s" "view ?s = (if d + n = 0 then Free else Held h (d + n))"
    using unlock_refines [of s h] Suc.prems by (auto simp: spec_unlock_def)
  show ?case
  proof (cases "d + n = 0")
    case True
    with s show ?thesis by simp
  next
    case False
    with s Suc.IH [of ?s] Suc.prems show ?thesis
      by (simp add: funpow_Suc_right del: funpow.simps)
  qed
qed

lemma balanced:
  assumes "ok s" "h \<noteq> 0" "may_enter h (view s)" "depth (view s) + n \<le> cap"
    and "\<And>k. view s = Held k 0 \<Longrightarrow> False"
  shows "view (((\<lambda>t. snd (unlock h t)) ^^ n) (((\<lambda>t. snd (lock h t)) ^^ n) s)) = view s"
proof (cases "n = 0")
  case True
  then show ?thesis by simp
next
  case False
  let ?s = "((\<lambda>t. snd (lock h t)) ^^ n) s"
  from nested_lock [OF assms(1-4)] False have "ok ?s" "view ?s = Held h (depth (view s) + n)"
    by auto
  with nested_unlock [of ?s h "depth (view s)" n] assms False show ?thesis
    by (cases "view s") auto
qed

end

end
