(* ===== verification/Reader_Sharing.thy ===== *)
theory Reader_Sharing
  imports Ifdwrapper Lock_Spec
begin

text \<open>
  The part of \<^verbatim>\<open>src/src/readerfactory.c\<close> that works on one reader: its transaction lock
  (\<^verbatim>\<open>RFCheckSharing\<close>, \<^verbatim>\<open>RFLockSharing\<close>, \<^verbatim>\<open>RFUnlockSharing\<close>, \<^verbatim>\<open>RFUnlockAllSharing\<close>), the list of
  the card handles of its clients, the events pending for each handle, and its power
  state. The abstract specification of the lock is a re-entrant lock with an owner; the
  refinement lemmas relate the pair \<^verbatim>\<open>(hLockId, LockCount)\<close> to it.
\<close>

section \<open>Operations\<close>

definition RefReader :: "'d READER_CONTEXT \<Rightarrow> LONG \<times> 'd READER_CONTEXT" where
  "RefReader sReader =
     (if reference sReader = 0 then (SCARD_E_READER_UNAVAILABLE, sReader)
      else (SCARD_S_SUCCESS, sReader\<lparr>reference := int32 (reference sReader + 1)\<rparr>))"

definition RFCheckSharing :: "SCARDHANDLE \<Rightarrow> 'd READER_CONTEXT \<Rightarrow> LONG" where
  "RFCheckSharing h rContext =
     (if hLockId rContext = 0 \<or> hLockId rContext = h then SCARD_S_SUCCESS
      else SCARD_E_SHARING_VIOLATION)"

definition RFLockSharing :: "SCARDHANDLE \<Rightarrow> 'd READER_CONTEXT \<Rightarrow> LONG \<times> 'd READER_CONTEXT" where
  "RFLockSharing h rContext =
     (let rv = RFCheckSharing h rContext in
      if rv = SCARD_S_SUCCESS
      then (rv, rContext\<lparr>LockCount := int32 (LockCount rContext + 1), hLockId := h\<rparr>)
      else (rv, rContext))"

definition RFUnlockSharing :: "SCARDHANDLE \<Rightarrow> 'd READER_CONTEXT \<Rightarrow> LONG \<times> 'd READER_CONTEXT" where
  "RFUnlockSharing h rContext =
     (let rv = RFCheckSharing h rContext in
      if rv = SCARD_S_SUCCESS then
        (if contexts rContext = PCSCLITE_SHARING_EXCLUSIVE_CONTEXT then
           (if LockCount rContext > 1
            then (rv, rContext\<lparr>LockCount := LockCount rContext - 1\<rparr>)
            else (SCARD_E_NOT_TRANSACTED, rContext))
         else
           (if LockCount rContext > 0 then
              (let r = rContext\<lparr>LockCount := LockCount rContext - 1\<rparr> in
               (rv, if LockCount r = 0 then r\<lparr>hLockId := 0\<rparr> else r))
            else (SCARD_E_NOT_TRANSACTED, rContext)))
      else (rv, rContext))"

definition RFUnlockAllSharing :: "SCARDHANDLE \<Rightarrow> 'd READER_CONTEXT \<Rightarrow> LONG \<times> 'd READER_CONTEXT" where
  "RFUnlockAllSharing h rContext =
     (let rv = RFCheckSharing h rContext in
      if rv = SCARD_S_SUCCESS then (rv, rContext\<lparr>LockCount := 0, hLockId := 0\<rparr>)
      else (rv, rContext))"

text \<open>
  \<open>mem\<close> says whether \<^verbatim>\<open>malloc\<close> succeeds, in this function and in \<^verbatim>\<open>list_append\<close>;
  \<open>maxHandles\<close> is the variable \<^verbatim>\<open>maxReaderHandles\<close>.
\<close>

definition RFAddReaderHandle ::
  "int \<Rightarrow> bool \<Rightarrow> SCARDHANDLE \<Rightarrow> 'd READER_CONTEXT \<Rightarrow> LONG \<times> 'd READER_CONTEXT" where
  "RFAddReaderHandle maxHandles mem h rContext =
     (if int (list_size (handlesList rContext)) \<ge> maxHandles then (SCARD_E_NO_MEMORY, rContext)
      else if \<not> mem then (SCARD_E_NO_MEMORY, rContext)
      else
        case list_append mem (handlesList rContext) \<lparr>hCard = h, dwEventStatus = 0\<rparr> of
          (lrv, l) \<Rightarrow>
            (if lrv < 0 then SCARD_E_NO_MEMORY else SCARD_S_SUCCESS, rContext\<lparr>handlesList := l\<rparr>))"

definition RFRemoveReaderHandle :: "SCARDHANDLE \<Rightarrow> 'd READER_CONTEXT \<Rightarrow> LONG \<times> 'd READER_CONTEXT" where
  "RFRemoveReaderHandle h rContext =
     (case list_seek (handlesList rContext) h of
        None \<Rightarrow> (SCARD_E_INVALID_HANDLE, rContext)
      | Some currentHandle \<Rightarrow>
          (SCARD_S_SUCCESS, rContext\<lparr>handlesList := snd (list_delete (handlesList rContext) currentHandle)\<rparr>))"

text \<open>The assignment through the pointer that \<^verbatim>\<open>list_get_at\<close> returned.\<close>

definition set_event_at :: "DWORD \<Rightarrow> nat \<Rightarrow> RDR_CLIHANDLES list_t \<Rightarrow> RDR_CLIHANDLES list_t" where
  "set_event_at dwEvent list_index l =
     (case list_get_at l list_index of
        None \<Rightarrow> l
      | Some currentHandle \<Rightarrow>
          l\<lparr>entries := (entries l)[list_index := currentHandle\<lparr>dwEventStatus := dwEvent\<rparr>]\<rparr>)"

definition RFSetReaderEventState :: "DWORD \<Rightarrow> 'd READER_CONTEXT \<Rightarrow> 'd READER_CONTEXT" where
  "RFSetReaderEventState dwEvent rContext =
     (let l = fold (set_event_at dwEvent) [0..<list_size (handlesList rContext)] (handlesList rContext);
          r = rContext\<lparr>handlesList := l\<rparr>
      in if dwEvent = SCARD_REMOVED then r\<lparr>hLockId := 0, LockCount := 0\<rparr> else r)"

definition event_status :: "DWORD \<Rightarrow> LONG" where
  "event_status ev =
     (if ev = 0 then SCARD_S_SUCCESS
      else if ev = SCARD_REMOVED then SCARD_W_REMOVED_CARD
      else if ev = SCARD_RESET then SCARD_W_RESET_CARD
      else SCARD_E_INVALID_VALUE)"

definition RFCheckReaderEventState :: "'d READER_CONTEXT \<Rightarrow> SCARDHANDLE \<Rightarrow> LONG" where
  "RFCheckReaderEventState rContext h =
     (case list_seek (handlesList rContext) h of
        None \<Rightarrow> SCARD_E_INVALID_HANDLE
      | Some currentHandle \<Rightarrow> event_status (dwEventStatus currentHandle))"

text \<open>Writing through the pointer \<^verbatim>\<open>list_seek\<close> found: the first element with that key.\<close>

fun update_first :: "('a \<Rightarrow> bool) \<Rightarrow> ('a \<Rightarrow> 'a) \<Rightarrow> 'a list \<Rightarrow> 'a list" where
  "update_first P f [] = []"
| "update_first P f (x # xs) = (if P x then f x # xs else x # update_first P f xs)"

definition RFClearReaderEventState :: "SCARDHANDLE \<Rightarrow> 'd READER_CONTEXT \<Rightarrow> LONG \<times> 'd READER_CONTEXT" where
  "RFClearReaderEventState h rContext =
     (case list_seek (handlesList rContext) h of
        None \<Rightarrow> (SCARD_E_INVALID_HANDLE, rContext)
      | Some currentHandle \<Rightarrow>
          (SCARD_S_SUCCESS,
           rContext\<lparr>handlesList := (handlesList rContext)
             \<lparr>entries := update_first (\<lambda>el. hCard el = h) (\<lambda>el. el\<lparr>dwEventStatus := 0\<rparr>)
                 (entries (handlesList rContext))\<rparr>\<rparr>))"

definition RFCheckReaderStatus :: "'d READER_CONTEXT \<Rightarrow> LONG" where
  "RFCheckReaderStatus rContext =
     (if rsState (readerState rContext) AND SCARD_UNKNOWN \<noteq> 0 then SCARD_E_READER_UNAVAILABLE
      else SCARD_S_SUCCESS)"

definition RFGetPowerState :: "'d READER_CONTEXT \<Rightarrow> power_state" where
  "RFGetPowerState rContext = powerState rContext"

definition RFSetPowerState :: "'d READER_CONTEXT \<Rightarrow> power_state \<Rightarrow> 'd READER_CONTEXT" where
  "RFSetPowerState rContext value = rContext\<lparr>powerState := value\<rparr>"

section \<open>The list of handles\<close>

text \<open>
  The handle list of a reader is a simclist with the seeker installed by \<^verbatim>\<open>RFAddReader\<close>
  and no comparator: it implements the keyed sequence interface.
\<close>

definition handles_ok :: "RDR_CLIHANDLES list_t \<Rightarrow> bool" where
  "handles_ok l = (list_ok l \<and> seeker l = Some RDR_CLIHANDLES_seeker)"

interpretation hl: keyed_sequence entries handles_ok list_append list_delete_at list_delete
  list_get_at list_size hCard list_seek
proof
  fix s :: "RDR_CLIHANDLES list_t" and x :: RDR_CLIHANDLES and n :: nat and m :: bool and k :: int
  assume "handles_ok s"
  then have ok: "list_ok s" and sk: "seeker s = Some RDR_CLIHANDLES_seeker"
    by (simp_all add: handles_ok_def)
  show "list_size s = length (entries s)"
    and "list_get_at s n = (if n < length (entries s) then Some (entries s ! n) else None)"
    and "fst (list_append True s x) = 1 \<and> entries (snd (list_append True s x)) = entries s @ [x]"
    and "entries (snd (list_delete s x)) = remove1 x (entries s)"
    by (simp_all add: simclist.size_of [OF ok] simclist.get_at [OF ok] simclist.append_ok [OF ok]
        simclist.delete_ok [OF ok])
  show "fst (list_append m s x) < 0 \<Longrightarrow> entries (snd (list_append m s x)) = entries s"
    by (rule simclist.append_fail [OF ok])
  show "handles_ok (snd (list_append m s x))"
    using simclist.inv_append [OF ok] sk by (simp add: handles_ok_def list_append_def)
  show "n < length (entries s) \<Longrightarrow> fst (list_delete_at s n) = 0 \<and>
      entries (snd (list_delete_at s n)) = remove_nth n (entries s)"
    by (rule simclist.delete_at_ok [OF ok])
  show "n < length (entries s) \<Longrightarrow> handles_ok (snd (list_delete_at s n))"
    using simclist.inv_delete_at [OF ok] sk by (simp add: handles_ok_def)
  show "handles_ok (snd (list_delete s x))"
    using simclist.inv_delete [OF ok] sk by (simp add: handles_ok_def)
  show "list_seek s k = find (\<lambda>x. hCard x = k) (entries s)"
    by (simp add: list_seek_def sk RDR_CLIHANDLES_seeker_def)
qed

lemma handles_ok_list [simp]: "handles_ok l \<Longrightarrow> list_size l = length (entries l)"
  by (rule hl.size_of)

section \<open>The lock refines its specification\<close>

definition lock_of :: "'d READER_CONTEXT \<Rightarrow> lock_view" where
  "lock_of r = (if hLockId r = 0 then Free else Held (hLockId r) (nat (LockCount r)))"

text \<open>
  The lock identifier is set exactly while the count is positive. The count is an
  \<^verbatim>\<open>int32_t\<close>.
\<close>

definition lock_ok :: "'d READER_CONTEXT \<Rightarrow> bool" where
  "lock_ok r = (0 \<le> LockCount r \<and> LockCount r < 2 ^ 31 \<and> (hLockId r = 0 \<longleftrightarrow> LockCount r = 0))"

lemma depth_lock_of: "lock_ok r \<Longrightarrow> depth (lock_of r) = nat (LockCount r)"
  by (auto simp: lock_of_def lock_ok_def)

lemma may_enter_lock_of: "may_enter h (lock_of r) \<longleftrightarrow> RFCheckSharing h r = SCARD_S_SUCCESS"
  by (simp add: lock_of_def RFCheckSharing_def)

lemma RFCheckSharing_codes:
  "RFCheckSharing h r = (if may_enter h (lock_of r) then SCARD_S_SUCCESS else SCARD_E_SHARING_VIOLATION)"
  by (simp add: lock_of_def RFCheckSharing_def)

lemma RFLockSharing_refines:
  assumes "lock_ok r" "h \<noteq> 0" "depth (lock_of r) < 2 ^ 31 - 1"
  shows "lock_ok (snd (RFLockSharing h r))"
    and "(fst (RFLockSharing h r), lock_of (snd (RFLockSharing h r))) = spec_lock h (lock_of r)"
proof -
  have c: "0 \<le> LockCount r" "LockCount r + 1 < 2 ^ 31"
    using assms depth_lock_of [of r] by (auto simp: lock_ok_def)
  then have i: "int32 (LockCount r + 1) = LockCount r + 1"
    by (intro int32_id) auto
  show "lock_ok (snd (RFLockSharing h r))"
    using assms c by (auto simp: RFLockSharing_def Let_def lock_ok_def i)
  show "(fst (RFLockSharing h r), lock_of (snd (RFLockSharing h r))) = spec_lock h (lock_of r)"
  proof (cases "may_enter h (lock_of r)")
    case True
    then have "RFCheckSharing h r = SCARD_S_SUCCESS"
      by (simp add: RFCheckSharing_codes)
    with True assms c depth_lock_of [OF assms(1)] show ?thesis
      by (simp add: RFLockSharing_def spec_lock_def i lock_of_def nat_add_distrib)
  next
    case False
    then have "RFCheckSharing h r = SCARD_E_SHARING_VIOLATION"
      by (simp add: RFCheckSharing_codes)
    with False show ?thesis
      by (simp add: RFLockSharing_def spec_lock_def)
  qed
qed

lemma RFUnlockSharing_refines:
  assumes "lock_ok r" "contexts r \<noteq> PCSCLITE_SHARING_EXCLUSIVE_CONTEXT" "h \<noteq> 0"
  shows "lock_ok (snd (RFUnlockSharing h r))"
    and "(fst (RFUnlockSharing h r), lock_of (snd (RFUnlockSharing h r))) = spec_unlock h (lock_of r)"
proof -
  show "lock_ok (snd (RFUnlockSharing h r))"
    using assms by (auto simp: RFUnlockSharing_def Let_def lock_ok_def)
  show "(fst (RFUnlockSharing h r), lock_of (snd (RFUnlockSharing h r))) = spec_unlock h (lock_of r)"
  proof (cases "may_enter h (lock_of r)")
    case True
    then have *: "RFCheckSharing h r = SCARD_S_SUCCESS"
      by (simp add: RFCheckSharing_codes)
    show ?thesis
    proof (cases "LockCount r > 0")
      case pos: True
      with assms * have h: "hLockId r = h" "h \<noteq> 0"
        by (auto simp: lock_ok_def RFCheckSharing_def split: if_splits)
      with True * assms pos depth_lock_of [OF assms(1)] show ?thesis
        by (auto simp: RFUnlockSharing_def spec_unlock_def lock_of_def Let_def nat_diff_distrib')
    next
      case False
      with True * assms depth_lock_of [OF assms(1)] show ?thesis
        by (simp add: RFUnlockSharing_def spec_unlock_def Let_def)
    qed
  next
    case False
    then have "RFCheckSharing h r = SCARD_E_SHARING_VIOLATION"
      by (simp add: RFCheckSharing_codes)
    with False show ?thesis
      by (simp add: RFUnlockSharing_def spec_unlock_def Let_def)
  qed
qed

lemma RFUnlockAllSharing_refines:
  "lock_ok (snd (RFUnlockAllSharing h r)) = lock_ok r \<or> lock_ok (snd (RFUnlockAllSharing h r))"
  "(fst (RFUnlockAllSharing h r), lock_of (snd (RFUnlockAllSharing h r))) = spec_unlock_all h (lock_of r)"
  by (auto simp: RFUnlockAllSharing_def Let_def spec_unlock_all_def RFCheckSharing_codes lock_of_def
      lock_ok_def)

lemma contexts_lock_ops [simp]:
  "contexts (snd (RFLockSharing h r)) = contexts r"
  "contexts (snd (RFUnlockSharing h r)) = contexts r"
  "contexts (snd (RFUnlockAllSharing h r)) = contexts r"
  by (auto simp: RFLockSharing_def RFUnlockSharing_def RFUnlockAllSharing_def Let_def)

lemma handlesList_lock_ops [simp]:
  "handlesList (snd (RFLockSharing h r)) = handlesList r"
  "handlesList (snd (RFUnlockSharing h r)) = handlesList r"
  "handlesList (snd (RFUnlockAllSharing h r)) = handlesList r"
  by (auto simp: RFLockSharing_def RFUnlockSharing_def RFUnlockAllSharing_def Let_def)

definition shared_lock_ok :: "'d READER_CONTEXT \<Rightarrow> bool" where
  "shared_lock_ok r = (lock_ok r \<and> contexts r \<noteq> PCSCLITE_SHARING_EXCLUSIVE_CONTEXT)"

interpretation rl: reentrant_lock RFLockSharing RFUnlockSharing lock_of shared_lock_ok "2 ^ 31 - 1"
proof
  fix s :: "'d READER_CONTEXT" and h :: SCARDHANDLE
  assume "shared_lock_ok s" and h: "h \<noteq> 0"
  then have s: "lock_ok s" "contexts s \<noteq> PCSCLITE_SHARING_EXCLUSIVE_CONTEXT"
    by (auto simp: shared_lock_ok_def)
  show "shared_lock_ok (snd (RFLockSharing h s)) \<and>
      (fst (RFLockSharing h s), lock_of (snd (RFLockSharing h s))) = spec_lock h (lock_of s)"
    if "depth (lock_of s) < 2 ^ 31 - 1"
    using RFLockSharing_refines [OF s(1) h that] s by (simp add: shared_lock_ok_def)
  show "shared_lock_ok (snd (RFUnlockSharing h s)) \<and>
      (fst (RFUnlockSharing h s), lock_of (snd (RFUnlockSharing h s))) = spec_unlock h (lock_of s)"
    using RFUnlockSharing_refines [OF s h] s by (simp add: shared_lock_ok_def)
qed

lemma lock_of_not_Held_0: "lock_ok r \<Longrightarrow> lock_of r \<noteq> Held k 0"
  by (auto simp: lock_of_def lock_ok_def)

text \<open>
  In exclusive mode the count never goes below one: the lock taken by the connection itself
  can not be released by a transaction.
\<close>

lemma RFUnlockSharing_exclusive:
  assumes "contexts r = PCSCLITE_SHARING_EXCLUSIVE_CONTEXT" "LockCount r \<ge> 1"
  shows "LockCount (snd (RFUnlockSharing h r)) \<ge> 1 \<and> hLockId (snd (RFUnlockSharing h r)) = hLockId r"
  using assms by (auto simp: RFUnlockSharing_def Let_def)

section \<open>The handles of a reader\<close>

text \<open>
  The invariant between the share counter and the list of handles: one exclusive client,
  or as many clients as the counter says. A held lock belongs to a client of the reader.
\<close>

definition sharing_ok :: "'d READER_CONTEXT \<Rightarrow> bool" where
  "sharing_ok r =
     (handles_ok (handlesList r) \<and> distinct (handles r) \<and> int (length (handles r)) \<le> 2 ^ 31 - 2 \<and>
      (contexts r = PCSCLITE_SHARING_EXCLUSIVE_CONTEXT \<and> length (handles r) = 1 \<or>
       contexts r = int (length (handles r))))"

definition owner_ok :: "'d READER_CONTEXT \<Rightarrow> bool" where
  "owner_ok r = (hLockId r = 0 \<or> hLockId r \<in> set (handles r))"

lemma length_handles [simp]: "length (handles r) = length (entries (handlesList r))"
  by (simp add: handles_def)

lemma list_seek_handles:
  assumes "handles_ok (handlesList r)"
  shows "list_seek (handlesList r) h = None \<longleftrightarrow> h \<notin> set (handles r)"
  using hl.seek_None_iff [OF assms, of h] by (simp add: handles_def)

lemma list_seek_handlesE:
  assumes "handles_ok (handlesList r)" "h \<in> set (handles r)"
  obtains c where "list_seek (handlesList r) h = Some c"
  using list_seek_handles [OF assms(1), of h] assms(2) by auto

lemma RFAddReaderHandle_ok:
  assumes "handles_ok (handlesList r)" "int (length (handles r)) < m"
  shows "fst (RFAddReaderHandle m True h r) = SCARD_S_SUCCESS"
    and "handles (snd (RFAddReaderHandle m True h r)) = handles r @ [h]"
  using hl.append_ok [OF assms(1)] assms
  by (auto simp: RFAddReaderHandle_def handles_def split_beta)

lemma RFAddReaderHandle_full:
  assumes "handles_ok (handlesList r)" "m \<le> int (length (handles r)) \<or> \<not> mem"
  shows "RFAddReaderHandle m mem h r = (SCARD_E_NO_MEMORY, r)"
  using assms by (auto simp: RFAddReaderHandle_def)

lemma RFAddReaderHandle_cases:
  assumes "handles_ok (handlesList r)"
  obtains "fst (RFAddReaderHandle m mem h r) = SCARD_S_SUCCESS"
      "handles (snd (RFAddReaderHandle m mem h r)) = handles r @ [h]" "int (length (handles r)) < m"
  | "RFAddReaderHandle m mem h r = (SCARD_E_NO_MEMORY, r)"
  using RFAddReaderHandle_ok [OF assms, of m h] RFAddReaderHandle_full [OF assms, of m mem h]
  by (cases mem; cases "int (length (handles r)) < m") auto

lemma RFAddReaderHandle_handles_ok:
  "handles_ok (handlesList r) \<Longrightarrow> handles_ok (handlesList (snd (RFAddReaderHandle m mem h r)))"
  by (auto simp: RFAddReaderHandle_def split_beta intro: hl.inv_append)

lemma RFAddReaderHandle_frame [frame_simps]:
  "contexts (snd (RFAddReaderHandle m mem h r)) = contexts r"
  "hLockId (snd (RFAddReaderHandle m mem h r)) = hLockId r"
  "LockCount (snd (RFAddReaderHandle m mem h r)) = LockCount r"
  "readerState (snd (RFAddReaderHandle m mem h r)) = readerState r"
  "powerState (snd (RFAddReaderHandle m mem h r)) = powerState r"
  "reference (snd (RFAddReaderHandle m mem h r)) = reference r"
  "vHandle (snd (RFAddReaderHandle m mem h r)) = vHandle r"
  by (auto simp: RFAddReaderHandle_def split_beta)

lemma RFRemoveReaderHandle_known:
  assumes "handles_ok (handlesList r)" "distinct (handles r)" "h \<in> set (handles r)"
  shows "fst (RFRemoveReaderHandle h r) = SCARD_S_SUCCESS"
    and "handles (snd (RFRemoveReaderHandle h r)) = remove1 h (handles r)"
proof -
  obtain c where c: "list_seek (handlesList r) h = Some c"
    using assms by (auto elim: list_seek_handlesE)
  then show "fst (RFRemoveReaderHandle h r) = SCARD_S_SUCCESS"
    by (simp add: RFRemoveReaderHandle_def)
  show "handles (snd (RFRemoveReaderHandle h r)) = remove1 h (handles r)"
    using hl.delete_sought(2) [OF assms(1) c] assms(2) c
    by (simp add: RFRemoveReaderHandle_def handles_def)
qed

lemma RFRemoveReaderHandle_unknown:
  assumes "handles_ok (handlesList r)" "h \<notin> set (handles r)"
  shows "RFRemoveReaderHandle h r = (SCARD_E_INVALID_HANDLE, r)"
  using list_seek_handles [OF assms(1), of h] assms(2)
  by (simp add: RFRemoveReaderHandle_def)

lemma RFRemoveReaderHandle_handles_ok:
  "handles_ok (handlesList r) \<Longrightarrow> handles_ok (handlesList (snd (RFRemoveReaderHandle h r)))"
  by (auto simp: RFRemoveReaderHandle_def intro: hl.inv_delete split: option.splits)

lemma RFRemoveReaderHandle_frame [frame_simps]:
  "contexts (snd (RFRemoveReaderHandle h r)) = contexts r"
  "hLockId (snd (RFRemoveReaderHandle h r)) = hLockId r"
  "LockCount (snd (RFRemoveReaderHandle h r)) = LockCount r"
  "readerState (snd (RFRemoveReaderHandle h r)) = readerState r"
  "powerState (snd (RFRemoveReaderHandle h r)) = powerState r"
  "reference (snd (RFRemoveReaderHandle h r)) = reference r"
  "vHandle (snd (RFRemoveReaderHandle h r)) = vHandle r"
  by (auto simp: RFRemoveReaderHandle_def split: option.splits)

section \<open>Events\<close>

lemma set_event_at_ok:
  assumes "handles_ok l" "n < length (entries l)"
  shows "set_event_at ev n l = l\<lparr>entries := (entries l)[n := (entries l ! n)\<lparr>dwEventStatus := ev\<rparr>]\<rparr>"
  using hl.get_at [OF assms(1), of n] assms(2) by (simp add: set_event_at_def)

lemma handles_ok_update:
  "handles_ok l \<Longrightarrow> length xs = length (entries l) \<Longrightarrow> handles_ok (l\<lparr>entries := xs\<rparr>)"
  by (simp add: handles_ok_def list_ok_def list_repOk_def)

lemma fold_set_event:
  assumes "handles_ok l" "n \<le> length (entries l)"
  shows "fold (set_event_at ev) [0..<n] l =
    l\<lparr>entries := map (\<lambda>c. c\<lparr>dwEventStatus := ev\<rparr>) (take n (entries l)) @ drop n (entries l)\<rparr>"
  using assms(2)
proof (induction n)
  case 0
  then show ?case by simp
next
  case (Suc n)
  let ?xs = "map (\<lambda>c. c\<lparr>dwEventStatus := ev\<rparr>) (take n (entries l)) @ drop n (entries l)"
  have ok: "handles_ok (l\<lparr>entries := ?xs\<rparr>)"
    using Suc.prems by (intro handles_ok_update [OF assms(1)]) simp
  have "fold (set_event_at ev) [0..<Suc n] l = set_event_at ev n (l\<lparr>entries := ?xs\<rparr>)"
    using Suc by simp
  also have "\<dots> = l\<lparr>entries := ?xs[n := (?xs ! n)\<lparr>dwEventStatus := ev\<rparr>]\<rparr>"
    using set_event_at_ok [OF ok, of n ev] Suc.prems by simp
  also have "?xs[n := (?xs ! n)\<lparr>dwEventStatus := ev\<rparr>] =
      map (\<lambda>c. c\<lparr>dwEventStatus := ev\<rparr>) (take (Suc n) (entries l)) @ drop (Suc n) (entries l)"
    using Suc.prems
    by (simp add: nth_append take_Suc_conv_app_nth list_update_append Cons_nth_drop_Suc [symmetric])
  finally show ?case .
qed

lemma RFSetReaderEventState_entries:
  assumes "handles_ok (handlesList r)"
  shows "entries (handlesList (RFSetReaderEventState ev r)) =
      map (\<lambda>c. c\<lparr>dwEventStatus := ev\<rparr>) (entries (handlesList r))"
    and "handles_ok (handlesList (RFSetReaderEventState ev r))"
    and "handles (RFSetReaderEventState ev r) = handles r"
  using fold_set_event [OF assms order_refl, of ev] assms
  by (auto simp: RFSetReaderEventState_def Let_def handles_def comp_def intro: handles_ok_update)

lemma RFSetReaderEventState_frame [frame_simps]:
  "contexts (RFSetReaderEventState ev r) = contexts r"
  "readerState (RFSetReaderEventState ev r) = readerState r"
  "powerState (RFSetReaderEventState ev r) = powerState r"
  "reference (RFSetReaderEventState ev r) = reference r"
  "vHandle (RFSetReaderEventState ev r) = vHandle r"
  "psFunctions (RFSetReaderEventState ev r) = psFunctions r"
  "slot (RFSetReaderEventState ev r) = slot r"
  "hLockId (RFSetReaderEventState ev r) = (if ev = SCARD_REMOVED then 0 else hLockId r)"
  "LockCount (RFSetReaderEventState ev r) = (if ev = SCARD_REMOVED then 0 else LockCount r)"
  by (auto simp: RFSetReaderEventState_def Let_def)

lemma RFCheckReaderEventState_handle:
  assumes "handles_ok (handlesList r)"
  shows "RFCheckReaderEventState r h = SCARD_E_INVALID_HANDLE \<longleftrightarrow> h \<notin> set (handles r)"
  using hl.seek_None_iff [OF assms, of h]
  by (auto simp: RFCheckReaderEventState_def event_status_def handles_def split: option.splits if_splits)

text \<open>After an event is set, every client of the reader sees it.\<close>

lemma RFCheckReaderEventState_set:
  assumes "handles_ok (handlesList r)" "h \<in> set (handles r)"
  shows "RFCheckReaderEventState (RFSetReaderEventState ev r) h = event_status ev"
proof -
  note e = RFSetReaderEventState_entries [OF assms(1), of ev]
  obtain c where c: "list_seek (handlesList (RFSetReaderEventState ev r)) h = Some c"
    using list_seek_handlesE [OF e(2), of h] assms(2) e(3) by auto
  with hl.seek_Some [OF e(2) c] e(1) show ?thesis
    by (auto simp: RFCheckReaderEventState_def)
qed

lemma update_first_length [simp]: "length (update_first P f xs) = length xs"
  by (induction P f xs rule: update_first.induct) auto

lemma map_update_first: "(\<And>x. k (f x) = k x) \<Longrightarrow> map k (update_first P f xs) = map k xs"
  by (induction P f xs rule: update_first.induct) auto

lemma find_update_first:
  "(\<And>x. P (f x) = P x) \<Longrightarrow> find P (update_first P f xs) = map_option f (find P xs)"
  by (induction P f xs rule: update_first.induct) auto

lemma find_update_first_other:
  "(\<And>x. P x \<Longrightarrow> \<not> Q x) \<Longrightarrow> (\<And>x. Q (f x) = Q x) \<Longrightarrow> find Q (update_first P f xs) = find Q xs"
  by (induction P f xs rule: update_first.induct) auto

lemma RFClearReaderEventState_handles:
  assumes "handles_ok (handlesList r)"
  shows "handles (snd (RFClearReaderEventState h r)) = handles r"
    and "handles_ok (handlesList (snd (RFClearReaderEventState h r)))"
  using assms
  by (auto simp: RFClearReaderEventState_def handles_def map_update_first split: option.splits
      intro: handles_ok_update)

lemma RFClearReaderEventState_check:
  assumes "handles_ok (handlesList r)"
  shows "RFCheckReaderEventState (snd (RFClearReaderEventState h r)) k =
    (if k = h \<and> h \<in> set (handles r) then SCARD_S_SUCCESS else RFCheckReaderEventState r k)"
proof -
  note ok = RFClearReaderEventState_handles(2) [OF assms, of h]
  show ?thesis
  proof (cases "h \<in> set (handles r)")
    case True
    then obtain c where c: "list_seek (handlesList r) h = Some c"
      using assms by (auto elim: list_seek_handlesE)
    have "find (\<lambda>el. hCard el = k) (update_first (\<lambda>el. hCard el = h) f xs) = find (\<lambda>el. hCard el = k) xs"
      if "k \<noteq> h" "\<And>x. hCard (f x) = hCard x" for f :: "RDR_CLIHANDLES \<Rightarrow> RDR_CLIHANDLES" and xs
      using that by (intro find_update_first_other) auto
    with True c show ?thesis
      using hl.seek [OF ok, of k] hl.seek [OF assms]
      by (auto simp: RFCheckReaderEventState_def RFClearReaderEventState_def find_update_first
          event_status_def)
  next
    case False
    then have "list_seek (handlesList r) h = None"
      using list_seek_handles [OF assms] by simp
    with False show ?thesis
      by (simp add: RFClearReaderEventState_def)
  qed
qed

lemma RFClearReaderEventState_frame [frame_simps]:
  "contexts (snd (RFClearReaderEventState h r)) = contexts r"
  "hLockId (snd (RFClearReaderEventState h r)) = hLockId r"
  "LockCount (snd (RFClearReaderEventState h r)) = LockCount r"
  "readerState (snd (RFClearReaderEventState h r)) = readerState r"
  "powerState (snd (RFClearReaderEventState h r)) = powerState r"
  "reference (snd (RFClearReaderEventState h r)) = reference r"
  by (auto simp: RFClearReaderEventState_def split: option.splits)

end
