(* ===== verification/Eventhandler.thy ===== *)
theory Eventhandler
  imports Reader_Sharing
begin

text \<open>
  The card event thread of a reader and the list of clients that wait for an event,
  \<^verbatim>\<open>src/src/eventhandler.c\<close>. The body of \<^verbatim>\<open>EHStatusHandlerThread\<close> is divided where the
  thread can be observed: the initial power up, one polling round up to the wait (status,
  removal, insertion, change of sharing), the wait, and the part after it (automatic power
  off, request to exit). \<open>eh_step\<close> interleaves the thread with the calls of other threads.
  The default build is modelled: automatic power on and on-demand power on are enabled.

  \<open>call_at\<close> calls a function whose address the driver gave as the value of a capability.
\<close>

abbreviation (input) PCSCLITE_POWER_OFF_GRACE_PERIOD :: int where "PCSCLITE_POWER_OFF_GRACE_PERIOD \<equiv> 5000"
abbreviation (input) PCSCLITE_STATUS_EVENT_TIMEOUT :: int where "PCSCLITE_STATUS_EVENT_TIMEOUT \<equiv> 600000"
abbreviation (input) KILL_THREAD :: SCARDHANDLE where "KILL_THREAD \<equiv> 0xFFFF"

definition call_ifd :: "('d ifd_env \<Rightarrow> 'a \<times> 'd ifd_env) \<Rightarrow> 'd pcscd \<Rightarrow> 'a \<times> 'd pcscd" where
  "call_ifd f w = (case f (ifd w) of (x, e) \<Rightarrow> (x, w\<lparr>ifd := e\<rparr>))"

definition call_at :: "nat \<Rightarrow> bytes \<Rightarrow> int \<Rightarrow> 'd pcscd \<Rightarrow> RESPONSECODE \<times> 'd pcscd" where
  "call_at i addr timeout w =
     (case Option.bind (vHandle (rdr w i)) (dynlib w) of
        None \<Rightarrow> call_ifd (null_call IFD_COMMUNICATION_ERROR) w
      | Some lib \<Rightarrow> call_ifd (drv_call (callable lib addr (slot (rdr w i)) timeout)) w)"

text \<open>The first byte of what a driver wrote.\<close>

definition byte0 :: "bytes \<Rightarrow> UCHAR" where
  "byte0 bs = (case bs of [] \<Rightarrow> 0 | b # _ \<Rightarrow> b)"

section \<open>Clients waiting for an event\<close>

definition EHRegisterClientForEvent :: "int \<Rightarrow> 'd pcscd \<Rightarrow> LONG \<times> 'd pcscd" where
  "EHRegisterClientForEvent filedes w =
     (SCARD_S_SUCCESS,
      w\<lparr>ClientsWaitingForEvent := snd (list_append (memOk w) (ClientsWaitingForEvent w) filedes)\<rparr>)"

definition EHTryToUnregisterClientForEvent :: "int \<Rightarrow> 'd pcscd \<Rightarrow> LONG \<times> 'd pcscd" where
  "EHTryToUnregisterClientForEvent filedes w =
     (case list_delete (ClientsWaitingForEvent w) filedes of (ret, l) \<Rightarrow>
        (if ret < 0 then SCARD_F_INTERNAL_ERROR else SCARD_S_SUCCESS,
         w\<lparr>ClientsWaitingForEvent := l\<rparr>))"

definition EHUnregisterClientForEvent :: "int \<Rightarrow> 'd pcscd \<Rightarrow> LONG \<times> 'd pcscd" where
  "EHUnregisterClientForEvent filedes w = EHTryToUnregisterClientForEvent filedes w"

text \<open>The \<^verbatim>\<open>while\<close> loop of \<^verbatim>\<open>EHSignalEventToClients\<close>; \<open>out\<close> are the messages sent.\<close>

function signal_clients :: "int list_t \<Rightarrow> (int \<times> LONG) list \<Rightarrow> int list_t \<times> (int \<times> LONG) list" where
  "signal_clients l out =
     (if list_iterator_hasnext l then
        (case list_iterator_next l of (filedes, l') \<Rightarrow>
           signal_clients l' (case filedes of None \<Rightarrow> out | Some fd \<Rightarrow> out @ [(fd, SCARD_S_SUCCESS)]))
      else (l, out))"
  by pat_completeness auto
termination
  by (relation "measure (\<lambda>(l, out). numels l - iter_pos l)")
    (auto simp: list_iterator_hasnext_def list_iterator_next_def)

declare signal_clients.simps [simp del]

definition EHSignalEventToClients :: "'d pcscd \<Rightarrow> 'd pcscd" where
  "EHSignalEventToClients w =
     (let l = snd (list_iterator_start (ClientsWaitingForEvent w)) in
      case signal_clients l (signalled w) of (l, out) \<Rightarrow>
        let l = snd (list_iterator_stop l) in
        w\<lparr>ClientsWaitingForEvent := snd (list_clear l), signalled := out\<rparr>)"

definition EHInitializeEventStructures :: "'d pcscd \<Rightarrow> LONG \<times> 'd pcscd" where
  "EHInitializeEventStructures w =
     (let l = list_init; l = snd (list_attributes_copy l True True);
          l = snd (list_attributes_comparator l (=))
      in (SCARD_S_SUCCESS, w\<lparr>ClientsWaitingForEvent := l\<rparr>))"

definition EHDeinitializeEventStructures :: "'d pcscd \<Rightarrow> LONG \<times> 'd pcscd" where
  "EHDeinitializeEventStructures w =
     (SCARD_S_SUCCESS, w\<lparr>ClientsWaitingForEvent := list_destroy (ClientsWaitingForEvent w)\<rparr>)"

section \<open>The event thread\<close>

text \<open>The local variables of the thread that live across rounds.\<close>

record eh_locals =
  dwCurrentState :: DWORD
  ehSharing :: int

definition upd_rstate :: "nat \<Rightarrow> (READER_STATE \<Rightarrow> READER_STATE) \<Rightarrow> 'd pcscd \<Rightarrow> 'd pcscd" where
  "upd_rstate i f w = upd_rdr i (upd_state f) w"

text \<open>
  Power up into the ATR buffer of the reader: \<^verbatim>\<open>dwAtrLen\<close> starts as the size of the buffer,
  and the protocol is unset.
\<close>

definition eh_power_up :: "nat \<Rightarrow> 'd pcscd \<Rightarrow> RESPONSECODE \<times> 'd pcscd" where
  "eh_power_up i w =
     (case call_ifd (IFDPowerICC (rdr w i) IFD_POWER_UP (cardAtr (readerState (rdr w i)))
              (of_nat MAX_ATR_SIZE)) w of
        ((rv, atr, dwAtrLen), w) \<Rightarrow>
          (rv, upd_rstate i (\<lambda>s. s\<lparr>cardAtr := atr, cardAtrLength := ucast dwAtrLen,
                 cardProtocol := SCARD_PROTOCOL_UNDEFINED\<rparr>) w))"

definition eh_start :: "nat \<Rightarrow> 'd pcscd \<Rightarrow> eh_locals \<times> 'd pcscd" where
  "eh_start i w =
     (case call_ifd (IFDStatusICC (rdr w i)) w of
        ((rv, dwStatus), w) \<Rightarrow>
          let (readerSt, current, w) =
            (if rv = SCARD_S_SUCCESS \<and> dwStatus AND SCARD_PRESENT \<noteq> 0 then
               (case eh_power_up i w of (rv, w) \<Rightarrow>
                  if rv = IFD_SUCCESS
                  then (SCARD_PRESENT OR SCARD_POWERED OR SCARD_NEGOTIABLE, SCARD_PRESENT,
                        upd_rdr i (\<lambda>r. RFSetPowerState r POWER_STATE_POWERED) w)
                  else (SCARD_PRESENT OR SCARD_SWALLOWED, SCARD_PRESENT,
                        upd_rdr i (\<lambda>r. RFSetPowerState r POWER_STATE_UNPOWERED) w))
             else (SCARD_ABSENT, SCARD_ABSENT,
               upd_rstate i (\<lambda>s. s\<lparr>cardAtrLength := 0, cardProtocol := SCARD_PROTOCOL_UNDEFINED\<rparr>) w));
              w = upd_rstate i (\<lambda>s. s\<lparr>rsState := readerSt, readerSharing := contexts (rdr w i)\<rparr>) w
          in (\<lparr>dwCurrentState = current, ehSharing = contexts (rdr w i)\<rparr>, EHSignalEventToClients w))"

text \<open>\<^verbatim>\<open>eventCounter\<close> counts modulo 65536.\<close>

definition bump_counter :: "READER_STATE \<Rightarrow> READER_STATE" where
  "bump_counter s =
     (let c = eventCounter s + 1 in s\<lparr>eventCounter := (if c > 0xFFFF then 0 else c)\<rparr>)"

definition eh_error :: "nat \<Rightarrow> eh_locals \<Rightarrow> 'd pcscd \<Rightarrow> eh_locals \<times> 'd pcscd" where
  "eh_error i t w =
     (t\<lparr>dwCurrentState := SCARD_UNKNOWN\<rparr>,
      EHSignalEventToClients
        (upd_rstate i (\<lambda>s. s\<lparr>rsState := SCARD_UNKNOWN, cardAtrLength := 0,
           cardProtocol := SCARD_PROTOCOL_UNDEFINED\<rparr>) w))"

definition eh_removed :: "nat \<Rightarrow> eh_locals \<Rightarrow> 'd pcscd \<Rightarrow> eh_locals \<times> 'd pcscd" where
  "eh_removed i t w =
     (if dwCurrentState t = SCARD_PRESENT \<or> dwCurrentState t = SCARD_UNKNOWN then
        (let w = upd_rdr i (RFSetReaderEventState SCARD_REMOVED) w;
             w = upd_rstate i (\<lambda>s. bump_counter (s\<lparr>cardAtrLength := 0,
                   cardProtocol := SCARD_PROTOCOL_UNDEFINED, rsState := SCARD_ABSENT\<rparr>)) w
         in (t\<lparr>dwCurrentState := SCARD_ABSENT\<rparr>, EHSignalEventToClients w))
      else (t, w))"

definition eh_inserted :: "nat \<Rightarrow> eh_locals \<Rightarrow> 'd pcscd \<Rightarrow> eh_locals \<times> 'd pcscd" where
  "eh_inserted i t w =
     (if dwCurrentState t = SCARD_ABSENT \<or> dwCurrentState t = SCARD_UNKNOWN then
        (case eh_power_up i w of (rv, w) \<Rightarrow>
           let w = (if rv = IFD_SUCCESS then
                   upd_rdr i (\<lambda>r. RFSetPowerState
                     (upd_state (\<lambda>s. s\<lparr>rsState := SCARD_PRESENT OR SCARD_POWERED OR SCARD_NEGOTIABLE\<rparr>) r)
                     POWER_STATE_POWERED) w
                 else
                   upd_rdr i (\<lambda>r. upd_state (\<lambda>s. s\<lparr>cardAtrLength := 0\<rparr>)
                     (RFSetPowerState (upd_state (\<lambda>s. s\<lparr>rsState := SCARD_PRESENT OR SCARD_SWALLOWED\<rparr>) r)
                       POWER_STATE_UNPOWERED)) w);
               w = upd_rstate i bump_counter w
           in (t\<lparr>dwCurrentState := SCARD_PRESENT\<rparr>, EHSignalEventToClients w))
      else (t, w))"

definition eh_sharing :: "nat \<Rightarrow> eh_locals \<Rightarrow> 'd pcscd \<Rightarrow> eh_locals \<times> 'd pcscd" where
  "eh_sharing i t w =
     (if ehSharing t \<noteq> contexts (rdr w i) then
        (t\<lparr>ehSharing := contexts (rdr w i)\<rparr>,
         EHSignalEventToClients (upd_rstate i (\<lambda>s. s\<lparr>readerSharing := contexts (rdr w i)\<rparr>) w))
      else (t, w))"

text \<open>One polling round, from the top of the loop to the wait.\<close>

definition eh_poll :: "nat \<Rightarrow> eh_locals \<Rightarrow> 'd pcscd \<Rightarrow> eh_locals \<times> 'd pcscd" where
  "eh_poll i t w =
     (case call_ifd (IFDStatusICC (rdr w i)) w of
        ((rv, dwStatus), w) \<Rightarrow>
          let (t, w) = (if rv \<noteq> SCARD_S_SUCCESS then eh_error i t w else (t, w));
              (t, w) = (if dwStatus AND SCARD_ABSENT \<noteq> 0 then eh_removed i t w
                else if dwStatus AND SCARD_PRESENT \<noteq> 0 then eh_inserted i t w
                else (t, w))
          in eh_sharing i t w)"

text \<open>
  The wait: the polling function of the driver if it has one. Sleeping does not change the
  state.
\<close>

definition eh_wait :: "nat \<Rightarrow> 'd pcscd \<Rightarrow> 'd pcscd" where
  "eh_wait i w =
     (case pthCardEvent (rdr w i) of
        None \<Rightarrow> w
      | Some fct \<Rightarrow>
          snd (call_at i fct
            (if RFGetPowerState (rdr w i) = POWER_STATE_POWERED then PCSCLITE_POWER_OFF_GRACE_PERIOD
             else PCSCLITE_STATUS_EVENT_TIMEOUT) w))"

definition eh_power :: "nat \<Rightarrow> 'd pcscd \<Rightarrow> 'd pcscd" where
  "eh_power i w =
     (let w = (if powerState (rdr w i) = POWER_STATE_POWERED then
            (case call_ifd (IFDPowerICC (rdr w i) IFD_POWER_DOWN [] 0) w of (_, w) \<Rightarrow>
               upd_rdr i (\<lambda>r. upd_state (\<lambda>s. s\<lparr>cardProtocol := SCARD_PROTOCOL_UNDEFINED\<rparr>)
                 (r\<lparr>powerState := POWER_STATE_UNPOWERED\<rparr>)) w)
          else w)
      in if powerState (rdr w i) = POWER_STATE_GRACE_PERIOD
         then upd_rdr i (\<lambda>r. r\<lparr>powerState := POWER_STATE_POWERED\<rparr>) w else w)"

text \<open>The request to exit; the first component says that the thread ends.\<close>

definition eh_exit :: "nat \<Rightarrow> 'd pcscd \<Rightarrow> bool \<times> 'd pcscd" where
  "eh_exit i w =
     (if hLockId (rdr w i) = KILL_THREAD then (True, upd_rdr i (\<lambda>r. r\<lparr>hLockId := 0\<rparr>) w)
      else (False, w))"

definition EHStatusHandlerThread_round ::
  "nat \<Rightarrow> eh_locals \<Rightarrow> 'd pcscd \<Rightarrow> bool \<times> eh_locals \<times> 'd pcscd" where
  "EHStatusHandlerThread_round i t w =
     (case eh_poll i t w of (t, w) \<Rightarrow>
        case eh_exit i (eh_power i (eh_wait i w)) of (ended, w) \<Rightarrow> (ended, t, w))"

section \<open>Starting and stopping the thread\<close>

definition EHSpawnEventHandler :: "nat \<Rightarrow> 'd pcscd \<Rightarrow> LONG \<times> 'd pcscd" where
  "EHSpawnEventHandler i w =
     (case call_ifd (IFDStatusICC (rdr w i)) w of
        ((rv, dwStatus), w) \<Rightarrow>
          if rv \<noteq> SCARD_S_SUCCESS then (SCARD_F_UNKNOWN_ERROR, w)
          else if \<not> threadOk w then (SCARD_E_NO_MEMORY, w)
          else (SCARD_S_SUCCESS, upd_rdr i (\<lambda>r. r\<lparr>pthThread := True\<rparr>) w))"

text \<open>
  \<^verbatim>\<open>EHDestroyEventHandler\<close> up to \<^verbatim>\<open>pthread_join\<close>: the result says whether the thread was
  cancelled.
\<close>

definition eh_destroy_request :: "nat \<Rightarrow> 'd pcscd \<Rightarrow> bool \<times> 'd pcscd" where
  "eh_destroy_request i w =
     (let w = upd_rdr i (\<lambda>r. r\<lparr>hLockId := KILL_THREAD\<rparr>) w in
      case call_ifd (IFDGetCapabilities (rdr w i) TAG_IFD_POLLING_THREAD_KILLABLE 1) w of
        ((rv, dwGetSize, ucGetData), w) \<Rightarrow>
          if rv = IFD_SUCCESS \<and> dwGetSize = 1 \<and> byte0 ucGetData \<noteq> 0 then (True, w)
          else
            case call_ifd (IFDGetCapabilities (rdr w i) TAG_IFD_STOP_POLLING_THREAD 8) w of
              ((rv, dwGetSize, fct), w) \<Rightarrow>
                if rv = IFD_SUCCESS \<and> dwGetSize = 8 then (False, snd (call_at i fct 0 w))
                else (False, w))"

text \<open>
  The thread is in its wait when the request comes; \<^verbatim>\<open>pthread_join\<close> returns once it was
  cancelled there, or has run the rest of its round and found the request.
\<close>

definition EHDestroyEventHandler :: "nat \<Rightarrow> 'd pcscd \<Rightarrow> 'd pcscd" where
  "EHDestroyEventHandler i w =
     (if readerName (readerState (rdr w i)) = [] then w
      else case eh_destroy_request i w of (cancelled, w) \<Rightarrow>
        let w = (if cancelled then w else snd (eh_exit i (eh_power i w)))
        in upd_rdr i (\<lambda>r. r\<lparr>pthThread := False\<rparr>) w)"

section \<open>Frames\<close>

lemma EHSignalEventToClients_frame [simp]:
  "sReadersContexts (EHSignalEventToClients w) = sReadersContexts w"
  "rdr (EHSignalEventToClients w) i = rdr w i"
  "ifd (EHSignalEventToClients w) = ifd w"
  "intCells (EHSignalEventToClients w) = intCells w"
  "maxReaderHandles (EHSignalEventToClients w) = maxReaderHandles w"
  "dynlib (EHSignalEventToClients w) = dynlib w"
  "memOk (EHSignalEventToClients w) = memOk w"
  by (simp_all add: EHSignalEventToClients_def rdr_def Let_def split_beta)

lemma upd_rdr_frame [simp]:
  "length (sReadersContexts (upd_rdr i f w)) = length (sReadersContexts w)"
  "ClientsWaitingForEvent (upd_rdr i f w) = ClientsWaitingForEvent w"
  "signalled (upd_rdr i f w) = signalled w" "ifd (upd_rdr i f w) = ifd w"
  "dynlib (upd_rdr i f w) = dynlib w"
  "i < length (sReadersContexts w) \<Longrightarrow> rdr (upd_rdr i f w) j = (if i = j then f (rdr w i) else rdr w j)"
  by (simp_all add: upd_rdr_def)

lemma upd_rstate_frame [simp]:
  "length (sReadersContexts (upd_rstate i g w)) = length (sReadersContexts w)"
  "ClientsWaitingForEvent (upd_rstate i g w) = ClientsWaitingForEvent w"
  "signalled (upd_rstate i g w) = signalled w" "ifd (upd_rstate i g w) = ifd w"
  "i < length (sReadersContexts w) \<Longrightarrow>
    rdr (upd_rstate i g w) j = (if i = j then upd_state g (rdr w i) else rdr w j)"
  by (simp_all add: upd_rstate_def)

lemma call_ifd_frame [simp]:
  "sReadersContexts (snd (call_ifd f w)) = sReadersContexts w"
  "rdr (snd (call_ifd f w)) i = rdr w i"
  "ClientsWaitingForEvent (snd (call_ifd f w)) = ClientsWaitingForEvent w"
  "signalled (snd (call_ifd f w)) = signalled w"
  "dynlib (snd (call_ifd f w)) = dynlib w"
  "fst (call_ifd f w) = fst (f (ifd w))"
  "ifd (snd (call_ifd f w)) = snd (f (ifd w))"
  by (simp_all add: call_ifd_def rdr_def split_beta)

lemma call_at_frame [simp]:
  "sReadersContexts (snd (call_at i a t w)) = sReadersContexts w"
  "rdr (snd (call_at i a t w)) j = rdr w j"
  "ClientsWaitingForEvent (snd (call_at i a t w)) = ClientsWaitingForEvent w"
  "signalled (snd (call_at i a t w)) = signalled w"
  by (auto simp: call_at_def split: option.splits)

lemma eh_wait_frame [simp]:
  "sReadersContexts (eh_wait i w) = sReadersContexts w"
  "rdr (eh_wait i w) j = rdr w j"
  "ClientsWaitingForEvent (eh_wait i w) = ClientsWaitingForEvent w"
  "signalled (eh_wait i w) = signalled w"
  by (auto simp: eh_wait_def split: option.splits)

lemma upd_state_comp [simp]: "upd_state f (upd_state g r) = upd_state (\<lambda>s. f (g s)) r"
  by (simp add: upd_state_def)

section \<open>Every waiting client is told\<close>

lemma signal_clients_run:
  assumes "list_repOk l" "iter_active l" "iter_curentry l = int (iter_pos l)" "iter_pos l \<le> numels l"
  shows "signal_clients l out =
    (l\<lparr>iter_curentry := int (numels l), iter_pos := numels l\<rparr>,
     out @ map (\<lambda>fd. (fd, SCARD_S_SUCCESS)) (drop (iter_pos l) (entries l)))"
  using assms
proof (induction l out rule: signal_clients.induct)
  case (1 l out)
  have len: "length (entries l) = numels l"
    using 1(2) by (simp add: list_repOk_def)
  show ?case
  proof (cases "iter_pos l < numels l")
    case True
    let ?l = "l\<lparr>iter_curentry := iter_curentry l + 1, iter_pos := iter_pos l + 1\<rparr>"
    have n: "list_iterator_next l = (Some (entries l ! iter_pos l), ?l)"
      using 1(3,4) True len by (simp add: list_iterator_next_def data_at_def)
    have h: "list_iterator_hasnext l"
      using 1(3) True by (simp add: list_iterator_hasnext_def)
    have ok: "list_repOk ?l"
      using 1(2) by (simp add: list_repOk_def)
    have "signal_clients l out = signal_clients ?l (out @ [(entries l ! iter_pos l, SCARD_S_SUCCESS)])"
      by (subst signal_clients.simps) (simp add: n h)
    also have "\<dots> = (?l\<lparr>iter_curentry := int (numels l), iter_pos := numels l\<rparr>,
        (out @ [(entries l ! iter_pos l, SCARD_S_SUCCESS)]) @
        map (\<lambda>fd. (fd, SCARD_S_SUCCESS)) (drop (Suc (iter_pos l)) (entries l)))"
      using 1(1) [OF h n [symmetric]] ok 1(3,4) True by simp
    finally show ?thesis
      using True len by (simp add: Cons_nth_drop_Suc [symmetric])
  next
    case False
    then have "iter_pos l = numels l" using 1(5) by simp
    then show ?thesis
      using 1(4) len by (subst signal_clients.simps) (simp add: list_iterator_hasnext_def)
  qed
qed

lemma EHSignalEventToClients_all:
  assumes "list_ok (ClientsWaitingForEvent w)"
  shows "signalled (EHSignalEventToClients w) =
      signalled w @ map (\<lambda>fd. (fd, SCARD_S_SUCCESS)) (entries (ClientsWaitingForEvent w))"
    and "entries (ClientsWaitingForEvent (EHSignalEventToClients w)) = []"
    and "list_ok (ClientsWaitingForEvent (EHSignalEventToClients w))"
proof -
  let ?l = "ClientsWaitingForEvent w"
  let ?s = "?l\<lparr>iter_pos := 0, iter_active := True, iter_curentry := 0\<rparr>"
  have start: "snd (list_iterator_start ?l) = ?s"
    using assms by (simp add: list_iterator_start_def list_ok_def)
  have "list_repOk ?s"
    using assms by (simp add: list_ok_def list_repOk_def)
  then have r: "signal_clients ?s out =
      (?s\<lparr>iter_curentry := int (numels ?l), iter_pos := numels ?l\<rparr>,
       out @ map (\<lambda>fd. (fd, SCARD_S_SUCCESS)) (entries ?l))" for out
    using signal_clients_run [of ?s out] by simp
  show "signalled (EHSignalEventToClients w) =
      signalled w @ map (\<lambda>fd. (fd, SCARD_S_SUCCESS)) (entries ?l)"
    and "entries (ClientsWaitingForEvent (EHSignalEventToClients w)) = []"
    and "list_ok (ClientsWaitingForEvent (EHSignalEventToClients w))"
    using assms
    by (simp_all add: EHSignalEventToClients_def start r list_iterator_stop_def list_clear_def
        list_ok_def list_repOk_def)
qed

lemma EHInitializeEventStructures_ok:
  "list_ok (ClientsWaitingForEvent (snd (EHInitializeEventStructures w)))"
  by (simp add: EHInitializeEventStructures_def list_attributes_copy_def list_attributes_comparator_def
      list_init_def list_ok_def list_repOk_def)

lemma EHRegisterClientForEvent_ok:
  "list_ok (ClientsWaitingForEvent w) \<Longrightarrow>
    list_ok (ClientsWaitingForEvent (snd (EHRegisterClientForEvent fd w)))"
  by (simp add: EHRegisterClientForEvent_def simclist.inv_append)

lemma EHTryToUnregisterClientForEvent_ok:
  "list_ok (ClientsWaitingForEvent w) \<Longrightarrow>
    list_ok (ClientsWaitingForEvent (snd (EHTryToUnregisterClientForEvent fd w)))"
  by (simp add: EHTryToUnregisterClientForEvent_def split_beta simclist.inv_delete)

lemma EHTryToUnregisterClientForEvent_result:
  assumes "list_ok (ClientsWaitingForEvent w)"
  shows "entries (ClientsWaitingForEvent (snd (EHTryToUnregisterClientForEvent fd w))) =
    remove1 fd (entries (ClientsWaitingForEvent w))"
  by (simp add: EHTryToUnregisterClientForEvent_def split_beta simclist.delete_ok [OF assms])

section \<open>One polling round\<close>

lemma bump_counter_bound:
  "eventCounter s \<le> 0xFFFF \<Longrightarrow> eventCounter (bump_counter s) \<le> 0xFFFF"
  by (simp add: bump_counter_def Let_def not_less)

lemma bump_counter_mod:
  assumes "eventCounter s \<le> 0xFFFF"
  shows "unat (eventCounter (bump_counter s)) = (unat (eventCounter s) + 1) mod 0x10000"
proof -
  have le: "unat (eventCounter s) \<le> 0xFFFF"
    using assms by (simp add: word_le_nat_alt)
  then have u: "unat (eventCounter s + 1) = unat (eventCounter s) + 1"
    by (simp add: unat_word_ariths)
  show ?thesis
  proof (cases "unat (eventCounter s) = 0xFFFF")
    case True
    with u show ?thesis
      by (simp add: bump_counter_def word_less_nat_alt)
  next
    case False
    with le have "unat (eventCounter s) + 1 \<le> 0xFFFF" by simp
    with u show ?thesis
      by (simp add: bump_counter_def word_less_nat_alt)
  qed
qed

lemma bump_counter_frame [simp]:
  "cardAtrLength (bump_counter s) = cardAtrLength s" "rsState (bump_counter s) = rsState s"
  "cardProtocol (bump_counter s) = cardProtocol s" "readerSharing (bump_counter s) = readerSharing s"
  "cardAtr (bump_counter s) = cardAtr s" "readerName (bump_counter s) = readerName s"
  by (simp_all add: bump_counter_def Let_def)

lemma eh_sharing_rdr:
  assumes "i < length (sReadersContexts w)"
  shows "rdr (snd (eh_sharing i t w)) i =
      (if ehSharing t = contexts (rdr w i) then rdr w i
       else upd_state (\<lambda>s. s\<lparr>readerSharing := contexts (rdr w i)\<rparr>) (rdr w i))"
    and "fst (eh_sharing i t w) = t\<lparr>ehSharing := contexts (rdr w i)\<rparr>"
    and "length (sReadersContexts (snd (eh_sharing i t w))) = length (sReadersContexts w)"
  using assms by (auto simp: eh_sharing_def)

text \<open>
  \<open>tells w w'\<close>: between \<open>w\<close> and \<open>w'\<close> no waiting client was dropped silently: the list is
  unchanged and nothing was sent, or it was emptied after all its clients were sent a
  success message.
\<close>

definition tells :: "'d pcscd \<Rightarrow> 'd pcscd \<Rightarrow> bool" where
  "tells w w' =
     (list_ok (ClientsWaitingForEvent w') \<and>
      signalled w' @ map (\<lambda>fd. (fd, SCARD_S_SUCCESS)) (entries (ClientsWaitingForEvent w')) =
      signalled w @ map (\<lambda>fd. (fd, SCARD_S_SUCCESS)) (entries (ClientsWaitingForEvent w)))"

lemma tells_refl: "list_ok (ClientsWaitingForEvent w) \<Longrightarrow> tells w w"
  by (simp add: tells_def)

lemma tells_trans: "tells w w' \<Longrightarrow> tells w' w'' \<Longrightarrow> tells w w''"
  by (simp add: tells_def)

lemma tells_list_ok: "tells w w' \<Longrightarrow> list_ok (ClientsWaitingForEvent w')"
  by (simp add: tells_def)

lemma tells_signal:
  "tells w w' \<Longrightarrow> tells w (EHSignalEventToClients w')"
  using EHSignalEventToClients_all [of w'] by (simp add: tells_def)

lemma tells_frame [intro]:
  assumes "tells w w'" "ClientsWaitingForEvent w'' = ClientsWaitingForEvent w'" "signalled w'' = signalled w'"
  shows "tells w w''"
  using assms by (simp add: tells_def)

lemma tells_upd [intro]:
  "tells w w' \<Longrightarrow> tells w (upd_rdr i f w')" "tells w w' \<Longrightarrow> tells w (upd_rstate i g w')"
  "tells w w' \<Longrightarrow> tells w (snd (call_ifd h w'))"
  by (erule tells_frame; simp)+

lemma eh_power_up_tells: "tells w w' \<Longrightarrow> tells w (snd (eh_power_up i w'))"
  by (auto simp: eh_power_up_def split_beta)

lemmas tells_intros = tells_signal tells_upd eh_power_up_tells

lemma eh_poll_tells:
  assumes "list_ok (ClientsWaitingForEvent w)"
  shows "tells w (snd (eh_poll i t w))"
  using tells_refl [OF assms]
  by (auto simp: eh_poll_def eh_error_def eh_removed_def eh_inserted_def eh_sharing_def split_beta Let_def
      intro!: tells_intros)

lemma eh_start_tells:
  assumes "list_ok (ClientsWaitingForEvent w)"
  shows "tells w (snd (eh_start i w))"
  using tells_refl [OF assms]
  by (auto simp: eh_start_def split_beta Let_def intro!: tells_intros)

section \<open>Card removal and insertion\<close>

lemma IFDStatusICC_absent_bits [simp]:
  "(SCARD_ABSENT :: DWORD) AND SCARD_ABSENT \<noteq> 0" "(SCARD_PRESENT :: DWORD) AND SCARD_ABSENT = 0"
  "(SCARD_PRESENT :: DWORD) AND SCARD_PRESENT \<noteq> 0" "(SCARD_UNKNOWN :: DWORD) AND SCARD_ABSENT = 0"
  "(SCARD_UNKNOWN :: DWORD) AND SCARD_PRESENT = 0"
  by simp_all

text \<open>What the poll does once the driver reported that the card is gone.\<close>

lemma eh_poll_removed:
  assumes "i < length (sReadersContexts w)"
    and "fst (IFDStatusICC (rdr w i) (ifd w)) = (SCARD_S_SUCCESS, SCARD_ABSENT)"
    and "dwCurrentState t = SCARD_PRESENT \<or> dwCurrentState t = SCARD_UNKNOWN"
    and "eh_poll i t w = (t', w')"
  shows "dwCurrentState t' = SCARD_ABSENT"
    and "\<exists>f. rdr w' i = upd_state f (RFSetReaderEventState SCARD_REMOVED (rdr w i)) \<and>
        (\<forall>s. rsState (f s) = SCARD_ABSENT \<and> cardAtrLength (f s) = 0 \<and>
          cardProtocol (f s) = SCARD_PROTOCOL_UNDEFINED \<and>
          eventCounter (f s) = eventCounter (bump_counter s))"
proof -
  let ?f = "\<lambda>s. bump_counter (s\<lparr>cardAtrLength := 0, cardProtocol := SCARD_PROTOCOL_UNDEFINED,
    rsState := SCARD_ABSENT\<rparr>)"
  let ?w = "snd (call_ifd (IFDStatusICC (rdr w i)) w)"
  let ?w1 = "EHSignalEventToClients (upd_rstate i ?f (upd_rdr i (RFSetReaderEventState SCARD_REMOVED) ?w))"
  have p: "eh_poll i t w = eh_sharing i (t\<lparr>dwCurrentState := SCARD_ABSENT\<rparr>) ?w1"
    using assms(2,3) by (auto simp: eh_poll_def split_beta Let_def eh_removed_def)
  have l: "i < length (sReadersContexts ?w1)"
    using assms(1) by simp
  have r: "rdr ?w1 i = upd_state ?f (RFSetReaderEventState SCARD_REMOVED (rdr w i))"
    using assms(1) by simp
  note s = eh_sharing_rdr [OF l, of "t\<lparr>dwCurrentState := SCARD_ABSENT\<rparr>"]
  have t': "t' = fst (eh_sharing i (t\<lparr>dwCurrentState := SCARD_ABSENT\<rparr>) ?w1)"
    and w': "w' = snd (eh_sharing i (t\<lparr>dwCurrentState := SCARD_ABSENT\<rparr>) ?w1)"
    using p assms(4) by (metis fst_conv, metis snd_conv)
  show "dwCurrentState t' = SCARD_ABSENT"
    unfolding t' s(2) by simp
  have b: "eventCounter (?f s) = eventCounter (bump_counter s)" for s
    by (simp add: bump_counter_def Let_def)
  show "\<exists>f. rdr w' i = upd_state f (RFSetReaderEventState SCARD_REMOVED (rdr w i)) \<and>
        (\<forall>s. rsState (f s) = SCARD_ABSENT \<and> cardAtrLength (f s) = 0 \<and>
          cardProtocol (f s) = SCARD_PROTOCOL_UNDEFINED \<and>
          eventCounter (f s) = eventCounter (bump_counter s))"
  proof (cases "ehSharing t = contexts (rdr ?w1 i)")
    case True
    then have "rdr w' i = upd_state ?f (RFSetReaderEventState SCARD_REMOVED (rdr w i))"
      unfolding w' s(1) r by simp
    with b show ?thesis by (intro exI [of _ ?f]) simp
  next
    case False
    then have "rdr w' i = upd_state (\<lambda>s. (?f s)\<lparr>readerSharing := contexts (rdr ?w1 i)\<rparr>)
        (RFSetReaderEventState SCARD_REMOVED (rdr w i))"
      unfolding w' s(1) r by simp
    with b show ?thesis
      by (intro exI [of _ "\<lambda>s. (?f s)\<lparr>readerSharing := contexts (rdr ?w1 i)\<rparr>"]) simp
  qed
qed

lemma eh_poll_signals_removed:
  assumes "list_ok (ClientsWaitingForEvent w)"
    and "fst (IFDStatusICC (rdr w i) (ifd w)) = (SCARD_S_SUCCESS, SCARD_ABSENT)"
    and "dwCurrentState t = SCARD_PRESENT \<or> dwCurrentState t = SCARD_UNKNOWN"
  shows "entries (ClientsWaitingForEvent (snd (eh_poll i t w))) = []"
proof -
  have *: "list_ok (ClientsWaitingForEvent v) \<Longrightarrow> entries (ClientsWaitingForEvent v) = [] \<Longrightarrow>
      entries (ClientsWaitingForEvent (snd (eh_sharing i u v))) = []" for u v
    by (auto simp: eh_sharing_def EHSignalEventToClients_all(2))
  show ?thesis
    using assms
    by (auto simp: eh_poll_def split_beta Let_def eh_removed_def EHSignalEventToClients_all intro!: *)
qed

text \<open>Without a change of presence or sharing a round leaves the reader and the clients alone.\<close>

lemma eh_poll_quiet:
  assumes "fst (IFDStatusICC (rdr w i) (ifd w)) = (SCARD_S_SUCCESS, dwCurrentState t)"
    and "ehSharing t = contexts (rdr w i)"
  shows "eh_poll i t w = (t, snd (call_ifd (IFDStatusICC (rdr w i)) w))"
proof -
  have "dwCurrentState t = SCARD_PRESENT \<or> dwCurrentState t = SCARD_ABSENT"
    using IFDStatusICC_cases [of "rdr w i" "ifd w"] assms(1) by (cases "IFDStatusICC (rdr w i) (ifd w)") auto
  with assms show ?thesis
    by (auto simp: eh_poll_def split_beta Let_def eh_removed_def eh_inserted_def eh_sharing_def)
qed

section \<open>The power state machine\<close>

lemma eh_power_state:
  assumes "i < length (sReadersContexts w)"
  shows "powerState (rdr (eh_power i w) i) =
    (case powerState (rdr w i) of
       POWER_STATE_UNPOWERED \<Rightarrow> POWER_STATE_UNPOWERED
     | POWER_STATE_POWERED \<Rightarrow> POWER_STATE_UNPOWERED
     | POWER_STATE_GRACE_PERIOD \<Rightarrow> POWER_STATE_POWERED
     | POWER_STATE_IN_USE \<Rightarrow> POWER_STATE_IN_USE)"
  using assms by (auto simp: eh_power_def Let_def split_beta split: power_state.splits)

lemma eh_power_driver:
  "powerState (rdr w i) \<noteq> POWER_STATE_POWERED \<Longrightarrow> ifd (eh_power i w) = ifd w"
  by (auto simp: eh_power_def Let_def)

lemma eh_power_frame:
  assumes "i < length (sReadersContexts w)"
  shows "hLockId (rdr (eh_power i w) i) = hLockId (rdr w i)"
    and "length (sReadersContexts (eh_power i w)) = length (sReadersContexts w)"
    and "ClientsWaitingForEvent (eh_power i w) = ClientsWaitingForEvent w"
    and "signalled (eh_power i w) = signalled w"
    and "eventCounter (readerState (rdr (eh_power i w) i)) = eventCounter (readerState (rdr w i))"
    and "handlesList (rdr (eh_power i w) i) = handlesList (rdr w i)"
    and "contexts (rdr (eh_power i w) i) = contexts (rdr w i)"
    and "LockCount (rdr (eh_power i w) i) = LockCount (rdr w i)"
  using assms by (auto simp: eh_power_def Let_def split_beta)

section \<open>The thread among other threads\<close>

datatype eh_pc = EH_Polling | EH_Waiting | EH_Ended

text \<open>
  \<open>others\<close> relates the states before and after a call of another thread.
\<close>

inductive eh_step ::
  "nat \<Rightarrow> ('d pcscd \<Rightarrow> 'd pcscd \<Rightarrow> bool) \<Rightarrow> eh_pc \<times> eh_locals \<times> 'd pcscd \<Rightarrow>
    eh_pc \<times> eh_locals \<times> 'd pcscd \<Rightarrow> bool"
  for i others where
  eh_step_poll: "eh_poll i t w = (t', w') \<Longrightarrow> eh_step i others (EH_Polling, t, w) (EH_Waiting, t', w')"
| eh_step_wake: "eh_exit i (eh_power i (eh_wait i w)) = (ended, w') \<Longrightarrow>
    eh_step i others (EH_Waiting, t, w) (if ended then EH_Ended else EH_Polling, t, w')"
| eh_step_other: "others w w' \<Longrightarrow> eh_step i others (pc, t, w) (pc, t, w')"

inductive eh_reachable ::
  "nat \<Rightarrow> ('d pcscd \<Rightarrow> 'd pcscd \<Rightarrow> bool) \<Rightarrow> 'd pcscd \<Rightarrow> eh_pc \<times> eh_locals \<times> 'd pcscd \<Rightarrow> bool"
  for i others w0 where
  eh_reachable_start: "eh_start i w0 = (t, w) \<Longrightarrow> eh_reachable i others w0 (EH_Polling, t, w)"
| eh_reachable_step: "eh_reachable i others w0 c \<Longrightarrow> eh_step i others c c' \<Longrightarrow>
    eh_reachable i others w0 c'"

inductive_cases eh_step_pollingE: "eh_step i others (EH_Polling, t, w) c"
inductive_cases eh_step_waitingE: "eh_step i others (EH_Waiting, t, w) c"

text \<open>
  The invariant of the thread: it is about an existing reader, the state it last published
  is one of three, the event counter stays below 65536 and the list of waiting clients is
  well formed.
\<close>

definition eh_inv :: "nat \<Rightarrow> eh_pc \<times> eh_locals \<times> 'd pcscd \<Rightarrow> bool" where
  "eh_inv i c = (case c of (pc, t, w) \<Rightarrow>
     i < length (sReadersContexts w) \<and>
     dwCurrentState t \<in> {SCARD_PRESENT, SCARD_ABSENT, SCARD_UNKNOWN} \<and>
     eventCounter (readerState (rdr w i)) \<le> 0xFFFF \<and>
     list_ok (ClientsWaitingForEvent w))"

lemma eh_power_up_frame [simp]:
  assumes "i < length (sReadersContexts w)"
  shows "length (sReadersContexts (snd (eh_power_up i w))) = length (sReadersContexts w)"
    and "eventCounter (readerState (rdr (snd (eh_power_up i w)) i)) = eventCounter (readerState (rdr w i))"
    and "hLockId (rdr (snd (eh_power_up i w)) i) = hLockId (rdr w i)"
    and "handlesList (rdr (snd (eh_power_up i w)) i) = handlesList (rdr w i)"
    and "contexts (rdr (snd (eh_power_up i w)) i) = contexts (rdr w i)"
  using assms by (simp_all add: eh_power_up_def split_beta)

lemma eh_start_inv:
  assumes "i < length (sReadersContexts w)" "eventCounter (readerState (rdr w i)) \<le> 0xFFFF"
    and "list_ok (ClientsWaitingForEvent w)" "eh_start i w = (t, w')"
  shows "eh_inv i (EH_Polling, t, w')"
  using eh_start_tells [OF assms(3), of i] assms
  by (auto simp: eh_inv_def eh_start_def split_beta Let_def RFSetPowerState_def tells_list_ok
      split: if_splits)

lemma eh_poll_inv:
  assumes "eh_inv i (pc, t, w)" "eh_poll i t w = (t', w')"
  shows "eh_inv i (pc', t', w')"
proof -
  have ok: "list_ok (ClientsWaitingForEvent w)" and i: "i < length (sReadersContexts w)"
    using assms(1) by (auto simp: eh_inv_def)
  have "list_ok (ClientsWaitingForEvent w')"
    using eh_poll_tells [OF ok, of i t] assms(2) by (simp add: tells_list_ok)
  moreover have "i < length (sReadersContexts w')"
    using assms(2) i
    by (auto simp: eh_poll_def eh_error_def eh_removed_def eh_inserted_def eh_sharing_def split_beta Let_def
        split: if_splits)
  moreover have "dwCurrentState t' \<in> {SCARD_PRESENT, SCARD_ABSENT, SCARD_UNKNOWN}"
    using assms
    by (auto simp: eh_inv_def eh_poll_def eh_error_def eh_removed_def eh_inserted_def eh_sharing_def
        split_beta Let_def split: if_splits)
  moreover have "eventCounter (readerState (rdr w' i)) \<le> 0xFFFF"
    using assms i
    by (auto simp: eh_inv_def eh_poll_def eh_error_def eh_removed_def eh_inserted_def eh_sharing_def
        split_beta Let_def RFSetPowerState_def RFSetReaderEventState_frame
        intro!: bump_counter_bound split: if_splits)
  ultimately show ?thesis
    by (simp add: eh_inv_def)
qed

lemma eh_wake_inv:
  assumes "eh_inv i (pc, t, w)" "eh_exit i (eh_power i (eh_wait i w)) = (ended, w')"
  shows "eh_inv i (pc', t, w')"
  using assms eh_power_frame [of i "eh_wait i w"]
  by (auto simp: eh_inv_def eh_exit_def split: if_splits)

lemma eh_step_inv:
  assumes "eh_step i others c c'" "eh_inv i c"
    and "\<And>pc t w w'. others w w' \<Longrightarrow> eh_inv i (pc, t, w) \<Longrightarrow> eh_inv i (pc, t, w')"
  shows "eh_inv i c'"
  using assms by cases (auto intro: eh_poll_inv eh_wake_inv)

end
