(* ===== verification/Reader_Driver.thy ===== *)
theory Reader_Driver
  imports Eventhandler
begin

text \<open>
  The life of one reader in \<^verbatim>\<open>src/src/readerfactory.c\<close>: loading its driver and binding the
  driver's functions, opening and closing the channel, removing the reader when its last
  reference goes away, and finding a reader by name or by a card handle (which takes a
  reference). The counters behind \<^verbatim>\<open>pFeeds\<close> and \<^verbatim>\<open>pMutex\<close> are cells of the store.
\<close>

definition set_fault :: "'d pcscd \<Rightarrow> 'd pcscd" where
  "set_fault w = w\<lparr>ifd := (ifd w)\<lparr>fault := True\<rparr>\<rparr>"

text \<open>Adding to the counter a pointer refers to.\<close>

definition add_cell :: "nat option \<Rightarrow> int \<Rightarrow> 'd pcscd \<Rightarrow> 'd pcscd" where
  "add_cell p d w =
     (case p of None \<Rightarrow> set_fault w
      | Some a \<Rightarrow> w\<lparr>intCells := (intCells w)(a := intCells w a + d)\<rparr>)"

definition cell_is :: "nat option \<Rightarrow> int \<Rightarrow> 'd pcscd \<Rightarrow> bool" where
  "cell_is p v w = (case p of None \<Rightarrow> False | Some a \<Rightarrow> intCells w a = v)"

text \<open>\<^verbatim>\<open>malloc\<close> of a counter with its initial value.\<close>

definition new_cell :: "int \<Rightarrow> 'd pcscd \<Rightarrow> nat \<times> 'd pcscd" where
  "new_cell v w =
     (freshAddr w, w\<lparr>intCells := (intCells w)(freshAddr w := v), freshAddr := freshAddr w + 1\<rparr>)"

section \<open>Drivers\<close>

definition RFLoadReader :: "nat \<Rightarrow> 'd pcscd \<Rightarrow> LONG \<times> 'd pcscd" where
  "RFLoadReader i w =
     (if vHandle (rdr w i) \<noteq> None then (SCARD_S_SUCCESS, w)
      else case dynlib w (library (rdr w i)) of
          None \<Rightarrow> (SCARD_F_UNKNOWN_ERROR, upd_rdr i (\<lambda>r. r\<lparr>vHandle := None\<rparr>) w)
        | Some _ \<Rightarrow> (SCARD_S_SUCCESS, upd_rdr i (\<lambda>r. r\<lparr>vHandle := Some (library r)\<rparr>) w))"

text \<open>
  \<^verbatim>\<open>GET_ADDRESSv2\<close> and \<^verbatim>\<open>GET_ADDRESSv3\<close>: when \<^verbatim>\<open>dlsym\<close> does not find the symbol they return
  \<^verbatim>\<open>rv\<close>, the (successful) result of the first lookup, and leave the members not yet bound as
  they were.
\<close>

definition GET_ADDRESS ::
  "'f option \<Rightarrow> ('f option \<Rightarrow> 'd FCT_MAP \<Rightarrow> 'd FCT_MAP) \<Rightarrow> ('d FCT_MAP \<Rightarrow> LONG \<times> 'd FCT_MAP) \<Rightarrow>
     'd FCT_MAP \<Rightarrow> LONG \<times> 'd FCT_MAP" where
  "GET_ADDRESS f1 store rest m =
     (case f1 of None \<Rightarrow> (SCARD_S_SUCCESS, m) | Some _ \<Rightarrow> rest (store f1 m))"

definition bind_common ::
  "'d FCT_MAP \<Rightarrow> ('d FCT_MAP \<Rightarrow> LONG \<times> 'd FCT_MAP) \<Rightarrow> 'd FCT_MAP \<Rightarrow> LONG \<times> 'd FCT_MAP" where
  "bind_common s rest =
     GET_ADDRESS (pvfCreateChannel s) (\<lambda>f m. m\<lparr>pvfCreateChannel := f\<rparr>)
      (GET_ADDRESS (pvfCloseChannel s) (\<lambda>f m. m\<lparr>pvfCloseChannel := f\<rparr>)
       (GET_ADDRESS (pvfGetCapabilities s) (\<lambda>f m. m\<lparr>pvfGetCapabilities := f\<rparr>)
        (GET_ADDRESS (pvfSetCapabilities s) (\<lambda>f m. m\<lparr>pvfSetCapabilities := f\<rparr>)
         (GET_ADDRESS (pvfPowerICC s) (\<lambda>f m. m\<lparr>pvfPowerICC := f\<rparr>)
          (GET_ADDRESS (pvfTransmitToICC s) (\<lambda>f m. m\<lparr>pvfTransmitToICC := f\<rparr>)
           (GET_ADDRESS (pvfICCPresence s) (\<lambda>f m. m\<lparr>pvfICCPresence := f\<rparr>)
            (\<lambda>m. rest (m\<lparr>pvfSetProtocolParameters := pvfSetProtocolParameters s\<rparr>))))))))"

definition bind_v2 :: "'d FCT_MAP \<Rightarrow> 'd FCT_MAP \<Rightarrow> LONG \<times> 'd FCT_MAP" where
  "bind_v2 s = bind_common s
     (GET_ADDRESS (pvfControl_v2 s) (\<lambda>f m. m\<lparr>pvfControl_v2 := f\<rparr>) (\<lambda>m. (SCARD_S_SUCCESS, m)))"

definition bind_v3 :: "'d FCT_MAP \<Rightarrow> 'd FCT_MAP \<Rightarrow> LONG \<times> 'd FCT_MAP" where
  "bind_v3 s = bind_common s
     (GET_ADDRESS (pvfCreateChannelByName s) (\<lambda>f m. m\<lparr>pvfCreateChannelByName := f\<rparr>)
       (GET_ADDRESS (pvfControl_v3 s) (\<lambda>f m. m\<lparr>pvfControl_v3 := f\<rparr>) (\<lambda>m. (SCARD_S_SUCCESS, m))))"

definition loaded_symbols :: "'d READER_CONTEXT \<Rightarrow> 'd pcscd \<Rightarrow> 'd FCT_MAP" where
  "loaded_symbols r w =
     (case Option.bind (vHandle r) (dynlib w) of None \<Rightarrow> fct_map_null | Some lib \<Rightarrow> symbols lib)"

definition RFBindFunctions :: "nat \<Rightarrow> 'd pcscd \<Rightarrow> LONG \<times> 'd pcscd" where
  "RFBindFunctions i w =
     (let s = loaded_symbols (rdr w i) w in
      if \<not> Option.is_none (pvfCreateChannelByName s) then
        (case bind_v3 s (psFunctions (rdr w i)) of (rv, m) \<Rightarrow>
           (rv, upd_rdr i (\<lambda>r. r\<lparr>version := IFD_HVERSION_3_0, psFunctions := m\<rparr>) w))
      else if \<not> Option.is_none (pvfCreateChannel s) then
        (case bind_v2 s (psFunctions (rdr w i)) of (rv, m) \<Rightarrow>
           (rv, upd_rdr i (\<lambda>r. r\<lparr>version := IFD_HVERSION_2_0, psFunctions := m\<rparr>) w))
      else (SCARD_F_UNKNOWN_ERROR, w))"

definition RFUnBindFunctions :: "nat \<Rightarrow> 'd pcscd \<Rightarrow> LONG \<times> 'd pcscd" where
  "RFUnBindFunctions i w = (SCARD_S_SUCCESS, upd_rdr i (\<lambda>r. r\<lparr>psFunctions := fct_map_null\<rparr>) w)"

definition RFUnloadReader :: "nat \<Rightarrow> 'd pcscd \<Rightarrow> LONG \<times> 'd pcscd" where
  "RFUnloadReader i w =
     (let r = rdr w i;
          w = (if cell_is (pFeeds r) 1 w then
                 w\<lparr>dlclosed := (case vHandle r of None \<Rightarrow> dlclosed w | Some l \<Rightarrow> l # dlclosed w)\<rparr>
               else if pFeeds r = None then set_fault w else w)
      in (SCARD_S_SUCCESS, upd_rdr i (\<lambda>r. r\<lparr>vHandle := None\<rparr>) w))"

definition RFInitializeReader :: "nat \<Rightarrow> 'd pcscd \<Rightarrow> LONG \<times> 'd pcscd" where
  "RFInitializeReader i w =
     (case RFLoadReader i w of (rv, w) \<Rightarrow>
        if rv \<noteq> SCARD_S_SUCCESS then (rv, w)
        else case RFBindFunctions i w of (rv, w) \<Rightarrow>
          if rv \<noteq> SCARD_S_SUCCESS then (rv, snd (RFUnloadReader i w))
          else case call_ifd (IFDOpenIFD (rdr w i)) w of (rvd, w) \<Rightarrow>
            if rvd \<noteq> IFD_SUCCESS then
              (if rvd = IFD_NO_SUCH_DEVICE then SCARD_E_UNKNOWN_READER else SCARD_E_INVALID_TARGET,
               upd_rdr i (\<lambda>r. r\<lparr>slot := - 1\<rparr>) w)
            else (rv, w))"

text \<open>
  The mutex of the driver is free when \<^verbatim>\<open>IFDCloseIFD\<close> is called; how long it waits for the
  mutex does not change what it does.
\<close>

definition clear_public_state :: "READER_STATE \<Rightarrow> READER_STATE" where
  "clear_public_state s = s\<lparr>readerName := [], cardAtr := replicate MAX_ATR_SIZE 0, rsState := 0,
     eventCounter := 0, readerSharing := 0, cardAtrLength := READER_NOT_INITIALIZED,
     cardProtocol := SCARD_PROTOCOL_UNDEFINED\<rparr>"

definition RFUnInitializeReader :: "nat \<Rightarrow> 'd pcscd \<Rightarrow> 'd pcscd" where
  "RFUnInitializeReader i w =
     (let w = (if slot (rdr w i) \<noteq> - 1 then snd (call_ifd (IFDCloseIFD (rdr w i) (\<lambda>_. False)) w) else w);
          w = snd (RFUnBindFunctions i w);
          w = snd (RFUnloadReader i w)
      in upd_rdr i (upd_state clear_public_state) w)"

section \<open>Removing a reader\<close>

text \<open>
  The loop that empties the list of handles. It returns \<open>None\<close> when \<^verbatim>\<open>list_delete_at\<close>
  fails, which leaves the list as it is and makes the loop run forever.
\<close>

function drain_handles :: "RDR_CLIHANDLES list_t \<Rightarrow> RDR_CLIHANDLES list_t option" where
  "drain_handles l =
     (if list_size l = 0 then Some l
      else case list_delete_at l 0 of (lrv, l') \<Rightarrow>
        if lrv < 0 then None else drain_handles l')"
  by pat_completeness auto
termination
  by (relation "measure numels")
    (auto simp: list_delete_at_def list_drop_elem_def list_size_def Let_def split: if_splits option.splits)

declare drain_handles.simps [simp del]

text \<open>The part of \<^verbatim>\<open>removeReader\<close> that releases the counters shared with other readers.\<close>

definition release_mutex :: "nat \<Rightarrow> 'd pcscd \<Rightarrow> 'd pcscd" where
  "release_mutex i w =
     (let p = pMutex (rdr w i); w = add_cell p (- 1) w in
      if cell_is p 0 w
      then upd_rdr i (\<lambda>r. r\<lparr>mMutex := None, library := [], device := [], pMutex := None\<rparr>) w
      else w)"

definition release_feeds :: "nat \<Rightarrow> 'd pcscd \<Rightarrow> 'd pcscd" where
  "release_feeds i w =
     (let p = pFeeds (rdr w i); w = add_cell p (- 1) w in
      if cell_is p 0 w then upd_rdr i (\<lambda>r. r\<lparr>pFeeds := None\<rparr>) w else w)"

definition clear_reader :: "'d READER_CONTEXT \<Rightarrow> 'd READER_CONTEXT" where
  "clear_reader r = r\<lparr>version := 0, port := 0, contexts := 0, slot := 0, hLockId := 0,
     LockCount := 0, vHandle := None\<rparr>"

definition remove_handles :: "nat \<Rightarrow> 'd pcscd \<Rightarrow> 'd pcscd" where
  "remove_handles i w =
     (case drain_handles (handlesList (rdr w i)) of
        None \<Rightarrow> set_fault w
      | Some l \<Rightarrow> upd_rdr i (\<lambda>r. r\<lparr>handlesList := list_destroy l\<rparr>) w)"

definition removeReader :: "nat \<Rightarrow> 'd pcscd \<Rightarrow> LONG \<times> 'd pcscd" where
  "removeReader i w =
     (let w = (if pthThread (rdr w i) then EHDestroyEventHandler i w else w) in
      if pMutex (rdr w i) = None \<or> pFeeds (rdr w i) = None then (SCARD_E_INVALID_VALUE, w)
      else let w = RFUnInitializeReader i w;
               w = release_mutex i w;
               w = release_feeds i w;
               w = upd_rdr i clear_reader w;
               w = remove_handles i w
           in (SCARD_S_SUCCESS, EHSignalEventToClients w))"

definition UnrefReader :: "nat \<Rightarrow> 'd pcscd \<Rightarrow> LONG \<times> 'd pcscd" where
  "UnrefReader i w =
     (if reference (rdr w i) = 0 then (SCARD_E_READER_UNAVAILABLE, w)
      else let w = upd_rdr i (\<lambda>r. r\<lparr>reference := int32 (reference r - 1)\<rparr>) w;
               w = (if reference (rdr w i) = 0 then snd (removeReader i w) else w)
           in (SCARD_S_SUCCESS, w))"

section \<open>Finding a reader\<close>

text \<open>The reader at index \<open>i\<close> was found: \<^verbatim>\<open>REF_READER\<close>, then return it.\<close>

definition ref_found :: "nat \<Rightarrow> 'd pcscd \<Rightarrow> (LONG + nat) \<times> 'd pcscd" where
  "ref_found i w =
     (case RefReader (rdr w i) of (rv, r) \<Rightarrow>
        if rv \<noteq> SCARD_S_SUCCESS then (Inl rv, w) else (Inr i, set_rdr i r w))"

definition RFReaderInfo :: "string \<Rightarrow> 'd pcscd \<Rightarrow> (LONG + nat) \<times> 'd pcscd" where
  "RFReaderInfo name w =
     (case position (\<lambda>r. vHandle r \<noteq> None \<and> name = readerName (readerState r)) (sReadersContexts w) of
        None \<Rightarrow> (Inl SCARD_E_UNKNOWN_READER, w)
      | Some i \<Rightarrow> ref_found i w)"

definition RFReaderInfoById :: "SCARDHANDLE \<Rightarrow> 'd pcscd \<Rightarrow> (LONG + nat) \<times> 'd pcscd" where
  "RFReaderInfoById h w =
     (case position (\<lambda>r. vHandle r \<noteq> None \<and> \<not> Option.is_none (list_seek (handlesList r) h))
             (sReadersContexts w) of
        None \<Rightarrow> (Inl SCARD_E_INVALID_VALUE, w)
      | Some i \<Rightarrow> ref_found i w)"

text \<open>
  Handles are drawn until one is unused; \<open>randoms\<close> are the numbers \<^verbatim>\<open>SYS_RandomInt\<close> returns,
  and \<open>None\<close> means that the loop is still running when they are used up.
\<close>

fun create_handle :: "int list \<Rightarrow> 'd pcscd \<Rightarrow> (SCARDHANDLE \<times> 'd pcscd) option" where
  "create_handle [] w = None"
| "create_handle (randHandle # rest) w =
     (case RFReaderInfoById randHandle w of
        (Inl ret, w) \<Rightarrow> Some (randHandle, w\<lparr>randoms := rest\<rparr>)
      | (Inr dummy_reader, w) \<Rightarrow> create_handle rest (snd (UnrefReader dummy_reader w)))"

definition RFCreateReaderHandle :: "'d pcscd \<Rightarrow> (SCARDHANDLE \<times> 'd pcscd) option" where
  "RFCreateReaderHandle w = create_handle (randoms w) w"

section \<open>Invariant of the readers\<close>

definition active :: "'d READER_CONTEXT \<Rightarrow> bool" where
  "active r = (vHandle r \<noteq> None)"

definition reader_ok :: "'d READER_CONTEXT \<Rightarrow> bool" where
  "reader_ok r = (sharing_ok r \<and> 1 \<le> reference r \<and> reference r < 2 ^ 31 - 1)"

definition pcscd_ok :: "'d pcscd \<Rightarrow> bool" where
  "pcscd_ok w =
     ((\<forall>i < length (sReadersContexts w). active (rdr w i) \<longrightarrow> reader_ok (rdr w i)) \<and>
      (\<forall>i < length (sReadersContexts w). \<forall>j < length (sReadersContexts w).
         i \<noteq> j \<and> active (rdr w i) \<and> active (rdr w j) \<longrightarrow>
         set (handles (rdr w i)) \<inter> set (handles (rdr w j)) = {}) \<and>
      list_ok (ClientsWaitingForEvent w) \<and> maxReaderHandles w \<le> 2 ^ 31 - 2)"

text \<open>The handles in use, over all readers.\<close>

definition all_handles :: "'d pcscd \<Rightarrow> SCARDHANDLE set" where
  "all_handles w = (\<Union>i \<in> {i. i < length (sReadersContexts w) \<and> active (rdr w i)}. set (handles (rdr w i)))"

lemma pcscd_ok_reader:
  "pcscd_ok w \<Longrightarrow> i < length (sReadersContexts w) \<Longrightarrow> active (rdr w i) \<Longrightarrow> reader_ok (rdr w i)"
  by (simp add: pcscd_ok_def)

lemma reader_ok_handles: "reader_ok r \<Longrightarrow> handles_ok (handlesList r) \<and> distinct (handles r)"
  by (simp add: reader_ok_def sharing_ok_def)

lemma pcscd_ok_unique:
  assumes "pcscd_ok w" "i < length (sReadersContexts w)" "j < length (sReadersContexts w)"
    and "active (rdr w i)" "active (rdr w j)" "h \<in> set (handles (rdr w i))" "h \<in> set (handles (rdr w j))"
  shows "i = j"
  using assms unfolding pcscd_ok_def by blast

lemma pcscd_ok_fewer:
  assumes "pcscd_ok w" "length (sReadersContexts v) = length (sReadersContexts w)"
    and "list_ok (ClientsWaitingForEvent v)" "maxReaderHandles v = maxReaderHandles w"
    and same: "\<And>j. active (rdr v j) \<Longrightarrow> active (rdr w j) \<and> rdr v j = rdr w j"
  shows "pcscd_ok v"
  unfolding pcscd_ok_def
proof (intro conjI allI impI)
  fix i
  assume "i < length (sReadersContexts v)" "active (rdr v i)"
  then show "reader_ok (rdr v i)"
    using pcscd_ok_reader [OF assms(1), of i] same [of i] assms(2) by simp
next
  fix i j
  assume ij: "i < length (sReadersContexts v)" "j < length (sReadersContexts v)"
    and *: "i \<noteq> j \<and> active (rdr v i) \<and> active (rdr v j)"
  from * have "active (rdr w i) \<and> rdr v i = rdr w i" "active (rdr w j) \<and> rdr v j = rdr w j"
    using same by blast+
  with * ij assms(1,2) show "set (handles (rdr v i)) \<inter> set (handles (rdr v j)) = {}"
    using pcscd_ok_unique [OF assms(1), of i j] by auto
qed (use assms in \<open>auto simp: pcscd_ok_def\<close>)

section \<open>Looking up and releasing\<close>

lemma RFReaderInfoById_found:
  assumes "RFReaderInfoById h w = (Inr i, w')" "pcscd_ok w"
  shows "i < length (sReadersContexts w)" "active (rdr w i)" "h \<in> set (handles (rdr w i))"
    and "w' = set_rdr i ((rdr w i)\<lparr>reference := reference (rdr w i) + 1\<rparr>) w"
proof -
  let ?P = "\<lambda>r. vHandle r \<noteq> None \<and> \<not> Option.is_none (list_seek (handlesList r) h)"
  obtain k where k: "position ?P (sReadersContexts w) = Some k" and f: "ref_found k w = (Inr i, w')"
    using assms(1) by (auto simp: RFReaderInfoById_def split: option.splits)
  from f have ki: "k = i"
    by (auto simp: ref_found_def split: prod.splits if_splits)
  from position_SomeD [OF k] ki show i: "i < length (sReadersContexts w)" and a: "active (rdr w i)"
    by (auto simp: rdr_def active_def)
  have ok: "reader_ok (rdr w i)"
    using pcscd_ok_reader [OF assms(2) i a] .
  from position_SomeD [OF k] ki have "list_seek (handlesList (rdr w i)) h \<noteq> None"
    by (auto simp: rdr_def Option.is_none_def)
  then show "h \<in> set (handles (rdr w i))"
    using list_seek_handles [of "rdr w i" h] reader_ok_handles [OF ok] by simp
  have "int32 (reference (rdr w i) + 1) = reference (rdr w i) + 1"
    using ok by (intro int32_id) (auto simp: reader_ok_def)
  then show "w' = set_rdr i ((rdr w i)\<lparr>reference := reference (rdr w i) + 1\<rparr>) w"
    using f ki by (auto simp: ref_found_def RefReader_def split: if_splits)
qed

lemma RFReaderInfoById_not_found:
  assumes "RFReaderInfoById h w = (Inl rv, w')" "pcscd_ok w"
  shows "rv = SCARD_E_INVALID_VALUE" "w' = w" "h \<notin> all_handles w"
proof -
  let ?P = "\<lambda>r. vHandle r \<noteq> None \<and> \<not> Option.is_none (list_seek (handlesList r) h)"
  have n: "position ?P (sReadersContexts w) = None"
  proof (rule ccontr)
    assume "position ?P (sReadersContexts w) \<noteq> None"
    then obtain k where k: "position ?P (sReadersContexts w) = Some k" by auto
    from position_SomeD [OF this] have "k < length (sReadersContexts w)" "active (rdr w k)"
      by (auto simp: rdr_def active_def)
    then have "reference (rdr w k) \<noteq> 0"
      using pcscd_ok_reader [OF assms(2), of k] by (auto simp: reader_ok_def)
    with k assms(1) show False
      by (auto simp: RFReaderInfoById_def ref_found_def RefReader_def split: if_splits)
  qed
  with assms(1) show "rv = SCARD_E_INVALID_VALUE" "w' = w"
    by (auto simp: RFReaderInfoById_def)
  have "h \<notin> set (handles (rdr w i))" if i: "i < length (sReadersContexts w)" "active (rdr w i)" for i
  proof -
    have "Option.is_none (list_seek (handlesList (rdr w i)) h)"
      using n [unfolded position_None_iff, rule_format, OF nth_mem [OF i(1)]] i
      by (auto simp: rdr_def active_def)
    then show ?thesis
      using list_seek_handles [of "rdr w i" h] reader_ok_handles [OF pcscd_ok_reader [OF assms(2) i]]
      by (simp add: Option.is_none_def)
  qed
  then show "h \<notin> all_handles w"
    by (auto simp: all_handles_def)
qed

lemma RFReaderInfoById_complete:
  assumes "pcscd_ok w" "i < length (sReadersContexts w)" "active (rdr w i)" "h \<in> set (handles (rdr w i))"
  shows "\<exists>w'. RFReaderInfoById h w = (Inr i, w')"
proof (cases "RFReaderInfoById h w")
  case (Pair q w')
  then show ?thesis
  proof (cases q)
    case (Inl rv)
    with RFReaderInfoById_not_found(3) [of h w rv w'] Pair assms show ?thesis
      by (auto simp: all_handles_def)
  next
    case (Inr k)
    with RFReaderInfoById_found [of h w k w'] pcscd_ok_unique [of w i k h] Pair assms show ?thesis
      by auto
  qed
qed

text \<open>Taking and dropping a reference is the identity.\<close>

lemma set_rdr_same [simp]: "i < length (sReadersContexts w) \<Longrightarrow> set_rdr i (rdr w i) w = w"
  by (simp add: set_rdr_def rdr_def)

lemma set_rdr_set_rdr [simp]: "set_rdr i r (set_rdr i r' w) = set_rdr i r w"
  by (simp add: set_rdr_def)

lemma UnrefReader_dec:
  assumes "i < length (sReadersContexts w)" "2 \<le> reference (rdr w i)" "reference (rdr w i) < 2 ^ 31"
  shows "UnrefReader i w = (SCARD_S_SUCCESS, set_rdr i ((rdr w i)\<lparr>reference := reference (rdr w i) - 1\<rparr>) w)"
proof -
  have "int32 (reference (rdr w i) - 1) = reference (rdr w i) - 1"
    using assms by (intro int32_id) auto
  with assms show ?thesis
    by (simp add: UnrefReader_def upd_rdr_def)
qed

lemma ref_unref:
  assumes "RFReaderInfoById h w = (Inr i, w')" "pcscd_ok w"
  shows "UnrefReader i w' = (SCARD_S_SUCCESS, w)"
proof -
  note f = RFReaderInfoById_found [OF assms]
  have "1 \<le> reference (rdr w i)" "reference (rdr w i) < 2 ^ 31 - 1"
    using pcscd_ok_reader [OF assms(2) f(1,2)] by (auto simp: reader_ok_def)
  with f UnrefReader_dec [of i w'] show ?thesis
    by simp
qed

section \<open>Fresh handles\<close>

lemma create_handle_fresh:
  assumes "create_handle rs w = Some (h, w')" "pcscd_ok w"
  shows "h \<notin> all_handles w"
    and "\<exists>used rest. rs = used @ h # rest \<and> set used \<subseteq> all_handles w \<and> w' = w\<lparr>randoms := rest\<rparr>"
  using assms
proof (induction rs w rule: create_handle.induct)
  case (1 w)
  {
    case 1
    then show ?case by simp
  next
    case 2
    then show ?case by simp
  }
next
  case (2 x rest w)
  note IH = 2
  have "h \<notin> all_handles w \<and>
      (\<exists>used rest'. x # rest = used @ h # rest' \<and> set used \<subseteq> all_handles w \<and> w' = w\<lparr>randoms := rest'\<rparr>)"
    if c: "create_handle (x # rest) w = Some (h, w')" "pcscd_ok w"
  proof (cases "RFReaderInfoById x w")
    case (Pair q v)
    show ?thesis
    proof (cases q)
      case (Inl rv)
      with Pair c RFReaderInfoById_not_found [of x w rv v] show ?thesis
        by (auto intro: exI [of _ "[]"])
    next
      case (Inr i)
      with Pair have f: "RFReaderInfoById x w = (Inr i, v)" by simp
      have u: "snd (UnrefReader i v) = w"
        using ref_unref [OF f c(2)] by simp
      have x: "x \<in> all_handles w"
        using RFReaderInfoById_found [OF f c(2)] by (auto simp: all_handles_def)
      have c': "create_handle rest (snd (UnrefReader i v)) = Some (h, w')"
        using c(1) f by simp
      from IH(1) [OF f [symmetric] refl c'] IH(2) [OF f [symmetric] refl c'] c(2) u
      obtain used rest' where "h \<notin> all_handles w" "rest = used @ h # rest'"
        "set used \<subseteq> all_handles w" "w' = w\<lparr>randoms := rest'\<rparr>"
        by auto
      with x show ?thesis
        by (intro conjI exI [of _ "x # used"] exI [of _ rest']) auto
    qed
  qed
  then show "create_handle (x # rest) w = Some (h, w') \<Longrightarrow> pcscd_ok w \<Longrightarrow> h \<notin> all_handles w"
    and "create_handle (x # rest) w = Some (h, w') \<Longrightarrow> pcscd_ok w \<Longrightarrow>
      \<exists>used rest'. x # rest = used @ h # rest' \<and> set used \<subseteq> all_handles w \<and> w' = w\<lparr>randoms := rest'\<rparr>"
    by blast+
qed

lemma create_handle_returns:
  assumes "pcscd_ok w" "h \<in> set rs" "h \<notin> all_handles w"
  shows "\<exists>h' w'. create_handle rs w = Some (h', w')"
  using assms
proof (induction rs)
  case Nil
  then show ?case by simp
next
  case (Cons x rest)
  show ?case
  proof (cases "RFReaderInfoById x w")
    case (Pair q v)
    show ?thesis
    proof (cases q)
      case (Inl rv)
      with Pair show ?thesis by simp
    next
      case (Inr i)
      with Pair have f: "RFReaderInfoById x w = (Inr i, v)" by simp
      have "x \<in> all_handles w"
        using RFReaderInfoById_found [OF f Cons.prems(1)] by (auto simp: all_handles_def)
      with Cons.prems have "h \<in> set rest" by auto
      with Cons f ref_unref [OF f Cons.prems(1)] show ?thesis
        by simp
    qed
  qed
qed

section \<open>Removal of a reader\<close>

lemma drain_handles_ok:
  "handles_ok l \<Longrightarrow> \<exists>l'. drain_handles l = Some l' \<and> entries l' = [] \<and> handles_ok l'"
proof (induction l rule: drain_handles.induct)
  case (1 l)
  show ?case
  proof (cases "entries l")
    case Nil
    with 1(2) show ?thesis
      by (subst drain_handles.simps) simp
  next
    case (Cons x xs)
    then have n: "0 < length (entries l)" by simp
    from hl.delete_at_ok [OF 1(2) n] hl.inv_delete_at [OF 1(2) n]
    obtain l' where d: "list_delete_at l 0 = (0, l')" and ok: "handles_ok l'"
      by (cases "list_delete_at l 0") auto
    from 1(1) [OF _ d [symmetric] _ ok] n 1(2) d show ?thesis
      by (subst drain_handles.simps) simp
  qed
qed

lemma set_fault_frame [simp]:
  "sReadersContexts (set_fault w) = sReadersContexts w" "rdr (set_fault w) i = rdr w i"
  "ClientsWaitingForEvent (set_fault w) = ClientsWaitingForEvent w"
  "signalled (set_fault w) = signalled w" "intCells (set_fault w) = intCells w"
  by (simp_all add: set_fault_def)

lemma maxReaderHandles_frame [simp]:
  "maxReaderHandles (upd_rdr i f w) = maxReaderHandles w"
  "maxReaderHandles (upd_rstate i g w) = maxReaderHandles w"
  "maxReaderHandles (snd (call_ifd h w)) = maxReaderHandles w"
  "maxReaderHandles (snd (call_at i a t w)) = maxReaderHandles w"
  "maxReaderHandles (set_fault w) = maxReaderHandles w"
  "maxReaderHandles (add_cell p d w) = maxReaderHandles w"
  by (auto simp: upd_rdr_def upd_rstate_def call_ifd_def call_at_def set_fault_def add_cell_def split_beta
      split: option.splits)

lemma add_cell_frame [simp]:
  "sReadersContexts (add_cell p d w) = sReadersContexts w" "rdr (add_cell p d w) i = rdr w i"
  "ClientsWaitingForEvent (add_cell p d w) = ClientsWaitingForEvent w"
  "signalled (add_cell p d w) = signalled w"
  by (auto simp: add_cell_def rdr_def split: option.splits)

lemma intCells_upd_rdr [simp]: "intCells (upd_rdr i f w) = intCells w"
  by (simp add: upd_rdr_def)

lemma intCells_call_ifd [simp]: "intCells (snd (call_ifd f w)) = intCells w"
  by (simp add: call_ifd_def split_beta)

lemma RFUnInitializeReader_rdr:
  assumes "i < length (sReadersContexts w)"
  shows "rdr (RFUnInitializeReader i w) j =
      (if i = j then upd_state clear_public_state ((rdr w i)\<lparr>psFunctions := fct_map_null, vHandle := None\<rparr>)
       else rdr w j)"
    and "length (sReadersContexts (RFUnInitializeReader i w)) = length (sReadersContexts w)"
    and "ClientsWaitingForEvent (RFUnInitializeReader i w) = ClientsWaitingForEvent w"
    and "signalled (RFUnInitializeReader i w) = signalled w"
    and "intCells (RFUnInitializeReader i w) = intCells w"
  using assms
  by (auto simp: RFUnInitializeReader_def RFUnBindFunctions_def RFUnloadReader_def Let_def)

text \<open>What \<^verbatim>\<open>removeReader\<close> leaves of the reader, whatever the driver does.\<close>

lemma eh_destroy_frame:
  assumes "i < length (sReadersContexts w)"
  shows "length (sReadersContexts (EHDestroyEventHandler i w)) = length (sReadersContexts w)"
    and "j \<noteq> i \<Longrightarrow> rdr (EHDestroyEventHandler i w) j = rdr w j"
    and "handlesList (rdr (EHDestroyEventHandler i w) i) = handlesList (rdr w i)"
    and "pMutex (rdr (EHDestroyEventHandler i w) i) = pMutex (rdr w i)"
    and "pFeeds (rdr (EHDestroyEventHandler i w) i) = pFeeds (rdr w i)"
    and "ClientsWaitingForEvent (EHDestroyEventHandler i w) = ClientsWaitingForEvent w"
    and "signalled (EHDestroyEventHandler i w) = signalled w"
    and "intCells (EHDestroyEventHandler i w) = intCells w"
proof -
  have c: "intCells (snd (call_at i a t v)) = intCells v" for a t and v :: "'d pcscd"
    by (auto simp: call_at_def split: option.splits)
  have e: "length (sReadersContexts (snd (eh_exit i (eh_power i v)))) = length (sReadersContexts v)"
    "j \<noteq> i \<Longrightarrow> rdr (snd (eh_exit i (eh_power i v))) j = rdr v j"
    "handlesList (rdr (snd (eh_exit i (eh_power i v))) i) = handlesList (rdr v i)"
    "pMutex (rdr (snd (eh_exit i (eh_power i v))) i) = pMutex (rdr v i)"
    "pFeeds (rdr (snd (eh_exit i (eh_power i v))) i) = pFeeds (rdr v i)"
    "ClientsWaitingForEvent (snd (eh_exit i (eh_power i v))) = ClientsWaitingForEvent v"
    "signalled (snd (eh_exit i (eh_power i v))) = signalled v"
    "intCells (snd (eh_exit i (eh_power i v))) = intCells v"
    if "i < length (sReadersContexts v)" for v :: "'d pcscd"
    using that by (auto simp: eh_exit_def eh_power_def Let_def split_beta)
  have q: "length (sReadersContexts (snd (eh_destroy_request i w))) = length (sReadersContexts w)"
    "j \<noteq> i \<Longrightarrow> rdr (snd (eh_destroy_request i w)) j = rdr w j"
    "handlesList (rdr (snd (eh_destroy_request i w)) i) = handlesList (rdr w i)"
    "pMutex (rdr (snd (eh_destroy_request i w)) i) = pMutex (rdr w i)"
    "pFeeds (rdr (snd (eh_destroy_request i w)) i) = pFeeds (rdr w i)"
    "ClientsWaitingForEvent (snd (eh_destroy_request i w)) = ClientsWaitingForEvent w"
    "signalled (snd (eh_destroy_request i w)) = signalled w"
    "intCells (snd (eh_destroy_request i w)) = intCells w"
    using assms by (auto simp: eh_destroy_request_def Let_def split_beta c)
  from assms q e [of "snd (eh_destroy_request i w)"] show
    "length (sReadersContexts (EHDestroyEventHandler i w)) = length (sReadersContexts w)"
    "j \<noteq> i \<Longrightarrow> rdr (EHDestroyEventHandler i w) j = rdr w j"
    "handlesList (rdr (EHDestroyEventHandler i w) i) = handlesList (rdr w i)"
    "pMutex (rdr (EHDestroyEventHandler i w) i) = pMutex (rdr w i)"
    "pFeeds (rdr (EHDestroyEventHandler i w) i) = pFeeds (rdr w i)"
    "ClientsWaitingForEvent (EHDestroyEventHandler i w) = ClientsWaitingForEvent w"
    "signalled (EHDestroyEventHandler i w) = signalled w"
    "intCells (EHDestroyEventHandler i w) = intCells w"
    by (auto simp: EHDestroyEventHandler_def Let_def split_beta)
qed

text \<open>The state just before the shared counters are released.\<close>

definition closing :: "nat \<Rightarrow> 'd pcscd \<Rightarrow> 'd pcscd" where
  "closing i w = RFUnInitializeReader i (if pthThread (rdr w i) then EHDestroyEventHandler i w else w)"

lemma closing_frame:
  assumes "i < length (sReadersContexts w)"
  shows "length (sReadersContexts (closing i w)) = length (sReadersContexts w)"
    and "j \<noteq> i \<Longrightarrow> rdr (closing i w) j = rdr w j"
    and "handlesList (rdr (closing i w) i) = handlesList (rdr w i)"
    and "pMutex (rdr (closing i w) i) = pMutex (rdr w i)"
    and "pFeeds (rdr (closing i w) i) = pFeeds (rdr w i)"
    and "ClientsWaitingForEvent (closing i w) = ClientsWaitingForEvent w"
    and "signalled (closing i w) = signalled w"
    and "intCells (closing i w) = intCells w"
    and "readerName (readerState (rdr (closing i w) i)) = []"
  using assms eh_destroy_frame [OF assms] eh_destroy_frame(2) [OF assms, of j]
  by (auto simp: closing_def RFUnInitializeReader_rdr clear_public_state_def)

lemma release_frame:
  assumes "i < length (sReadersContexts w)"
  shows "length (sReadersContexts (release_feeds i (release_mutex i w))) = length (sReadersContexts w)"
    and "j \<noteq> i \<Longrightarrow> rdr (release_feeds i (release_mutex i w)) j = rdr w j"
    and "handlesList (rdr (release_feeds i (release_mutex i w)) i) = handlesList (rdr w i)"
    and "readerState (rdr (release_feeds i (release_mutex i w)) i) = readerState (rdr w i)"
    and "ClientsWaitingForEvent (release_feeds i (release_mutex i w)) = ClientsWaitingForEvent w"
    and "signalled (release_feeds i (release_mutex i w)) = signalled w"
  using assms by (auto simp: release_feeds_def release_mutex_def Let_def)

lemma removeReader_result:
  assumes "i < length (sReadersContexts w)" "pMutex (rdr w i) \<noteq> None" "pFeeds (rdr w i) \<noteq> None"
    and "handles_ok (handlesList (rdr w i))" "list_ok (ClientsWaitingForEvent w)"
  shows "fst (removeReader i w) = SCARD_S_SUCCESS"
    and "\<not> active (rdr (snd (removeReader i w)) i)"
    and "handles (rdr (snd (removeReader i w)) i) = []"
    and "hLockId (rdr (snd (removeReader i w)) i) = 0 \<and> LockCount (rdr (snd (removeReader i w)) i) = 0 \<and>
      contexts (rdr (snd (removeReader i w)) i) = 0"
    and "readerName (readerState (rdr (snd (removeReader i w)) i)) = []"
    and "j \<noteq> i \<Longrightarrow> rdr (snd (removeReader i w)) j = rdr w j"
    and "length (sReadersContexts (snd (removeReader i w))) = length (sReadersContexts w)"
    and "signalled (snd (removeReader i w)) =
      signalled w @ map (\<lambda>fd. (fd, SCARD_S_SUCCESS)) (entries (ClientsWaitingForEvent w))"
    and "entries (ClientsWaitingForEvent (snd (removeReader i w))) = []"
    and "list_ok (ClientsWaitingForEvent (snd (removeReader i w)))"
proof -
  let ?c = "closing i w"
  let ?v = "upd_rdr i clear_reader (release_feeds i (release_mutex i ?c))"
  note cf = closing_frame [OF assms(1)]
  have ic: "i < length (sReadersContexts ?c)" using cf(1) assms(1) by simp
  note rf = release_frame [OF ic]
  have iv: "i < length (sReadersContexts (release_feeds i (release_mutex i ?c)))"
    using rf(1) ic by simp
  have hl: "handlesList (rdr ?v i) = handlesList (rdr w i)"
    using iv cf(3) rf(3) by (simp add: clear_reader_def)
  obtain l where l: "drain_handles (handlesList (rdr w i)) = Some l" "entries l = []" "handles_ok l"
    using drain_handles_ok [OF assms(4)] by auto
  have rm: "removeReader i w = (SCARD_S_SUCCESS,
      EHSignalEventToClients (upd_rdr i (\<lambda>r. r\<lparr>handlesList := list_destroy l\<rparr>) ?v))"
    using eh_destroy_frame(4,5) [OF assms(1)] assms(2,3) hl l
    by (auto simp: removeReader_def Let_def closing_def remove_handles_def)
  have nl: "entries (list_destroy l) = []"
    using l by (auto simp: list_destroy_def list_clear_def)
  have v: "rdr (snd (removeReader i w)) j =
      (if i = j then (clear_reader (rdr (release_feeds i (release_mutex i ?c)) i))\<lparr>handlesList := list_destroy l\<rparr>
       else rdr w j)" for j
    using iv cf(2) rf(2) by (auto simp: rm)
  show "fst (removeReader i w) = SCARD_S_SUCCESS"
    by (simp add: rm)
  show "\<not> active (rdr (snd (removeReader i w)) i)"
    and "handles (rdr (snd (removeReader i w)) i) = []"
    and "hLockId (rdr (snd (removeReader i w)) i) = 0 \<and> LockCount (rdr (snd (removeReader i w)) i) = 0 \<and>
      contexts (rdr (snd (removeReader i w)) i) = 0"
    and "readerName (readerState (rdr (snd (removeReader i w)) i)) = []"
    using nl rf(4) cf(9) by (simp_all add: v active_def clear_reader_def handles_def)
  show "j \<noteq> i \<Longrightarrow> rdr (snd (removeReader i w)) j = rdr w j"
    by (simp add: v)
  show "length (sReadersContexts (snd (removeReader i w))) = length (sReadersContexts w)"
    using cf(1) rf(1) by (simp add: rm)
  show "signalled (snd (removeReader i w)) =
      signalled w @ map (\<lambda>fd. (fd, SCARD_S_SUCCESS)) (entries (ClientsWaitingForEvent w))"
    and "entries (ClientsWaitingForEvent (snd (removeReader i w))) = []"
    and "list_ok (ClientsWaitingForEvent (snd (removeReader i w)))"
    using EHSignalEventToClients_all [of "upd_rdr i (\<lambda>r. r\<lparr>handlesList := list_destroy l\<rparr>) ?v"]
      cf(6,7) rf(5,6) assms(5)
    by (simp_all add: rm)
qed

lemma maxReaderHandles_eh [simp]:
  "maxReaderHandles (eh_power i w) = maxReaderHandles w"
  "maxReaderHandles (snd (eh_exit i w)) = maxReaderHandles w"
  "maxReaderHandles (snd (eh_destroy_request i w)) = maxReaderHandles w"
  by (simp_all add: eh_power_def eh_exit_def eh_destroy_request_def Let_def split_beta)

lemma maxReaderHandles_close [simp]:
  "maxReaderHandles (EHDestroyEventHandler i w) = maxReaderHandles w"
  "maxReaderHandles (snd (RFUnloadReader i w)) = maxReaderHandles w"
  "maxReaderHandles (snd (RFUnBindFunctions i w)) = maxReaderHandles w"
  "maxReaderHandles (release_mutex i w) = maxReaderHandles w"
  "maxReaderHandles (release_feeds i w) = maxReaderHandles w"
  "maxReaderHandles (remove_handles i w) = maxReaderHandles w"
  by (simp_all add: EHDestroyEventHandler_def RFUnloadReader_def RFUnBindFunctions_def release_mutex_def
      release_feeds_def remove_handles_def Let_def split_beta split: option.split)

lemma maxReaderHandles_removeReader [simp]:
  "maxReaderHandles (snd (removeReader i w)) = maxReaderHandles w"
  by (simp add: removeReader_def RFUnInitializeReader_def Let_def)

text \<open>Removing a reader keeps the invariant of the others.\<close>

lemma removeReader_pcscd_ok:
  assumes "pcscd_ok w" "i < length (sReadersContexts w)" "active (rdr w i)"
    and "pMutex (rdr w i) \<noteq> None" "pFeeds (rdr w i) \<noteq> None"
  shows "pcscd_ok (snd (removeReader i w))"
proof -
  have ok: "handles_ok (handlesList (rdr w i))" "list_ok (ClientsWaitingForEvent w)"
    using assms reader_ok_handles [OF pcscd_ok_reader [OF assms(1-3)]] by (auto simp: pcscd_ok_def)
  note r = removeReader_result [OF assms(2,4,5) ok]
  let ?v = "snd (removeReader i w)"
  have a: "active (rdr ?v j) \<Longrightarrow> j \<noteq> i" "j \<noteq> i \<Longrightarrow> rdr ?v j = rdr w j" for j
    using r(2,6) by auto
  have "active (rdr ?v j) \<Longrightarrow> active (rdr w j) \<and> rdr ?v j = rdr w j" for j
    using a [of j] by auto
  moreover have "list_ok (ClientsWaitingForEvent ?v)" "length (sReadersContexts ?v) = length (sReadersContexts w)"
    using r(7,10) by auto
  ultimately show ?thesis
    by (intro pcscd_ok_fewer [OF assms(1)]) simp_all
qed

section \<open>Sharing of a driver between readers\<close>

text \<open>
  The counter behind \<^verbatim>\<open>pFeeds\<close> is the number of readers that point to it. The library is
  closed exactly when its last reader goes away.
\<close>

definition feeders :: "nat \<Rightarrow> 'd pcscd \<Rightarrow> nat set" where
  "feeders a w = {i. i < length (sReadersContexts w) \<and> active (rdr w i) \<and> pFeeds (rdr w i) = Some a}"

definition feeds_ok :: "'d pcscd \<Rightarrow> bool" where
  "feeds_ok w =
     ((\<forall>i < length (sReadersContexts w). active (rdr w i) \<longrightarrow>
         (\<exists>a. pFeeds (rdr w i) = Some a \<and> intCells w a = int (card (feeders a w))) \<and>
         pMutex (rdr w i) \<noteq> None) \<and>
      (\<forall>i < length (sReadersContexts w). \<forall>j < length (sReadersContexts w).
         active (rdr w i) \<and> active (rdr w j) \<longrightarrow> pFeeds (rdr w i) \<noteq> pMutex (rdr w j)))"

lemma finite_feeders [simp]: "finite (feeders a w)"
  by (simp add: feeders_def)

lemma closing_dlclosed:
  assumes "i < length (sReadersContexts w)" "pFeeds (rdr w i) = Some a"
  shows "dlclosed (closing i w) = (if intCells w a = 1 then
      (case vHandle (rdr w i) of None \<Rightarrow> dlclosed w | Some l \<Rightarrow> l # dlclosed w) else dlclosed w)"
proof -
  have c: "dlclosed (snd (call_at i a t v)) = dlclosed v" "vHandle (rdr (snd (call_at i a t v)) j) = vHandle (rdr v j)"
    for a t j and v :: "'d pcscd"
    by (auto simp: call_at_def call_ifd_def split_beta split: option.splits)
  have d: "dlclosed (upd_rdr i f v) = dlclosed v" "dlclosed (snd (call_ifd g v)) = dlclosed v" for f g and v :: "'d pcscd"
    by (simp_all add: upd_rdr_def call_ifd_def split_beta)
  have q: "dlclosed (snd (eh_destroy_request i w)) = dlclosed w"
    "vHandle (rdr (snd (eh_destroy_request i w)) i) = vHandle (rdr w i)"
    "length (sReadersContexts (snd (eh_destroy_request i w))) = length (sReadersContexts w)"
    using assms(1) by (auto simp: eh_destroy_request_def Let_def split_beta c d)
  have e: "dlclosed (snd (eh_exit i (eh_power i v))) = dlclosed v"
    "vHandle (rdr (snd (eh_exit i (eh_power i v))) i) = vHandle (rdr v i)"
    if "i < length (sReadersContexts v)" for v :: "'d pcscd"
    using that by (auto simp: eh_exit_def eh_power_def Let_def split_beta d)
  have v: "dlclosed (EHDestroyEventHandler i w) = dlclosed w"
    "vHandle (rdr (EHDestroyEventHandler i w) i) = vHandle (rdr w i)"
    using assms(1) q e [of "snd (eh_destroy_request i w)"]
      eh_destroy_frame(1) [OF assms(1)]
    by (auto simp: EHDestroyEventHandler_def Let_def split_beta d)
  note f = eh_destroy_frame [OF assms(1)]
  have u: "dlclosed (RFUnInitializeReader i x) = (if intCells x a = 1 then
      (case vHandle (rdr x i) of None \<Rightarrow> dlclosed x | Some l \<Rightarrow> l # dlclosed x) else dlclosed x)"
    if "pFeeds (rdr x i) = Some a" "i < length (sReadersContexts x)" for x :: "'d pcscd"
    using that
    by (auto simp: RFUnInitializeReader_def RFUnBindFunctions_def RFUnloadReader_def Let_def cell_is_def d
        split: option.splits)
  show ?thesis
    using u [of w] u [of "EHDestroyEventHandler i w"] assms v f
    by (auto simp: closing_def split: option.splits)
qed

lemma release_cells:
  assumes "i < length (sReadersContexts w)" "pMutex (rdr w i) = Some m" "pFeeds (rdr w i) = Some a" "a \<noteq> m"
  shows "intCells (release_feeds i (release_mutex i w)) b =
      intCells w b - (if b = a then 1 else 0) - (if b = m then 1 else 0)"
    and "dlclosed (release_feeds i (release_mutex i w)) = dlclosed w"
  using assms by (auto simp: release_feeds_def release_mutex_def Let_def add_cell_def cell_is_def upd_rdr_def)

lemma removeReader_cells:
  assumes "i < length (sReadersContexts w)" "pMutex (rdr w i) = Some m" "pFeeds (rdr w i) = Some a" "a \<noteq> m"
  shows "intCells (snd (removeReader i w)) b =
      intCells w b - (if b = a then 1 else 0) - (if b = m then 1 else 0)"
    and "dlclosed (snd (removeReader i w)) = dlclosed (closing i w)"
proof -
  let ?c = "closing i w"
  note cf = closing_frame [OF assms(1)]
  have ic: "i < length (sReadersContexts ?c)" using cf(1) assms(1) by simp
  have h: "intCells (remove_handles i v) = intCells v" "dlclosed (remove_handles i v) = dlclosed v"
    for v :: "'d pcscd"
    by (auto simp: remove_handles_def upd_rdr_def set_fault_def split: option.splits)
  have s: "dlclosed (EHSignalEventToClients v) = dlclosed v" for v :: "'d pcscd"
    by (simp add: EHSignalEventToClients_def Let_def split_beta)
  have rm: "removeReader i w = (SCARD_S_SUCCESS,
      EHSignalEventToClients (remove_handles i (upd_rdr i clear_reader (release_feeds i (release_mutex i ?c)))))"
    using eh_destroy_frame(4,5) [OF assms(1)] assms(2,3)
    by (auto simp: removeReader_def Let_def closing_def)
  note rc = release_cells [OF ic cf(4) [unfolded assms(2)] cf(5) [unfolded assms(3)] assms(4)]
  show "intCells (snd (removeReader i w)) b =
      intCells w b - (if b = a then 1 else 0) - (if b = m then 1 else 0)"
    using rc(1) cf(8) by (simp add: rm h)
  show "dlclosed (snd (removeReader i w)) = dlclosed ?c"
    using rc(2) by (simp add: rm h s upd_rdr_def)
qed

lemma removeReader_feeds:
  assumes "pcscd_ok w" "feeds_ok w" "i < length (sReadersContexts w)" "active (rdr w i)"
  shows "feeds_ok (snd (removeReader i w))"
    and "\<exists>a l. pFeeds (rdr w i) = Some a \<and> vHandle (rdr w i) = Some l \<and>
      dlclosed (snd (removeReader i w)) = (if feeders a w = {i} then l # dlclosed w else dlclosed w)"
proof -
  from assms obtain a m where a: "pFeeds (rdr w i) = Some a" "intCells w a = int (card (feeders a w))"
    and m: "pMutex (rdr w i) = Some m" and am: "a \<noteq> m"
    unfolding feeds_ok_def by fastforce
  obtain l where l: "vHandle (rdr w i) = Some l"
    using assms(4) by (auto simp: active_def)
  have ok: "handles_ok (handlesList (rdr w i))" "list_ok (ClientsWaitingForEvent w)"
    using assms(1) reader_ok_handles [OF pcscd_ok_reader [OF assms(1,3,4)]] by (auto simp: pcscd_ok_def)
  note r = removeReader_result [OF assms(3) _ _ ok]
  note c = removeReader_cells [OF assms(3) m a(1) am]
  let ?v = "snd (removeReader i w)"
  have act: "active (rdr ?v j) \<longleftrightarrow> j \<noteq> i \<and> active (rdr w j)" "j \<noteq> i \<Longrightarrow> rdr ?v j = rdr w j" for j
    using r(2) r(6) [of j] a m by (cases "j = i"; simp)+
  have i_in: "i \<in> feeders a w"
    using assms(3,4) a(1) by (simp add: feeders_def)
  have f: "feeders b ?v = feeders b w - {i}" for b
    using act r(7) a m by (auto simp: feeders_def)
  have one: "card (feeders a w) = 1 \<longleftrightarrow> feeders a w = {i}"
    using i_in by (auto simp: card_1_singleton_iff)
  show "\<exists>a l. pFeeds (rdr w i) = Some a \<and> vHandle (rdr w i) = Some l \<and>
      dlclosed ?v = (if feeders a w = {i} then l # dlclosed w else dlclosed w)"
    using closing_dlclosed [OF assms(3) a(1)] a l c(2) one by simp
  have cells: "intCells ?v b = int (card (feeders b ?v))"
    if j: "j < length (sReadersContexts w)" "active (rdr w j)" "pFeeds (rdr w j) = Some b" for j b
  proof -
    have b: "intCells w b = int (card (feeders b w))" and bm: "b \<noteq> m"
      using assms(2-4) j m unfolding feeds_ok_def by fastforce+
    show ?thesis
    proof (cases "b = a")
      case True
      have "1 \<le> card (feeders a w)"
        using i_in by (auto simp: Suc_le_eq card_gt_0_iff)
      with True show ?thesis
        using c(1) [of b] b bm f [of b] i_in by (simp add: of_nat_diff)
    next
      case False
      then have "i \<notin> feeders b w" using a(1) by (auto simp: feeders_def)
      with False show ?thesis
        using c(1) [of b] b bm f [of b] by simp
    qed
  qed
  have len: "length (sReadersContexts ?v) = length (sReadersContexts w)"
    using r(7) a m by simp
  show "feeds_ok ?v"
    using assms(2) cells len unfolding feeds_ok_def by (simp add: act) (metis option.inject)
qed

end
