(* ===== verification/Atrhandler.thy ===== *)
theory Atrhandler
  imports Pcsc_Prelude
begin

text \<open>
  The ATR decoder of \<^verbatim>\<open>src/src/atrhandler.c\<close>. \<^verbatim>\<open>pucAtr\<close> is modelled by the memory it
  points to, a function from offsets to bytes, because the decoder indexes it without
  looking at the length it is given: the theorems state which offsets it can reach.
  An interface character that is absent (\<^verbatim>\<open>-1\<close> in the source) is \<open>None\<close>. The result is
  the triple of the returned code and the two output masks, which the callers read even
  when the code is negative.
\<close>

type_synonym memory = "nat \<Rightarrow> UCHAR"
type_synonym atr_result = "int \<times> u32 \<times> u32"

definition interface_char :: "memory \<Rightarrow> UCHAR \<Rightarrow> nat \<Rightarrow> UCHAR option \<times> nat" where
  "interface_char pucAtr present p =
     (if present \<noteq> 0 then (Some (pucAtr p), p + 1) else (None, p))"

text \<open>The four \<^verbatim>\<open>p++\<close> reads of one round: TAi, TDi and the offset after them.\<close>

definition interface_chars :: "memory \<Rightarrow> UCHAR \<Rightarrow> nat \<Rightarrow> UCHAR option \<times> UCHAR option \<times> nat" where
  "interface_chars pucAtr Y1i p =
     (let (TAi, p) = interface_char pucAtr (Y1i AND 0x01) p;
          (TBi, p) = interface_char pucAtr (Y1i AND 0x02) p;
          (TCi, p) = interface_char pucAtr (Y1i AND 0x04) p;
          (TDi, p) = interface_char pucAtr (Y1i AND 0x08) p
      in (TAi, TDi, p))"

text \<open>Examining TDi: \<open>Inl\<close> is \<^verbatim>\<open>return -3\<close>, otherwise the next Y1 and the two masks.\<close>

definition examine_TD :: "UCHAR option \<Rightarrow> u32 \<Rightarrow> u32 \<Rightarrow> atr_result + (UCHAR \<times> u32 \<times> u32)" where
  "examine_TD TDi available current =
     (case TDi of
        None \<Rightarrow> Inr (0, available, current)
      | Some td \<Rightarrow>
          let Y1i = drop_bit 4 td; T = td AND 0x0F in
          if current = SCARD_PROTOCOL_UNDEFINED \<and> T \<noteq> 0 \<and> T \<noteq> 1 then Inl (- 3, available, current)
          else
            let current = (if current = SCARD_PROTOCOL_UNDEFINED
                  then (if T = 0 then SCARD_PROTOCOL_T0 else SCARD_PROTOCOL_T1) else current);
                available = (if T = 0 then available OR SCARD_PROTOCOL_T0
                  else if T = 1 then available OR SCARD_PROTOCOL_T1
                  else if T = 15 then available OR SCARD_PROTOCOL_T15
                  else available)
            in Inr (Y1i, available, current))"

text \<open>TA2 present: specific mode. \<open>Inl\<close> is \<^verbatim>\<open>return -4\<close>.\<close>

definition examine_TA2 :: "nat \<Rightarrow> UCHAR option \<Rightarrow> u32 \<Rightarrow> u32 \<Rightarrow> atr_result + (u32 \<times> u32)" where
  "examine_TA2 i TAi available current =
     (case TAi of
        None \<Rightarrow> Inr (available, current)
      | Some ta \<Rightarrow>
          if i = 2 then
            (if ta AND 0x0F = 0 then Inr (SCARD_PROTOCOL_T0, SCARD_PROTOCOL_T0)
             else if ta AND 0x0F = 1 then Inr (SCARD_PROTOCOL_T1, SCARD_PROTOCOL_T1)
             else Inl (- 4, available, current))
          else Inr (available, current))"

definition atr_round ::
  "memory \<Rightarrow> UCHAR \<Rightarrow> nat \<Rightarrow> nat \<Rightarrow> u32 \<Rightarrow> u32 \<Rightarrow> atr_result + (UCHAR \<times> nat \<times> u32 \<times> u32)" where
  "atr_round pucAtr Y1i p i available current =
     (case interface_chars pucAtr Y1i p of (TAi, TDi, p') \<Rightarrow>
        case examine_TD TDi available current of
          Inl r \<Rightarrow> Inl r
        | Inr (Y1i', available', current') \<Rightarrow>
            (case examine_TA2 i TAi available' current' of
               Inl r \<Rightarrow> Inl r
             | Inr (available'', current'') \<Rightarrow>
                 if p' > MAX_ATR_SIZE then Inl (- 5, available'', current'')
                 else Inr (Y1i', p', available'', current'')))"

lemma interface_char_le: "interface_char pucAtr b p = (c, p') \<Longrightarrow> p \<le> p' \<and> p' \<le> p + 1"
  by (auto simp: interface_char_def split: if_splits)

lemma interface_chars_bounds:
  "interface_chars pucAtr Y p = (TAi, TDi, p') \<Longrightarrow> p \<le> p' \<and> p' \<le> p + 4 \<and> (TDi \<noteq> None \<longrightarrow> p < p')"
  by (auto simp: interface_chars_def interface_char_def split: if_splits prod.splits)

text \<open>A round after which the loop goes on has consumed at least TDi.\<close>

lemma atr_round_progress:
  "atr_round pucAtr Y p i av cu = Inr (Y', p', av', cu') \<Longrightarrow> Y' \<noteq> 0 \<Longrightarrow> p < p' \<and> p' \<le> MAX_ATR_SIZE"
  using interface_chars_bounds [of pucAtr Y p]
  by (force simp: atr_round_def examine_TD_def Let_def split: prod.splits sum.splits option.splits if_splits)

function atr_loop :: "memory \<Rightarrow> UCHAR \<Rightarrow> nat \<Rightarrow> nat \<Rightarrow> u32 \<Rightarrow> u32 \<Rightarrow> atr_result" where
  "atr_loop pucAtr Y1i p i available current =
     (case atr_round pucAtr Y1i p i available current of
        Inl r \<Rightarrow> r
      | Inr (Y1i', p', available', current') \<Rightarrow>
          if Y1i' \<noteq> 0 then atr_loop pucAtr Y1i' p' (i + 1) available' current'
          else if current' = SCARD_PROTOCOL_UNDEFINED
            then (0, available' OR SCARD_PROTOCOL_T0, SCARD_PROTOCOL_T0)
          else (0, available', current'))"
  by pat_completeness auto
termination
  by (relation "measure (\<lambda>(pucAtr, Y, p, i, av, cu). MAX_ATR_SIZE + 1 - p)")
    (auto dest: atr_round_progress)

declare atr_loop.simps [simp del]

definition ATRDecodeAtr :: "memory \<Rightarrow> DWORD \<Rightarrow> atr_result" where
  "ATRDecodeAtr pucAtr dwLength =
     (if dwLength < 2 then (- 1, SCARD_PROTOCOL_UNDEFINED, SCARD_PROTOCOL_UNDEFINED)
      else if pucAtr 0 \<noteq> 0x3F \<and> pucAtr 0 \<noteq> 0x3B
        then (- 2, SCARD_PROTOCOL_UNDEFINED, SCARD_PROTOCOL_UNDEFINED)
      else atr_loop pucAtr (drop_bit 4 (pucAtr 1)) 2 1
        SCARD_PROTOCOL_UNDEFINED SCARD_PROTOCOL_UNDEFINED)"

section \<open>The masks the decoder computes\<close>

text \<open>
  Loop invariant: the current protocol is undefined or one of T=0 and T=1, and once
  defined it is among the available ones; available never holds a bit other than T=0, T=1
  and T=15.
\<close>

definition masks_ok :: "u32 \<Rightarrow> u32 \<Rightarrow> bool" where
  "masks_ok available current =
     ((current = 0 \<or> current = 1 \<or> current = 2) \<and> available AND current = current \<and>
      available AND 0xB = available)"

lemma and_or_absorb: "(a::'a::len word) AND c = c \<Longrightarrow> (a OR b) AND c = c"
  by (simp add: bit.conj_disj_distrib2 word_ao_absorbs)

lemma or_and_mask: "(a::'a::len word) AND c = a \<Longrightarrow> b AND c = b \<Longrightarrow> (a OR b) AND c = a OR b"
  by (simp add: bit.conj_disj_distrib2)

lemma masks_ok_start: "masks_ok 0 0"
  by (simp add: masks_ok_def)

lemma masks_ok_add:
  "masks_ok av cu \<Longrightarrow> b AND 0xB = b \<Longrightarrow> masks_ok (av OR b) cu"
  by (auto simp: masks_ok_def and_or_absorb or_and_mask)

lemma masks_ok_first:
  "masks_ok av 0 \<Longrightarrow> b = 1 \<or> b = 2 \<Longrightarrow> masks_ok (av OR b) b"
  by (auto simp: masks_ok_def or_and_mask bit.conj_disj_distrib2 word_ao_absorbs)

lemma examine_TD_masks:
  assumes "masks_ok av cu"
  shows "examine_TD TDi av cu = Inr (Y', av', cu') \<Longrightarrow> masks_ok av' cu'"
    and "examine_TD TDi av cu = Inl (r, av', cu') \<Longrightarrow> r = - 3 \<and> masks_ok av' cu'"
  using assms masks_ok_first [of av] masks_ok_add [OF assms]
  by (auto simp: examine_TD_def Let_def split: option.splits if_splits)

lemma examine_TA2_masks:
  assumes "masks_ok av cu"
  shows "examine_TA2 i TAi av cu = Inr (av', cu') \<Longrightarrow> masks_ok av' cu'"
    and "examine_TA2 i TAi av cu = Inl (r, av', cu') \<Longrightarrow> r = - 4 \<and> masks_ok av' cu'"
  using assms by (auto simp: examine_TA2_def masks_ok_def split: option.splits if_splits)

lemma atr_round_masks_case:
  assumes "masks_ok av cu"
  shows "case atr_round pucAtr Y p i av cu of
      Inl (r, av', cu') \<Rightarrow> r \<in> {- 3, - 4, - 5} \<and> masks_ok av' cu'
    | Inr (Y', p', av', cu') \<Rightarrow> masks_ok av' cu'"
proof -
  obtain TAi TDi p1 where ic: "interface_chars pucAtr Y p = (TAi, TDi, p1)"
    by (metis surj_pair)
  show ?thesis
  proof (cases "examine_TD TDi av cu")
    case (Inl r)
    with ic examine_TD_masks(2) [OF assms] show ?thesis
      by (cases r) (auto simp: atr_round_def)
  next
    case (Inr st)
    obtain Y1 av1 cu1 where st: "st = (Y1, av1, cu1)" by (cases st) auto
    with Inr have ok: "masks_ok av1 cu1"
      using examine_TD_masks(1) [OF assms] by blast
    show ?thesis
    proof (cases "examine_TA2 i TAi av1 cu1")
      case (Inl r)
      with ic Inr st examine_TA2_masks(2) [OF ok] show ?thesis
        by (cases r) (auto simp: atr_round_def)
    next
      case ta: (Inr st2)
      with ic Inr st examine_TA2_masks(1) [OF ok] show ?thesis
        by (cases st2) (auto simp: atr_round_def)
    qed
  qed
qed

lemma atr_round_masks:
  assumes "masks_ok av cu"
  shows "atr_round pucAtr Y p i av cu = Inr (Y', p', av', cu') \<Longrightarrow> masks_ok av' cu'"
    and "atr_round pucAtr Y p i av cu = Inl (r, av', cu') \<Longrightarrow> r \<in> {- 3, - 4, - 5} \<and> masks_ok av' cu'"
  using atr_round_masks_case [OF assms, of pucAtr Y p i] by auto

text \<open>The three ways a round ends, as equations of the loop.\<close>

lemma atr_loop_Inl: "atr_round pucAtr Y p i av cu = Inl r \<Longrightarrow> atr_loop pucAtr Y p i av cu = r"
  by (subst atr_loop.simps) simp

lemma atr_loop_end:
  "atr_round pucAtr Y p i av cu = Inr (0, p', av', cu') \<Longrightarrow>
    atr_loop pucAtr Y p i av cu = (if cu' = 0 then (0, av' OR 1, 1) else (0, av', cu'))"
  by (subst atr_loop.simps) simp

lemma atr_loop_next:
  "atr_round pucAtr Y p i av cu = Inr (Y', p', av', cu') \<Longrightarrow> Y' \<noteq> 0 \<Longrightarrow>
    atr_loop pucAtr Y p i av cu = atr_loop pucAtr Y' p' (i + 1) av' cu'"
  by (subst atr_loop.simps) simp

lemmas atr_loop_steps = atr_loop_Inl atr_loop_end atr_loop_next

text \<open>Computation induction with the round as one equation.\<close>

lemma atr_loop_induct:
  assumes "\<And>m Y p i av cu.
    (\<And>Y' p' av' cu'. atr_round m Y p i av cu = Inr (Y', p', av', cu') \<Longrightarrow> Y' \<noteq> 0 \<Longrightarrow>
      P m Y' p' (i + 1) av' cu') \<Longrightarrow> P m Y p i av cu"
  shows "P m Y p i av cu"
  by (induction m Y p i av cu rule: atr_loop.induct) (rule assms, simp)

lemma atr_loop_masks:
  "masks_ok av cu \<Longrightarrow> atr_loop pucAtr Y p i av cu = (r, av', cu') \<Longrightarrow>
    masks_ok av' cu' \<and> r \<in> {0, - 3, - 4, - 5} \<and> (r = 0 \<longrightarrow> cu' \<noteq> 0)"
proof (induction pucAtr Y p i av cu rule: atr_loop_induct)
  case (1 pucAtr Y p i av cu)
  show ?case
  proof (cases "atr_round pucAtr Y p i av cu")
    case (Inl res)
    with "1.prems" have "res = (r, av', cu')"
      by (simp add: atr_loop_Inl)
    with Inl atr_round_masks(2) [OF "1.prems"(1)] show ?thesis by force
  next
    case (Inr st)
    obtain Y1 p1 av1 cu1 where st: "st = (Y1, p1, av1, cu1)" by (cases st) auto
    note r = Inr [unfolded st]
    have ok: "masks_ok av1 cu1"
      using atr_round_masks(1) [OF "1.prems"(1) r] .
    show ?thesis
    proof (cases "Y1 = 0")
      case True
      with r "1.prems"(2) ok masks_ok_first [of av1 1] show ?thesis
        by (auto simp: atr_loop_end split: if_splits)
    next
      case False
      with r "1.prems"(2) have "atr_loop pucAtr Y1 p1 (i + 1) av1 cu1 = (r, av', cu')"
        by (simp add: atr_loop_next)
      with "1.IH" [OF r False ok] show ?thesis by simp
    qed
  qed
qed

section \<open>The offsets the decoder reads\<close>

text \<open>Two memories that agree below an offset the round cannot pass give the same round.\<close>

lemma interface_chars_cong:
  "(\<And>k. k < p + 4 \<Longrightarrow> m k = m' k) \<Longrightarrow> interface_chars m Y p = interface_chars m' Y p"
  by (auto simp: interface_chars_def interface_char_def)

lemma atr_round_cong:
  "(\<And>k. k < p + 4 \<Longrightarrow> m k = m' k) \<Longrightarrow> atr_round m Y p i av cu = atr_round m' Y p i av cu"
  using interface_chars_cong [of p m m' Y] by (simp add: atr_round_def)

lemma atr_loop_cong:
  "p \<le> MAX_ATR_SIZE \<Longrightarrow> (\<And>k. k < MAX_ATR_SIZE + 4 \<Longrightarrow> m k = m' k) \<Longrightarrow>
    atr_loop m Y p i av cu = atr_loop m' Y p i av cu"
proof (induction m Y p i av cu rule: atr_loop_induct)
  case (1 m Y p i av cu)
  have round: "atr_round m' Y p i av cu = atr_round m Y p i av cu"
    using "1.prems" by (intro atr_round_cong [symmetric]) simp
  show ?case
  proof (cases "atr_round m Y p i av cu")
    case (Inl res)
    with round [unfolded Inl] show ?thesis
      by (simp add: atr_loop_Inl)
  next
    case (Inr st)
    obtain Y1 p1 av1 cu1 where st: "st = (Y1, p1, av1, cu1)" by (cases st) auto
    note r = Inr [unfolded st] round [unfolded Inr st]
    show ?thesis
    proof (cases "Y1 = 0")
      case True
      with r show ?thesis
        by (simp add: atr_loop_end)
    next
      case False
      with r(1) have "p1 \<le> MAX_ATR_SIZE"
        using atr_round_progress by blast
      with "1.IH" [OF r(1) False] "1.prems"(2)
      have "atr_loop m Y1 p1 (i + 1) av1 cu1 = atr_loop m' Y1 p1 (i + 1) av1 cu1"
        by simp
      with r False show ?thesis
        by (simp add: atr_loop_next)
    qed
  qed
qed

end
