(* ===== verification/Prothandler.thy ===== *)
theory Prothandler
  imports Ifdwrapper
begin

text \<open>
  The protocol selection of \<^verbatim>\<open>src/src/prothandler.c\<close>: from the mask the application prefers,
  the mask of the card's ATR and the card's default protocol, negotiate with the driver
  (PTS). The negative constants of \<^verbatim>\<open>src/src/prothandler.h\<close> are returned through an unsigned
  \<^verbatim>\<open>DWORD\<close>.
\<close>

abbreviation (input) SET_PROTOCOL_WRONG_ARGUMENT :: "'a::len word" where
  "SET_PROTOCOL_WRONG_ARGUMENT \<equiv> - 1"
abbreviation (input) SET_PROTOCOL_PPS_FAILED :: "'a::len word" where
  "SET_PROTOCOL_PPS_FAILED \<equiv> - 2"

text \<open>
  The code from the label \<^verbatim>\<open>again\<close> on. It jumps back at most once, because it first makes
  \<^verbatim>\<open>dwPreferred\<close> equal to \<^verbatim>\<open>protocol\<close>.
\<close>

function set_protocol_again ::
  "'d READER_CONTEXT \<Rightarrow> DWORD \<Rightarrow> DWORD \<Rightarrow> UCHAR \<Rightarrow> 'd ifd_env \<Rightarrow> DWORD \<times> 'd ifd_env" where
  "set_protocol_again rContext dwPreferred protocol ucChosen e =
     (case IFDSetPTS rContext (ucast ucChosen) 0 0 0 0 e of (rv, e') \<Rightarrow>
        if rv = IFD_SUCCESS then (ucast ucChosen, e')
        else if rv = IFD_PROTOCOL_NOT_SUPPORTED \<or> rv = IFD_ERROR_NOT_SUPPORTED then
          (if protocol \<noteq> dwPreferred then
             (if protocol AND dwPreferred \<noteq> 0
              then set_protocol_again rContext protocol protocol (ucast protocol) e'
              else (SET_PROTOCOL_WRONG_ARGUMENT, e'))
           else (SET_PROTOCOL_PPS_FAILED, e'))
        else if rv = IFD_NOT_SUPPORTED then (protocol, e')
        else (SET_PROTOCOL_PPS_FAILED, e'))"
  by pat_completeness auto
termination
  by (relation "measure (\<lambda>(r, pref, prot, ch, e). if prot = pref then 0 else 1)") auto

declare set_protocol_again.simps [simp del]

definition PHSetProtocol ::
  "'d READER_CONTEXT \<Rightarrow> DWORD \<Rightarrow> UCHAR \<Rightarrow> UCHAR \<Rightarrow> 'd ifd_env \<Rightarrow> DWORD \<times> 'd ifd_env" where
  "PHSetProtocol rContext dwPreferred ucAvailable ucDefault e =
     (if dwPreferred = SCARD_PROTOCOL_UNDEFINED then (SET_PROTOCOL_WRONG_ARGUMENT, e)
      else if dwPreferred AND ucast ucAvailable = 0 then (SET_PROTOCOL_WRONG_ARGUMENT, e)
      else let protocol = ucast ucDefault; dwPreferred = dwPreferred AND ucast ucAvailable in
        if dwPreferred AND SCARD_PROTOCOL_T1 \<noteq> 0
          then set_protocol_again rContext dwPreferred protocol SCARD_PROTOCOL_T1 e
        else if dwPreferred AND SCARD_PROTOCOL_T0 \<noteq> 0
          then set_protocol_again rContext dwPreferred protocol SCARD_PROTOCOL_T0 e
        else (SET_PROTOCOL_WRONG_ARGUMENT, e))"

section \<open>Outcomes of the negotiation\<close>

lemma set_protocol_again_last:
  "set_protocol_again r p p c e =
     (case IFDSetPTS r (ucast c) 0 0 0 0 e of (rv, e') \<Rightarrow>
        if rv = IFD_SUCCESS then (ucast c, e')
        else if rv = IFD_NOT_SUPPORTED then (p, e')
        else (SET_PROTOCOL_PPS_FAILED, e'))"
  by (subst set_protocol_again.simps) (auto split: prod.splits)

text \<open>
  Every outcome is the protocol first tried, the default protocol, or one of the two error
  values; the default comes back either from a second negotiation, and then it is one of
  the preferred and available protocols, or from a driver that cannot negotiate at all.
\<close>

lemma set_protocol_again_result:
  assumes "set_protocol_again r pref prot c e = (p, e')"
  shows "p = ucast c \<or> p = SET_PROTOCOL_WRONG_ARGUMENT \<or> p = SET_PROTOCOL_PPS_FAILED \<or>
    p = prot \<or> (p = ucast (ucast prot :: UCHAR) \<and> prot AND pref \<noteq> 0)"
  using assms
  by (subst (asm) set_protocol_again.simps) (auto simp: set_protocol_again_last split: prod.splits if_splits)

end
