(* ===== verification/Winscard.thy ===== *)
theory Winscard
  imports Reader_Driver Atrhandler Prothandler
begin

text \<open>
  The server side of the API, \<^verbatim>\<open>src/src/winscard.c\<close>. Every function looks the reader up
  (which takes a reference), runs its checks in the order of the source, acts, and drops the
  reference. A \<^verbatim>\<open>goto exit\<close> with an error is the value \<open>Inl rv\<close> of a phase; long functions
  are divided into the phases their comments name.

  Waiting for another client's transaction is the only place where a call depends on other
  threads: \<open>wait_unlocked\<close> takes the list of what the others do during each sleep and is
  \<open>None\<close> when the lock is still held at its end.

  Output parameters are results. \<open>SCARD_IO_HEADER\<close> serves for \<^verbatim>\<open>SCARD_IO_REQUEST\<close> too.
\<close>

type_synonym 'd others = "('d pcscd \<Rightarrow> 'd pcscd) list"

fun wait_unlocked :: "nat \<Rightarrow> 'd others \<Rightarrow> 'd pcscd \<Rightarrow> 'd pcscd option" where
  "wait_unlocked i [] w = (if hLockId (rdr w i) = 0 then Some w else None)"
| "wait_unlocked i (other # rest) w =
     (if hLockId (rdr w i) = 0 then Some w else wait_unlocked i rest (other w))"

text \<open>The first failing check of a sequence of checks.\<close>

fun first_error :: "LONG list \<Rightarrow> LONG" where
  "first_error [] = SCARD_S_SUCCESS"
| "first_error (rv # rvs) = (if rv \<noteq> SCARD_S_SUCCESS then rv else first_error rvs)"

text \<open>
  \<^verbatim>\<open>RFReaderInfoById\<close>, the body with the reader it found, and \<^verbatim>\<open>UNREF_READER\<close>; \<open>fail\<close> gives
  the results when there is no such reader.
\<close>

definition by_handle ::
  "SCARDHANDLE \<Rightarrow> (LONG \<Rightarrow> 'a) \<Rightarrow> (nat \<Rightarrow> 'd pcscd \<Rightarrow> 'a \<times> 'd pcscd) \<Rightarrow> 'd pcscd \<Rightarrow> 'a \<times> 'd pcscd" where
  "by_handle h fail body w =
     (case RFReaderInfoById h w of
        (Inl rv, w) \<Rightarrow> (fail rv, w)
      | (Inr i, w) \<Rightarrow> (case body i w of (x, w) \<Rightarrow> (x, snd (UnrefReader i w))))"

section \<open>Contexts\<close>

definition SCardEstablishContext :: "DWORD \<Rightarrow> int \<Rightarrow> LONG \<times> SCARDCONTEXT" where
  "SCardEstablishContext dwScope randomInt =
     (if dwScope \<noteq> SCARD_SCOPE_USER \<and> dwScope \<noteq> SCARD_SCOPE_TERMINAL \<and>
         dwScope \<noteq> SCARD_SCOPE_SYSTEM \<and> dwScope \<noteq> SCARD_SCOPE_GLOBAL
      then (SCARD_E_INVALID_VALUE, 0)
      else (SCARD_S_SUCCESS, randomInt))"

definition SCardReleaseContext :: "SCARDCONTEXT \<Rightarrow> LONG" where
  "SCardReleaseContext hContext = SCARD_S_SUCCESS"

section \<open>Connect\<close>

definition no_protocol :: "DWORD \<Rightarrow> DWORD \<Rightarrow> bool" where
  "no_protocol dwShareMode dwPreferredProtocols =
     (dwShareMode \<noteq> SCARD_SHARE_DIRECT \<and>
      dwPreferredProtocols AND SCARD_PROTOCOL_T0 = 0 \<and> dwPreferredProtocols AND SCARD_PROTOCOL_T1 = 0 \<and>
      dwPreferredProtocols AND SCARD_PROTOCOL_RAW = 0 \<and> dwPreferredProtocols AND SCARD_PROTOCOL_ANY_OLD = 0)"

definition valid_share :: "DWORD \<Rightarrow> bool" where
  "valid_share dwShareMode =
     (dwShareMode = SCARD_SHARE_EXCLUSIVE \<or> dwShareMode = SCARD_SHARE_SHARED \<or> dwShareMode = SCARD_SHARE_DIRECT)"

text \<open>Presence of the card, and power on when the card was switched off.\<close>

definition connect_card :: "DWORD \<Rightarrow> nat \<Rightarrow> 'd pcscd \<Rightarrow> (LONG + unit) \<times> 'd pcscd" where
  "connect_card dwShareMode i w =
     (if dwShareMode = SCARD_SHARE_DIRECT then (Inr (), w)
      else if rsState (readerState (rdr w i)) AND SCARD_PRESENT = 0 then (Inl SCARD_E_NO_SMARTCARD, w)
      else
        let w = (if powerState (rdr w i) = POWER_STATE_UNPOWERED then
              (case call_ifd (IFDPowerICC (rdr w i) IFD_POWER_UP (cardAtr (readerState (rdr w i)))
                       (of_nat MAX_ATR_SIZE)) w of
                 ((rv, atr, dwAtrLen), w) \<Rightarrow>
                   let w = upd_rstate i (\<lambda>s. s\<lparr>cardAtr := atr, cardAtrLength := ucast dwAtrLen\<rparr>) w
                   in if rv = IFD_SUCCESS
                      then upd_rstate i (\<lambda>s. s\<lparr>rsState := SCARD_PRESENT OR SCARD_POWERED OR SCARD_NEGOTIABLE\<rparr>) w
                      else w)
            else w)
        in if rsState (readerState (rdr w i)) AND SCARD_POWERED = 0 then (Inl SCARD_W_UNPOWERED_CARD, w)
           else (Inr (), upd_rdr i (\<lambda>r. r\<lparr>powerState := POWER_STATE_IN_USE\<rparr>) w))"

text \<open>The buffer of the ATR with the memory that follows it.\<close>

definition atr_memory :: "READER_STATE \<Rightarrow> memory" where
  "atr_memory s p = (if p < length (cardAtr s) then cardAtr s ! p else pastAtr s p)"

text \<open>
  The section that decodes the ATR and sets up the protocol; it is the same text in
  \<^verbatim>\<open>SCardConnect\<close> and \<^verbatim>\<open>SCardReconnect\<close>.
\<close>

definition set_up_protocol :: "DWORD \<Rightarrow> DWORD \<Rightarrow> nat \<Rightarrow> 'd pcscd \<Rightarrow> (LONG + unit) \<times> 'd pcscd" where
  "set_up_protocol dwShareMode dwPreferredProtocols i w =
     (if dwPreferredProtocols AND SCARD_PROTOCOL_RAW \<noteq> 0 then
        (Inr (), upd_rstate i (\<lambda>s. s\<lparr>cardProtocol := SCARD_PROTOCOL_RAW\<rparr>) w)
      else if dwShareMode = SCARD_SHARE_DIRECT then (Inr (), w)
      else let s = readerState (rdr w i) in
        if cardProtocol s = SCARD_PROTOCOL_UNDEFINED then
          (case ATRDecodeAtr (atr_memory s) (ucast (cardAtrLength s)) of
             (_, availableProtocols, defaultProtocol) \<Rightarrow>
               let preferred = (if dwPreferredProtocols AND SCARD_PROTOCOL_ANY_OLD \<noteq> 0
                     then SCARD_PROTOCOL_T0 OR SCARD_PROTOCOL_T1 else dwPreferredProtocols);
                   availableProtocols = availableProtocols AND ucast preferred
               in case call_ifd (PHSetProtocol (rdr w i) preferred (ucast availableProtocols)
                         (ucast defaultProtocol)) w of
                    (ret, w) \<Rightarrow>
                      if (ucast ret :: u32) = SET_PROTOCOL_PPS_FAILED then (Inl SCARD_W_UNRESPONSIVE_CARD, w)
                      else if (ucast ret :: u32) = SET_PROTOCOL_WRONG_ARGUMENT then (Inl SCARD_E_PROTO_MISMATCH, w)
                      else (Inr (), upd_rstate i (\<lambda>s. s\<lparr>cardProtocol := ucast ret\<rparr>) w))
        else if dwPreferredProtocols AND ucast (cardProtocol s) = 0 then (Inl SCARD_E_PROTO_MISMATCH, w)
        else (Inr (), w))"

text \<open>
  The exclusivity modes, with the new handle \<open>h\<close>: \<open>Inl\<close> is \<^verbatim>\<open>SCARD_E_SHARING_VIOLATION\<close>.
\<close>

definition connect_share ::
  "DWORD \<Rightarrow> SCARDHANDLE \<Rightarrow> 'd READER_CONTEXT \<Rightarrow> (LONG + unit) \<times> 'd READER_CONTEXT" where
  "connect_share dwShareMode h r =
     (if dwShareMode = SCARD_SHARE_EXCLUSIVE then
        (if contexts r = PCSCLITE_SHARING_NO_CONTEXT
         then (Inr (), snd (RFLockSharing h (r\<lparr>contexts := PCSCLITE_SHARING_EXCLUSIVE_CONTEXT\<rparr>)))
         else (Inl SCARD_E_SHARING_VIOLATION, r))
      else (Inr (), r\<lparr>contexts := int32 (contexts r + 1)\<rparr>))"

text \<open>Adding the handle, or cleaning up when there is no room.\<close>

definition connect_add_handle ::
  "int \<Rightarrow> bool \<Rightarrow> SCARDHANDLE \<Rightarrow> 'd READER_CONTEXT \<Rightarrow> LONG \<times> SCARDHANDLE \<times> 'd READER_CONTEXT" where
  "connect_add_handle maxHandles mem h r =
     (case RFAddReaderHandle maxHandles mem h r of (rv, r) \<Rightarrow>
        if rv \<noteq> SCARD_S_SUCCESS then
          (SCARD_F_INTERNAL_ERROR, 0,
           if contexts r = PCSCLITE_SHARING_EXCLUSIVE_CONTEXT then r\<lparr>contexts := PCSCLITE_SHARING_NO_CONTEXT\<rparr>
           else if contexts r > PCSCLITE_SHARING_NO_CONTEXT then r\<lparr>contexts := contexts r - 1\<rparr> else r)
        else (rv, h, upd_state (\<lambda>s. s\<lparr>readerSharing := contexts r\<rparr>) r))"

text \<open>
  The body of \<^verbatim>\<open>SCardConnect\<close> after the wait. The results are \<^verbatim>\<open>rv\<close>, \<^verbatim>\<open>*phCard\<close> and
  \<^verbatim>\<open>*pdwActiveProtocol\<close>; \<open>None\<close> when the search for a free handle does not end.
\<close>

definition connect_body ::
  "DWORD \<Rightarrow> DWORD \<Rightarrow> DWORD \<Rightarrow> nat \<Rightarrow> 'd pcscd \<Rightarrow> ((LONG \<times> SCARDHANDLE \<times> DWORD) \<times> 'd pcscd) option" where
  "connect_body dwShareMode dwPreferredProtocols dwActiveProtocol i w =
     (case connect_card dwShareMode i w of
        (Inl rv, w) \<Rightarrow> Some ((rv, 0, dwActiveProtocol), w)
      | (Inr _, w) \<Rightarrow>
        (case set_up_protocol dwShareMode dwPreferredProtocols i w of
           (Inl rv, w) \<Rightarrow> Some ((rv, 0, dwActiveProtocol), w)
         | (Inr _, w) \<Rightarrow>
             let active = ucast (cardProtocol (readerState (rdr w i))) in
             case RFCreateReaderHandle w of
               None \<Rightarrow> None
             | Some (h, w) \<Rightarrow>
               (case connect_share dwShareMode h (rdr w i) of
                  (Inl rv, r) \<Rightarrow> Some ((rv, 0, active), set_rdr i r w)
                | (Inr _, r) \<Rightarrow>
                  (case connect_add_handle (maxReaderHandles w) (memOk w) h r of
                     (rv, h, r) \<Rightarrow> Some ((rv, h, active), set_rdr i r w)))))"

definition SCardConnect ::
  "'d others \<Rightarrow> string \<Rightarrow> DWORD \<Rightarrow> DWORD \<Rightarrow> DWORD \<Rightarrow> 'd pcscd \<Rightarrow>
     ((LONG \<times> SCARDHANDLE \<times> DWORD) \<times> 'd pcscd) option" where
  "SCardConnect others szReader dwShareMode dwPreferredProtocols dwActiveProtocol w =
     (if no_protocol dwShareMode dwPreferredProtocols
        then Some ((SCARD_E_PROTO_MISMATCH, 0, dwActiveProtocol), w)
      else if \<not> valid_share dwShareMode then Some ((SCARD_E_INVALID_VALUE, 0, dwActiveProtocol), w)
      else case RFReaderInfo szReader w of
          (Inl rv, w) \<Rightarrow> Some ((rv, 0, dwActiveProtocol), w)
        | (Inr i, w) \<Rightarrow>
          (let rv = RFCheckReaderStatus (rdr w i);
               rv = (if rv = SCARD_S_SUCCESS \<and> contexts (rdr w i) = PCSCLITE_SHARING_EXCLUSIVE_CONTEXT
                     then SCARD_E_SHARING_VIOLATION else rv)
           in if rv \<noteq> SCARD_S_SUCCESS then Some ((rv, 0, dwActiveProtocol), snd (UnrefReader i w))
              else Option.bind (wait_unlocked i others w) (\<lambda>w.
                map_option (\<lambda>(res, w). (res, snd (UnrefReader i w)))
                  (connect_body dwShareMode dwPreferredProtocols dwActiveProtocol i w))))"

section \<open>Reset and power of a card on behalf of a client\<close>

text \<open>\<^verbatim>\<open>IFD_RESET\<close>, or power down and up again, into the ATR buffer of the reader.\<close>

definition reset_card :: "DWORD \<Rightarrow> nat \<Rightarrow> 'd pcscd \<Rightarrow> (RESPONSECODE \<times> DWORD) \<times> 'd pcscd" where
  "reset_card action i w =
     (let w = (if action = SCARD_RESET_CARD then w
               else snd (call_ifd (IFDPowerICC (rdr w i) IFD_POWER_DOWN [] 0) w))
      in case call_ifd (IFDPowerICC (rdr w i)
                (if action = SCARD_RESET_CARD then IFD_RESET else IFD_POWER_UP)
                (cardAtr (readerState (rdr w i))) (of_nat MAX_ATR_SIZE)) w of
           ((rv, atr, dwAtrLen), w) \<Rightarrow>
             ((rv, dwAtrLen),
              upd_rstate i (\<lambda>s. s\<lparr>cardAtr := atr, cardProtocol := SCARD_PROTOCOL_UNDEFINED\<rparr>) w))"

text \<open>The status bits after it.\<close>

definition reset_status :: "RESPONSECODE \<Rightarrow> DWORD \<Rightarrow> READER_STATE \<Rightarrow> READER_STATE" where
  "reset_status rv dwAtrLen s =
     (if rv = IFD_SUCCESS
      then s\<lparr>cardAtrLength := ucast dwAtrLen, rsState := SCARD_PRESENT OR SCARD_POWERED OR SCARD_NEGOTIABLE\<rparr>
      else s\<lparr>cardAtrLength := 0,
        rsState := (if rv = SCARD_W_REMOVED_CARD then SCARD_ABSENT else SCARD_PRESENT OR SCARD_SWALLOWED)\<rparr>)"

text \<open>The CTBCS command that ejects a card.\<close>

definition eject_command :: "'d READER_CONTEXT \<Rightarrow> bytes" where
  "eject_command r = [0x20, 0x15, word_of_int ((slot r AND 0x0000FFFF) + 1), 0x00, 0x00]"

definition eject_card :: "nat \<Rightarrow> 'd pcscd \<Rightarrow> LONG \<times> 'd pcscd" where
  "eject_card i w =
     (case call_ifd (IFDControl_v2 (rdr w i) (eject_command (rdr w i)) 2) w of ((rv, _, _), w) \<Rightarrow> (rv, w))"

section \<open>Reconnect\<close>

definition reconnect_init :: "DWORD \<Rightarrow> nat \<Rightarrow> 'd pcscd \<Rightarrow> (LONG + unit) \<times> 'd pcscd" where
  "reconnect_init dwInitialization i w =
     (if dwInitialization = SCARD_RESET_CARD \<or> dwInitialization = SCARD_UNPOWER_CARD then
        (let w = upd_rdr i (RFSetReaderEventState SCARD_RESET) w in
         case reset_card dwInitialization i w of ((rv, dwAtrLen), w) \<Rightarrow>
           let w = upd_rstate i (reset_status rv dwAtrLen) w in
           if rv = IFD_SUCCESS then (Inr (), w)
           else if rv = SCARD_W_REMOVED_CARD then (Inl SCARD_E_NO_SMARTCARD, w)
           else (Inl SCARD_W_UNRESPONSIVE_CARD, w))
      else
        let st = rsState (readerState (rdr w i)) in
        if st AND SCARD_ABSENT \<noteq> 0 then (Inl SCARD_E_NO_SMARTCARD, w)
        else if st AND SCARD_PRESENT \<noteq> 0 \<and> st AND SCARD_SWALLOWED \<noteq> 0 then (Inl SCARD_W_UNRESPONSIVE_CARD, w)
        else (Inr (), w))"

definition reconnect_protocol :: "DWORD \<Rightarrow> DWORD \<Rightarrow> nat \<Rightarrow> 'd pcscd \<Rightarrow> (LONG + unit) \<times> 'd pcscd" where
  "reconnect_protocol dwShareMode dwPreferredProtocols i w =
     (case set_up_protocol dwShareMode dwPreferredProtocols i w of
        (Inl rv, w) \<Rightarrow> (Inl rv, w)
      | (Inr _, w) \<Rightarrow>
          (Inr (), if dwPreferredProtocols AND SCARD_PROTOCOL_RAW = 0 \<and> dwShareMode \<noteq> SCARD_SHARE_DIRECT
             then upd_rdr i (\<lambda>r. RFSetPowerState r POWER_STATE_IN_USE) w else w))"

definition reconnect_share ::
  "DWORD \<Rightarrow> SCARDHANDLE \<Rightarrow> 'd READER_CONTEXT \<Rightarrow> (LONG + unit) \<times> 'd READER_CONTEXT" where
  "reconnect_share dwShareMode h r =
     (if dwShareMode = SCARD_SHARE_EXCLUSIVE then
        (if contexts r = PCSCLITE_SHARING_EXCLUSIVE_CONTEXT then (Inr (), r)
         else if contexts r = PCSCLITE_SHARING_LAST_CONTEXT
           then (Inr (), snd (RFLockSharing h (r\<lparr>contexts := PCSCLITE_SHARING_EXCLUSIVE_CONTEXT\<rparr>)))
         else (Inl SCARD_E_SHARING_VIOLATION, r))
      else
        (if contexts r \<noteq> PCSCLITE_SHARING_EXCLUSIVE_CONTEXT then (Inr (), r)
         else (Inr (), (snd (RFUnlockSharing h r))\<lparr>contexts := PCSCLITE_SHARING_LAST_CONTEXT\<rparr>)))"

definition reconnect_body ::
  "SCARDHANDLE \<Rightarrow> DWORD \<Rightarrow> DWORD \<Rightarrow> DWORD \<Rightarrow> DWORD \<Rightarrow> nat \<Rightarrow> 'd pcscd \<Rightarrow> (LONG \<times> DWORD) \<times> 'd pcscd" where
  "reconnect_body h dwShareMode dwPreferredProtocols dwInitialization dwActiveProtocol i w =
     (let rv = first_error [RFCheckReaderStatus (rdr w i), RFCheckSharing h (rdr w i)] in
      if rv \<noteq> SCARD_S_SUCCESS then ((rv, dwActiveProtocol), w)
      else case reconnect_init dwInitialization i w of
          (Inl rv, w) \<Rightarrow> ((rv, dwActiveProtocol), w)
        | (Inr _, w) \<Rightarrow>
          (case reconnect_protocol dwShareMode dwPreferredProtocols i w of
             (Inl rv, w) \<Rightarrow> ((rv, dwActiveProtocol), w)
           | (Inr _, w) \<Rightarrow>
               let active = ucast (cardProtocol (readerState (rdr w i))) in
               case reconnect_share dwShareMode h (rdr w i) of
                 (Inl rv, r) \<Rightarrow> ((rv, active), set_rdr i r w)
               | (Inr _, r) \<Rightarrow>
                   let r = snd (RFClearReaderEventState h r);
                       r = upd_state (\<lambda>s. s\<lparr>readerSharing := contexts r\<rparr>) r
                   in ((SCARD_S_SUCCESS, active), set_rdr i r w)))"

definition SCardReconnect ::
  "SCARDHANDLE \<Rightarrow> DWORD \<Rightarrow> DWORD \<Rightarrow> DWORD \<Rightarrow> DWORD \<Rightarrow> 'd pcscd \<Rightarrow> (LONG \<times> DWORD) \<times> 'd pcscd" where
  "SCardReconnect h dwShareMode dwPreferredProtocols dwInitialization dwActiveProtocol w =
     (if h = 0 then ((SCARD_E_INVALID_HANDLE, dwActiveProtocol), w)
      else if dwInitialization \<noteq> SCARD_LEAVE_CARD \<and> dwInitialization \<noteq> SCARD_RESET_CARD \<and>
          dwInitialization \<noteq> SCARD_UNPOWER_CARD then ((SCARD_E_INVALID_VALUE, dwActiveProtocol), w)
      else if \<not> valid_share dwShareMode then ((SCARD_E_INVALID_VALUE, dwActiveProtocol), w)
      else if no_protocol dwShareMode dwPreferredProtocols then ((SCARD_E_PROTO_MISMATCH, dwActiveProtocol), w)
      else by_handle h (\<lambda>rv. (rv, dwActiveProtocol))
             (reconnect_body h dwShareMode dwPreferredProtocols dwInitialization dwActiveProtocol) w)"

section \<open>Disconnect\<close>

definition valid_disposition :: "DWORD \<Rightarrow> bool" where
  "valid_disposition d =
     (d = SCARD_LEAVE_CARD \<or> d = SCARD_UNPOWER_CARD \<or> d = SCARD_RESET_CARD \<or> d = SCARD_EJECT_CARD)"

text \<open>The status of the card after a reset or an unpower on disconnection.\<close>

definition disconnect_card :: "DWORD \<Rightarrow> nat \<Rightarrow> 'd pcscd \<Rightarrow> 'd pcscd" where
  "disconnect_card dwDisposition i w =
     (let w = upd_rdr i (RFSetReaderEventState SCARD_RESET) w in
      if dwDisposition = SCARD_RESET_CARD then
        (case reset_card SCARD_RESET_CARD i w of ((rv, dwAtrLen), w) \<Rightarrow>
           upd_rstate i (reset_status rv dwAtrLen) w)
      else
        case call_ifd (IFDPowerICC (rdr w i) IFD_POWER_DOWN [] 0) w of ((rv, _, _), w) \<Rightarrow>
          let w = upd_rdr i (\<lambda>r. RFSetPowerState r POWER_STATE_UNPOWERED) w in
          upd_rstate i (\<lambda>s. s\<lparr>cardProtocol := SCARD_PROTOCOL_UNDEFINED,
            rsState := (if rv = IFD_SUCCESS then SCARD_PRESENT
              else if rv = SCARD_W_REMOVED_CARD then SCARD_ABSENT
              else SCARD_PRESENT OR SCARD_SWALLOWED)\<rparr>) w)"

definition disconnect_share :: "SCARDHANDLE \<Rightarrow> 'd READER_CONTEXT \<Rightarrow> 'd READER_CONTEXT" where
  "disconnect_share h r =
     (let r = snd (RFRemoveReaderHandle h r) in
      if contexts r = PCSCLITE_SHARING_EXCLUSIVE_CONTEXT then r\<lparr>contexts := PCSCLITE_SHARING_NO_CONTEXT\<rparr>
      else let c = int32 (contexts r - 1) in r\<lparr>contexts := (if c < 0 then 0 else c)\<rparr>)"

text \<open>The last client left: grace period before power off, and restart of the polling.\<close>

definition disconnect_last :: "nat \<Rightarrow> 'd pcscd \<Rightarrow> 'd pcscd" where
  "disconnect_last i w =
     (if contexts (rdr w i) = PCSCLITE_SHARING_NO_CONTEXT then
        (let w = (if POWER_STATE_POWERED \<le> powerState (rdr w i)
                  then upd_rdr i (\<lambda>r. r\<lparr>powerState := POWER_STATE_GRACE_PERIOD\<rparr>) w else w)
         in case call_ifd (IFDGetCapabilities (rdr w i) TAG_IFD_STOP_POLLING_THREAD 8) w of
              ((rv, dwGetSize, fct), w) \<Rightarrow>
                if rv = IFD_SUCCESS \<and> dwGetSize = 8 then snd (call_at i fct 0 w) else w)
      else w)"

definition disconnect_body :: "SCARDHANDLE \<Rightarrow> DWORD \<Rightarrow> nat \<Rightarrow> 'd pcscd \<Rightarrow> LONG \<times> 'd pcscd" where
  "disconnect_body h dwDisposition i w =
     (case RFUnlockAllSharing h (rdr w i) of (rv, r) \<Rightarrow>
        if rv \<noteq> SCARD_S_SUCCESS \<and> (rv \<noteq> SCARD_E_SHARING_VIOLATION \<or> dwDisposition \<noteq> SCARD_LEAVE_CARD)
        then (rv, set_rdr i r w)
        else
          let w = set_rdr i r w;
              w = (if dwDisposition = SCARD_RESET_CARD \<or> dwDisposition = SCARD_UNPOWER_CARD
                     then disconnect_card dwDisposition i w
                   else if dwDisposition = SCARD_EJECT_CARD then snd (eject_card i w)
                   else w);
              w = upd_rdr i (disconnect_share h) w;
              w = disconnect_last i w
          in (SCARD_S_SUCCESS, upd_rstate i (\<lambda>s. s\<lparr>readerSharing := contexts (rdr w i)\<rparr>) w))"

definition SCardDisconnect ::
  "'d others \<Rightarrow> SCARDHANDLE \<Rightarrow> DWORD \<Rightarrow> 'd pcscd \<Rightarrow> (LONG \<times> 'd pcscd) option" where
  "SCardDisconnect others h dwDisposition w =
     (if h = 0 then Some (SCARD_E_INVALID_HANDLE, w)
      else if \<not> valid_disposition dwDisposition then Some (SCARD_E_INVALID_VALUE, w)
      else case RFReaderInfoById h w of
          (Inl rv, w) \<Rightarrow>
            if rv = SCARD_E_INVALID_VALUE \<or> rv = SCARD_E_READER_UNAVAILABLE then Some (SCARD_S_SUCCESS, w)
            else Some (rv, w)
        | (Inr i, w) \<Rightarrow>
            Option.bind
              (if dwDisposition \<noteq> SCARD_LEAVE_CARD \<and> hLockId (rdr w i) \<noteq> 0 \<and> hLockId (rdr w i) \<noteq> h
               then wait_unlocked i others w else Some w)
              (\<lambda>w. case disconnect_body h dwDisposition i w of (rv, w) \<Rightarrow> Some (rv, snd (UnrefReader i w))))"

section \<open>Transactions\<close>

definition begin_body :: "SCARDHANDLE \<Rightarrow> nat \<Rightarrow> 'd pcscd \<Rightarrow> LONG \<times> 'd pcscd" where
  "begin_body h i w =
     (let rv = first_error [RFCheckReaderStatus (rdr w i), RFCheckReaderEventState (rdr w i) h] in
      if rv \<noteq> SCARD_S_SUCCESS then (rv, w)
      else case RFLockSharing h (rdr w i) of (rv, r) \<Rightarrow> (rv, set_rdr i r w))"

definition SCardBeginTransaction :: "SCARDHANDLE \<Rightarrow> 'd pcscd \<Rightarrow> LONG \<times> 'd pcscd" where
  "SCardBeginTransaction h w =
     (if h = 0 then (SCARD_E_INVALID_HANDLE, w) else by_handle h (\<lambda>rv. rv) (begin_body h) w)"

definition end_transaction_card :: "DWORD \<Rightarrow> nat \<Rightarrow> 'd pcscd \<Rightarrow> LONG \<times> 'd pcscd" where
  "end_transaction_card dwDisposition i w =
     (if dwDisposition = SCARD_RESET_CARD \<or> dwDisposition = SCARD_UNPOWER_CARD then
        (case reset_card dwDisposition i w of ((rv, dwAtrLen), w) \<Rightarrow>
           let w = upd_rdr i (RFSetReaderEventState SCARD_RESET) w
           in (rv, upd_rstate i (reset_status rv dwAtrLen) w))
      else if dwDisposition = SCARD_EJECT_CARD then eject_card i w
      else (SCARD_S_SUCCESS, w))"

definition end_body :: "SCARDHANDLE \<Rightarrow> DWORD \<Rightarrow> nat \<Rightarrow> 'd pcscd \<Rightarrow> LONG \<times> 'd pcscd" where
  "end_body h dwDisposition i w =
     (let rv = RFCheckReaderEventState (rdr w i) h in
      if rv \<noteq> SCARD_S_SUCCESS then (rv, w)
      else if dwDisposition \<noteq> SCARD_LEAVE_CARD \<and> hLockId (rdr w i) \<noteq> 0 \<and> hLockId (rdr w i) \<noteq> h
        then (SCARD_E_SHARING_VIOLATION, w)
      else case end_transaction_card dwDisposition i w of (rv, w) \<Rightarrow>
        (case RFUnlockSharing h (rdr w i) of (rv2, r) \<Rightarrow>
           (if rv2 \<noteq> SCARD_S_SUCCESS \<and> rv = SCARD_S_SUCCESS then rv2 else rv, set_rdr i r w)))"

definition SCardEndTransaction :: "SCARDHANDLE \<Rightarrow> DWORD \<Rightarrow> 'd pcscd \<Rightarrow> LONG \<times> 'd pcscd" where
  "SCardEndTransaction h dwDisposition w =
     (if h = 0 then (SCARD_E_INVALID_HANDLE, w)
      else if \<not> valid_disposition dwDisposition then (SCARD_E_INVALID_VALUE, w)
      else by_handle h (\<lambda>rv. rv) (end_body h dwDisposition) w)"

section \<open>Status, control, attributes\<close>

definition status_body :: "SCARDHANDLE \<Rightarrow> nat \<Rightarrow> 'd pcscd \<Rightarrow> LONG \<times> 'd pcscd" where
  "status_body h i w =
     (let r = rdr w i in
      (first_error [RFCheckSharing h r,
         if cardAtrLength (readerState r) > of_nat MAX_ATR_SIZE then SCARD_F_INTERNAL_ERROR else SCARD_S_SUCCESS,
         RFCheckReaderEventState r h, RFCheckReaderStatus r], w))"

definition SCardStatus :: "SCARDHANDLE \<Rightarrow> 'd pcscd \<Rightarrow> LONG \<times> 'd pcscd" where
  "SCardStatus h w =
     (if h = 0 then (SCARD_E_INVALID_HANDLE, w) else by_handle h (\<lambda>rv. rv) (status_body h) w)"

text \<open>Results: \<^verbatim>\<open>rv\<close>, the receive buffer and \<^verbatim>\<open>*lpBytesReturned\<close>.\<close>

definition control_body ::
  "SCARDHANDLE \<Rightarrow> DWORD \<Rightarrow> bytes \<Rightarrow> DWORD \<Rightarrow> nat \<Rightarrow> 'd pcscd \<Rightarrow> (LONG \<times> bytes \<times> DWORD) \<times> 'd pcscd" where
  "control_body h dwControlCode pbSendBuffer cbRecvLength i w =
     (let r = rdr w i;
          rv = first_error [RFCheckSharing h r,
            if version r = IFD_HVERSION_2_0 \<and> pbSendBuffer = [] then SCARD_E_INVALID_PARAMETER
            else SCARD_S_SUCCESS,
            RFCheckReaderStatus r]
      in if rv \<noteq> SCARD_S_SUCCESS then ((rv, [], 0), w)
         else if version r = IFD_HVERSION_2_0 then call_ifd (IFDControl_v2 r pbSendBuffer cbRecvLength) w
         else if version r = IFD_HVERSION_3_0
           then call_ifd (IFDControl r dwControlCode pbSendBuffer cbRecvLength 0) w
         else ((SCARD_E_UNSUPPORTED_FEATURE, [], 0), w))"

definition SCardControl ::
  "SCARDHANDLE \<Rightarrow> DWORD \<Rightarrow> bytes \<Rightarrow> DWORD \<Rightarrow> 'd pcscd \<Rightarrow> (LONG \<times> bytes \<times> DWORD) \<times> 'd pcscd" where
  "SCardControl h dwControlCode pbSendBuffer cbRecvLength w =
     (if h = 0 then ((SCARD_E_INVALID_HANDLE, [], 0), w)
      else by_handle h (\<lambda>rv. (rv, [], 0)) (control_body h dwControlCode pbSendBuffer cbRecvLength) w)"

text \<open>The answer the daemon gives for the name of the reader when the driver has none.\<close>

definition attrib_status ::
  "'d READER_CONTEXT \<Rightarrow> DWORD \<Rightarrow> RESPONSECODE \<times> DWORD \<times> bytes \<Rightarrow> LONG \<times> bytes \<times> DWORD" where
  "attrib_status r dwAttrId answer =
     (case answer of (rv, attrLen, attr) \<Rightarrow>
        if rv = IFD_SUCCESS then (SCARD_S_SUCCESS, attr, attrLen)
        else if rv = IFD_ERROR_TAG then
          (if dwAttrId = SCARD_ATTR_DEVICE_FRIENDLY_NAME \<or> dwAttrId = SCARD_ATTR_DEVICE_SYSTEM_NAME then
             (let name = readerName (readerState r); len = of_nat (length name + 1) in
              if len > attrLen then (SCARD_E_INSUFFICIENT_BUFFER, attr, len)
              else (SCARD_S_SUCCESS, map (\<lambda>c. of_nat (of_char c)) name @ [0], len))
           else (SCARD_E_UNSUPPORTED_FEATURE, attr, attrLen))
        else if rv = IFD_ERROR_INSUFFICIENT_BUFFER then (SCARD_E_INSUFFICIENT_BUFFER, attr, attrLen)
        else (SCARD_E_NOT_TRANSACTED, attr, attrLen))"

definition get_attrib_body ::
  "SCARDHANDLE \<Rightarrow> DWORD \<Rightarrow> DWORD \<Rightarrow> nat \<Rightarrow> 'd pcscd \<Rightarrow> (LONG \<times> bytes \<times> DWORD) \<times> 'd pcscd" where
  "get_attrib_body h dwAttrId cbAttrLen i w =
     (let r = rdr w i;
          rv = first_error [RFCheckSharing h r, RFCheckReaderStatus r, RFCheckReaderEventState r h]
      in if rv \<noteq> SCARD_S_SUCCESS then ((rv, [], cbAttrLen), w)
         else case call_ifd (IFDGetCapabilities r dwAttrId cbAttrLen) w of
           (answer, w) \<Rightarrow> (attrib_status r dwAttrId answer, w))"

definition SCardGetAttrib ::
  "SCARDHANDLE \<Rightarrow> DWORD \<Rightarrow> DWORD \<Rightarrow> 'd pcscd \<Rightarrow> (LONG \<times> bytes \<times> DWORD) \<times> 'd pcscd" where
  "SCardGetAttrib h dwAttrId cbAttrLen w =
     (if h = 0 then ((SCARD_E_INVALID_HANDLE, [], cbAttrLen), w)
      else by_handle h (\<lambda>rv. (rv, [], cbAttrLen)) (get_attrib_body h dwAttrId cbAttrLen) w)"

definition set_attrib_body :: "SCARDHANDLE \<Rightarrow> DWORD \<Rightarrow> bytes \<Rightarrow> nat \<Rightarrow> 'd pcscd \<Rightarrow> LONG \<times> 'd pcscd" where
  "set_attrib_body h dwAttrId pbAttr i w =
     (let r = rdr w i;
          rv = first_error [RFCheckSharing h r, RFCheckReaderStatus r, RFCheckReaderEventState r h]
      in if rv \<noteq> SCARD_S_SUCCESS then (rv, w)
         else case call_ifd (IFDSetCapabilities r dwAttrId pbAttr) w of (rv, w) \<Rightarrow>
           (if rv = IFD_SUCCESS then SCARD_S_SUCCESS
            else if rv = IFD_ERROR_TAG then SCARD_E_UNSUPPORTED_FEATURE
            else SCARD_E_NOT_TRANSACTED, w))"

definition SCardSetAttrib :: "SCARDHANDLE \<Rightarrow> DWORD \<Rightarrow> bytes \<Rightarrow> 'd pcscd \<Rightarrow> LONG \<times> 'd pcscd" where
  "SCardSetAttrib h dwAttrId pbAttr w =
     (if h = 0 then (SCARD_E_INVALID_HANDLE, w)
      else by_handle h (\<lambda>rv. rv) (set_attrib_body h dwAttrId pbAttr) w)"

section \<open>Transmit\<close>

text \<open>The loop that turns the active protocol mask into a protocol number.\<close>

fun protocol_number :: "nat \<Rightarrow> DWORD \<Rightarrow> nat \<Rightarrow> nat" where
  "protocol_number i prot 0 = i"
| "protocol_number i prot (Suc rest) =
     (if prot \<noteq> 1 then protocol_number (i + 1) (drop_bit 1 prot) rest else i)"

definition transmit_protocol :: "DWORD \<Rightarrow> READER_STATE \<Rightarrow> DWORD" where
  "transmit_protocol dwProtocol s =
     (if dwProtocol = SCARD_PROTOCOL_T1 then 1
      else if dwProtocol = SCARD_PROTOCOL_RAW then SCARD_PROTOCOL_RAW
      else if dwProtocol = SCARD_PROTOCOL_ANY_OLD then of_nat (protocol_number 0 (ucast (cardProtocol s)) 16)
      else 0)"

definition transmit_checks :: "SCARDHANDLE \<Rightarrow> DWORD \<Rightarrow> 'd READER_CONTEXT \<Rightarrow> LONG" where
  "transmit_checks h dwProtocol r =
     first_error [RFCheckSharing h r, RFCheckReaderStatus r, RFCheckReaderEventState r h,
       if dwProtocol \<noteq> SCARD_PROTOCOL_RAW \<and> rsState (readerState r) AND SCARD_ABSENT \<noteq> 0
       then SCARD_E_NO_SMARTCARD else SCARD_S_SUCCESS,
       if dwProtocol \<noteq> SCARD_PROTOCOL_RAW \<and> dwProtocol \<noteq> SCARD_PROTOCOL_ANY_OLD \<and>
          dwProtocol \<noteq> ucast (cardProtocol (readerState r))
       then SCARD_E_PROTO_MISMATCH else SCARD_S_SUCCESS]"

text \<open>Results: \<^verbatim>\<open>rv\<close>, the receive buffer, \<^verbatim>\<open>*pcbRecvLength\<close> and \<^verbatim>\<open>*pioRecvPci\<close>.\<close>

definition transmit_body ::
  "SCARDHANDLE \<Rightarrow> SCARD_IO_HEADER \<Rightarrow> bytes \<Rightarrow> SCARD_IO_HEADER \<Rightarrow> DWORD \<Rightarrow> nat \<Rightarrow> 'd pcscd \<Rightarrow>
     (LONG \<times> bytes \<times> DWORD \<times> SCARD_IO_HEADER) \<times> 'd pcscd" where
  "transmit_body h pioSendPci pbSendBuffer pioRecvPci dwRxLength i w =
     (let r = rdr w i; dwProtocol = ioProtocol pioSendPci; rv = transmit_checks h dwProtocol r in
      if rv \<noteq> SCARD_S_SUCCESS then ((rv, [], 0, pioRecvPci), w)
      else
        let sSendPci = \<lparr>ioProtocol = transmit_protocol dwProtocol (readerState r),
                        ioLength = ioLength pioSendPci\<rparr>
        in case (if dwProtocol = SCARD_PROTOCOL_RAW \<and> version r = IFD_HVERSION_2_0
                 then (case call_ifd (IFDControl_v2 r pbSendBuffer dwRxLength) w of
                         ((rv, rx, len), w) \<Rightarrow> ((rv, rx, len, pioRecvPci), w))
                 else call_ifd (IFDTransmit r sSendPci pbSendBuffer dwRxLength pioRecvPci) w) of
             ((rv, rx, len, recvPci), w) \<Rightarrow>
               if rv \<noteq> SCARD_S_SUCCESS then
                 ((rv, rx, 0, recvPci),
                  if rv = SCARD_E_NO_SMARTCARD
                  then upd_rstate i (\<lambda>s. s\<lparr>cardAtrLength := 0, cardProtocol := SCARD_PROTOCOL_UNDEFINED,
                         rsState := SCARD_ABSENT\<rparr>) w
                  else w)
               else if dwRxLength < len then ((SCARD_E_INSUFFICIENT_BUFFER, rx, 0, recvPci), w)
               else ((SCARD_S_SUCCESS, rx, len, recvPci), w))"

definition SCardTransmit ::
  "SCARDHANDLE \<Rightarrow> SCARD_IO_HEADER \<Rightarrow> bytes \<Rightarrow> SCARD_IO_HEADER \<Rightarrow> DWORD \<Rightarrow> 'd pcscd \<Rightarrow>
     (LONG \<times> bytes \<times> DWORD \<times> SCARD_IO_HEADER) \<times> 'd pcscd" where
  "SCardTransmit h pioSendPci pbSendBuffer pioRecvPci cbRecvLength w =
     (if h = 0 then ((SCARD_E_INVALID_HANDLE, [], 0, pioRecvPci), w)
      else if cbRecvLength < 2 then ((SCARD_E_INSUFFICIENT_BUFFER, [], 0, pioRecvPci), w)
      else by_handle h (\<lambda>rv. (rv, [], 0, pioRecvPci))
             (transmit_body h pioSendPci pbSendBuffer pioRecvPci cbRecvLength) w)"

end
