(* ===== verification/Winscard_Inv.thy ===== *)
theory Winscard_Inv
  imports Winscard
begin

text \<open>The operations on a reader do not touch the counters it shares.\<close>

lemma counters_frame [simp]:
  "pMutex (RFSetReaderEventState ev r) = pMutex r" "pFeeds (RFSetReaderEventState ev r) = pFeeds r"
  "pMutex (snd (RFClearReaderEventState h r)) = pMutex r" "pFeeds (snd (RFClearReaderEventState h r)) = pFeeds r"
  "pMutex (snd (RFAddReaderHandle m mem h r)) = pMutex r" "pFeeds (snd (RFAddReaderHandle m mem h r)) = pFeeds r"
  "pMutex (snd (RFRemoveReaderHandle h r)) = pMutex r" "pFeeds (snd (RFRemoveReaderHandle h r)) = pFeeds r"
  "pMutex (snd (RFLockSharing h r)) = pMutex r" "pFeeds (snd (RFLockSharing h r)) = pFeeds r"
  "pMutex (snd (RFUnlockSharing h r)) = pMutex r" "pFeeds (snd (RFUnlockSharing h r)) = pFeeds r"
  by (auto simp: RFSetReaderEventState_def RFClearReaderEventState_def RFAddReaderHandle_def RFRemoveReaderHandle_def
      RFLockSharing_def RFUnlockSharing_def Let_def split_beta split: option.splits)

text \<open>
  The invariant of the readers under the API: every function of \<^verbatim>\<open>winscard.c\<close> keeps
  \<open>pcscd_ok\<close>. \<open>reader_step\<close> is the contract the phases of a call share: it works on one
  reader, leaves its reference and its driver alone, keeps the sharing invariant, and adds
  at most the given handles.
\<close>

definition reader_step :: "nat \<Rightarrow> SCARDHANDLE set \<Rightarrow> 'd pcscd \<Rightarrow> 'd pcscd \<Rightarrow> bool" where
  "reader_step i H w w' =
     (length (sReadersContexts w') = length (sReadersContexts w) \<and>
      (\<forall>j. j \<noteq> i \<longrightarrow> rdr w' j = rdr w j) \<and>
      (list_ok (ClientsWaitingForEvent w) \<longrightarrow> list_ok (ClientsWaitingForEvent w')) \<and>
      maxReaderHandles w' = maxReaderHandles w \<and>
      reference (rdr w' i) = reference (rdr w i) \<and> vHandle (rdr w' i) = vHandle (rdr w i) \<and>
      pMutex (rdr w' i) = pMutex (rdr w i) \<and> pFeeds (rdr w' i) = pFeeds (rdr w i) \<and>
      (sharing_ok (rdr w i) \<longrightarrow>
         sharing_ok (rdr w' i) \<and> set (handles (rdr w' i)) \<subseteq> set (handles (rdr w i)) \<union> H))"

lemma reader_step_refl [simp]: "reader_step i H w w"
  by (simp add: reader_step_def)

lemma reader_step_trans:
  "reader_step i {} w w' \<Longrightarrow> reader_step i H w' w'' \<Longrightarrow> reader_step i H w w''"
  by (auto simp: reader_step_def)

lemma reader_step_trans2:
  "reader_step i H w w' \<Longrightarrow> reader_step i {} w' w'' \<Longrightarrow> reader_step i H w w''"
  by (auto simp: reader_step_def)

lemma reader_step_length: "reader_step i H w w' \<Longrightarrow> length (sReadersContexts w') = length (sReadersContexts w)"
  by (simp add: reader_step_def)

text \<open>Steps on the reader itself.\<close>

definition keeps_sharing :: "SCARDHANDLE set \<Rightarrow> 'd READER_CONTEXT \<Rightarrow> 'd READER_CONTEXT \<Rightarrow> bool" where
  "keeps_sharing H r r' =
     (reference r' = reference r \<and> vHandle r' = vHandle r \<and> pMutex r' = pMutex r \<and> pFeeds r' = pFeeds r \<and>
      (sharing_ok r \<longrightarrow> sharing_ok r' \<and> set (handles r') \<subseteq> set (handles r) \<union> H))"

lemma reader_step_set_rdr:
  "i < length (sReadersContexts w) \<Longrightarrow> keeps_sharing H (rdr w i) r \<Longrightarrow> reader_step i H w (set_rdr i r w)"
  by (auto simp: reader_step_def keeps_sharing_def)

lemma reader_step_upd_rdr:
  "i < length (sReadersContexts w) \<Longrightarrow> keeps_sharing H (rdr w i) (f (rdr w i)) \<Longrightarrow> reader_step i H w (upd_rdr i f w)"
  by (auto simp: upd_rdr_def intro: reader_step_set_rdr)

lemma keeps_sharing_refl [simp]: "keeps_sharing H r r"
  by (simp add: keeps_sharing_def)

lemma keeps_sharing_trans:
  "keeps_sharing {} r r' \<Longrightarrow> keeps_sharing H r' r'' \<Longrightarrow> keeps_sharing H r r''"
  by (auto simp: keeps_sharing_def)

lemma keeps_sharing_trans2:
  "keeps_sharing H r r' \<Longrightarrow> keeps_sharing {} r' r'' \<Longrightarrow> keeps_sharing H r r''"
  by (auto simp: keeps_sharing_def)

lemma keeps_sharing_frame:
  assumes "handlesList r' = handlesList r" "contexts r' = contexts r" "reference r' = reference r"
    and "vHandle r' = vHandle r" "pMutex r' = pMutex r" "pFeeds r' = pFeeds r"
  shows "keeps_sharing H r r'"
  using assms by (auto simp: keeps_sharing_def sharing_ok_def handles_def)

lemma keeps_sharing_handles:
  assumes "handles r' = handles r" "contexts r' = contexts r" "reference r' = reference r"
    and "vHandle r' = vHandle r" "pMutex r' = pMutex r" "pFeeds r' = pFeeds r"
    and "handles_ok (handlesList r) \<Longrightarrow> handles_ok (handlesList r')"
  shows "keeps_sharing H r r'"
  using assms by (auto simp: keeps_sharing_def sharing_ok_def simp del: length_handles)

lemma keeps_sharing_upd_state [simp]: "keeps_sharing H r (upd_state f r)"
  by (rule keeps_sharing_frame) simp_all

lemma keeps_sharing_power [simp]:
  "keeps_sharing H r (r\<lparr>powerState := p\<rparr>)" "keeps_sharing H r (RFSetPowerState r p)"
  by (simp_all add: keeps_sharing_frame RFSetPowerState_def)

lemma keeps_sharing_lock [simp]:
  "keeps_sharing H r (snd (RFLockSharing h r))"
  by (rule keeps_sharing_frame) (auto simp: RFLockSharing_def Let_def)

lemma keeps_sharing_unlock [simp]:
  "keeps_sharing H r (snd (RFUnlockSharing h r))"
  by (rule keeps_sharing_frame) (auto simp: RFUnlockSharing_def Let_def)

lemma keeps_sharing_unlock_all [simp]:
  "keeps_sharing H r (snd (RFUnlockAllSharing h r))"
  by (rule keeps_sharing_frame) (auto simp: RFUnlockAllSharing_def Let_def)

lemma keeps_sharing_event: "keeps_sharing H r (RFSetReaderEventState ev r)"
  if "handles_ok (handlesList r)"
  using RFSetReaderEventState_entries [OF that, of ev] that
  by (intro keeps_sharing_handles) (auto simp: RFSetReaderEventState_frame)

lemma keeps_sharing_event' [simp]: "keeps_sharing H r (RFSetReaderEventState ev r)"
proof (cases "handles_ok (handlesList r)")
  case True
  then show ?thesis by (rule keeps_sharing_event)
next
  case False
  then show ?thesis
    by (auto simp: keeps_sharing_def sharing_ok_def RFSetReaderEventState_frame)
qed

lemma keeps_sharing_clear [simp]: "keeps_sharing H r (snd (RFClearReaderEventState h r))"
proof (cases "handles_ok (handlesList r)")
  case True
  then show ?thesis
    using RFClearReaderEventState_handles [OF True, of h]
    by (intro keeps_sharing_handles)
      (auto simp: RFClearReaderEventState_frame RFClearReaderEventState_def split: option.splits)
next
  case False
  then show ?thesis
    by (auto simp: keeps_sharing_def sharing_ok_def RFClearReaderEventState_def split: option.splits)
qed

lemma reader_step_upd_rstate [simp]:
  "i < length (sReadersContexts w) \<Longrightarrow> reader_step i H w (upd_rstate i f w)"
  by (simp add: upd_rstate_def reader_step_upd_rdr)

lemma reader_step_call_ifd [simp]: "reader_step i H w (snd (call_ifd f w))"
  by (simp add: reader_step_def)

lemma reader_step_call_at [simp]: "reader_step i H w (snd (call_at i a t w))"
  by (simp add: reader_step_def)

text \<open>Sequences of steps, for the automation: each step is taken from the state before it.\<close>

lemma reader_step_then_upd_rstate:
  "reader_step i {} w w' \<Longrightarrow> i < length (sReadersContexts w) \<Longrightarrow> reader_step i {} w (upd_rstate i f w')"
  by (rule reader_step_trans) (auto simp: reader_step_length)

lemma reader_step_then_upd_rdr:
  "reader_step i {} w w' \<Longrightarrow> i < length (sReadersContexts w) \<Longrightarrow> keeps_sharing {} (rdr w' i) (f (rdr w' i)) \<Longrightarrow>
    reader_step i {} w (upd_rdr i f w')"
  by (rule reader_step_trans) (auto simp: reader_step_length intro: reader_step_upd_rdr)

lemma reader_step_then_set_rdr:
  "reader_step i {} w w' \<Longrightarrow> i < length (sReadersContexts w) \<Longrightarrow> keeps_sharing H (rdr w' i) r \<Longrightarrow>
    reader_step i H w (set_rdr i r w')"
  by (rule reader_step_trans) (auto simp: reader_step_length intro: reader_step_set_rdr)

lemma reader_step_then_call:
  "reader_step i {} w w' \<Longrightarrow> reader_step i {} w (snd (call_ifd g w'))"
  "reader_step i {} w w' \<Longrightarrow> reader_step i {} w (snd (call_at i a t w'))"
  by (erule reader_step_trans, simp)+

lemmas reader_step_intros =
  reader_step_then_upd_rstate reader_step_then_upd_rdr reader_step_then_call

section \<open>The phases\<close>

lemma connect_card_step:
  "i < length (sReadersContexts w) \<Longrightarrow> reader_step i {} w (snd (connect_card share i w))"
  by (auto simp: connect_card_def Let_def split_beta intro!: reader_step_intros)

lemma set_up_protocol_step:
  "i < length (sReadersContexts w) \<Longrightarrow> reader_step i {} w (snd (set_up_protocol share pref i w))"
  by (auto simp: set_up_protocol_def Let_def split_beta intro!: reader_step_intros)

lemma reset_card_step:
  "i < length (sReadersContexts w) \<Longrightarrow> reader_step i {} w (snd (reset_card a i w))"
  by (auto simp: reset_card_def Let_def split_beta intro!: reader_step_intros)

lemma eject_card_step: "reader_step i {} w (snd (eject_card i w))"
  by (simp add: eject_card_def split_beta)

lemma reader_step_then_reset:
  "reader_step i {} w w' \<Longrightarrow> i < length (sReadersContexts w) \<Longrightarrow> reader_step i {} w (snd (reset_card a i w'))"
  using reset_card_step [of i w' a] by (auto simp: reader_step_length intro: reader_step_trans)

lemma reconnect_init_step:
  "i < length (sReadersContexts w) \<Longrightarrow> reader_step i {} w (snd (reconnect_init ini i w))"
  by (auto simp: reconnect_init_def Let_def split_beta intro!: reader_step_intros reader_step_then_reset)

lemma reconnect_protocol_step:
  assumes "i < length (sReadersContexts w)"
  shows "reader_step i {} w (snd (reconnect_protocol share pref i w))"
  using set_up_protocol_step [OF assms, of share pref] assms
  by (auto simp: reconnect_protocol_def split: prod.splits sum.splits intro!: reader_step_intros)

lemma disconnect_card_step:
  "i < length (sReadersContexts w) \<Longrightarrow> reader_step i {} w (disconnect_card d i w)"
  by (auto simp: disconnect_card_def Let_def split_beta intro!: reader_step_intros reader_step_then_reset)

lemma disconnect_last_step:
  "i < length (sReadersContexts w) \<Longrightarrow> reader_step i {} w (disconnect_last i w)"
  by (auto simp: disconnect_last_def Let_def split_beta intro!: reader_step_intros)

lemma end_transaction_card_step:
  "i < length (sReadersContexts w) \<Longrightarrow> reader_step i {} w (snd (end_transaction_card d i w))"
  by (auto simp: end_transaction_card_def Let_def split_beta
      intro!: reader_step_intros reader_step_then_reset eject_card_step)

lemma reconnect_share_keeps: "keeps_sharing {} r (snd (reconnect_share share h r))"
proof -
  have 1: "keeps_sharing {} r (snd (RFLockSharing h (r\<lparr>contexts := - 1\<rparr>)))" if "contexts r = 1"
  proof (rule keeps_sharing_trans [OF _ keeps_sharing_lock])
    show "keeps_sharing {} r (r\<lparr>contexts := - 1\<rparr>)"
      using that by (auto simp: keeps_sharing_def sharing_ok_def handles_def)
  qed
  have 2: "keeps_sharing {} r ((snd (RFUnlockSharing h r))\<lparr>contexts := 1\<rparr>)" if "contexts r = - 1"
  proof (rule keeps_sharing_trans [OF keeps_sharing_unlock])
    show "keeps_sharing {} (snd (RFUnlockSharing h r)) ((snd (RFUnlockSharing h r))\<lparr>contexts := 1\<rparr>)"
      using that by (auto simp: keeps_sharing_def sharing_ok_def handles_def)
  qed
  show ?thesis
    using 1 2 by (auto simp: reconnect_share_def)
qed

lemma remove_handle_keeps:
  assumes "sharing_ok r" "h \<in> set (handles r)"
  shows "sharing_ok (disconnect_share h r)" "handles (disconnect_share h r) = remove1 h (handles r)"
    and "contexts (disconnect_share h r) = (if contexts r = - 1 then 0 else contexts r - 1)"
proof -
  let ?r = "snd (RFRemoveReaderHandle h r)"
  have ok: "handles_ok (handlesList r)" "distinct (handles r)"
    using assms(1) by (auto simp: sharing_ok_def)
  have hr: "handles ?r = remove1 h (handles r)" and okr: "handles_ok (handlesList ?r)"
    using RFRemoveReaderHandle_known [OF ok assms(2)] RFRemoveReaderHandle_handles_ok [OF ok(1)] by auto
  have c: "contexts ?r = contexts r"
    by (simp add: frame_simps)
  have pos: "0 < length (handles r)"
    using assms(2) by (rule length_pos_if_in_set)
  have l: "int (length (remove1 h (handles r))) = int (length (handles r)) - 1"
    using assms(2) pos by (simp add: length_remove1 of_nat_diff Suc_leI del: length_handles)
  have b: "contexts r = - 1 \<or> 1 \<le> contexts r \<and> contexts r < 2 ^ 31"
    using assms(1) pos by (auto simp: sharing_ok_def Suc_le_eq)
  have i: "contexts r \<noteq> - 1 \<Longrightarrow> int32 (contexts r - 1) = contexts r - 1"
    using b by (intro int32_id) auto
  show h: "handles (disconnect_share h r) = remove1 h (handles r)"
    using hr by (simp add: disconnect_share_def Let_def handles_def)
  show c': "contexts (disconnect_share h r) = (if contexts r = - 1 then 0 else contexts r - 1)"
    using b c i by (auto simp: disconnect_share_def Let_def)
  have "handlesList (disconnect_share h r) = handlesList ?r"
    by (simp add: disconnect_share_def Let_def)
  then show "sharing_ok (disconnect_share h r)"
    using assms(1) okr ok l unfolding sharing_ok_def h c' by auto
qed

lemma disconnect_share_keeps: "h \<in> set (handles r) \<or> \<not> sharing_ok r \<Longrightarrow> keeps_sharing {} r (disconnect_share h r)"
  using remove_handle_keeps [of r h]
  by (auto simp: keeps_sharing_def disconnect_share_def Let_def frame_simps
      dest: subsetD [OF set_remove1_subset]
      split: if_splits)

lemma connect_share_keeps:
  assumes "sharing_ok r" "h \<notin> set (handles r)" "maxH \<le> 2 ^ 31 - 2" "contexts r \<noteq> - 1"
    and "connect_share share h r = (Inr u, r')" "connect_add_handle maxH mem h r' = (rv, h', r'')"
  shows "keeps_sharing {h} r r''"
    and "rv = SCARD_S_SUCCESS \<Longrightarrow> h' = h \<and> handles r'' = handles r @ [h] \<and>
      contexts r'' = (if share = SCARD_SHARE_EXCLUSIVE then - 1 else contexts r + 1)"
    and "rv \<noteq> SCARD_S_SUCCESS \<Longrightarrow> h' = 0 \<and> handles r'' = handles r \<and> contexts r'' = contexts r"
proof -
  have ok: "handles_ok (handlesList r)" and d: "distinct (handles r)"
    and c: "contexts r = int (length (handles r))" and le: "int (length (handles r)) \<le> 2 ^ 31 - 2"
    using assms(1,4) by (auto simp: sharing_ok_def)
  have i: "int32 (contexts r + 1) = contexts r + 1"
    using c le by (intro int32_id) auto
  have r': "handlesList r' = handlesList r" "reference r' = reference r" "vHandle r' = vHandle r"
    "pMutex r' = pMutex r" "pFeeds r' = pFeeds r"
    "contexts r' = (if share = SCARD_SHARE_EXCLUSIVE then - 1 else contexts r + 1)"
    "share = SCARD_SHARE_EXCLUSIVE \<Longrightarrow> contexts r = 0"
    using assms(5) i
    by (auto simp: connect_share_def RFLockSharing_def Let_def split: if_splits)
  then have hs: "handles r' = handles r"
    by (simp add: handles_def)
  have ok': "handles_ok (handlesList r')" using ok r' by simp
  let ?a = "RFAddReaderHandle maxH mem h r'"
  have res: "(rv = SCARD_S_SUCCESS \<and> h' = h \<and> handles r'' = handles r @ [h] \<and>
       contexts r'' = contexts r' \<and> int (length (handles r)) < maxH \<and>
       handlesList r'' = handlesList (snd ?a) \<and> reference r'' = reference r \<and> vHandle r'' = vHandle r \<and>
       pMutex r'' = pMutex r \<and> pFeeds r'' = pFeeds r) \<or>
     (rv \<noteq> SCARD_S_SUCCESS \<and> h' = 0 \<and> handlesList r'' = handlesList r \<and> contexts r'' = contexts r \<and>
       reference r'' = reference r \<and> vHandle r'' = vHandle r \<and>
       pMutex r'' = pMutex r \<and> pFeeds r'' = pFeeds r)"
  proof (rule RFAddReaderHandle_cases [OF ok', of maxH mem h])
    assume a: "fst ?a = SCARD_S_SUCCESS" "handles (snd ?a) = handles r' @ [h]" "int (length (handles r')) < maxH"
    then show ?thesis
      using assms(6) hs r'
      by (auto simp: connect_add_handle_def split_beta frame_simps simp del: length_handles)
  next
    assume a: "?a = (SCARD_E_NO_MEMORY, r')"
    then show ?thesis
      using assms(6) r' c by (auto simp: connect_add_handle_def)
  qed
  show "rv = SCARD_S_SUCCESS \<Longrightarrow> h' = h \<and> handles r'' = handles r @ [h] \<and>
      contexts r'' = (if share = SCARD_SHARE_EXCLUSIVE then - 1 else contexts r + 1)"
    using res r' by auto
  show "rv \<noteq> SCARD_S_SUCCESS \<Longrightarrow> h' = 0 \<and> handles r'' = handles r \<and> contexts r'' = contexts r"
    using res by (auto simp: handles_def)
  show "keeps_sharing {h} r r''"
  proof (cases "rv = SCARD_S_SUCCESS")
    case True
    with res have hr: "handles r'' = handles r @ [h]" and cr: "contexts r'' = contexts r'"
      and lt: "int (length (handles r)) < maxH" and hl: "handlesList r'' = handlesList (snd ?a)"
      and fr: "reference r'' = reference r" "vHandle r'' = vHandle r" "pMutex r'' = pMutex r" "pFeeds r'' = pFeeds r"
      by auto
    have "handles_ok (handlesList r'')"
      using RFAddReaderHandle_handles_ok [OF ok', of maxH mem h] hl by simp
    moreover have "length (handles r'') = length (handles r) + 1"
      using hr by simp
    moreover have "share = SCARD_SHARE_EXCLUSIVE \<Longrightarrow> length (handles r) = 0"
      using r'(7) c by simp
    ultimately show ?thesis
      using hr cr lt fr d assms(2,3) r'(6) c
      unfolding keeps_sharing_def sharing_ok_def by (auto simp del: length_handles)
  next
    case False
    with res show ?thesis
      by (auto intro: keeps_sharing_frame)
  qed
qed

section \<open>Whole calls\<close>

lemma pcscd_ok_step:
  assumes "pcscd_ok w" "i < length (sReadersContexts w)" "reader_step i H w w'"
    and "H \<inter> (all_handles w) = {}"
  shows "pcscd_ok w'"
proof -
  have o: "\<And>j. j \<noteq> i \<Longrightarrow> rdr w' j = rdr w j" and l: "length (sReadersContexts w') = length (sReadersContexts w)"
    and v: "vHandle (rdr w' i) = vHandle (rdr w i)" and rf: "reference (rdr w' i) = reference (rdr w i)"
    using assms(3) by (auto simp: reader_step_def)
  have act: "active (rdr w' j) = active (rdr w j)" for j
    using o v by (cases "j = i") (auto simp: active_def)
  have s: "active (rdr w i) \<Longrightarrow> sharing_ok (rdr w' i) \<and> set (handles (rdr w' i)) \<subseteq> set (handles (rdr w i)) \<union> H"
    using assms(1,2,3) by (auto simp: reader_step_def pcscd_ok_def reader_ok_def)
  have Hd: "H \<inter> set (handles (rdr w j)) = {}" if "j < length (sReadersContexts w)" "active (rdr w j)" for j
    using assms(4) that by (auto simp: all_handles_def)
  have u: "set (handles (rdr w j)) \<inter> set (handles (rdr w k)) = {}"
    if "j < length (sReadersContexts w)" "k < length (sReadersContexts w)" "j \<noteq> k" "active (rdr w j)" "active (rdr w k)" for j k
    using pcscd_ok_unique [OF assms(1) that(1,2,4,5)] that(3) by auto
  show ?thesis
    unfolding pcscd_ok_def
  proof (intro conjI allI impI)
    fix j
    assume "j < length (sReadersContexts w')" "active (rdr w' j)"
    then show "reader_ok (rdr w' j)"
      using pcscd_ok_reader [OF assms(1), of j] o [of j] s rf act [of j] l
      by (cases "j = i") (auto simp: reader_ok_def)
  next
    fix j k
    assume jk: "j < length (sReadersContexts w')" "k < length (sReadersContexts w')"
      and *: "j \<noteq> k \<and> active (rdr w' j) \<and> active (rdr w' k)"
    then have jk': "j < length (sReadersContexts w)" "k < length (sReadersContexts w)" "j \<noteq> k"
      "active (rdr w j)" "active (rdr w k)"
      using act l by auto
    have sub: "set (handles (rdr w' m)) \<subseteq> set (handles (rdr w m)) \<union> (if m = i then H else {})"
      if "active (rdr w m)" for m
      using s o [of m] that by (cases "m = i") auto
    from sub [OF jk'(4)] sub [OF jk'(5)] u [OF jk'] Hd [OF jk'(1,4)] Hd [OF jk'(2,5)] jk'(3)
    show "set (handles (rdr w' j)) \<inter> set (handles (rdr w' k)) = {}"
      by (cases "j = i"; cases "k = i"; simp) blast+
  qed (use assms(1,3) in \<open>auto simp: pcscd_ok_def reader_step_def\<close>)
qed

text \<open>
  A call that finds its reader, does a step on it and releases it, is a step; the reference
  count is back at its old value.
\<close>

lemma reader_ok_reference:
  "sharing_ok (r\<lparr>reference := n\<rparr>) = sharing_ok r" "handles (r\<lparr>reference := n\<rparr>) = handles r"
  "lock_of (r\<lparr>reference := n\<rparr>) = lock_of r"
  by (auto simp: sharing_ok_def handles_def lock_of_def)

lemma reader_step_unref:
  assumes "pcscd_ok w" "i < length (sReadersContexts w)" "active (rdr w i)"
    and "reader_step i H (set_rdr i ((rdr w i)\<lparr>reference := reference (rdr w i) + 1\<rparr>) w) w2"
  shows "reader_step i H w (snd (UnrefReader i w2))"
    and "rdr (snd (UnrefReader i w2)) i = (rdr w2 i)\<lparr>reference := reference (rdr w i)\<rparr>"
    and "ifd (snd (UnrefReader i w2)) = ifd w2"
proof -
  let ?r = "rdr w i"
  have ok: "1 \<le> reference ?r" "reference ?r < 2 ^ 31 - 1"
    using pcscd_ok_reader [OF assms(1-3)] by (auto simp: reader_ok_def)
  have r2: "reference (rdr w2 i) = reference ?r + 1" "i < length (sReadersContexts w2)"
    using assms(2,4) by (auto simp: reader_step_def)
  then have u: "UnrefReader i w2 = (SCARD_S_SUCCESS, set_rdr i ((rdr w2 i)\<lparr>reference := reference ?r\<rparr>) w2)"
    using UnrefReader_dec [of i w2] ok by simp
  show "rdr (snd (UnrefReader i w2)) i = (rdr w2 i)\<lparr>reference := reference ?r\<rparr>"
    and "ifd (snd (UnrefReader i w2)) = ifd w2"
    using u r2 by auto
  show "reader_step i H w (snd (UnrefReader i w2))"
    using assms(2,4) r2 u unfolding reader_step_def by (auto simp: reader_ok_reference)
qed

lemma reader_step_ref_unref:
  assumes "RFReaderInfoById h w = (Inr i, w1)" "pcscd_ok w" "reader_step i H w1 w2"
  shows "reader_step i H w (snd (UnrefReader i w2))"
    and "rdr (snd (UnrefReader i w2)) i = (rdr w2 i)\<lparr>reference := reference (rdr w i)\<rparr>"
    and "ifd (snd (UnrefReader i w2)) = ifd w2"
  using reader_step_unref [of w i H w2] RFReaderInfoById_found [OF assms(1,2)] assms(2,3) by auto

text \<open>What every call promises: at most one reader changes, by a step with fresh handles.\<close>

definition call_ok :: "'d pcscd \<Rightarrow> 'd pcscd \<Rightarrow> bool" where
  "call_ok w w' =
     (w' = w \<or> (\<exists>i H. i < length (sReadersContexts w) \<and> reader_step i H w w' \<and> H \<inter> all_handles w = {}))"

lemma call_ok_refl [simp]: "call_ok w w"
  by (simp add: call_ok_def)

lemma call_okI: "i < length (sReadersContexts w) \<Longrightarrow> reader_step i {} w w' \<Longrightarrow> call_ok w w'"
  by (auto simp: call_ok_def)

lemma call_ok_pcscd_ok: "call_ok w w' \<Longrightarrow> pcscd_ok w \<Longrightarrow> pcscd_ok w'"
  by (auto simp: call_ok_def intro: pcscd_ok_step)

text \<open>Room for one more reference in every reader.\<close>

definition refs_room :: "'d pcscd \<Rightarrow> bool" where
  "refs_room w = (\<forall>i < length (sReadersContexts w). active (rdr w i) \<longrightarrow> reference (rdr w i) + 1 < 2 ^ 31 - 1)"

lemma call_ok_refs_room:
  assumes "call_ok w w'" "refs_room w"
  shows "refs_room w'"
proof -
  have "length (sReadersContexts w') = length (sReadersContexts w)"
    using assms(1) by (auto simp: call_ok_def reader_step_def)
  moreover have "vHandle (rdr w' j) = vHandle (rdr w j) \<and> reference (rdr w' j) = reference (rdr w j)" for j
    using assms(1) unfolding call_ok_def reader_step_def by metis
  ultimately show ?thesis
    using assms(2) by (simp add: refs_room_def active_def)
qed

lemma by_handle_ok:
  assumes "pcscd_ok w"
    and "\<And>i v. i < length (sReadersContexts v) \<Longrightarrow> h \<in> set (handles (rdr v i)) \<Longrightarrow> reader_step i {} v (snd (body i v))"
  shows "call_ok w (snd (by_handle h fail body w))"
proof (cases "RFReaderInfoById h w")
  case (Pair q w1)
  show ?thesis
  proof (cases q)
    case (Inl rv)
    with Pair have "by_handle h fail body w = (fail rv, w1)" by (simp add: by_handle_def)
    with RFReaderInfoById_not_found(2) [of h w rv w1] Pair Inl assms(1) show ?thesis
      by simp
  next
    case (Inr i)
    with Pair have f: "RFReaderInfoById h w = (Inr i, w1)" by simp
    note ff = RFReaderInfoById_found [OF f assms(1)]
    have "i < length (sReadersContexts w1)" "h \<in> set (handles (rdr w1 i))"
      using ff by (auto simp: handles_def)
    then have "reader_step i {} w1 (snd (body i w1))"
      by (rule assms(2))
    from reader_step_ref_unref(1) [OF f assms(1) this] have "reader_step i {} w (snd (by_handle h fail body w))"
      using f by (simp add: by_handle_def split_beta)
    with ff(1) show ?thesis by (rule call_okI)
  qed
qed

text \<open>The same, with what the body does, for a handle of a given reader.\<close>

lemma by_handle_found:
  assumes "pcscd_ok w" "i < length (sReadersContexts w)" "active (rdr w i)" "h \<in> set (handles (rdr w i))"
  shows "by_handle h fail body w =
    (let w1 = set_rdr i ((rdr w i)\<lparr>reference := reference (rdr w i) + 1\<rparr>) w
     in case body i w1 of (x, w2) \<Rightarrow> (x, snd (UnrefReader i w2)))"
proof -
  obtain w1 where f: "RFReaderInfoById h w = (Inr i, w1)"
    using RFReaderInfoById_complete [OF assms] by auto
  with RFReaderInfoById_found(4) [OF f assms(1)] show ?thesis
    by (simp add: by_handle_def Let_def)
qed

lemma by_handle_unchanged:
  assumes "pcscd_ok w" "i < length (sReadersContexts w)" "active (rdr w i)" "h \<in> set (handles (rdr w i))"
    and "\<And>n. body i (set_rdr i ((rdr w i)\<lparr>reference := n\<rparr>) w) = (x, set_rdr i ((rdr w i)\<lparr>reference := n\<rparr>) w)"
  shows "by_handle h fail body w = (x, w)"
proof -
  have "1 \<le> reference (rdr w i)" "reference (rdr w i) < 2 ^ 31 - 1"
    using pcscd_ok_reader [OF assms(1-3)] by (auto simp: reader_ok_def)
  then show ?thesis
    using assms(2,5) by (simp add: by_handle_found [OF assms(1-4)] UnrefReader_dec)
qed

lemma by_handle_unknown:
  assumes "pcscd_ok w" "h \<notin> all_handles w"
  shows "by_handle h fail body w = (fail SCARD_E_INVALID_VALUE, w)"
proof (cases "RFReaderInfoById h w")
  case (Pair q w1)
  show ?thesis
  proof (cases q)
    case (Inl rv)
    with Pair RFReaderInfoById_not_found [of h w rv w1] assms show ?thesis
      by (simp add: by_handle_def)
  next
    case (Inr i)
    with Pair RFReaderInfoById_found [of h w i w1] assms show ?thesis
      by (auto simp: all_handles_def)
  qed
qed

section \<open>The functions that work through \<open>by_handle\<close>\<close>

lemma SCardBeginTransaction_ok: "pcscd_ok w \<Longrightarrow> call_ok w (snd (SCardBeginTransaction h w))"
  unfolding SCardBeginTransaction_def begin_body_def
  by (auto simp: Let_def split_beta intro!: by_handle_ok reader_step_set_rdr)

lemma SCardEndTransaction_ok: "pcscd_ok w \<Longrightarrow> call_ok w (snd (SCardEndTransaction h d w))"
  unfolding SCardEndTransaction_def end_body_def
  by (auto simp: Let_def split_beta intro!: by_handle_ok reader_step_then_set_rdr end_transaction_card_step)

lemma SCardStatus_ok: "pcscd_ok w \<Longrightarrow> call_ok w (snd (SCardStatus h w))"
  unfolding SCardStatus_def status_body_def by (auto intro!: by_handle_ok simp: Let_def)

lemma SCardControl_ok: "pcscd_ok w \<Longrightarrow> call_ok w (snd (SCardControl h code send len w))"
  unfolding SCardControl_def control_body_def by (auto intro!: by_handle_ok simp: Let_def)

lemma SCardGetAttrib_ok: "pcscd_ok w \<Longrightarrow> call_ok w (snd (SCardGetAttrib h a len w))"
  unfolding SCardGetAttrib_def get_attrib_body_def by (auto intro!: by_handle_ok simp: Let_def split_beta)

lemma SCardSetAttrib_ok: "pcscd_ok w \<Longrightarrow> call_ok w (snd (SCardSetAttrib h a attr w))"
  unfolding SCardSetAttrib_def set_attrib_body_def by (auto intro!: by_handle_ok simp: Let_def split_beta)

lemma transmit_body_step:
  "i < length (sReadersContexts w) \<Longrightarrow> reader_step i {} w (snd (transmit_body h p send q len i w))"
  by (auto simp: transmit_body_def Let_def split_beta intro!: reader_step_intros)

lemma SCardTransmit_ok: "pcscd_ok w \<Longrightarrow> call_ok w (snd (SCardTransmit h p send q len w))"
  unfolding SCardTransmit_def by (auto intro!: by_handle_ok transmit_body_step)

lemma reconnect_body_step:
  assumes "i < length (sReadersContexts w)"
  shows "reader_step i {} w (snd (reconnect_body h share pref ini act i w))"
proof -
  let ?w1 = "snd (reconnect_init ini i w)"
  let ?w2 = "snd (reconnect_protocol share pref i ?w1)"
  have 1: "reader_step i {} w ?w1" by (rule reconnect_init_step [OF assms])
  have i1: "i < length (sReadersContexts ?w1)" using 1 assms by (simp add: reader_step_length)
  have 2: "reader_step i {} w ?w2"
    by (rule reader_step_trans [OF 1 reconnect_protocol_step [OF i1]])
  have 3: "keeps_sharing {} (rdr ?w2 i) (upd_state f (snd (RFClearReaderEventState h (snd (reconnect_share share h (rdr ?w2 i))))))"
    for f
    by (rule keeps_sharing_trans [OF keeps_sharing_trans [OF reconnect_share_keeps keeps_sharing_clear]
          keeps_sharing_upd_state])
  show ?thesis
    using 1 2 reader_step_then_set_rdr [OF 2 assms 3]
      reader_step_then_set_rdr [OF 2 assms reconnect_share_keeps [of "rdr ?w2 i" share h]]
    by (auto simp: reconnect_body_def Let_def split: prod.splits sum.splits)
qed

lemma SCardReconnect_ok: "pcscd_ok w \<Longrightarrow> call_ok w (snd (SCardReconnect h share pref ini act w))"
  unfolding SCardReconnect_def by (auto intro!: by_handle_ok reconnect_body_step)

section \<open>Disconnect and connect\<close>

lemma reader_step_handles:
  "reader_step i {} w w' \<Longrightarrow> sharing_ok (rdr w i) \<Longrightarrow> set (handles (rdr w' i)) \<subseteq> set (handles (rdr w i))"
  by (auto simp: reader_step_def)

lemma disconnect_card_handles:
  assumes "i < length (sReadersContexts w)" "handles_ok (handlesList (rdr w i))"
  shows "handles (rdr (disconnect_card d i w) i) = handles (rdr w i)"
    and "contexts (rdr (disconnect_card d i w) i) = contexts (rdr w i)"
    and "hLockId (rdr (disconnect_card d i w) i) = hLockId (rdr w i)"
    and "LockCount (rdr (disconnect_card d i w) i) = LockCount (rdr w i)"
  using assms RFSetReaderEventState_entries [OF assms(2), of 1]
  by (auto simp: disconnect_card_def reset_card_def Let_def split_beta RFSetPowerState_def
      RFSetReaderEventState_frame handles_def comp_def)

text \<open>The state of the reader after \<^verbatim>\<open>disconnect_body\<close>, for one of its handles.\<close>

lemma disconnect_last_frame:
  assumes "i < length (sReadersContexts w)"
  shows "handles (rdr (disconnect_last i w) i) = handles (rdr w i)"
    and "handlesList (rdr (disconnect_last i w) i) = handlesList (rdr w i)"
    and "contexts (rdr (disconnect_last i w) i) = contexts (rdr w i)"
    and "hLockId (rdr (disconnect_last i w) i) = hLockId (rdr w i)"
    and "LockCount (rdr (disconnect_last i w) i) = LockCount (rdr w i)"
    and "powerState (rdr (disconnect_last i w) i) =
      (if contexts (rdr w i) = 0 \<and> powerState (rdr w i) \<noteq> POWER_STATE_UNPOWERED
       then POWER_STATE_GRACE_PERIOD else powerState (rdr w i))"
proof -
  have le: "POWER_STATE_POWERED \<le> p \<longleftrightarrow> p \<noteq> POWER_STATE_UNPOWERED" for p
    by (cases p) (auto simp: less_eq_power_state_def)
  show "handles (rdr (disconnect_last i w) i) = handles (rdr w i)"
    and "handlesList (rdr (disconnect_last i w) i) = handlesList (rdr w i)"
    and "contexts (rdr (disconnect_last i w) i) = contexts (rdr w i)"
    and "hLockId (rdr (disconnect_last i w) i) = hLockId (rdr w i)"
    and "LockCount (rdr (disconnect_last i w) i) = LockCount (rdr w i)"
    and "powerState (rdr (disconnect_last i w) i) =
      (if contexts (rdr w i) = 0 \<and> powerState (rdr w i) \<noteq> POWER_STATE_UNPOWERED
       then POWER_STATE_GRACE_PERIOD else powerState (rdr w i))"
    using assms by (auto simp: disconnect_last_def Let_def split_beta handles_def le)
qed

lemma disconnect_body_step:
  fixes w :: "'d pcscd"
  assumes "i < length (sReadersContexts w)" "h \<in> set (handles (rdr w i)) \<or> \<not> sharing_ok (rdr w i)"
  shows "reader_step i {} w (snd (disconnect_body h d i w))"
proof -
  let ?r = "snd (RFUnlockAllSharing h (rdr w i))"
  let ?w1 = "set_rdr i ?r w"
  define w2 where "w2 = (if d = SCARD_RESET_CARD \<or> d = SCARD_UNPOWER_CARD then disconnect_card d i ?w1
     else if d = SCARD_EJECT_CARD then snd (eject_card i ?w1) else ?w1)"
  let ?w3 = "upd_rdr i (disconnect_share h) w2"
  have 1: "reader_step i {} w ?w1" using assms(1) by (auto intro!: reader_step_set_rdr)
  have i1: "i < length (sReadersContexts ?w1)" using assms(1) by simp
  have 2: "reader_step i {} ?w1 w2"
    using disconnect_card_step [OF i1, of d] eject_card_step [of i ?w1] by (auto simp: w2_def)
  have i2: "i < length (sReadersContexts w2)" using 2 i1 by (simp add: reader_step_length)
  have sh: "sharing_ok ?r = sharing_ok (rdr w i)" "handles ?r = handles (rdr w i)"
    by (simp_all add: sharing_ok_def handles_def)
  have hw2: "handles (rdr w2 i) = handles (rdr w i)" if "sharing_ok (rdr w i)"
    using that disconnect_card_handles(1) [OF i1, of d] assms(1) sh
    by (auto simp: w2_def sharing_ok_def eject_card_def split_beta)
  have k3: "keeps_sharing {} (rdr w2 i) (disconnect_share h (rdr w2 i))" if "sharing_ok (rdr w i)"
    using hw2 [OF that] assms(2) that disconnect_share_keeps [of h "rdr w2 i"] by simp
  have frame3: "reference (disconnect_share h x) = reference x" "vHandle (disconnect_share h x) = vHandle x"
    "pMutex (disconnect_share h x) = pMutex x" "pFeeds (disconnect_share h x) = pFeeds x"
    for x :: "'d READER_CONTEXT"
    by (simp_all add: disconnect_share_def Let_def frame_simps)
  have 3: "reader_step i {} w ?w3"
  proof (cases "sharing_ok (rdr w i)")
    case True
    have "reader_step i {} w2 ?w3"
      using i2 k3 [OF True] by (intro reader_step_upd_rdr)
    with reader_step_trans [OF 1 2] show ?thesis by (rule reader_step_trans)
  next
    case False
    with reader_step_trans [OF 1 2] i2 frame3 show ?thesis
      by (auto simp: reader_step_def)
  qed
  have i3: "i < length (sReadersContexts ?w3)" using i2 by simp
  have 4: "reader_step i {} w (disconnect_last i ?w3)"
    by (rule reader_step_trans [OF 3 disconnect_last_step [OF i3]])
  show ?thesis
    using 1 reader_step_then_upd_rstate [OF 4 assms(1)]
    by (auto simp: disconnect_body_def Let_def split_beta w2_def)
qed

text \<open>Without a wait, disconnection keeps the invariant.\<close>

lemma SCardDisconnect_ok:
  assumes "pcscd_ok w" "SCardDisconnect [] h d w = Some (rv, w')"
  shows "call_ok w w'"
proof (cases "RFReaderInfoById h w")
  case (Pair q w1)
  show ?thesis
  proof (cases q)
    case (Inl e)
    with Pair RFReaderInfoById_not_found [of h w e w1] assms show ?thesis
      by (auto simp: SCardDisconnect_def split: if_splits)
  next
    case (Inr i)
    with Pair have f: "RFReaderInfoById h w = (Inr i, w1)" by simp
    note ff = RFReaderInfoById_found [OF f assms(1)]
    have l: "i < length (sReadersContexts w1)" "h \<in> set (handles (rdr w1 i))"
      using ff by (auto simp: handles_def)
    have s: "reader_step i {} w1 (snd (disconnect_body h d i w1))"
      using disconnect_body_step [OF l(1)] l(2) by simp
    have "w' = w \<or> w' = snd (UnrefReader i (snd (disconnect_body h d i w1)))"
      using assms(2) f by (auto simp: SCardDisconnect_def split_beta split: if_splits)
    with call_okI [OF ff(1) reader_step_ref_unref(1) [OF f assms(1) s]]
    show ?thesis by auto
  qed
qed

lemma RFReaderInfo_found:
  assumes "RFReaderInfo name w = (Inr i, w')" "pcscd_ok w"
  shows "i < length (sReadersContexts w)" "active (rdr w i)" "readerName (readerState (rdr w i)) = name"
    and "w' = set_rdr i ((rdr w i)\<lparr>reference := reference (rdr w i) + 1\<rparr>) w"
proof -
  let ?P = "\<lambda>r. vHandle r \<noteq> None \<and> name = readerName (readerState r)"
  obtain k where k: "position ?P (sReadersContexts w) = Some k" and f: "ref_found k w = (Inr i, w')"
    using assms(1) by (auto simp: RFReaderInfo_def split: option.splits)
  from f have ki: "k = i"
    by (auto simp: ref_found_def split: prod.splits if_splits)
  from position_SomeD [OF k] ki show i: "i < length (sReadersContexts w)" and a: "active (rdr w i)"
    and "readerName (readerState (rdr w i)) = name"
    by (auto simp: rdr_def active_def)
  have ok: "reader_ok (rdr w i)"
    using pcscd_ok_reader [OF assms(2) i a] .
  have "int32 (reference (rdr w i) + 1) = reference (rdr w i) + 1"
    using ok by (intro int32_id) (auto simp: reader_ok_def)
  then show "w' = set_rdr i ((rdr w i)\<lparr>reference := reference (rdr w i) + 1\<rparr>) w"
    using f ki by (auto simp: ref_found_def RefReader_def split: if_splits)
qed

text \<open>
  The body of a connection, on a reader that is not in exclusive mode and whose lookup took
  a reference.
\<close>

lemma all_handles_step:
  assumes "reader_step i H w w'" "handles (rdr w' i) = handles (rdr w i)"
  shows "all_handles w' = all_handles w"
proof -
  have "rdr w' j = rdr w j \<or> j = i" for j
    using assms(1) by (auto simp: reader_step_def)
  then have "active (rdr w' j) = active (rdr w j)" "handles (rdr w' j) = handles (rdr w j)" for j
    using assms by (metis active_def reader_step_def)+
  with reader_step_length [OF assms(1)] show ?thesis
    by (simp add: all_handles_def)
qed

lemma connect_card_frame:
  assumes "i < length (sReadersContexts w)"
  shows "handlesList (rdr (snd (connect_card share i w)) i) = handlesList (rdr w i)"
    and "contexts (rdr (snd (connect_card share i w)) i) = contexts (rdr w i)"
    and "hLockId (rdr (snd (connect_card share i w)) i) = hLockId (rdr w i)"
    and "LockCount (rdr (snd (connect_card share i w)) i) = LockCount (rdr w i)"
  using assms by (auto simp: connect_card_def Let_def split_beta)

lemma set_up_protocol_frame:
  assumes "i < length (sReadersContexts w)"
  shows "handlesList (rdr (snd (set_up_protocol share pref i w)) i) = handlesList (rdr w i)"
    and "contexts (rdr (snd (set_up_protocol share pref i w)) i) = contexts (rdr w i)"
    and "hLockId (rdr (snd (set_up_protocol share pref i w)) i) = hLockId (rdr w i)"
    and "LockCount (rdr (snd (set_up_protocol share pref i w)) i) = LockCount (rdr w i)"
  using assms by (auto simp: set_up_protocol_def Let_def split_beta)

lemma rdr_randoms_frame [simp]:
  "sReadersContexts (w\<lparr>randoms := rs\<rparr>) = sReadersContexts w"
  by simp

text \<open>
  A connection either ends early, with an error and without touching handles and locks, or
  reaches the sharing phase with a handle that no client uses.
\<close>

lemma connect_body_cases:
  assumes "pcscd_ok w" "i < length (sReadersContexts w)"
    and "connect_body share pref act i w = Some ((rv, h, prot), w')"
  obtains (early) "h = 0" "rv \<noteq> SCARD_S_SUCCESS" "reader_step i {} w w'"
      "handlesList (rdr w' i) = handlesList (rdr w i)" "contexts (rdr w' i) = contexts (rdr w i)"
      "hLockId (rdr w' i) = hLockId (rdr w i)" "LockCount (rdr w' i) = LockCount (rdr w i)"
  | (shared) h' w2 rest r' r'' where "pcscd_ok w2" "reader_step i {} w w2" "h' \<notin> all_handles w2"
      "handlesList (rdr w2 i) = handlesList (rdr w i)" "contexts (rdr w2 i) = contexts (rdr w i)"
      "hLockId (rdr w2 i) = hLockId (rdr w i)" "LockCount (rdr w2 i) = LockCount (rdr w i)"
      "connect_share share h' (rdr w2 i) = (Inr (), r')"
      "connect_add_handle (maxReaderHandles w2) (memOk w2) h' r' = (rv, h, r'')"
      "w' = set_rdr i r'' (w2\<lparr>randoms := rest\<rparr>)"
proof -
  obtain q1 w1 where c: "connect_card share i w = (q1, w1)" by fastforce
  obtain q2 w2 where p: "set_up_protocol share pref i w1 = (q2, w2)" by fastforce
  have s1: "reader_step i {} w w1" and f1: "handlesList (rdr w1 i) = handlesList (rdr w i)"
    "contexts (rdr w1 i) = contexts (rdr w i)" "hLockId (rdr w1 i) = hLockId (rdr w i)"
    "LockCount (rdr w1 i) = LockCount (rdr w i)"
    using connect_card_step [OF assms(2), of share] connect_card_frame [OF assms(2), of share] c by auto
  have i1: "i < length (sReadersContexts w1)"
    using s1 assms(2) by (simp add: reader_step_length)
  have s2: "reader_step i {} w w2" and f2: "handlesList (rdr w2 i) = handlesList (rdr w i)"
    "contexts (rdr w2 i) = contexts (rdr w i)" "hLockId (rdr w2 i) = hLockId (rdr w i)"
    "LockCount (rdr w2 i) = LockCount (rdr w i)"
    using set_up_protocol_step [OF i1, of share pref] set_up_protocol_frame [OF i1, of share pref] p f1
      reader_step_trans [OF s1, of "{}" w2] by auto
  have i2: "i < length (sReadersContexts w2)"
    using s2 assms(2) by (simp add: reader_step_length)
  have ok2: "pcscd_ok w2"
    using pcscd_ok_step [OF assms(1,2) s2] by simp
  have e1: "rv \<noteq> 0" if "q1 = Inl rv" for rv
    using c that by (auto simp: connect_card_def Let_def split_beta split: if_splits)
  have e2: "rv \<noteq> 0" if "q2 = Inl rv" for rv
    using p that by (auto simp: set_up_protocol_def Let_def split_beta split: if_splits)
  show thesis
  proof (cases q1)
    case (Inl e)
    with assms(3) c e1 s1 f1 early show thesis by (simp add: connect_body_def)
  next
    case q1: (Inr u1)
    show thesis
    proof (cases q2)
      case (Inl e)
      with assms(3) c q1 p e2 s2 f2 early show thesis by (simp add: connect_body_def)
    next
      case q2: (Inr u2)
      obtain h' w3 where h': "RFCreateReaderHandle w2 = Some (h', w3)"
        using assms(3) c q1 p q2 by (auto simp: connect_body_def Let_def split: option.splits)
      from create_handle_fresh [OF h' [unfolded RFCreateReaderHandle_def] ok2]
      obtain rest where w3: "w3 = w2\<lparr>randoms := rest\<rparr>" and fresh: "h' \<notin> all_handles w2" by auto
      obtain q4 r4 where cs: "connect_share share h' (rdr w2 i) = (q4, r4)" by fastforce
      show thesis
      proof (cases q4)
        case (Inl e)
        have r4: "r4 = rdr w2 i" "e \<noteq> 0"
          using cs Inl by (auto simp: connect_share_def split: if_splits)
        have w': "w' = set_rdr i (rdr w2 i) (w2\<lparr>randoms := rest\<rparr>)" "h = 0" "rv = e"
          using assms(3) c q1 p q2 h' w3 cs Inl r4 by (auto simp: connect_body_def Let_def)
        have "reader_step i {} w w'"
          using s2 i2 by (auto simp: reader_step_def w')
        with w' r4 f2 i2 early show thesis by simp
      next
        case (Inr u)
        obtain rv' h'' r5 where ca: "connect_add_handle (maxReaderHandles w2) (memOk w2) h' r4 = (rv', h'', r5)"
          by (cases "connect_add_handle (maxReaderHandles w2) (memOk w2) h' r4") auto
        have "w' = set_rdr i r5 (w2\<lparr>randoms := rest\<rparr>)" "h = h''" "rv = rv'"
          using assms(3) c q1 p q2 h' w3 cs Inr ca by (auto simp: connect_body_def Let_def)
        with shared [OF ok2 s2 fresh f2, of r4 r5 rest] cs Inr ca show thesis by simp
      qed
    qed
  qed
qed

lemma connect_body_step:
  assumes "pcscd_ok w" "i < length (sReadersContexts w)" "active (rdr w i)"
    and "contexts (rdr w i) \<noteq> PCSCLITE_SHARING_EXCLUSIVE_CONTEXT"
    and "connect_body share pref act i w = Some ((rv, h, prot), w')"
  shows "\<exists>H. reader_step i H w w' \<and> H \<inter> all_handles w = {} \<and>
      (rv = SCARD_S_SUCCESS \<longrightarrow> H = {h} \<and> handles (rdr w' i) = handles (rdr w i) @ [h] \<and>
         contexts (rdr w' i) = (if share = SCARD_SHARE_EXCLUSIVE then - 1 else contexts (rdr w i) + 1)) \<and>
      (rv \<noteq> SCARD_S_SUCCESS \<longrightarrow> h = 0 \<and> handles (rdr w' i) = handles (rdr w i) \<and>
         contexts (rdr w' i) = contexts (rdr w i))"
  using assms(1,2,5)
proof (cases rule: connect_body_cases)
  case early
  then show ?thesis by (intro exI [of _ "{}"]) (auto simp: handles_def)
next
  case (shared h' w2 rest r' r'')
  have i2: "i < length (sReadersContexts w2)"
    using shared(2) assms(2) by (simp add: reader_step_length)
  have hw: "handles (rdr w2 i) = handles (rdr w i)"
    using shared(4) by (simp add: handles_def)
  have a2: "active (rdr w2 i)"
    using shared(2) assms(3) by (simp add: reader_step_def active_def)
  have sh: "sharing_ok (rdr w2 i)" "h' \<notin> set (handles (rdr w2 i))" "maxReaderHandles w2 \<le> 2 ^ 31 - 2"
    using pcscd_ok_reader [OF shared(1) i2 a2] shared(1,3) i2 a2
    by (auto simp: reader_ok_def all_handles_def pcscd_ok_def)
  note k = connect_share_keeps [OF sh _ shared(8,9)]
  have c2: "contexts (rdr w2 i) \<noteq> - 1"
    using shared(5) assms(4) by simp
  have w': "rdr w' i = r''" "w' = set_rdr i r'' w2\<lparr>randoms := rest\<rparr>"
    using shared(10) i2 by (simp_all add: set_rdr_def rdr_def)
  have "reader_step i {h'} w2 (set_rdr i r'' w2)"
    using i2 k(1) c2 by (intro reader_step_set_rdr)
  then have "reader_step i {h'} w2 w'"
    unfolding w'(2) by (simp add: reader_step_def)
  with shared(2) have step: "reader_step i {h'} w w'"
    by (rule reader_step_trans)
  have "h' \<notin> all_handles w"
    using all_handles_step [OF shared(2) hw] shared(3) by simp
  then show ?thesis
    using step k(2,3) c2 hw shared(5) w'(1) by (intro exI [of _ "{h'}"]) auto
qed

text \<open>
  The lookup by name takes a reference, the end of the call drops it.
\<close>

lemma pcscd_ok_ref:
  assumes "pcscd_ok w" "i < length (sReadersContexts w)" "reference (rdr w i) + 1 < 2 ^ 31 - 1"
  shows "pcscd_ok (set_rdr i ((rdr w i)\<lparr>reference := reference (rdr w i) + 1\<rparr>) w)" (is "pcscd_ok ?v")
proof -
  have "active (rdr ?v j) = active (rdr w j)" "handles (rdr ?v j) = handles (rdr w j)" for j
    using assms(2) by (auto simp: active_def handles_def)
  moreover have "reader_ok (rdr ?v j)" if "active (rdr w j)" "j < length (sReadersContexts w)" for j
    using pcscd_ok_reader [OF assms(1) that(2,1)] assms(2,3) by (auto simp: reader_ok_def reader_ok_reference)
  ultimately show ?thesis
    using assms(1) by (simp add: pcscd_ok_def)
qed

text \<open>A connection that does not have to wait.\<close>

lemma SCardConnect_cases:
  assumes "pcscd_ok w" "SCardConnect [] name share pref act w = Some ((rv, h, prot), w')"
    and "refs_room w"
  obtains (refused) "w' = w" "h = 0" "rv \<noteq> SCARD_S_SUCCESS"
  | (body) i H where "i < length (sReadersContexts w)" "active (rdr w i)" "readerName (readerState (rdr w i)) = name"
      "contexts (rdr w i) \<noteq> PCSCLITE_SHARING_EXCLUSIVE_CONTEXT" "valid_share share" "hLockId (rdr w i) = 0"
      "reader_step i H w w'" "H \<inter> all_handles w = {}"
      "rv = SCARD_S_SUCCESS \<Longrightarrow> H = {h} \<and> handles (rdr w' i) = handles (rdr w i) @ [h] \<and>
         contexts (rdr w' i) = (if share = SCARD_SHARE_EXCLUSIVE then - 1 else contexts (rdr w i) + 1)"
      "rv \<noteq> SCARD_S_SUCCESS \<Longrightarrow> h = 0 \<and> handles (rdr w' i) = handles (rdr w i) \<and>
         contexts (rdr w' i) = contexts (rdr w i)"
      "\<exists>w2. connect_body share pref act i (set_rdr i ((rdr w i)\<lparr>reference := reference (rdr w i) + 1\<rparr>) w) =
         Some ((rv, h, prot), w2) \<and> rdr w' i = (rdr w2 i)\<lparr>reference := reference (rdr w i)\<rparr>"
      "\<exists>w1. RFReaderInfo name w = (Inr i, w1)" "RFCheckReaderStatus (rdr w i) = SCARD_S_SUCCESS"
proof (cases "no_protocol share pref \<or> \<not> valid_share share")
  case True
  with assms(2) refused show thesis
    by (auto simp: SCardConnect_def split: if_splits)
next
  case ok: False
  obtain q w1 where q: "RFReaderInfo name w = (q, w1)" by fastforce
  show thesis
  proof (cases q)
    case (Inl e)
    have e: "e \<noteq> 0 \<and> w1 = w"
      using q Inl by (auto simp: RFReaderInfo_def ref_found_def RefReader_def split: option.splits if_splits)
    with assms(2) ok q Inl refused show thesis
      by (auto simp: SCardConnect_def)
  next
    case (Inr i)
    note f = RFReaderInfo_found [OF q [unfolded Inr] assms(1)]
    have l: "reference (rdr w i) + 1 < 2 ^ 31 - 1"
      using assms(3) f(1,2) by (auto simp: refs_room_def)
    have u: "UnrefReader i w1 = (SCARD_S_SUCCESS, w)"
      using UnrefReader_dec [of i w1] f pcscd_ok_reader [OF assms(1) f(1,2)] by (auto simp: reader_ok_def)
    have w1: "rdr w1 i = (rdr w i)\<lparr>reference := reference (rdr w i) + 1\<rparr>"
      using f by simp
    have wu: "wait_unlocked i [] w1 = (if hLockId (rdr w i) = 0 then Some w1 else None)"
      using w1 by simp
    let ?early = "RFCheckReaderStatus (rdr w1 i) \<noteq> 0 \<or> contexts (rdr w1 i) = - 1"
    show thesis
    proof (cases ?early)
      case True
      with assms(2) ok q Inr u refused show thesis
        by (auto simp: SCardConnect_def Let_def split: if_splits)
    next
      case False
      then obtain w2 where b: "connect_body share pref act i w1 = Some ((rv, h, prot), w2)"
        and w': "w' = snd (UnrefReader i w2)" and l0: "hLockId (rdr w i) = 0"
        using assms(2) ok q Inr wu by (auto simp: SCardConnect_def Let_def split: if_splits)
      have ok1: "pcscd_ok w1" "i < length (sReadersContexts w1)" "active (rdr w1 i)"
        using pcscd_ok_ref [OF assms(1) f(1) l] f by (auto simp: active_def)
      have "contexts (rdr w1 i) \<noteq> - 1" using False by simp
      from connect_body_step [OF ok1 this b]
      obtain H where H: "reader_step i H w1 w2" "H \<inter> all_handles w1 = {}"
        "rv = SCARD_S_SUCCESS \<longrightarrow> H = {h} \<and> handles (rdr w2 i) = handles (rdr w1 i) @ [h] \<and>
           contexts (rdr w2 i) = (if share = SCARD_SHARE_EXCLUSIVE then - 1 else contexts (rdr w1 i) + 1)"
        "rv \<noteq> SCARD_S_SUCCESS \<longrightarrow> h = 0 \<and> handles (rdr w2 i) = handles (rdr w1 i) \<and>
           contexts (rdr w2 i) = contexts (rdr w1 i)"
        by blast
      note un = reader_step_unref [OF assms(1) f(1,2) H(1) [unfolded f(4)]]
      have ah: "all_handles w1 = all_handles w"
      proof -
        have "active (rdr w1 j) = active (rdr w j)" "handles (rdr w1 j) = handles (rdr w j)" for j
          using f(1) by (auto simp: f(4) active_def handles_def)
        then show ?thesis by (simp add: all_handles_def f(4))
      qed
      show thesis
        by (rule body [OF f(1,2,3) _ _ l0 un(1) [folded w']])
          (use False ok H w1 ah un(2) b f(4) w' q Inr in \<open>auto simp: reader_ok_reference RFCheckReaderStatus_def\<close>)
    qed
  qed
qed

lemma SCardConnect_ok:
  assumes "pcscd_ok w" "SCardConnect [] name share pref act w = Some ((rv, h, prot), w')"
    and "refs_room w"
  shows "call_ok w w'"
  using assms(1,2,3)
proof (cases rule: SCardConnect_cases)
  case refused
  with assms(1) show ?thesis by simp
next
  case (body i H)
  then show ?thesis by (auto simp: call_ok_def)
qed

section \<open>The event thread\<close>

lemma reader_step_then_signal: "reader_step i {} w w' \<Longrightarrow> reader_step i {} w (EHSignalEventToClients w')"
  using EHSignalEventToClients_all(3) [of w'] by (auto simp: reader_step_def)

lemma eh_power_up_step:
  "reader_step i {} w w' \<Longrightarrow> i < length (sReadersContexts w) \<Longrightarrow> reader_step i {} w (snd (eh_power_up i w'))"
  by (auto simp: eh_power_up_def split_beta intro!: reader_step_intros)

lemma keeps_sharing_power_state [simp]:
  "keeps_sharing H r (RFSetPowerState (upd_state f r) p)"
  "keeps_sharing H r (upd_state g (RFSetPowerState (upd_state f r) p))"
  "keeps_sharing H r (upd_state g (r\<lparr>powerState := p\<rparr>))"
  by (simp_all add: keeps_sharing_frame RFSetPowerState_def)

lemmas eh_step_intros = reader_step_intros reader_step_then_signal eh_power_up_step

lemma eh_sharing_step:
  "reader_step i {} w w' \<Longrightarrow> i < length (sReadersContexts w) \<Longrightarrow> reader_step i {} w (snd (eh_sharing i t w'))"
  by (auto simp: eh_sharing_def intro!: eh_step_intros)

lemma eh_removed_step:
  "reader_step i {} w w' \<Longrightarrow> i < length (sReadersContexts w) \<Longrightarrow> reader_step i {} w (snd (eh_removed i t w'))"
  by (auto simp: eh_removed_def Let_def intro!: eh_step_intros)

lemma eh_inserted_step:
  "reader_step i {} w w' \<Longrightarrow> i < length (sReadersContexts w) \<Longrightarrow> reader_step i {} w (snd (eh_inserted i t w'))"
  by (auto simp: eh_inserted_def Let_def split_beta intro!: eh_step_intros)

lemma eh_error_step:
  "reader_step i {} w w' \<Longrightarrow> i < length (sReadersContexts w) \<Longrightarrow> reader_step i {} w (snd (eh_error i t w'))"
  by (auto simp: eh_error_def intro!: eh_step_intros)

lemma eh_poll_call:
  assumes "i < length (sReadersContexts w)"
  shows "call_ok w (snd (eh_poll i t w))"
proof -
  let ?w = "snd (call_ifd (IFDStatusICC (rdr w i)) w)"
  have 0: "reader_step i {} w ?w" by simp
  show ?thesis
    using assms 0
    by (auto simp: eh_poll_def Let_def split_beta intro!: call_okI eh_sharing_step
        eh_removed_step eh_inserted_step eh_error_step)
qed

lemma eh_wake_call:
  assumes "i < length (sReadersContexts w)"
  shows "call_ok w (snd (eh_exit i (eh_power i (eh_wait i w))))"
proof -
  have k: "keeps_sharing {} r (r\<lparr>hLockId := 0\<rparr>)" for r :: "'a READER_CONTEXT"
    by (rule keeps_sharing_frame) simp_all
  have 1: "reader_step i {} w (eh_wait i w)"
    by (auto simp: eh_wait_def split: option.splits)
  then have "reader_step i {} w (eh_power i (eh_wait i w))"
    using assms by (auto simp: eh_power_def Let_def split_beta intro!: reader_step_intros)
  then have "reader_step i {} w (snd (eh_exit i (eh_power i (eh_wait i w))))"
    using assms by (auto simp: eh_exit_def intro!: reader_step_intros k)
  with assms show ?thesis by (rule call_okI)
qed

section \<open>All interleavings of calls\<close>

text \<open>
  The daemon after any sequence of calls that do not block, and of rounds of the event
  threads: each rule is one call of one client, or one half of a round of one thread.
\<close>

inductive pcscd_step :: "'d pcscd \<Rightarrow> 'd pcscd \<Rightarrow> bool" where
  step_connect: "SCardConnect [] name share pref act w = Some (res, w') \<Longrightarrow> pcscd_step w w'"
| step_reconnect: "SCardReconnect h share pref ini act w = (res, w') \<Longrightarrow> pcscd_step w w'"
| step_disconnect: "SCardDisconnect [] h d w = Some (rv, w') \<Longrightarrow> pcscd_step w w'"
| step_begin: "SCardBeginTransaction h w = (rv, w') \<Longrightarrow> pcscd_step w w'"
| step_end: "SCardEndTransaction h d w = (rv, w') \<Longrightarrow> pcscd_step w w'"
| step_status: "SCardStatus h w = (rv, w') \<Longrightarrow> pcscd_step w w'"
| step_control: "SCardControl h code send len w = (out, w') \<Longrightarrow> pcscd_step w w'"
| step_get_attrib: "SCardGetAttrib h a len w = (out, w') \<Longrightarrow> pcscd_step w w'"
| step_set_attrib: "SCardSetAttrib h a attr w = (rv, w') \<Longrightarrow> pcscd_step w w'"
| step_transmit: "SCardTransmit h p send q len w = (out', w') \<Longrightarrow> pcscd_step w w'"
| step_poll: "i < length (sReadersContexts w) \<Longrightarrow> eh_poll i t w = (t', w') \<Longrightarrow> pcscd_step w w'"
| step_wake: "i < length (sReadersContexts w) \<Longrightarrow>
    eh_exit i (eh_power i (eh_wait i w)) = (ended, w') \<Longrightarrow> pcscd_step w w'"

inductive pcscd_reachable :: "'d pcscd \<Rightarrow> 'd pcscd \<Rightarrow> bool" for w0 where
  reach_start: "pcscd_reachable w0 w0"
| reach_step: "pcscd_reachable w0 w \<Longrightarrow> pcscd_step w w' \<Longrightarrow> pcscd_reachable w0 w'"

lemma pcscd_step_call_ok:
  assumes "pcscd_step w w'" "pcscd_ok w" "refs_room w"
  shows "call_ok w w'"
  using assms
proof cases
  case (step_connect name share pref act res)
  obtain rv h p where "res = (rv, h, p)" by (cases res)
  with SCardConnect_ok [OF assms(2) _ assms(3)] step_connect show ?thesis by blast
next
  case (step_reconnect h share pref ini act res)
  with SCardReconnect_ok [OF assms(2), of h share pref ini act] show ?thesis by simp
next
  case (step_disconnect h d rv)
  with SCardDisconnect_ok [OF assms(2)] show ?thesis by blast
next
  case (step_begin h rv)
  with SCardBeginTransaction_ok [OF assms(2), of h] show ?thesis by simp
next
  case (step_end h d rv)
  with SCardEndTransaction_ok [OF assms(2), of h d] show ?thesis by simp
next
  case (step_status h rv)
  with SCardStatus_ok [OF assms(2), of h] show ?thesis by simp
next
  case (step_control h code send len out)
  with SCardControl_ok [OF assms(2), of h code send len] show ?thesis by simp
next
  case (step_get_attrib h a len out)
  with SCardGetAttrib_ok [OF assms(2), of h a len] show ?thesis by simp
next
  case (step_set_attrib h a attr rv)
  with SCardSetAttrib_ok [OF assms(2), of h a attr] show ?thesis by simp
next
  case (step_transmit h p send q len out)
  with SCardTransmit_ok [OF assms(2), of h p send q len] show ?thesis by simp
next
  case (step_poll i t t')
  with eh_poll_call [of i w t] show ?thesis by simp
next
  case (step_wake i ended)
  with eh_wake_call [of i w] show ?thesis by simp
qed

lemma pcscd_reachable_ok:
  assumes "pcscd_reachable w0 w" "pcscd_ok w0" "refs_room w0"
  shows "pcscd_ok w \<and> refs_room w"
  using assms
proof induction
  case reach_start
  then show ?case by simp
next
  case (reach_step w w')
  with pcscd_step_call_ok [OF reach_step.hyps(2)] call_ok_pcscd_ok call_ok_refs_room show ?case by blast
qed

end
