(* ===== verification/Examples.thy ===== *)
theory Examples
  imports Winscard_Inv
begin

text \<open>
  Concrete daemons on which the theorems are instantiated: one reader, an example driver
  with no state of its own, and clients with given handles.
\<close>

text \<open>A driver: the card is present or not, power up gives the ATR \<open>3B 00\<close>, a command is answered with 90 00.\<close>

definition ex_functions :: "bool \<Rightarrow> unit FCT_MAP" where
  "ex_functions present = \<lparr>
     pvfCreateChannel = Some (\<lambda>lun port d. (IFD_SUCCESS, d)),
     pvfCloseChannel = Some (\<lambda>lun d. (IFD_SUCCESS, d)),
     pvfGetCapabilities = Some (\<lambda>lun tag len d. ((IFD_ERROR_TAG, len, []), d)),
     pvfSetCapabilities = Some (\<lambda>lun tag val d. (IFD_ERROR_TAG, d)),
     pvfSetProtocolParameters = Some (\<lambda>lun prot flags p1 p2 p3 d. (IFD_SUCCESS, d)),
     pvfPowerICC = Some (\<lambda>lun action atr len d. ((IFD_SUCCESS, [0x3B, 0x00], 2), d)),
     pvfTransmitToICC = Some (\<lambda>lun txpci tx len rxpci d. ((IFD_SUCCESS, [0x90, 0x00], 2, rxpci), d)),
     pvfICCPresence = Some (\<lambda>lun d. (if present then IFD_ICC_PRESENT else IFD_ICC_NOT_PRESENT, d)),
     pvfControl_v2 = None,
     pvfControl_v3 = Some (\<lambda>lun code tx len ret d. ((IFD_SUCCESS, [], 0), d)),
     pvfCreateChannelByName = Some (\<lambda>lun name d. (IFD_SUCCESS, d))\<rparr>"

definition ex_library :: "bool \<Rightarrow> unit ifd_library" where
  "ex_library present = \<lparr>symbols = ex_functions present, callable = (\<lambda>addr lun timeout d. (IFD_SUCCESS, d))\<rparr>"

text \<open>The handle list of a reader with the given handles and no pending event.\<close>

definition ex_handles :: "SCARDHANDLE list \<Rightarrow> RDR_CLIHANDLES list_t" where
  "ex_handles hs = list_init\<lparr>entries := map (\<lambda>h. \<lparr>hCard = h, dwEventStatus = 0\<rparr>) hs, numels := length hs,
     mid := (if hs = [] then None else Some ((int (length hs) - 1) div 2)),
     seeker := Some RDR_CLIHANDLES_seeker\<rparr>"

definition ex_state :: "READER_STATE" where
  "ex_state = \<lparr>readerName = ''R 00 00'', eventCounter = 0, rsState = SCARD_PRESENT OR SCARD_POWERED OR SCARD_NEGOTIABLE,
     readerSharing = 0, cardAtr = [0x3B, 0x00], pastAtr = (\<lambda>p. 0), cardAtrLength = 2,
     cardProtocol = SCARD_PROTOCOL_T0\<rparr>"

text \<open>A reader with its clients, the share counter, and the owner and depth of the lock.\<close>

definition ex_reader :: "bool \<Rightarrow> SCARDHANDLE list \<Rightarrow> int \<Rightarrow> SCARDHANDLE \<Rightarrow> int \<Rightarrow> unit READER_CONTEXT" where
  "ex_reader present hs n owner count = \<lparr>library = ''lib'', device = ''dev'', pthThread = True, pthCardEvent = None,
     mMutex = Some 0, handlesList = ex_handles hs, psFunctions = ex_functions present, vHandle = Some ''lib'',
     version = IFD_HVERSION_3_0, port = 0x200000, slot = 0, hLockId = owner, LockCount = count, contexts = n,
     pFeeds = Some 1, pMutex = Some 2, powerState = POWER_STATE_IN_USE, reference = 1, readerState = ex_state\<rparr>"

definition ex_waiting :: "int list \<Rightarrow> int list_t" where
  "ex_waiting fds = list_init\<lparr>entries := fds, numels := length fds,
     mid := (if fds = [] then None else Some ((int (length fds) - 1) div 2)), comparator := Some (=), copy_data := True\<rparr>"

definition ex_pcscd :: "unit READER_CONTEXT \<Rightarrow> int list \<Rightarrow> unit pcscd" where
  "ex_pcscd r fds = \<lparr>sReadersContexts = [r], intCells = (\<lambda>a. 1), freshAddr = 3, maxReaderHandles = 200,
     ReaderEvents = 1, ClientsWaitingForEvent = ex_waiting fds, signalled = [],
     ifd = \<lparr>driver = (), hotplugSignals = 0, fault = False\<rparr>, memOk = True, threadOk = True, randoms = [9, 10, 11],
     dynlib = (\<lambda>name. if name = ''lib'' then Some (ex_library True) else None), getenv = (\<lambda>name. None), dlclosed = []\<rparr>"

lemmas ex_defs = ex_functions_def ex_state_def ex_reader_def ex_pcscd_def ex_library_def

lemma ex_handles_ok [simp]: "handles_ok (ex_handles hs)"
  by (simp add: handles_ok_def ex_handles_def list_ok_def list_repOk_def list_init_def)

lemma ex_waiting_ok [simp]: "list_ok (ex_waiting fds)" "entries (ex_waiting fds) = fds"
  by (simp_all add: ex_waiting_def list_ok_def list_repOk_def list_init_def)

lemma ex_reader_handles [simp]: "handles (ex_reader p hs n owner c) = hs"
  by (simp add: handles_def ex_reader_def ex_handles_def comp_def)

lemma ex_reader_entries [simp]:
  "entries (handlesList (ex_reader p hs n owner c)) = map (\<lambda>h. \<lparr>hCard = h, dwEventStatus = 0\<rparr>) hs"
  by (simp add: ex_reader_def ex_handles_def)

lemma ex_reader_fields [simp]:
  "hLockId (ex_reader p hs n owner c) = owner" "LockCount (ex_reader p hs n owner c) = c"
  "contexts (ex_reader p hs n owner c) = n" "reference (ex_reader p hs n owner c) = 1"
  "active (ex_reader p hs n owner c)" "handlesList (ex_reader p hs n owner c) = ex_handles hs"
  "powerState (ex_reader p hs n owner c) = POWER_STATE_IN_USE" "readerState (ex_reader p hs n owner c) = ex_state"
  "psFunctions (ex_reader p hs n owner c) = ex_functions p" "slot (ex_reader p hs n owner c) = 0"
  "version (ex_reader p hs n owner c) = IFD_HVERSION_3_0"
  by (simp_all add: ex_reader_def active_def)

lemma ex_pcscd_fields [simp]:
  "sReadersContexts (ex_pcscd r fds) = [r]" "rdr (ex_pcscd r fds) 0 = r"
  "ClientsWaitingForEvent (ex_pcscd r fds) = ex_waiting fds" "maxReaderHandles (ex_pcscd r fds) = 200"
  "signalled (ex_pcscd r fds) = []"
  by (simp_all add: ex_pcscd_def rdr_def)

lemma ex_pcscd_ok:
  assumes "distinct hs" "length hs < 200" "n = - 1 \<and> length hs = 1 \<or> n = int (length hs)"
  shows "pcscd_ok (ex_pcscd (ex_reader p hs n owner c) fds)"
  using assms by (auto simp: pcscd_ok_def reader_ok_def sharing_ok_def)

lemma ex_refs_room [simp]: "refs_room (ex_pcscd (ex_reader p hs n owner c) fds)"
  by (simp add: refs_room_def)

end
