(* ===== verification/Winscard_Effects.thy ===== *)
theory Winscard_Effects
  imports Examples
begin

text \<open>
  The effect of whole calls on the reader they work on: its handles, its sharing mode, its
  lock and the events pending for its clients.
\<close>

section \<open>Names and status of a reader\<close>

definition same_names :: "'d pcscd \<Rightarrow> 'd pcscd \<Rightarrow> bool" where
  "same_names w w' =
     (map (\<lambda>r. (vHandle r, readerName (readerState r))) (sReadersContexts w') =
      map (\<lambda>r. (vHandle r, readerName (readerState r))) (sReadersContexts w))"

lemma same_namesI:
  assumes "length (sReadersContexts w') = length (sReadersContexts w)"
    and "\<And>j. j < length (sReadersContexts w) \<Longrightarrow> vHandle (rdr w' j) = vHandle (rdr w j) \<and>
      readerName (readerState (rdr w' j)) = readerName (readerState (rdr w j))"
  shows "same_names w w'"
  unfolding same_names_def by (rule nth_equalityI) (use assms in \<open>auto simp: rdr_def\<close>)

lemma same_names_step:
  assumes "reader_step i H w w'" "readerName (readerState (rdr w' i)) = readerName (readerState (rdr w i))"
  shows "same_names w w'"
proof (rule same_namesI)
  show "length (sReadersContexts w') = length (sReadersContexts w)"
    using assms(1) by (rule reader_step_length)
  show "vHandle (rdr w' j) = vHandle (rdr w j) \<and>
      readerName (readerState (rdr w' j)) = readerName (readerState (rdr w j))" for j
    using assms by (cases "j = i") (auto simp: reader_step_def)
qed

lemma position_map: "position (P \<circ> f) xs = position P (map f xs)"
  by (induction xs) simp_all

lemma same_names_position:
  fixes w w' :: "'d pcscd"
  assumes "same_names w w'"
  shows "position (\<lambda>r. vHandle r \<noteq> None \<and> name = readerName (readerState r)) (sReadersContexts w') =
    position (\<lambda>r. vHandle r \<noteq> None \<and> name = readerName (readerState r)) (sReadersContexts w)"
proof -
  let ?f = "\<lambda>r. (vHandle r, readerName (readerState r))"
  have "position (\<lambda>r. vHandle r \<noteq> None \<and> name = readerName (readerState r)) xs =
      position (\<lambda>(v, n). v \<noteq> None \<and> name = n) (map ?f xs)" for xs :: "'d READER_CONTEXT list"
    by (simp add: position_map [symmetric] comp_def)
  then show ?thesis
    using assms by (simp add: same_names_def)
qed

lemma RFReaderInfo_same_names:
  assumes "pcscd_ok w" "pcscd_ok w'" "same_names w w'" "RFReaderInfo name w = (Inr i, w1)"
  shows "RFReaderInfo name w' = (Inr i, set_rdr i ((rdr w' i)\<lparr>reference := reference (rdr w' i) + 1\<rparr>) w')"
proof -
  let ?P = "\<lambda>r. vHandle r \<noteq> None \<and> name = readerName (readerState r)"
  have p: "position ?P (sReadersContexts w) = Some i"
    using assms(4) by (auto simp: RFReaderInfo_def ref_found_def split: option.splits prod.splits if_splits)
  then have p': "position ?P (sReadersContexts w') = Some i"
    using same_names_position [OF assms(3)] by simp
  from position_SomeD [OF p'] have "i < length (sReadersContexts w')" "active (rdr w' i)"
    by (auto simp: rdr_def active_def)
  from pcscd_ok_reader [OF assms(2) this] have r: "1 \<le> reference (rdr w' i)" "reference (rdr w' i) < 2 ^ 31 - 1"
    by (auto simp: reader_ok_def)
  then have "int32 (reference (rdr w' i) + 1) = reference (rdr w' i) + 1"
    by (intro int32_id) auto
  with r p' show ?thesis
    by (simp add: RFReaderInfo_def ref_found_def RefReader_def)
qed

lemma connect_card_state:
  assumes "i < length (sReadersContexts w)"
  shows "readerName (readerState (rdr (snd (connect_card share i w)) i)) = readerName (readerState (rdr w i))"
    and "RFCheckReaderStatus (rdr w i) = SCARD_S_SUCCESS \<Longrightarrow>
      RFCheckReaderStatus (rdr (snd (connect_card share i w)) i) = SCARD_S_SUCCESS"
  using assms by (auto simp: connect_card_def Let_def split_beta RFCheckReaderStatus_def split: if_splits)

lemma set_up_protocol_state:
  assumes "i < length (sReadersContexts w)"
  shows "readerName (readerState (rdr (snd (set_up_protocol share pref i w)) i)) = readerName (readerState (rdr w i))"
    and "RFCheckReaderStatus (rdr (snd (set_up_protocol share pref i w)) i) = RFCheckReaderStatus (rdr w i)"
  using assms by (auto simp: set_up_protocol_def Let_def split_beta RFCheckReaderStatus_def)

section \<open>A successful exclusive connection\<close>

lemma connect_share_lock:
  assumes "connect_share share h r = (Inr u, r')" "connect_add_handle m mem h r' = (SCARD_S_SUCCESS, h', r'')"
    and "hLockId r = 0"
  shows "hLockId r'' = (if share = SCARD_SHARE_EXCLUSIVE then h else 0)"
    and "LockCount r'' = (if share = SCARD_SHARE_EXCLUSIVE then int32 (LockCount r + 1) else LockCount r)"
    and "readerName (readerState r'') = readerName (readerState r)"
    and "RFCheckReaderStatus r'' = RFCheckReaderStatus r"
proof -
  have r': "readerState r' = readerState r" "hLockId r' = (if share = SCARD_SHARE_EXCLUSIVE then h else 0)"
    "LockCount r' = (if share = SCARD_SHARE_EXCLUSIVE then int32 (LockCount r + 1) else LockCount r)"
    using assms(1,3) by (auto simp: connect_share_def RFLockSharing_def RFCheckSharing_def split: if_splits)
  have r'': "r'' = upd_state (\<lambda>s. s\<lparr>readerSharing := contexts r'\<rparr>) (snd (RFAddReaderHandle m mem h r'))"
    using assms(2) by (auto simp: connect_add_handle_def split_beta frame_simps split: if_splits)
  show "hLockId r'' = (if share = SCARD_SHARE_EXCLUSIVE then h else 0)"
    and "LockCount r'' = (if share = SCARD_SHARE_EXCLUSIVE then int32 (LockCount r + 1) else LockCount r)"
    and "readerName (readerState r'') = readerName (readerState r)"
    and "RFCheckReaderStatus r'' = RFCheckReaderStatus r"
    using r' by (simp_all add: r'' frame_simps RFCheckReaderStatus_def)
qed

text \<open>What a successful connection leaves, read off the body of the call.\<close>

lemma connect_body_success:
  assumes "pcscd_ok w" "i < length (sReadersContexts w)" "hLockId (rdr w i) = 0"
    and "connect_body share pref act i w = Some ((SCARD_S_SUCCESS, h, prot), w')"
  shows "hLockId (rdr w' i) = (if share = SCARD_SHARE_EXCLUSIVE then h else 0)"
    and "LockCount (rdr w' i) = (if share = SCARD_SHARE_EXCLUSIVE then int32 (LockCount (rdr w i) + 1)
      else LockCount (rdr w i))"
    and "readerName (readerState (rdr w' i)) = readerName (readerState (rdr w i))"
    and "RFCheckReaderStatus (rdr w i) = SCARD_S_SUCCESS \<Longrightarrow> RFCheckReaderStatus (rdr w' i) = SCARD_S_SUCCESS"
proof -
  obtain q1 w1 where c: "connect_card share i w = (q1, w1)" by fastforce
  obtain q2 w2 where p: "set_up_protocol share pref i w1 = (q2, w2)" by fastforce
  have s1: "reader_step i {} w w1"
    using connect_card_step [OF assms(2), of share] c by simp
  have i1: "i < length (sReadersContexts w1)"
    using s1 assms(2) by (simp add: reader_step_length)
  have s2: "reader_step i {} w w2"
    using set_up_protocol_step [OF i1, of share pref] p reader_step_trans [OF s1, of "{}" w2] by simp
  have i2: "i < length (sReadersContexts w2)"
    using s2 assms(2) by (simp add: reader_step_length)
  have ok2: "pcscd_ok w2"
    using pcscd_ok_step [OF assms(1,2) s2] by simp
  have f2: "hLockId (rdr w2 i) = 0" "LockCount (rdr w2 i) = LockCount (rdr w i)"
    "readerName (readerState (rdr w2 i)) = readerName (readerState (rdr w i))"
    "RFCheckReaderStatus (rdr w i) = SCARD_S_SUCCESS \<Longrightarrow> RFCheckReaderStatus (rdr w2 i) = SCARD_S_SUCCESS"
    using connect_card_frame [OF assms(2), of share] connect_card_state [OF assms(2), of share]
      set_up_protocol_frame [OF i1, of share pref] set_up_protocol_state [OF i1, of share pref]
      c p assms(3) by auto
  have e: "rv \<noteq> 0" if "q1 = Inl rv \<or> q2 = Inl rv" for rv
    using c p that
    by (auto simp: connect_card_def set_up_protocol_def Let_def split_beta split: if_splits)
  obtain u1 u2 where q: "q1 = Inr u1" "q2 = Inr u2"
    using assms(4) c p e by (cases q1; cases q2) (auto simp: connect_body_def)
  obtain h' w3 where h': "RFCreateReaderHandle w2 = Some (h', w3)"
    using assms(4) c p q by (auto simp: connect_body_def Let_def split: option.splits)
  from create_handle_fresh [OF h' [unfolded RFCreateReaderHandle_def] ok2]
  obtain rest where w3: "w3 = w2\<lparr>randoms := rest\<rparr>" by auto
  obtain q4 r4 where cs: "connect_share share h' (rdr w2 i) = (q4, r4)" by fastforce
  have "\<exists>u. q4 = Inr u"
    using assms(4) c p q h' w3 cs
    by (cases q4) (auto simp: connect_body_def Let_def connect_share_def split: if_splits)
  then obtain u r5 where u: "q4 = Inr u"
    and ca: "connect_add_handle (maxReaderHandles w2) (memOk w2) h' r4 = (SCARD_S_SUCCESS, h, r5)"
    and w': "rdr w' i = r5"
    using assms(4) c p q h' w3 cs i2 by (fastforce simp: connect_body_def Let_def split: prod.splits)
  have "h = h'"
    using ca by (auto simp: connect_add_handle_def split_beta split: if_splits)
  with connect_share_lock [OF cs [unfolded u] ca] f2 w'
  show "hLockId (rdr w' i) = (if share = SCARD_SHARE_EXCLUSIVE then h else 0)"
    and "LockCount (rdr w' i) = (if share = SCARD_SHARE_EXCLUSIVE then int32 (LockCount (rdr w i) + 1)
      else LockCount (rdr w i))"
    and "readerName (readerState (rdr w' i)) = readerName (readerState (rdr w i))"
    and "RFCheckReaderStatus (rdr w i) = SCARD_S_SUCCESS \<Longrightarrow> RFCheckReaderStatus (rdr w' i) = SCARD_S_SUCCESS"
    by simp_all
qed

section \<open>Disconnection\<close>

lemma disconnect_share_frame [simp]:
  "hLockId (disconnect_share h r) = hLockId r" "LockCount (disconnect_share h r) = LockCount r"
  "powerState (disconnect_share h r) = powerState r" "readerState (disconnect_share h r) = readerState r"
  "reference (disconnect_share h r) = reference r"
  by (simp_all add: disconnect_share_def Let_def frame_simps)

lemma RFUnlockAllSharing_frame [simp]:
  "powerState (snd (RFUnlockAllSharing h r)) = powerState r" "reference (snd (RFUnlockAllSharing h r)) = reference r"
  "readerState (snd (RFUnlockAllSharing h r)) = readerState r"
  by (simp_all add: RFUnlockAllSharing_def Let_def)

lemma disconnect_body_leave:
  assumes "i < length (sReadersContexts w)" "sharing_ok (rdr w i)" "h \<in> set (handles (rdr w i))"
    and "disconnect_body h SCARD_LEAVE_CARD i w = (rv, w')"
  shows "rv = SCARD_S_SUCCESS" "handles (rdr w' i) = remove1 h (handles (rdr w i))"
    and "contexts (rdr w' i) = (if contexts (rdr w i) = - 1 then 0 else contexts (rdr w i) - 1)"
    and "lock_of (rdr w' i) = snd (spec_unlock_all h (lock_of (rdr w i)))"
    and "powerState (rdr w' i) = (if contexts (rdr w' i) = 0 \<and> powerState (rdr w i) \<noteq> POWER_STATE_UNPOWERED
      then POWER_STATE_GRACE_PERIOD else powerState (rdr w i))"
    and "readerSharing (readerState (rdr w' i)) = contexts (rdr w' i)"
proof -
  let ?r = "snd (RFUnlockAllSharing h (rdr w i))"
  let ?w1 = "upd_rdr i (disconnect_share h) (set_rdr i ?r w)"
  let ?w2 = "disconnect_last i ?w1"
  have sh: "sharing_ok ?r" "h \<in> set (handles ?r)"
    using assms(2,3) by (simp_all add: sharing_ok_def handles_def)
  have "fst (RFUnlockAllSharing h (rdr w i)) = SCARD_S_SUCCESS \<or>
      fst (RFUnlockAllSharing h (rdr w i)) = SCARD_E_SHARING_VIOLATION"
    by (auto simp: RFUnlockAllSharing_def RFCheckSharing_def Let_def)
  then have rv: "rv = SCARD_S_SUCCESS"
    and w': "w' = upd_rstate i (\<lambda>s. s\<lparr>readerSharing := contexts (rdr ?w2 i)\<rparr>) ?w2"
    using assms(4) by (auto simp: disconnect_body_def split_beta Let_def split: if_splits)
  have i1: "i < length (sReadersContexts ?w1)" using assms(1) by simp
  have r1: "rdr ?w1 i = disconnect_share h ?r" using assms(1) by simp
  have i2: "i < length (sReadersContexts ?w2)"
    using disconnect_last_step [OF i1] i1 by (simp add: reader_step_length)
  note d = disconnect_last_frame [OF i1, unfolded r1] remove_handle_keeps [OF sh]
  show "rv = SCARD_S_SUCCESS" by (rule rv)
  show "handles (rdr w' i) = remove1 h (handles (rdr w i))"
    and c: "contexts (rdr w' i) = (if contexts (rdr w i) = - 1 then 0 else contexts (rdr w i) - 1)"
    and "powerState (rdr w' i) = (if contexts (rdr w' i) = 0 \<and> powerState (rdr w i) \<noteq> POWER_STATE_UNPOWERED
      then POWER_STATE_GRACE_PERIOD else powerState (rdr w i))"
    and "readerSharing (readerState (rdr w' i)) = contexts (rdr w' i)"
    using i2 d by (simp_all add: w' handles_def)
  have "lock_of (rdr w' i) = lock_of ?r"
    using i2 d(4,5) by (simp add: w' lock_of_def)
  then show "lock_of (rdr w' i) = snd (spec_unlock_all h (lock_of (rdr w i)))"
    using RFUnlockAllSharing_refines(2) [of h "rdr w i"] by (metis snd_conv)
qed

lemma SCardDisconnect_leave:
  assumes "pcscd_ok w" "i < length (sReadersContexts w)" "active (rdr w i)" "h \<in> set (handles (rdr w i))" "h \<noteq> 0"
  obtains w' where "SCardDisconnect others h SCARD_LEAVE_CARD w = Some (SCARD_S_SUCCESS, w')"
    "reader_step i {} w w'"
    "handles (rdr w' i) = remove1 h (handles (rdr w i))"
    "contexts (rdr w' i) = (if contexts (rdr w i) = - 1 then 0 else contexts (rdr w i) - 1)"
    "lock_of (rdr w' i) = snd (spec_unlock_all h (lock_of (rdr w i)))"
    "powerState (rdr w' i) = (if contexts (rdr w' i) = 0 \<and> powerState (rdr w i) \<noteq> POWER_STATE_UNPOWERED
      then POWER_STATE_GRACE_PERIOD else powerState (rdr w i))"
    "readerSharing (readerState (rdr w' i)) = contexts (rdr w' i)"
proof -
  obtain w1 where f: "RFReaderInfoById h w = (Inr i, w1)"
    using RFReaderInfoById_complete [OF assms(1-4)] by auto
  note w1 = RFReaderInfoById_found(4) [OF f assms(1)]
  obtain rv w2 where b: "disconnect_body h SCARD_LEAVE_CARD i w1 = (rv, w2)" by fastforce
  have sh: "sharing_ok (rdr w1 i)" "h \<in> set (handles (rdr w1 i))" "i < length (sReadersContexts w1)"
    using pcscd_ok_reader [OF assms(1-3)] assms(2,4) by (auto simp: w1 reader_ok_def reader_ok_reference)
  note d = disconnect_body_leave [OF sh(3,1,2) b]
  have s: "reader_step i {} w1 w2"
    using disconnect_body_step [OF sh(3), of h SCARD_LEAVE_CARD] sh(2) b by simp
  note u = reader_step_ref_unref [OF f assms(1) s]
  have "SCardDisconnect others h SCARD_LEAVE_CARD w = Some (SCARD_S_SUCCESS, snd (UnrefReader i w2))"
    using f b d(1) assms(5) by (simp add: SCardDisconnect_def valid_disposition_def)
  from that [OF this u(1)] show thesis
    using d assms(2) by (simp add: u(2) w1 reader_ok_reference)
qed

section \<open>Reconnection with a reset\<close>

lemma reset_card_frame:
  assumes "i < length (sReadersContexts w)"
  shows "handlesList (rdr (snd (reset_card a i w)) i) = handlesList (rdr w i)"
    and "length (sReadersContexts (snd (reset_card a i w))) = length (sReadersContexts w)"
  using assms by (auto simp: reset_card_def Let_def split_beta)

lemma reconnect_init_reset:
  assumes "i < length (sReadersContexts w)" "ini = SCARD_RESET_CARD \<or> ini = SCARD_UNPOWER_CARD"
  shows "handlesList (rdr (snd (reconnect_init ini i w)) i) =
    handlesList (RFSetReaderEventState SCARD_RESET (rdr w i))"
  using assms reset_card_frame [of i "upd_rdr i (RFSetReaderEventState SCARD_RESET) w" ini]
  by (auto simp: reconnect_init_def Let_def split_beta)

lemma reconnect_protocol_frame:
  assumes "i < length (sReadersContexts w)"
  shows "handlesList (rdr (snd (reconnect_protocol share pref i w)) i) = handlesList (rdr w i)"
proof -
  obtain q v where s: "set_up_protocol share pref i w = (q, v)" by fastforce
  have "handlesList (rdr v i) = handlesList (rdr w i)" "i < length (sReadersContexts v)"
    using set_up_protocol_frame(1) [OF assms, of share pref] set_up_protocol_step [OF assms, of share pref] s assms
    by (auto simp: reader_step_length)
  then show ?thesis
    using s by (cases q) (auto simp: reconnect_protocol_def RFSetPowerState_def)
qed

lemma reconnect_share_handlesList [simp]: "handlesList (snd (reconnect_share share h r)) = handlesList r"
  by (auto simp: reconnect_share_def)

lemma RFCheckReaderEventState_handlesList:
  "handlesList r = handlesList r' \<Longrightarrow> RFCheckReaderEventState r k = RFCheckReaderEventState r' k"
  by (simp add: RFCheckReaderEventState_def)

lemma reconnect_body_events:
  fixes w :: "'d pcscd"
  assumes "i < length (sReadersContexts w)" "handles_ok (handlesList (rdr w i))" "h \<in> set (handles (rdr w i))"
    and "ini = SCARD_RESET_CARD \<or> ini = SCARD_UNPOWER_CARD"
    and "RFCheckReaderStatus (rdr w i) = SCARD_S_SUCCESS" "RFCheckSharing h (rdr w i) = SCARD_S_SUCCESS"
    and "reconnect_body h share pref ini act i w = ((rv, p), w')" "k \<in> set (handles (rdr w i))"
  shows "RFCheckReaderEventState (rdr w' i) k =
    (if k = h \<and> rv = SCARD_S_SUCCESS then SCARD_S_SUCCESS else SCARD_W_RESET_CARD)"
proof -
  let ?r0 = "RFSetReaderEventState SCARD_RESET (rdr w i)"
  obtain q1 w1 where 1: "reconnect_init ini i w = (q1, w1)" by fastforce
  obtain q2 w2 where 2: "reconnect_protocol share pref i w1 = (q2, w2)" by fastforce
  obtain q3 r3 where 3: "reconnect_share share h (rdr w2 i) = (q3, r3)" by fastforce
  have l1: "handlesList (rdr w1 i) = handlesList ?r0" "i < length (sReadersContexts w1)"
    using reconnect_init_reset [OF assms(1,4)] reconnect_init_step [OF assms(1), of ini] 1 assms(1)
    by (auto simp: reader_step_length)
  have l2: "handlesList (rdr w2 i) = handlesList ?r0" "i < length (sReadersContexts w2)"
    using reconnect_protocol_frame [OF l1(2), of share pref] reconnect_protocol_step [OF l1(2), of share pref] 2 l1
    by (auto simp: reader_step_length)
  have l3: "handlesList r3 = handlesList ?r0"
    using reconnect_share_handlesList [of share h "rdr w2 i"] 3 l2 by simp
  have ev: "RFCheckReaderEventState r k = SCARD_W_RESET_CARD" if "handlesList r = handlesList ?r0"
    for r :: "'d READER_CONTEXT"
    using RFCheckReaderEventState_set [OF assms(2,8), of SCARD_RESET] RFCheckReaderEventState_handlesList [OF that]
    by (simp add: event_status_def)
  have e1: "rv \<noteq> 0" if "q1 = Inl rv" for rv
    using 1 that by (auto simp: reconnect_init_def Let_def split_beta split: if_splits)
  have e2: "rv \<noteq> 0" if "q2 = Inl rv" for rv
    using 2 that by (auto simp: reconnect_protocol_def set_up_protocol_def Let_def split_beta split: if_splits)
  have e3: "rv \<noteq> 0" if "q3 = Inl rv" for rv
    using 3 that by (auto simp: reconnect_share_def split: if_splits)
  note b = assms(7) [unfolded reconnect_body_def, simplified assms(5,6) 1]
  show ?thesis
  proof (cases q1)
    case (Inl e)
    with b e1 ev l1 show ?thesis by auto
  next
    case q1: (Inr u1)
    show ?thesis
    proof (cases q2)
      case (Inl e)
      with b q1 2 e2 ev l2 show ?thesis by auto
    next
      case q2: (Inr u2)
      show ?thesis
      proof (cases q3)
        case (Inl e)
        with b q1 q2 2 3 e3 ev l2 l3 show ?thesis by (auto simp: Let_def)
      next
        case (Inr u3)
        have ok3: "handles_ok (handlesList r3)" "handles r3 = handles (rdr w i)"
          using RFSetReaderEventState_entries [OF assms(2), of SCARD_RESET] l3 by (auto simp: handles_def)
        from b q1 q2 2 3 Inr l2 have rv: "rv = SCARD_S_SUCCESS"
          and w': "\<exists>f. rdr w' i = upd_state f (snd (RFClearReaderEventState h r3))"
          by (auto simp: Let_def)
        from w' have "RFCheckReaderEventState (rdr w' i) k = RFCheckReaderEventState (snd (RFClearReaderEventState h r3)) k"
          by (auto intro: RFCheckReaderEventState_handlesList)
        with RFClearReaderEventState_check [OF ok3(1), of h k] ok3(2) assms(3) ev [OF l3] rv show ?thesis
          by auto
      qed
    qed
  qed
qed

section \<open>Transactions\<close>

lemma lock_ok_reference [simp]: "lock_ok (r\<lparr>reference := n\<rparr>) = lock_ok r"
  by (simp add: lock_ok_def)

lemma RFCheckReaderEventState_reference [simp]:
  "RFCheckReaderEventState (r\<lparr>reference := n\<rparr>) h = RFCheckReaderEventState r h"
  "RFCheckReaderStatus (r\<lparr>reference := n\<rparr>) = RFCheckReaderStatus r"
  "RFCheckSharing h (r\<lparr>reference := n\<rparr>) = RFCheckSharing h r"
  by (simp_all add: RFCheckReaderEventState_def RFCheckReaderStatus_def RFCheckSharing_def)

lemma lock_ops_reference:
  "RFLockSharing h (r\<lparr>reference := n\<rparr>) = (fst (RFLockSharing h r), (snd (RFLockSharing h r))\<lparr>reference := n\<rparr>)"
  "RFUnlockSharing h (r\<lparr>reference := n\<rparr>) = (fst (RFUnlockSharing h r), (snd (RFUnlockSharing h r))\<lparr>reference := n\<rparr>)"
  by (auto simp: RFLockSharing_def RFUnlockSharing_def RFCheckSharing_def Let_def)

lemma lock_ops_keep_reference [simp]:
  "reference (snd (RFLockSharing h r)) = reference r" "reference (snd (RFUnlockSharing h r)) = reference r"
  by (auto simp: RFLockSharing_def RFUnlockSharing_def Let_def)

text \<open>A transaction call changes only the lock of its reader.\<close>

lemma SCardBeginTransaction_lock:
  assumes "pcscd_ok w" "i < length (sReadersContexts w)" "active (rdr w i)" "h \<in> set (handles (rdr w i))" "h \<noteq> 0"
    and "RFCheckReaderStatus (rdr w i) = SCARD_S_SUCCESS" "RFCheckReaderEventState (rdr w i) h = SCARD_S_SUCCESS"
  shows "SCardBeginTransaction h w = (fst (RFLockSharing h (rdr w i)), set_rdr i (snd (RFLockSharing h (rdr w i))) w)"
proof -
  have r: "1 \<le> reference (rdr w i)" "reference (rdr w i) < 2 ^ 31 - 1"
    using pcscd_ok_reader [OF assms(1-3)] by (auto simp: reader_ok_def)
  have same: "(snd (RFLockSharing h (rdr w i)))\<lparr>reference := reference (rdr w i)\<rparr> = snd (RFLockSharing h (rdr w i))"
    by (auto simp: RFLockSharing_def Let_def)
  show ?thesis
    using assms r
    by (simp add: SCardBeginTransaction_def by_handle_found [OF assms(1-4)] begin_body_def Let_def
        lock_ops_reference UnrefReader_dec same)
qed

lemma SCardEndTransaction_lock:
  assumes "pcscd_ok w" "i < length (sReadersContexts w)" "active (rdr w i)" "h \<in> set (handles (rdr w i))" "h \<noteq> 0"
    and "RFCheckReaderEventState (rdr w i) h = SCARD_S_SUCCESS"
  shows "SCardEndTransaction h SCARD_LEAVE_CARD w =
    (fst (RFUnlockSharing h (rdr w i)), set_rdr i (snd (RFUnlockSharing h (rdr w i))) w)"
proof -
  have r: "1 \<le> reference (rdr w i)" "reference (rdr w i) < 2 ^ 31 - 1"
    using pcscd_ok_reader [OF assms(1-3)] by (auto simp: reader_ok_def)
  have same: "(snd (RFUnlockSharing h (rdr w i)))\<lparr>reference := reference (rdr w i)\<rparr> = snd (RFUnlockSharing h (rdr w i))"
    by (auto simp: RFUnlockSharing_def Let_def)
  show ?thesis
    using assms r
    by (simp add: SCardEndTransaction_def valid_disposition_def by_handle_found [OF assms(1-4)] end_body_def Let_def
        end_transaction_card_def lock_ops_reference UnrefReader_dec same)
qed

end
