(* ===== verification/Winscard_Props.thy ===== *)
theory Winscard_Props
  imports Winscard_Effects
begin

text \<open>
  What the API promises its clients. The locale \<open>guarded_body\<close> is the contract of the calls
  that must not touch a reader another client has locked; the bodies of the calls are its
  interpretations, and the claims at the end state what follows for whole calls.
\<close>

section \<open>Calls that respect the lock of another client\<close>

locale guarded_body =
  fixes body :: "SCARDHANDLE \<Rightarrow> nat \<Rightarrow> 'd pcscd \<Rightarrow> 'a \<times> 'd pcscd"
    and fail :: "LONG \<Rightarrow> 'a"
  assumes refuses: "RFCheckReaderStatus (rdr w i) = SCARD_S_SUCCESS \<Longrightarrow>
    RFCheckSharing h (rdr w i) \<noteq> SCARD_S_SUCCESS \<Longrightarrow> body h i w = (fail SCARD_E_SHARING_VIOLATION, w)"
begin

lemma locked_out:
  assumes "pcscd_ok w" "i < length (sReadersContexts w)" "active (rdr w i)" "h \<in> set (handles (rdr w i))"
    and "hLockId (rdr w i) \<noteq> 0" "hLockId (rdr w i) \<noteq> h" "RFCheckReaderStatus (rdr w i) = SCARD_S_SUCCESS"
  shows "by_handle h fail (body h) w = (fail SCARD_E_SHARING_VIOLATION, w)"
proof (rule by_handle_unchanged [OF assms(1-4)])
  fix n
  let ?w = "set_rdr i ((rdr w i)\<lparr>reference := n\<rparr>) w"
  have "RFCheckReaderStatus (rdr ?w i) = SCARD_S_SUCCESS" "RFCheckSharing h (rdr ?w i) \<noteq> SCARD_S_SUCCESS"
    using assms by (simp_all add: RFCheckReaderStatus_def RFCheckSharing_def)
  then show "body h i ?w = (fail SCARD_E_SHARING_VIOLATION, ?w)"
    by (rule refuses)
qed

end

lemma RFCheckSharing_violation: "RFCheckSharing h r \<noteq> SCARD_S_SUCCESS \<Longrightarrow> RFCheckSharing h r = SCARD_E_SHARING_VIOLATION"
  by (simp add: RFCheckSharing_def split: if_splits)

interpretation tr: guarded_body "\<lambda>h. transmit_body h p send q len" "\<lambda>rv. (rv, [], 0, q)"
  by unfold_locales (simp add: transmit_body_def transmit_checks_def RFCheckSharing_violation Let_def)

interpretation ctl: guarded_body "\<lambda>h. control_body h code send len" "\<lambda>rv. (rv, [], 0)"
  by unfold_locales (simp add: control_body_def RFCheckSharing_violation Let_def)

interpretation ga: guarded_body "\<lambda>h. get_attrib_body h a len" "\<lambda>rv. (rv, [], len)"
  by unfold_locales (simp add: get_attrib_body_def RFCheckSharing_violation Let_def)

interpretation sa: guarded_body "\<lambda>h. set_attrib_body h a attr" "\<lambda>rv. rv"
  by unfold_locales (simp add: set_attrib_body_def RFCheckSharing_violation Let_def)

interpretation st: guarded_body status_body "\<lambda>rv. rv"
  by unfold_locales (simp add: status_body_def RFCheckSharing_violation Let_def)

interpretation rc: guarded_body "\<lambda>h. reconnect_body h share pref ini act" "\<lambda>rv. (rv, act)"
  by unfold_locales (simp add: reconnect_body_def RFCheckSharing_violation Let_def)

section \<open>Claims\<close>

text \<open>
  C10. While another client holds the lock of the reader, \<^verbatim>\<open>SCardTransmit\<close> is refused with
  \<^verbatim>\<open>SCARD_E_SHARING_VIOLATION\<close> and nothing changes: no command reaches the driver.
\<close>

theorem transmit_locked_out:
  assumes "pcscd_ok w" "i < length (sReadersContexts w)" "active (rdr w i)" "h \<in> set (handles (rdr w i))"
    and "h \<noteq> 0" "2 \<le> len" "RFCheckReaderStatus (rdr w i) = SCARD_S_SUCCESS"
    and "hLockId (rdr w i) \<noteq> 0" "hLockId (rdr w i) \<noteq> h"
  shows "SCardTransmit h sendPci send recvPci len w = ((SCARD_E_SHARING_VIOLATION, [], 0, recvPci), w)"
  using tr.locked_out [OF assms(1-4,8,9,7)] assms(5,6) by (simp add: SCardTransmit_def not_less [symmetric])

lemma ex_status_ok [simp]: "RFCheckReaderStatus (ex_reader p hs n owner c) = SCARD_S_SUCCESS"
  by (simp add: RFCheckReaderStatus_def ex_state_def)

theorem transmit_locked_out_witness:
  "SCardTransmit 7 \<lparr>ioProtocol = 1, ioLength = 16\<rparr> [0x00, 0xA4] \<lparr>ioProtocol = 1, ioLength = 16\<rparr> 258
     (ex_pcscd (ex_reader True [5, 7] 2 5 1) []) =
   ((SCARD_E_SHARING_VIOLATION, [], 0, \<lparr>ioProtocol = 1, ioLength = 16\<rparr>),
    ex_pcscd (ex_reader True [5, 7] 2 5 1) [])"
proof -
  have "pcscd_ok (ex_pcscd (ex_reader True [5, 7] 2 5 1) [])" by (rule ex_pcscd_ok) simp_all
  then show ?thesis by (rule transmit_locked_out [where i = 0]) simp_all
qed

text \<open>
  The same holds for control, attributes, status and reconnection: a client that does not
  hold the lock can neither reach the driver nor reset the card nor change the sharing mode.
\<close>

theorem other_calls_locked_out:
  assumes "pcscd_ok w" "i < length (sReadersContexts w)" "active (rdr w i)" "h \<in> set (handles (rdr w i))"
    and "h \<noteq> 0" "RFCheckReaderStatus (rdr w i) = SCARD_S_SUCCESS"
    and "hLockId (rdr w i) \<noteq> 0" "hLockId (rdr w i) \<noteq> h"
    and "valid_share share" "\<not> no_protocol share pref"
    and "ini \<in> {SCARD_LEAVE_CARD, SCARD_RESET_CARD, SCARD_UNPOWER_CARD}"
  shows "SCardControl h code send len w = ((SCARD_E_SHARING_VIOLATION, [], 0), w) \<and>
    SCardGetAttrib h a len w = ((SCARD_E_SHARING_VIOLATION, [], len), w) \<and>
    SCardSetAttrib h a attr w = (SCARD_E_SHARING_VIOLATION, w) \<and>
    SCardStatus h w = (SCARD_E_SHARING_VIOLATION, w) \<and>
    SCardReconnect h share pref ini act w = ((SCARD_E_SHARING_VIOLATION, act), w)"
proof (intro conjI)
  note l = assms(1-4,7,8,6)
  show "SCardControl h code send len w = ((SCARD_E_SHARING_VIOLATION, [], 0), w)"
    using ctl.locked_out [OF l] assms(5) by (simp add: SCardControl_def)
  show "SCardGetAttrib h a len w = ((SCARD_E_SHARING_VIOLATION, [], len), w)"
    using ga.locked_out [OF l] assms(5) by (simp add: SCardGetAttrib_def)
  show "SCardSetAttrib h a attr w = (SCARD_E_SHARING_VIOLATION, w)"
    using sa.locked_out [OF l] assms(5) by (simp add: SCardSetAttrib_def)
  show "SCardStatus h w = (SCARD_E_SHARING_VIOLATION, w)"
    using st.locked_out [OF l] assms(5) by (simp add: SCardStatus_def)
  show "SCardReconnect h share pref ini act w = ((SCARD_E_SHARING_VIOLATION, act), w)"
    using rc.locked_out [OF l] assms(5,9-11) by (auto simp: SCardReconnect_def)
qed

theorem other_calls_locked_out_witness:
  "SCardReconnect 7 SCARD_SHARE_EXCLUSIVE 1 SCARD_RESET_CARD 0 (ex_pcscd (ex_reader True [5, 7] 2 5 1) []) =
    ((SCARD_E_SHARING_VIOLATION, 0), ex_pcscd (ex_reader True [5, 7] 2 5 1) [])"
proof -
  have "pcscd_ok (ex_pcscd (ex_reader True [5, 7] 2 5 1) [])" by (rule ex_pcscd_ok) simp_all
  from other_calls_locked_out [OF this, of 0 7 SCARD_SHARE_EXCLUSIVE 1 SCARD_RESET_CARD] show ?thesis
    by (simp add: valid_share_def no_protocol_def)
qed

text \<open>
  A handle no client of any reader holds is rejected by every call that takes a handle,
  without any change; disconnecting it succeeds silently, because its reader may have been
  removed.
\<close>

theorem unknown_handle:
  assumes "pcscd_ok w" "h \<notin> all_handles w" "h \<noteq> 0" "2 \<le> len" "valid_disposition d"
  shows "SCardTransmit h p send q len w = ((SCARD_E_INVALID_VALUE, [], 0, q), w) \<and>
    SCardControl h code send len w = ((SCARD_E_INVALID_VALUE, [], 0), w) \<and>
    SCardStatus h w = (SCARD_E_INVALID_VALUE, w) \<and>
    SCardBeginTransaction h w = (SCARD_E_INVALID_VALUE, w) \<and>
    SCardEndTransaction h d w = (SCARD_E_INVALID_VALUE, w) \<and>
    SCardDisconnect others h d w = Some (SCARD_S_SUCCESS, w)"
proof -
  obtain q1 w1 where r: "RFReaderInfoById h w = (q1, w1)" by fastforce
  have "q1 = Inl SCARD_E_INVALID_VALUE \<and> w1 = w"
  proof (cases q1)
    case (Inl rv)
    with RFReaderInfoById_not_found [of h w rv w1] r assms(1) show ?thesis by simp
  next
    case (Inr i)
    with RFReaderInfoById_found [of h w i w1] r assms(1,2) show ?thesis
      by (auto simp: all_handles_def)
  qed
  with r have "SCardDisconnect others h d w = Some (SCARD_S_SUCCESS, w)"
    using assms(3,5) by (simp add: SCardDisconnect_def)
  then show ?thesis
    using assms by (simp add: by_handle_unknown SCardTransmit_def SCardControl_def SCardStatus_def
        SCardBeginTransaction_def SCardEndTransaction_def not_less [symmetric])
qed

theorem unknown_handle_witness:
  "SCardStatus 6 (ex_pcscd (ex_reader True [5, 7] 2 5 1) []) =
    (SCARD_E_INVALID_VALUE, ex_pcscd (ex_reader True [5, 7] 2 5 1) [])"
proof -
  have "pcscd_ok (ex_pcscd (ex_reader True [5, 7] 2 5 1) [])" by (rule ex_pcscd_ok) simp_all
  moreover have "6 \<notin> all_handles (ex_pcscd (ex_reader True [5, 7] 2 5 1) [])"
    by (simp add: all_handles_def)
  ultimately show ?thesis
    using unknown_handle [of "ex_pcscd (ex_reader True [5, 7] 2 5 1) []" 6 2 SCARD_LEAVE_CARD]
    by (simp add: valid_disposition_def)
qed

text \<open>
  C11. An exclusive connection is exclusive: when it succeeds, its handle is the only one of
  the reader and holds the lock, and from then on every further connection to that reader is
  refused with \<^verbatim>\<open>SCARD_E_SHARING_VIOLATION\<close> and changes nothing.
\<close>

theorem exclusive_connection:
  assumes "pcscd_ok w" "refs_room w"
    and "SCardConnect [] name SCARD_SHARE_EXCLUSIVE pref act w = Some ((SCARD_S_SUCCESS, h, prot), w')"
    and "valid_share share" "\<not> no_protocol share pref'"
  shows "(\<exists>i < length (sReadersContexts w'). readerName (readerState (rdr w' i)) = name \<and>
      handles (rdr w' i) = [h] \<and> contexts (rdr w' i) = PCSCLITE_SHARING_EXCLUSIVE_CONTEXT \<and>
      hLockId (rdr w' i) = h) \<and>
    SCardConnect others name share pref' act' w' = Some ((SCARD_E_SHARING_VIOLATION, 0, act'), w')"
  using assms(1,3,2)
proof (cases rule: SCardConnect_cases)
  case refused
  then show ?thesis by simp
next
  case (body i H)
  let ?v = "set_rdr i ((rdr w i)\<lparr>reference := reference (rdr w i) + 1\<rparr>) w"
  obtain w2 where b: "connect_body SCARD_SHARE_EXCLUSIVE pref act i ?v = Some ((SCARD_S_SUCCESS, h, prot), w2)"
    and w': "rdr w' i = (rdr w2 i)\<lparr>reference := reference (rdr w i)\<rparr>"
    using body(11) by auto
  have ok': "pcscd_ok w'"
    using SCardConnect_ok [OF assms(1,3,2)] call_ok_pcscd_ok assms(1) by blast
  have len: "length (sReadersContexts w') = length (sReadersContexts w)"
    using body(7) by (rule reader_step_length)
  obtain w1 where f: "RFReaderInfo name w = (Inr i, w1)"
    using body(12) by blast
  have ok1: "pcscd_ok ?v"
    using pcscd_ok_ref [OF assms(1) body(1)] assms(2) body(1,2) by (auto simp: refs_room_def)
  note s = connect_body_success [OF ok1 _ _ b]
  have s': "hLockId (rdr w' i) = h" "readerName (readerState (rdr w' i)) = name"
    "RFCheckReaderStatus (rdr w' i) = SCARD_S_SUCCESS"
    using s body(1,3,6,13) by (simp_all add: w' RFCheckReaderStatus_def)
  have h: "handles (rdr w' i) = handles (rdr w i) @ [h]" "contexts (rdr w' i) = - 1"
    using body(9) by simp_all
  have act': "active (rdr w' i)"
    using body(2,7) by (simp add: reader_step_def active_def)
  have hs: "handles (rdr w' i) = [h]"
    using pcscd_ok_reader [OF ok' _ act'] body(1) len h
    by (auto simp: reader_ok_def sharing_ok_def simp del: length_handles)
  have sn: "same_names w w'"
    using same_names_step [OF body(7)] body(3) s'(2) by simp
  have f': "RFReaderInfo name w' = (Inr i, set_rdr i ((rdr w' i)\<lparr>reference := reference (rdr w' i) + 1\<rparr>) w')"
    by (rule RFReaderInfo_same_names [OF assms(1) ok' sn f])
  have "1 \<le> reference (rdr w' i)" "reference (rdr w' i) < 2 ^ 31 - 1"
    using pcscd_ok_reader [OF ok' _ act'] body(1) len by (auto simp: reader_ok_def)
  then have "SCardConnect others name share pref' act' w' = Some ((SCARD_E_SHARING_VIOLATION, 0, act'), w')"
    using f' assms(4,5) h(2) s'(3) body(1) len
    by (simp add: SCardConnect_def RFCheckReaderStatus_def UnrefReader_dec Let_def)
  with body(1) len s' h(2) hs show ?thesis by auto
qed

lemma ex_exclusive_connect:
  "\<exists>w'. SCardConnect [] ''R 00 00'' SCARD_SHARE_EXCLUSIVE 3 0 (ex_pcscd (ex_reader True [] 0 0 0) []) =
     Some ((SCARD_S_SUCCESS, 9, 1), w')"
proof -
  have "map_option fst (SCardConnect [] ''R 00 00'' SCARD_SHARE_EXCLUSIVE 3 0
      (ex_pcscd (ex_reader True [] 0 0 0) [])) = Some (SCARD_S_SUCCESS, 9, 1)"
    by code_simp
  then show ?thesis by auto
qed

theorem exclusive_connection_witness:
  "\<exists>w'. SCardConnect [] ''R 00 00'' SCARD_SHARE_EXCLUSIVE 3 0 (ex_pcscd (ex_reader True [] 0 0 0) []) =
      Some ((SCARD_S_SUCCESS, 9, 1), w') \<and>
    SCardConnect [] ''R 00 00'' SCARD_SHARE_SHARED 3 0 w' = Some ((SCARD_E_SHARING_VIOLATION, 0, 0), w')"
proof -
  have ok: "pcscd_ok (ex_pcscd (ex_reader True [] 0 0 0) [])" by (rule ex_pcscd_ok) simp_all
  obtain w' where "SCardConnect [] ''R 00 00'' SCARD_SHARE_EXCLUSIVE 3 0 (ex_pcscd (ex_reader True [] 0 0 0) []) =
      Some ((SCARD_S_SUCCESS, 9, 1), w')"
    using ex_exclusive_connect by blast
  from exclusive_connection [OF ok ex_refs_room this, of SCARD_SHARE_SHARED 3 "[]" 0] this show ?thesis
    by (auto simp: valid_share_def no_protocol_def)
qed

text \<open>
  C12. A connection followed by a disconnection that leaves the card alone restores the clients
  and the sharing mode of the reader, leaves it unlocked, and does not touch any other reader.
\<close>

theorem connect_disconnect:
  assumes "pcscd_ok w" "refs_room w" "h \<noteq> 0"
    and "SCardConnect [] name share pref act w = Some ((SCARD_S_SUCCESS, h, prot), w')"
  shows "\<exists>i w''. i < length (sReadersContexts w) \<and> readerName (readerState (rdr w i)) = name \<and>
    SCardDisconnect others h SCARD_LEAVE_CARD w' = Some (SCARD_S_SUCCESS, w'') \<and>
    handles (rdr w'' i) = handles (rdr w i) \<and> contexts (rdr w'' i) = contexts (rdr w i) \<and>
    lock_of (rdr w'' i) = Free \<and> (\<forall>j. j \<noteq> i \<longrightarrow> rdr w'' j = rdr w j)"
  using assms(1,4,2)
proof (cases rule: SCardConnect_cases)
  case refused
  then show ?thesis by simp
next
  case (body i H)
  have ok': "pcscd_ok w'"
    using SCardConnect_ok [OF assms(1,4,2)] call_ok_pcscd_ok assms(1) by blast
  have h: "handles (rdr w' i) = handles (rdr w i) @ [h]"
    "contexts (rdr w' i) = (if share = SCARD_SHARE_EXCLUSIVE then - 1 else contexts (rdr w i) + 1)"
    using body(9) by simp_all
  have i': "i < length (sReadersContexts w')" "active (rdr w' i)"
    using body(1,2,7) by (auto simp: reader_step_def active_def)
  have sh: "sharing_ok (rdr w i)" "sharing_ok (rdr w' i)"
    using pcscd_ok_reader [OF assms(1) body(1,2)] pcscd_ok_reader [OF ok' i'] by (auto simp: reader_ok_def)
  obtain w2 where b: "connect_body share pref act i (set_rdr i ((rdr w i)\<lparr>reference := reference (rdr w i) + 1\<rparr>) w) =
      Some ((SCARD_S_SUCCESS, h, prot), w2)" and w2: "rdr w' i = (rdr w2 i)\<lparr>reference := reference (rdr w i)\<rparr>"
    using body(11) by auto
  have ok1: "pcscd_ok (set_rdr i ((rdr w i)\<lparr>reference := reference (rdr w i) + 1\<rparr>) w)"
    using pcscd_ok_ref [OF assms(1) body(1)] assms(2) body(1,2) by (auto simp: refs_room_def)
  have l: "hLockId (rdr w' i) = (if share = SCARD_SHARE_EXCLUSIVE then h else 0)"
    using connect_body_success(1) [OF ok1 _ _ b] body(1,6) by (simp add: w2)
  obtain w'' where d: "SCardDisconnect others h SCARD_LEAVE_CARD w' = Some (SCARD_S_SUCCESS, w'')"
    "reader_step i {} w' w''" "handles (rdr w'' i) = remove1 h (handles (rdr w' i))"
    "contexts (rdr w'' i) = (if contexts (rdr w' i) = - 1 then 0 else contexts (rdr w' i) - 1)"
    "lock_of (rdr w'' i) = snd (spec_unlock_all h (lock_of (rdr w' i)))"
    using SCardDisconnect_leave [OF ok' i', of h others] h assms(3) by auto
  have nin: "h \<notin> set (handles (rdr w i))"
    using sh(2) h(1) by (simp add: sharing_ok_def)
  have "handles (rdr w'' i) = handles (rdr w i)"
    using d(3) h(1) nin by (simp add: remove1_append)
  moreover have "contexts (rdr w'' i) = contexts (rdr w i)"
    using d(4) h sh body(4) by (auto simp: sharing_ok_def simp del: length_handles split: if_splits)
  moreover have "lock_of (rdr w'' i) = Free"
    using d(5) l assms(3) by (auto simp: spec_unlock_all_def lock_of_def)
  moreover have "rdr w'' j = rdr w j" if "j \<noteq> i" for j
    using that d(2) body(7) by (simp add: reader_step_def)
  ultimately show ?thesis
    using body(1,3) d(1) by blast
qed

theorem connect_disconnect_witness:
  "\<exists>w' w''. SCardConnect [] ''R 00 00'' SCARD_SHARE_EXCLUSIVE 3 0 (ex_pcscd (ex_reader True [] 0 0 0) []) =
      Some ((SCARD_S_SUCCESS, 9, 1), w') \<and>
    SCardDisconnect [] 9 SCARD_LEAVE_CARD w' = Some (SCARD_S_SUCCESS, w'')"
proof -
  have ok: "pcscd_ok (ex_pcscd (ex_reader True [] 0 0 0) [])" by (rule ex_pcscd_ok) simp_all
  obtain w' where c: "SCardConnect [] ''R 00 00'' SCARD_SHARE_EXCLUSIVE 3 0 (ex_pcscd (ex_reader True [] 0 0 0) []) =
      Some ((SCARD_S_SUCCESS, 9, 1), w')"
    using ex_exclusive_connect by blast
  from connect_disconnect [OF ok ex_refs_room _ c, of "[]"] c show ?thesis by auto
qed

text \<open>
  The length \<^verbatim>\<open>SCardTransmit\<close> reports never exceeds the length of the caller's buffer, and
  it is 0 unless the call succeeds.
\<close>

lemma SCardTransmit_length:
  fixes w :: "'d pcscd"
  assumes "SCardTransmit h sendPci send recvPci len w = ((rv, rx, n, recvPci'), w')"
  shows "n \<le> len \<and> (rv \<noteq> SCARD_S_SUCCESS \<longrightarrow> n = 0)"
proof -
  have body: "n \<le> len \<and> (rv \<noteq> SCARD_S_SUCCESS \<longrightarrow> n = 0)"
    if "transmit_body h sendPci send recvPci len i v = ((rv, rx, n, q), v')" for i rv rx n q and v v' :: "'d pcscd"
    using that by (auto simp: transmit_body_def Let_def split_beta split: if_splits)
  show ?thesis
  proof (cases "h = 0 \<or> len < 2")
    case True
    with assms show ?thesis by (auto simp: SCardTransmit_def split: if_splits)
  next
    case False
    with assms show ?thesis
      by (auto simp: SCardTransmit_def by_handle_def split: prod.splits sum.splits dest: body)
  qed
qed

end
