(* ===== verification/Winscard_Trans.thy ===== *)
theory Winscard_Trans
  imports Winscard_Props
begin

text \<open>
  Transactions, pending events and the life of the card's power as the clients see them, as
  claims about whole API calls.
\<close>

section \<open>Pending events\<close>

text \<open>
  C16. A card reset by one client through \<^verbatim>\<open>SCardReconnect\<close> is seen by every other client of the
  reader, whatever the reset and the renegotiation of the protocol answer: their next
  transaction is refused with \<^verbatim>\<open>SCARD_W_RESET_CARD\<close>. The client that asked for the reset is not
  told when its call succeeds.
\<close>

theorem reconnect_reset_seen:
  assumes "pcscd_ok w" "i < length (sReadersContexts w)" "active (rdr w i)" "h \<in> set (handles (rdr w i))"
    and "h \<noteq> 0" "RFCheckReaderStatus (rdr w i) = SCARD_S_SUCCESS" "RFCheckSharing h (rdr w i) = SCARD_S_SUCCESS"
    and "valid_share share" "\<not> no_protocol share pref" "ini = SCARD_RESET_CARD \<or> ini = SCARD_UNPOWER_CARD"
    and "SCardReconnect h share pref ini act w = ((rv, p), w')" "k \<in> set (handles (rdr w i))"
  shows "RFCheckReaderEventState (rdr w' i) k =
    (if k = h \<and> rv = SCARD_S_SUCCESS then SCARD_S_SUCCESS else SCARD_W_RESET_CARD)"
proof -
  let ?w1 = "set_rdr i ((rdr w i)\<lparr>reference := reference (rdr w i) + 1\<rparr>) w"
  obtain x w2 where b: "reconnect_body h share pref ini act i ?w1 = (x, w2)" by fastforce
  have x: "x = (rv, p)" and w': "w' = snd (UnrefReader i w2)"
    using assms(5,8-11) b by (auto simp: SCardReconnect_def by_handle_found [OF assms(1-4)] Let_def)
  have s: "reader_step i {} ?w1 w2"
    using reconnect_body_step [of i ?w1 h share pref ini act] assms(2) b by simp
  have r: "rdr w' i = (rdr w2 i)\<lparr>reference := reference (rdr w i)\<rparr>"
  proof -
    obtain v where "RFReaderInfoById h w = (Inr i, v)"
      using RFReaderInfoById_complete [OF assms(1-4)] by auto
    with reader_step_ref_unref(2) [OF this assms(1)] RFReaderInfoById_found(4) [OF this assms(1)] s w'
    show ?thesis by simp
  qed
  have "handles_ok (handlesList (rdr w i))"
    using pcscd_ok_reader [OF assms(1-3)] by (simp add: reader_ok_handles)
  with reconnect_body_events [of i ?w1 h ini share pref act rv p w2 k] assms b x show ?thesis
    by (simp add: r handles_def)
qed

abbreviation "ex_two \<equiv> ex_pcscd (ex_reader True [5, 7] 2 0 0) []"

lemma ex_two_ok: "pcscd_ok ex_two"
  by (rule ex_pcscd_ok) simp_all

definition ex_reset :: "unit pcscd" where
  "ex_reset = snd (SCardReconnect 5 SCARD_SHARE_SHARED 3 SCARD_RESET_CARD 0 ex_two)"

lemma ex_reset_result:
  "SCardReconnect 5 SCARD_SHARE_SHARED 3 SCARD_RESET_CARD 0 ex_two = ((SCARD_S_SUCCESS, 1), ex_reset)"
proof -
  have "fst (SCardReconnect 5 SCARD_SHARE_SHARED 3 SCARD_RESET_CARD 0 ex_two) = (SCARD_S_SUCCESS, 1)"
    by code_simp
  then show ?thesis unfolding ex_reset_def by (metis prod.collapse)
qed

lemma ex_reset_ok: "pcscd_ok ex_reset"
  unfolding ex_reset_def using SCardReconnect_ok [OF ex_two_ok] call_ok_pcscd_ok ex_two_ok by blast

theorem reconnect_reset_seen_witness:
  "SCardReconnect 5 SCARD_SHARE_SHARED 3 SCARD_RESET_CARD 0 ex_two = ((SCARD_S_SUCCESS, 1), ex_reset) \<and>
   RFCheckReaderEventState (rdr ex_reset 0) 7 = SCARD_W_RESET_CARD \<and>
   RFCheckReaderEventState (rdr ex_reset 0) 5 = SCARD_S_SUCCESS"
  using reconnect_reset_seen [OF ex_two_ok _ _ _ _ _ _ _ _ _ ex_reset_result, of 0 7]
    reconnect_reset_seen [OF ex_two_ok _ _ _ _ _ _ _ _ _ ex_reset_result, of 0 5] ex_reset_result
  by (simp add: RFCheckSharing_def valid_share_def no_protocol_def)



section \<open>Transactions\<close>

text \<open>
  C14. \<^verbatim>\<open>SCardBeginTransaction\<close> is the lock operation of the specification: on a reader in order it
  answers and changes the lock as \<open>spec_lock\<close> says, and touches nothing else.
\<close>

theorem begin_transaction_refines:
  assumes "pcscd_ok w" "i < length (sReadersContexts w)" "active (rdr w i)" "h \<in> set (handles (rdr w i))" "h \<noteq> 0"
    and "RFCheckReaderStatus (rdr w i) = SCARD_S_SUCCESS" "RFCheckReaderEventState (rdr w i) h = SCARD_S_SUCCESS"
    and "lock_ok (rdr w i)" "depth (lock_of (rdr w i)) < 2 ^ 31 - 1"
    and "SCardBeginTransaction h w = (rv, w')"
  shows "(rv, lock_of (rdr w' i)) = spec_lock h (lock_of (rdr w i)) \<and> lock_ok (rdr w' i) \<and>
    w' = set_rdr i ((rdr w i)\<lparr>hLockId := hLockId (rdr w' i), LockCount := LockCount (rdr w' i)\<rparr>) w"
proof -
  have "snd (RFLockSharing h (rdr w i)) = (rdr w i)\<lparr>hLockId := hLockId (snd (RFLockSharing h (rdr w i))),
      LockCount := LockCount (snd (RFLockSharing h (rdr w i)))\<rparr>"
    by (auto simp: RFLockSharing_def Let_def)
  with SCardBeginTransaction_lock [OF assms(1-7)] RFLockSharing_refines [OF assms(8,5,9)] assms(2,10)
  show ?thesis by simp
qed

theorem begin_transaction_refines_witness:
  "\<exists>w'. SCardBeginTransaction 5 ex_two = (SCARD_S_SUCCESS, w') \<and> lock_of (rdr w' 0) = Held 5 1"
proof -
  obtain rv w' where b: "SCardBeginTransaction 5 ex_two = (rv, w')" by fastforce
  have l: "lock_ok (rdr ex_two 0)" "lock_of (rdr ex_two 0) = Free"
    by (simp_all add: lock_ok_def lock_of_def)
  have "RFCheckReaderEventState (rdr ex_two 0) 5 = SCARD_S_SUCCESS" by code_simp
  with begin_transaction_refines [OF ex_two_ok _ _ _ _ _ _ _ _ b, of 0] l b show ?thesis
    by (simp add: spec_lock_def)
qed

text \<open>
  C15. \<^verbatim>\<open>SCardEndTransaction\<close> that leaves the card is the unlock operation of the specification
  for a client in shared mode: only the owner releases the lock, the last release frees it, and a
  release without a transaction is \<^verbatim>\<open>SCARD_E_NOT_TRANSACTED\<close>.
\<close>

theorem end_transaction_refines:
  assumes "pcscd_ok w" "i < length (sReadersContexts w)" "active (rdr w i)" "h \<in> set (handles (rdr w i))" "h \<noteq> 0"
    and "RFCheckReaderEventState (rdr w i) h = SCARD_S_SUCCESS"
    and "lock_ok (rdr w i)" "contexts (rdr w i) \<noteq> PCSCLITE_SHARING_EXCLUSIVE_CONTEXT"
    and "SCardEndTransaction h SCARD_LEAVE_CARD w = (rv, w')"
  shows "(rv, lock_of (rdr w' i)) = spec_unlock h (lock_of (rdr w i)) \<and> lock_ok (rdr w' i) \<and>
    w' = set_rdr i ((rdr w i)\<lparr>hLockId := hLockId (rdr w' i), LockCount := LockCount (rdr w' i)\<rparr>) w"
proof -
  have "snd (RFUnlockSharing h (rdr w i)) = (rdr w i)\<lparr>hLockId := hLockId (snd (RFUnlockSharing h (rdr w i))),
      LockCount := LockCount (snd (RFUnlockSharing h (rdr w i)))\<rparr>"
    by (auto simp: RFUnlockSharing_def Let_def)
  with SCardEndTransaction_lock [OF assms(1-6)] RFUnlockSharing_refines [OF assms(7,8,5)] assms(2,9)
  show ?thesis by simp
qed

theorem end_transaction_refines_witness:
  "\<exists>w'. SCardEndTransaction 7 SCARD_LEAVE_CARD (ex_pcscd (ex_reader True [5, 7] 2 5 1) []) =
      (SCARD_E_SHARING_VIOLATION, w') \<and> lock_of (rdr w' 0) = Held 5 1"
proof -
  let ?w = "ex_pcscd (ex_reader True [5, 7] 2 5 1) []"
  obtain rv w' where b: "SCardEndTransaction 7 SCARD_LEAVE_CARD ?w = (rv, w')" by fastforce
  have ok: "pcscd_ok ?w" by (rule ex_pcscd_ok) simp_all
  have l: "lock_ok (rdr ?w 0)" "lock_of (rdr ?w 0) = Held 5 1"
    by (simp_all add: lock_ok_def lock_of_def)
  have "RFCheckReaderEventState (rdr ?w 0) 7 = SCARD_S_SUCCESS" by code_simp
  with end_transaction_refines [OF ok _ _ _ _ _ _ _ b, of 0] l b show ?thesis
    by (simp add: spec_unlock_def)
qed

end
