(* ===== verification/Winscard_Life.thy ===== *)
theory Winscard_Life
  imports Winscard_Trans
begin

text \<open>
  The life of a connection beyond the calls on the card: when \<^verbatim>\<open>SCardConnect\<close> returns, what
  happens to the card after the last client has left, and three places where a reader is left
  in a state its clients do not expect.
\<close>

section \<open>Connections are answered\<close>

lemma randoms_frame [simp]:
  "randoms (set_rdr i r w) = randoms w" "randoms (upd_rdr i f w) = randoms w"
  "randoms (upd_rstate i g w) = randoms w" "randoms (snd (call_ifd c w)) = randoms w"
  by (simp_all add: set_rdr_def upd_rdr_def upd_rstate_def call_ifd_def split_beta)

lemma connect_randoms:
  "randoms (snd (connect_card share i w)) = randoms w" "randoms (snd (set_up_protocol share pref i w)) = randoms w"
  by (auto simp: connect_card_def set_up_protocol_def Let_def split_beta)

lemma reader_step_all_handles:
  assumes "pcscd_ok w" "reader_step i {} w w'"
  shows "all_handles w' \<subseteq> all_handles w"
proof
  fix h assume "h \<in> all_handles w'"
  then obtain j where j: "j < length (sReadersContexts w')" "active (rdr w' j)" "h \<in> set (handles (rdr w' j))"
    by (auto simp: all_handles_def)
  have l: "length (sReadersContexts w') = length (sReadersContexts w)"
    using assms(2) by (rule reader_step_length)
  have a: "active (rdr w j)"
    using assms(2) j(2) by (cases "j = i") (auto simp: reader_step_def active_def)
  have "h \<in> set (handles (rdr w j))"
  proof (cases "j = i")
    case True
    have "sharing_ok (rdr w i)"
      using pcscd_ok_reader [OF assms(1), of j] j(1) a True l by (auto simp: reader_ok_def)
    with reader_step_handles [OF assms(2)] j(3) True show ?thesis by blast
  next
    case False
    with assms(2) j(3) show ?thesis by (simp add: reader_step_def)
  qed
  with j(1) l a show "h \<in> all_handles w" by (auto simp: all_handles_def)
qed

lemma connect_body_returns:
  assumes "pcscd_ok w" "i < length (sReadersContexts w)" "x \<in> set (randoms w)" "x \<notin> all_handles w"
  shows "\<exists>res w'. connect_body share pref act i w = Some (res, w')"
proof -
  obtain q1 w1 where c: "connect_card share i w = (q1, w1)" by fastforce
  obtain q2 w2 where p: "set_up_protocol share pref i w1 = (q2, w2)" by fastforce
  have s1: "reader_step i {} w w1"
    using connect_card_step [OF assms(2), of share] c by simp
  have i1: "i < length (sReadersContexts w1)"
    using s1 assms(2) by (simp add: reader_step_length)
  have s2: "reader_step i {} w w2"
    using set_up_protocol_step [OF i1, of share pref] p reader_step_trans [OF s1, of "{}" w2] by simp
  have ok2: "pcscd_ok w2"
    using pcscd_ok_step [OF assms(1,2) s2] by simp
  have "randoms w2 = randoms w" "x \<notin> all_handles w2"
    using connect_randoms(1) [of share i w] connect_randoms(2) [of share pref i w1] c p
      reader_step_all_handles [OF assms(1) s2] assms(4) by auto
  with create_handle_returns [OF ok2, of x "randoms w"] assms(3)
  obtain h w3 where "RFCreateReaderHandle w2 = Some (h, w3)"
    by (auto simp: RFCreateReaderHandle_def)
  with c p show ?thesis
    by (cases q1; cases q2) (auto simp: connect_body_def Let_def split: prod.splits sum.splits)
qed

text \<open>
  C21. \<^verbatim>\<open>SCardConnect\<close> returns when the reader is not in a transaction and the random number
  generator will deliver a number that is not yet a handle: neither the wait for the
  transaction nor the search for a new handle runs forever.
\<close>

theorem connect_returns:
  assumes "pcscd_ok w" "refs_room w" "x \<in> set (randoms w)" "x \<notin> all_handles w"
    and "\<And>i. i < length (sReadersContexts w) \<Longrightarrow> readerName (readerState (rdr w i)) = name \<Longrightarrow> hLockId (rdr w i) = 0"
  shows "\<exists>rv h prot w'. SCardConnect others name share pref act w = Some ((rv, h, prot), w')"
proof -
  obtain q w1 where q: "RFReaderInfo name w = (q, w1)" by fastforce
  show ?thesis
  proof (cases q)
    case (Inl rv)
    with q show ?thesis by (auto simp: SCardConnect_def)
  next
    case (Inr i)
    with q have p: "position (\<lambda>r. vHandle r \<noteq> None \<and> name = readerName (readerState r)) (sReadersContexts w) = Some i"
      by (auto simp: RFReaderInfo_def ref_found_def split: option.splits prod.splits if_splits)
    from position_SomeD [OF p] have i: "i < length (sReadersContexts w)" "active (rdr w i)"
        "readerName (readerState (rdr w i)) = name"
      by (auto simp: rdr_def active_def)
    let ?v = "set_rdr i ((rdr w i)\<lparr>reference := reference (rdr w i) + 1\<rparr>) w"
    have w1: "w1 = ?v"
      using RFReaderInfo_same_names [OF assms(1,1), of name i w1] q Inr by (simp add: same_names_def)
    have ok: "pcscd_ok ?v"
      using pcscd_ok_ref [OF assms(1) i(1)] assms(2) i by (auto simp: refs_room_def)
    have "active (rdr ?v j) = active (rdr w j)" "handles (rdr ?v j) = handles (rdr w j)" for j
      using i(1) by (cases "j = i"; simp add: active_def handles_def)+
    then have "all_handles ?v = all_handles w"
      by (simp add: all_handles_def)
    with connect_body_returns [OF ok, of i x share pref act] i(1) assms(3,4)
    obtain res w' where "connect_body share pref act i ?v = Some (res, w')" by auto
    moreover have "wait_unlocked i others ?v = Some ?v"
      using assms(5) [OF i(1,3)] i(1) by (cases others) simp_all
    ultimately show ?thesis
      using q Inr w1 by (cases res) (simp add: SCardConnect_def Let_def)
  qed
qed

theorem connect_returns_witness:
  "\<exists>rv h prot w'. SCardConnect [] ''R 00 00'' SCARD_SHARE_SHARED 3 0 ex_two = Some ((rv, h, prot), w')"
proof -
  have "9 \<in> set (randoms ex_two)" "9 \<notin> all_handles ex_two"
    by (simp_all add: ex_pcscd_def all_handles_def rdr_def)
  from connect_returns [OF ex_two_ok ex_refs_room this, of "''R 00 00''"] show ?thesis
    by simp
qed

section \<open>The last client\<close>



section \<open>States the clients do not expect\<close>

lemma reconnect_protocol_lock:
  assumes "i < length (sReadersContexts w)"
  shows "hLockId (rdr (snd (reconnect_protocol share pref i w)) i) = hLockId (rdr w i)"
    and "LockCount (rdr (snd (reconnect_protocol share pref i w)) i) = LockCount (rdr w i)"
    and "contexts (rdr (snd (reconnect_protocol share pref i w)) i) = contexts (rdr w i)"
    and "length (sReadersContexts (snd (reconnect_protocol share pref i w))) = length (sReadersContexts w)"
proof -
  have l: "length (sReadersContexts (snd (set_up_protocol share pref i w))) = length (sReadersContexts w)"
    using set_up_protocol_step [OF assms, of share pref] by (rule reader_step_length)
  with assms set_up_protocol_frame(2-4) [OF assms, of share pref]
  show "hLockId (rdr (snd (reconnect_protocol share pref i w)) i) = hLockId (rdr w i)"
    and "LockCount (rdr (snd (reconnect_protocol share pref i w)) i) = LockCount (rdr w i)"
    and "contexts (rdr (snd (reconnect_protocol share pref i w)) i) = contexts (rdr w i)"
    and "length (sReadersContexts (snd (reconnect_protocol share pref i w))) = length (sReadersContexts w)"
    by (auto simp: reconnect_protocol_def RFSetPowerState_def split: prod.splits sum.splits)
qed

lemma RFClearReaderEventState_lock [simp]:
  "hLockId (snd (RFClearReaderEventState h r)) = hLockId r" "LockCount (snd (RFClearReaderEventState h r)) = LockCount r"
  "contexts (snd (RFClearReaderEventState h r)) = contexts r"
  by (simp_all add: RFClearReaderEventState_def Let_def split: option.splits)

text \<open>
  A client that goes back from exclusive to shared mode keeps the lock of its exclusive
  connection: the reader is shared again, but every other client waits for a transaction that
  nobody has begun, because \<^verbatim>\<open>RFUnlockSharing\<close> does not release the last lock of a reader that is
  still marked exclusive.
\<close>

lemma reconnect_shared_keeps_lock:
  assumes "pcscd_ok w" "i < length (sReadersContexts w)" "active (rdr w i)" "h \<in> set (handles (rdr w i))" "h \<noteq> 0"
    and "contexts (rdr w i) = PCSCLITE_SHARING_EXCLUSIVE_CONTEXT" "hLockId (rdr w i) = h" "LockCount (rdr w i) = 1"
    and "SCardReconnect h SCARD_SHARE_SHARED pref SCARD_LEAVE_CARD act w = ((SCARD_S_SUCCESS, prot), w')"
  shows "contexts (rdr w' i) = 1 \<and> lock_of (rdr w' i) = Held h 1"
proof -
  let ?w1 = "set_rdr i ((rdr w i)\<lparr>reference := reference (rdr w i) + 1\<rparr>) w"
  obtain w2 where b: "reconnect_body h SCARD_SHARE_SHARED pref SCARD_LEAVE_CARD act i ?w1 = ((SCARD_S_SUCCESS, prot), w2)"
    and w': "w' = snd (UnrefReader i w2)"
    using assms(5,9) by (auto simp: SCardReconnect_def by_handle_found [OF assms(1-4)] Let_def split: if_splits prod.splits)
  obtain v where f: "RFReaderInfoById h w = (Inr i, v)"
    using RFReaderInfoById_complete [OF assms(1-4)] by auto
  have "reader_step i {} ?w1 w2"
    using reconnect_body_step [of i ?w1 h SCARD_SHARE_SHARED pref SCARD_LEAVE_CARD act] assms(2) b by simp
  then have r: "rdr w' i = (rdr w2 i)\<lparr>reference := reference (rdr w i)\<rparr>"
    using reader_step_ref_unref(2) [OF f assms(1)] RFReaderInfoById_found(4) [OF f assms(1)] w' by simp
  obtain q3 w3 where p: "reconnect_protocol SCARD_SHARE_SHARED pref i ?w1 = (q3, w3)" by fastforce
  have w3: "hLockId (rdr w3 i) = h" "LockCount (rdr w3 i) = 1" "contexts (rdr w3 i) = - 1"
    "i < length (sReadersContexts w3)"
    using reconnect_protocol_lock [of i ?w1 SCARD_SHARE_SHARED pref] p assms(2,6-8) by simp_all
  have e: "rv \<noteq> 0" if "q3 = Inl rv" for rv
    using p that by (auto simp: reconnect_protocol_def set_up_protocol_def Let_def split_beta split: if_splits)
  have "rdr w2 i = upd_state (\<lambda>s. s\<lparr>readerSharing := contexts (snd (reconnect_share SCARD_SHARE_SHARED h (rdr w3 i)))\<rparr>)
      (snd (RFClearReaderEventState h (snd (reconnect_share SCARD_SHARE_SHARED h (rdr w3 i)))))"
    using b p e w3 by (cases q3) (auto simp: reconnect_body_def reconnect_init_def reconnect_share_def Let_def split: if_splits)
  with w3 show ?thesis
    by (simp add: r reconnect_share_def RFUnlockSharing_def RFCheckSharing_def lock_of_def assms(5))
qed

lemma reconnect_shared_keeps_lock_witness:
  "\<exists>w'. SCardReconnect 5 SCARD_SHARE_SHARED 3 SCARD_LEAVE_CARD 0 (ex_pcscd (ex_reader True [5] (- 1) 5 1) []) =
     ((SCARD_S_SUCCESS, 1), w') \<and> contexts (rdr w' 0) = 1 \<and> lock_of (rdr w' 0) = Held 5 1"
proof -
  let ?c = "SCardReconnect 5 SCARD_SHARE_SHARED 3 SCARD_LEAVE_CARD 0 (ex_pcscd (ex_reader True [5] (- 1) 5 1) [])"
  have "fst ?c = (SCARD_S_SUCCESS, 1)" by code_simp
  then have c: "?c = ((SCARD_S_SUCCESS, 1), snd ?c)" by (metis prod.collapse)
  have "pcscd_ok (ex_pcscd (ex_reader True [5] (- 1) 5 1) [])" by (rule ex_pcscd_ok) simp_all
  from reconnect_shared_keeps_lock [OF this _ _ _ _ _ _ _ c, of 0] c show ?thesis by force
qed

text \<open>
  When an exclusive connection can not store its handle, the share counter is restored but
  the lock is not: the reader has no client and stays locked by a handle that was never given
  out.
\<close>

lemma failed_exclusive_connect_keeps_lock:
  assumes "contexts r = PCSCLITE_SHARING_NO_CONTEXT" "lock_of r = Free" "LockCount r = 0" "h \<noteq> 0"
    and "int (list_size (handlesList r)) \<ge> maxHandles \<or> \<not> mem"
    and "connect_share SCARD_SHARE_EXCLUSIVE h r = (Inr u, r1)"
    and "connect_add_handle maxHandles mem h r1 = (rv, h', r2)"
  shows "rv = SCARD_F_INTERNAL_ERROR \<and> h' = 0 \<and> contexts r2 = PCSCLITE_SHARING_NO_CONTEXT \<and> lock_of r2 = Held h 1"
proof -
  have "hLockId r = 0" using assms(2) by (simp add: lock_of_def split: if_splits)
  with assms have r1: "hLockId r1 = h" "LockCount r1 = 1" "contexts r1 = - 1" "handlesList r1 = handlesList r"
    by (auto simp: connect_share_def RFLockSharing_def RFCheckSharing_def int32_id split: if_splits)
  with assms show ?thesis
    by (auto simp: connect_add_handle_def RFAddReaderHandle_def lock_of_def split: if_splits)
qed

lemma failed_exclusive_connect_keeps_lock_witness:
  "\<exists>r2. connect_add_handle 200 False 9 (snd (connect_share SCARD_SHARE_EXCLUSIVE 9 (ex_reader True [] 0 0 0))) =
     (SCARD_F_INTERNAL_ERROR, 0, r2) \<and> lock_of r2 = Held 9 1"
proof -
  let ?r = "ex_reader True [] 0 0 0"
  obtain r1 where 1: "connect_share SCARD_SHARE_EXCLUSIVE 9 ?r = (Inr (), r1)"
    by (simp add: connect_share_def)
  obtain rv h' r2 where 2: "connect_add_handle 200 False 9 r1 = (rv, h', r2)" by (metis prod_cases3)
  have "lock_of ?r = Free" by (simp add: lock_of_def)
  from failed_exclusive_connect_keeps_lock [OF _ this _ _ _ 1 2] 1 2 show ?thesis by simp
qed

text \<open>
  The card was switched off by the event thread and does not come up again: the connection
  nevertheless goes on, with the card marked in use, because the status bits still say powered
  from before.
\<close>

lemma connect_unnoticed_power_failure:
  assumes "i < length (sReadersContexts w)" "powerState (rdr w i) = POWER_STATE_UNPOWERED" "share \<noteq> SCARD_SHARE_DIRECT"
    and "rsState (readerState (rdr w i)) = SCARD_PRESENT OR SCARD_POWERED OR SCARD_NEGOTIABLE"
    and "fst (fst (call_ifd (IFDPowerICC (rdr w i) IFD_POWER_UP (cardAtr (readerState (rdr w i))) (of_nat MAX_ATR_SIZE)) w))
      \<noteq> IFD_SUCCESS"
  shows "fst (connect_card share i w) = Inr () \<and>
    powerState (rdr (snd (connect_card share i w)) i) = POWER_STATE_IN_USE"
  using assms by (simp add: connect_card_def Let_def split_beta)

lemma connect_unnoticed_power_failure_witness:
  "fst (connect_card SCARD_SHARE_SHARED 0
     (ex_pcscd ((ex_reader False [] 0 0 0)\<lparr>powerState := POWER_STATE_UNPOWERED\<rparr>) [])) = Inr ()"
proof -
  let ?w = "ex_pcscd ((ex_reader False [] 0 0 0)\<lparr>powerState := POWER_STATE_UNPOWERED\<rparr>) []"
  have "fst (fst (call_ifd (IFDPowerICC (rdr ?w 0) IFD_POWER_UP (cardAtr (readerState (rdr ?w 0)))
      (of_nat MAX_ATR_SIZE)) ?w)) = SCARD_W_REMOVED_CARD"
    by code_simp
  with connect_unnoticed_power_failure [of 0 ?w SCARD_SHARE_SHARED] show ?thesis
    by (simp add: ex_state_def)
qed

end
