(* ===== verification/Daemon_Props.thy ===== *)
theory Daemon_Props
  imports Winscard_Life
begin

text \<open>
  What the components beneath the API promise: the transaction lock, the card event thread,
  the reader references and the drivers, the protocol negotiation, the ATR decoder and the
  linked lists.
\<close>

section \<open>The transaction lock\<close>

text \<open>
  C13. Whatever sequence of lock and unlock requests several clients make on a shared reader,
  each request gets the answer of the abstract re-entrant lock, and the state of the reader
  represents the state of the abstract lock at the end.
\<close>

theorem lock_requests_refine:
  assumes "lock_ok r" "contexts r \<noteq> PCSCLITE_SHARING_EXCLUSIVE_CONTEXT"
    and "\<forall>q \<in> set qs. requester q \<noteq> 0" "depth (lock_of r) + length qs \<le> 2 ^ 31 - 1"
  shows "fst (serve_all RFLockSharing RFUnlockSharing qs r) = fst (serve_all spec_lock spec_unlock qs (lock_of r)) \<and>
    lock_of (snd (serve_all RFLockSharing RFUnlockSharing qs r)) =
      snd (serve_all spec_lock spec_unlock qs (lock_of r))"
  using rl.serve_all_refines [of r qs] assms by (simp add: shared_lock_ok_def)

theorem lock_requests_refine_witness:
  "fst (serve_all RFLockSharing RFUnlockSharing [Lock 5, Lock 5, Lock 7, Unlock 5, Unlock 5, Lock 7]
     (ex_reader True [5, 7] 2 0 0)) =
   fst (serve_all spec_lock spec_unlock [Lock 5, Lock 5, Lock 7, Unlock 5, Unlock 5, Lock 7] Free)"
proof -
  have "lock_of (ex_reader True [5, 7] 2 0 0) = Free" "lock_ok (ex_reader True [5, 7] 2 0 0)"
    by (simp_all add: lock_of_def lock_ok_def)
  with lock_requests_refine [of "ex_reader True [5, 7] 2 0 0" "[Lock 5, Lock 5, Lock 7, Unlock 5, Unlock 5, Lock 7]"]
  show ?thesis by simp
qed

text \<open>
  Mutual exclusion: as long as the owner of the lock has not made as many releases as
  acquisitions, every lock or unlock request of another client in any interleaving is refused
  with \<^verbatim>\<open>SCARD_E_SHARING_VIOLATION\<close>.
\<close>

theorem lock_exclusion:
  assumes "lock_ok r" "contexts r \<noteq> PCSCLITE_SHARING_EXCLUSIVE_CONTEXT" "lock_of r = Held h n" "keeps h n qs"
    and "\<forall>q \<in> set qs. requester q \<noteq> 0" "n + length qs \<le> 2 ^ 31 - 1"
    and "(q, rv) \<in> set (fst (serve_all RFLockSharing RFUnlockSharing qs r))" "requester q \<noteq> h"
  shows "rv = SCARD_E_SHARING_VIOLATION"
  using rl.exclusion [of r h n qs q rv] assms by (simp add: shared_lock_ok_def)

theorem lock_exclusion_witness:
  "(Lock 7, SCARD_E_SHARING_VIOLATION) \<in> set (fst (serve_all RFLockSharing RFUnlockSharing [Lock 5, Lock 7, Unlock 5]
     (ex_reader True [5, 7] 2 5 1)))"
proof -
  let ?r = "ex_reader True [5, 7] 2 5 1"
  let ?log = "fst (serve_all RFLockSharing RFUnlockSharing [Lock 5, Lock 7, Unlock 5] ?r)"
  have "lock_of ?r = Held 5 1" "lock_ok ?r" by (simp_all add: lock_of_def lock_ok_def)
  note x = lock_exclusion [OF this(2) _ this(1), of "[Lock 5, Lock 7, Unlock 5]"]
  obtain rv where "(Lock 7, rv) \<in> set ?log"
    by (simp add: split_beta)
  with x [of "Lock 7" rv] show ?thesis by simp
qed

section \<open>The card event thread\<close>

text \<open>
  C18. When the card is taken out, the next poll tells everybody: every client of the reader has a
  pending removal, the lock is free, the reader shows an absent card without ATR or protocol and
  a new event count, and every application that waits for an event has been sent a message.
\<close>

theorem card_removal_seen:
  assumes "pcscd_ok w" "i < length (sReadersContexts w)" "active (rdr w i)"
    and "fst (IFDStatusICC (rdr w i) (ifd w)) = (SCARD_S_SUCCESS, SCARD_ABSENT)"
    and "dwCurrentState t = SCARD_PRESENT" "eh_poll i t w = (t', w')"
  shows "(\<forall>h \<in> set (handles (rdr w i)). RFCheckReaderEventState (rdr w' i) h = SCARD_W_REMOVED_CARD) \<and>
    hLockId (rdr w' i) = 0 \<and> rsState (readerState (rdr w' i)) = SCARD_ABSENT \<and>
    cardAtrLength (readerState (rdr w' i)) = 0 \<and>
    cardProtocol (readerState (rdr w' i)) = SCARD_PROTOCOL_UNDEFINED \<and>
    entries (ClientsWaitingForEvent w') = [] \<and>
    signalled w' = signalled w @ map (\<lambda>fd. (fd, SCARD_S_SUCCESS)) (entries (ClientsWaitingForEvent w))"
proof -
  have ok: "handles_ok (handlesList (rdr w i))" "list_ok (ClientsWaitingForEvent w)"
    using assms(1) reader_ok_handles [OF pcscd_ok_reader [OF assms(1-3)]] by (auto simp: pcscd_ok_def)
  have st: "dwCurrentState t = SCARD_PRESENT \<or> dwCurrentState t = SCARD_UNKNOWN" using assms(5) by simp
  note e = eh_poll_removed [OF assms(2,4) st assms(6)]
  obtain f where f: "rdr w' i = upd_state f (RFSetReaderEventState SCARD_REMOVED (rdr w i))"
    "\<forall>s. rsState (f s) = SCARD_ABSENT \<and> cardAtrLength (f s) = 0 \<and> cardProtocol (f s) = SCARD_PROTOCOL_UNDEFINED"
    using e(2) by blast
  have "RFCheckReaderEventState (rdr w' i) h = SCARD_W_REMOVED_CARD" if "h \<in> set (handles (rdr w i))" for h
    using RFCheckReaderEventState_set [OF ok(1) that, of SCARD_REMOVED]
      RFCheckReaderEventState_handlesList [of "rdr w' i" "RFSetReaderEventState SCARD_REMOVED (rdr w i)" h] f(1)
    by (simp add: event_status_def)
  moreover have "hLockId (rdr w' i) = 0"
    using f(1) by (simp add: RFSetReaderEventState_def Let_def)
  moreover have "entries (ClientsWaitingForEvent w') = []"
    using eh_poll_signals_removed [OF ok(2) assms(4) st] assms(6) by simp
  ultimately show ?thesis
    using eh_poll_tells [OF ok(2), of i t] f assms(6) by (simp add: tells_def)
qed

definition ex_present :: eh_locals where
  "ex_present = \<lparr>dwCurrentState = SCARD_PRESENT, ehSharing = 2\<rparr>"

theorem card_removal_seen_witness:
  "\<exists>t' w'. eh_poll 0 ex_present (ex_pcscd (ex_reader False [5, 7] 2 5 1) [3, 4]) = (t', w') \<and>
    RFCheckReaderEventState (rdr w' 0) 7 = SCARD_W_REMOVED_CARD \<and> hLockId (rdr w' 0) = 0 \<and>
    signalled w' = [(3, SCARD_S_SUCCESS), (4, SCARD_S_SUCCESS)]"
proof -
  let ?w = "ex_pcscd (ex_reader False [5, 7] 2 5 1) [3, 4]"
  obtain t' w' where p: "eh_poll 0 ex_present ?w = (t', w')" by fastforce
  have ok: "pcscd_ok ?w" by (rule ex_pcscd_ok) simp_all
  have s: "fst (IFDStatusICC (rdr ?w 0) (ifd ?w)) = (SCARD_S_SUCCESS, SCARD_ABSENT)" by code_simp
  have d: "dwCurrentState ex_present = SCARD_PRESENT" by (simp add: ex_present_def)
  from card_removal_seen [OF ok _ _ s d p] p show ?thesis by simp
qed



text \<open>
  The request to end the event thread can be lost: the request is a special lock owner, and
  the thread that finds the card removed before it looks at the request resets the lock owner.
  The thread then goes on and the caller waits for it in vain.
\<close>

lemma exit_request_lost:
  assumes "pcscd_ok w" "i < length (sReadersContexts w)" "active (rdr w i)"
    and "eh_destroy_request i w = (False, w1)"
    and "fst (IFDStatusICC (rdr w1 i) (ifd w1)) = (SCARD_S_SUCCESS, SCARD_ABSENT)"
    and "dwCurrentState t = SCARD_PRESENT" "eh_poll i t w1 = (t', w2)"
  shows "hLockId (rdr w1 i) = KILL_THREAD \<and> \<not> fst (eh_exit i (eh_power i (eh_wait i w2)))"
proof -
  have w1: "hLockId (rdr w1 i) = KILL_THREAD" "i < length (sReadersContexts w1)"
    using assms(2,4) by (auto simp: eh_destroy_request_def Let_def split_beta split: if_splits)
  have st: "dwCurrentState t = SCARD_PRESENT \<or> dwCurrentState t = SCARD_UNKNOWN" using assms(6) by simp
  obtain f where "rdr w2 i = upd_state f (RFSetReaderEventState SCARD_REMOVED (rdr w1 i))"
    using eh_poll_removed(2) [OF w1(2) assms(5) st assms(7)] by blast
  then have l: "hLockId (rdr w2 i) = 0"
    by (simp add: RFSetReaderEventState_def Let_def)
  have "i < length (sReadersContexts w2)"
    using w1(2) assms(7)
    by (auto simp: eh_poll_def eh_error_def eh_removed_def eh_inserted_def eh_sharing_def split_beta Let_def
        split: if_splits)
  with l w1 eh_power_frame(1) [of i "eh_wait i w2"] show ?thesis
    by (simp add: eh_exit_def)
qed

lemma exit_request_lost_witness:
  "\<exists>w1 t' w2. eh_destroy_request 0 (ex_pcscd (ex_reader False [5] 1 0 0) []) = (False, w1) \<and>
    eh_poll 0 ex_present w1 = (t', w2) \<and> \<not> fst (eh_exit 0 (eh_power 0 (eh_wait 0 w2)))"
proof -
  let ?w = "ex_pcscd (ex_reader False [5] 1 0 0) []"
  let ?w1 = "snd (eh_destroy_request 0 ?w)"
  have "fst (eh_destroy_request 0 ?w) = False" by code_simp
  then have d: "eh_destroy_request 0 ?w = (False, ?w1)" by (metis prod.collapse)
  have s: "fst (IFDStatusICC (rdr ?w1 0) (ifd ?w1)) = (SCARD_S_SUCCESS, SCARD_ABSENT)" by code_simp
  obtain t' w2 where p: "eh_poll 0 ex_present ?w1 = (t', w2)" by fastforce
  have ok: "pcscd_ok ?w" by (rule ex_pcscd_ok) simp_all
  have c: "dwCurrentState ex_present = SCARD_PRESENT" by (simp add: ex_present_def)
  from exit_request_lost [OF ok _ _ d s c p] d p show ?thesis by auto
qed

section \<open>References, handles and drivers\<close>

text \<open>
  A new card handle is a number the generator delivered and no client of any reader has; the
  numbers skipped before it were all in use.
\<close>

theorem new_handle_fresh:
  assumes "pcscd_ok w" "RFCreateReaderHandle w = Some (h, w')"
  shows "h \<notin> all_handles w \<and>
    (\<exists>used rest. randoms w = used @ h # rest \<and> set used \<subseteq> all_handles w \<and> w' = w\<lparr>randoms := rest\<rparr>)"
  using create_handle_fresh [OF assms(2) [unfolded RFCreateReaderHandle_def] assms(1)] by blast

theorem new_handle_fresh_witness:
  "\<exists>w'. RFCreateReaderHandle (ex_pcscd (ex_reader True [9, 7] 2 0 0) []) = Some (10, w') \<and> (10::int) \<notin> {9, 7}"
proof -
  let ?w = "ex_pcscd (ex_reader True [9, 7] 2 0 0) []"
  have "map_option fst (RFCreateReaderHandle ?w) = Some 10" by code_simp
  then obtain w' where c: "RFCreateReaderHandle ?w = Some (10, w')" by auto
  have "pcscd_ok ?w" by (rule ex_pcscd_ok) simp_all
  from new_handle_fresh [OF this c] c show ?thesis by (simp add: all_handles_def)
qed

text \<open>
  C20. Removing a reader empties its slot (no handle, no lock, no name), tells every waiting
  application, leaves the other readers alone, keeps the daemon's invariant, and closes the driver
  library exactly when no other reader uses it.
\<close>

theorem reader_removed:
  assumes "pcscd_ok w" "feeds_ok w" "i < length (sReadersContexts w)" "active (rdr w i)"
    and "removeReader i w = (rv, w')"
  shows "rv = SCARD_S_SUCCESS \<and> \<not> active (rdr w' i) \<and> handles (rdr w' i) = [] \<and> hLockId (rdr w' i) = 0 \<and>
    readerName (readerState (rdr w' i)) = [] \<and> (\<forall>j. j \<noteq> i \<longrightarrow> rdr w' j = rdr w j) \<and>
    signalled w' = signalled w @ map (\<lambda>fd. (fd, SCARD_S_SUCCESS)) (entries (ClientsWaitingForEvent w)) \<and>
    pcscd_ok w' \<and> feeds_ok w' \<and>
    (\<exists>a l. pFeeds (rdr w i) = Some a \<and> vHandle (rdr w i) = Some l \<and>
       dlclosed w' = (if feeders a w = {i} then l # dlclosed w else dlclosed w))"
proof -
  have ok: "handles_ok (handlesList (rdr w i))" "list_ok (ClientsWaitingForEvent w)"
    using assms(1) reader_ok_handles [OF pcscd_ok_reader [OF assms(1,3,4)]] by (auto simp: pcscd_ok_def)
  have m: "pMutex (rdr w i) \<noteq> None" "pFeeds (rdr w i) \<noteq> None"
    using assms(2-4) unfolding feeds_ok_def by fastforce+
  note r = removeReader_result [OF assms(3) m ok]
  show ?thesis
    using r removeReader_pcscd_ok [OF assms(1,3,4) m] removeReader_feeds [OF assms(1-4)] assms(5)
    by (simp add: active_def)
qed

theorem reader_removed_witness:
  "\<exists>w'. removeReader 0 ex_two = (SCARD_S_SUCCESS, w') \<and> dlclosed w' = [''lib'']"
proof -
  have a: "{i. i < Suc 0 \<and> active (rdr ex_two i) \<and> pFeeds (rdr ex_two i) = Some (Suc 0)} = {0}"
    by (auto simp: ex_pcscd_def rdr_def ex_reader_def active_def)
  have f: "feeds_ok ex_two"
    unfolding feeds_ok_def feeders_def
    using a by (simp add: ex_pcscd_def rdr_def) (simp add: ex_reader_def)
  obtain rv w' where r: "removeReader 0 ex_two = (rv, w')" by fastforce
  have d: "pFeeds (rdr ex_two 0) = Some 1" "vHandle (rdr ex_two 0) = Some ''lib''" "dlclosed ex_two = []"
    by (simp_all add: ex_pcscd_def rdr_def ex_reader_def)
  have "feeders 1 ex_two = {0}" using a by (simp add: feeders_def)
  with reader_removed [OF ex_two_ok f _ _ r] d r show ?thesis by auto
qed

text \<open>
  A driver that lacks a mandatory function is accepted: the binding reports success and the
  function pointers from the missing one on stay as they were, null in a cleared slot, so a
  later call goes through a null pointer.
\<close>

lemma incomplete_driver_bound:
  assumes "i < length (sReadersContexts w)" "loaded_symbols (rdr w i) w = s" "pvfCreateChannelByName s \<noteq> None"
    and "pvfCreateChannel s \<noteq> None" "pvfCloseChannel s \<noteq> None" "pvfGetCapabilities s \<noteq> None"
    and "pvfSetCapabilities s \<noteq> None" "pvfPowerICC s = None" "psFunctions (rdr w i) = fct_map_null"
  shows "fst (RFBindFunctions i w) = SCARD_S_SUCCESS \<and>
    pvfPowerICC (psFunctions (rdr (snd (RFBindFunctions i w)) i)) = None \<and>
    pvfTransmitToICC (psFunctions (rdr (snd (RFBindFunctions i w)) i)) = None \<and>
    pvfICCPresence (psFunctions (rdr (snd (RFBindFunctions i w)) i)) = None"
  using assms
  by (auto simp: RFBindFunctions_def bind_v3_def bind_common_def GET_ADDRESS_def fct_map_null_def Let_def
      Option.is_none_def split_beta split: option.splits)

definition ex_incomplete :: "unit pcscd" where
  "ex_incomplete = (ex_pcscd ((ex_reader True [] 0 0 0)\<lparr>psFunctions := fct_map_null\<rparr>) [])
     \<lparr>dynlib := (\<lambda>name. Some \<lparr>symbols = (ex_functions True)\<lparr>pvfPowerICC := None\<rparr>,
        callable = (\<lambda>addr lun timeout d. (IFD_SUCCESS, d))\<rparr>)\<rparr>"

lemma incomplete_driver_bound_witness:
  "fst (RFBindFunctions 0 ex_incomplete) = SCARD_S_SUCCESS \<and>
   pvfTransmitToICC (psFunctions (rdr (snd (RFBindFunctions 0 ex_incomplete)) 0)) = None"
proof -
  let ?s = "(ex_functions True)\<lparr>pvfPowerICC := None\<rparr>"
  have s: "loaded_symbols (rdr ex_incomplete 0) ex_incomplete = ?s"
    by (simp add: loaded_symbols_def ex_incomplete_def ex_pcscd_def rdr_def ex_reader_def)
  have "0 < length (sReadersContexts ex_incomplete)" "psFunctions (rdr ex_incomplete 0) = fct_map_null"
    by (simp_all add: ex_incomplete_def ex_pcscd_def rdr_def)
  from incomplete_driver_bound [OF this(1) s _ _ _ _ _ _ this(2)] show ?thesis
    by (simp add: ex_functions_def)
qed

end
