(* ===== verification/Library_Props.thy ===== *)
theory Library_Props
  imports Examples
begin

text \<open>
  Claims about the parts that stand alone: the linked lists, the ATR decoder, the negotiation
  of the protocol and the wrapper around the driver.
\<close>

section \<open>Linked lists\<close>



text \<open>
  A client found by its handle is the one that was added with it: after adding an entry
  whose handle is new, looking the handle up finds that entry, every other lookup is as before, and
  deleting the entry gives the old sequence back.
\<close>

theorem handle_list_roundtrip:
  assumes "handles_ok l" "hCard x \<notin> hCard ` set (entries l)" "k \<noteq> hCard x"
  shows "list_seek (snd (list_append True l x)) (hCard x) = Some x \<and>
    list_seek (snd (list_append True l x)) k = list_seek l k \<and>
    entries (snd (list_delete (snd (list_append True l x)) x)) = entries l"
  using hl.seek_append [OF assms(1,2)] hl.seek_append_other [OF assms(1), of k x] assms(2,3)
    hl.append_delete [OF assms(1), of x] by auto

theorem handle_list_roundtrip_witness:
  "list_seek (snd (list_append True (ex_handles [5, 7]) \<lparr>hCard = 9, dwEventStatus = 0\<rparr>)) 9 =
    Some \<lparr>hCard = 9, dwEventStatus = 0\<rparr>"
  using handle_list_roundtrip [OF ex_handles_ok, of "\<lparr>hCard = 9, dwEventStatus = 0\<rparr>" "[5, 7]" 5]
  by (simp add: ex_handles_def)

section \<open>The ATR decoder\<close>

text \<open>
  C25. The decoder offers no protocol other than T=0, T=1 and T=15, its default is undefined or T=0
  or T=1 and among the offered ones, it is defined whenever the decoder succeeds, and the result
  depends on no byte beyond offset 36, whatever the bytes are.
\<close>

theorem atr_decode_masks:
  assumes "ATRDecodeAtr m len = (r, available, current)" "\<And>k. k < 37 \<Longrightarrow> m' k = m k"
  shows "available AND 0xB = available \<and> (current = 0 \<or> current = 1 \<or> current = 2) \<and>
    available AND current = current \<and> (r = 0 \<longrightarrow> current \<noteq> 0) \<and> ATRDecodeAtr m' len = (r, available, current)"
proof -
  have l: "atr_loop m' Y 2 1 0 0 = atr_loop m Y 2 1 0 0" for Y
    using assms(2) by (intro atr_loop_cong) auto
  have h: "m' 0 = m 0" "m' (Suc 0) = m (Suc 0)" using assms(2) by simp_all
  have "masks_ok available current \<and> (r = 0 \<longrightarrow> current \<noteq> 0)"
    using assms(1) atr_loop_masks [OF masks_ok_start, of m _ 2 1 r available current]
    by (auto simp: ATRDecodeAtr_def masks_ok_start split: if_splits)
  then show ?thesis
    using assms(1) l h unfolding ATRDecodeAtr_def masks_ok_def by auto
qed

definition ex_atr :: "UCHAR \<Rightarrow> memory" where
  "ex_atr b p = (if p = 0 then 0x3B else if p = 1 then 0xE0 else if p = 36 then b
     else if p mod 4 = 0 \<and> p \<le> 32 then 0xF0 else 0)"

theorem atr_decode_masks_witness:
  "ATRDecodeAtr (ex_atr 1) 33 = (- 5, 3, 1) \<and> ATRDecodeAtr ((ex_atr 1)(37 := 0xFF)) 33 = (- 5, 3, 1)"
proof -
  have d: "ATRDecodeAtr (ex_atr 1) 33 = (- 5, 3, 1)" by code_simp
  from atr_decode_masks [OF d, of "(ex_atr 1)(37 := 0xFF)"] d show ?thesis by auto
qed

text \<open>
  The bound of 36 is reached, although the buffer has 33 bytes: the byte at offset 36 decides
  whether T=1 is offered.
\<close>

lemma atr_reads_past_buffer:
  "ATRDecodeAtr (ex_atr 1) 33 = (- 5, 3, 1) \<and> ATRDecodeAtr (ex_atr 0) 33 = (- 5, 1, 1)"
  by (rule conjI) code_simp+

section \<open>The negotiation of the protocol\<close>

lemma set_protocol_again_allowed:
  assumes "set_protocol_again r pref prot c e = (p, e')" "\<And>q e. fst (IFDSetPTS r q 0 0 0 0 e) \<noteq> IFD_NOT_SUPPORTED"
    and "(ucast c :: DWORD) AND pref \<noteq> 0" "prot = ucast (d :: UCHAR)"
  shows "p = SET_PROTOCOL_WRONG_ARGUMENT \<or> p = SET_PROTOCOL_PPS_FAILED \<or> p AND pref \<noteq> 0"
proof -
  have u: "(ucast (ucast d :: DWORD) :: UCHAR) = d"
    by (simp add: ucast_down_ucast_id is_down)
  obtain rv e1 where 1: "IFDSetPTS r (ucast c) 0 0 0 0 e = (rv, e1)" by fastforce
  obtain rv2 e2 where 2: "IFDSetPTS r (ucast d) 0 0 0 0 e1 = (rv2, e2)" by fastforce
  have n: "rv \<noteq> IFD_NOT_SUPPORTED" "rv2 \<noteq> IFD_NOT_SUPPORTED"
    using assms(2) [of "ucast c" e] assms(2) [of "ucast d" e1] 1 2 by simp_all
  show ?thesis
    using assms(1,3,4) n 2
    by (subst (asm) set_protocol_again.simps) (auto simp: 1 u set_protocol_again_last split: if_splits)
qed

text \<open>
  C24. With a driver that can negotiate, the protocol that is set up is an error value or one that
  the application accepts and the card offers.
\<close>

theorem negotiated_protocol_allowed:
  assumes "\<And>q e. fst (IFDSetPTS r q 0 0 0 0 e) \<noteq> IFD_NOT_SUPPORTED"
    and "PHSetProtocol r pref available dflt e = (p, e')"
  shows "p = SET_PROTOCOL_WRONG_ARGUMENT \<or> p = SET_PROTOCOL_PPS_FAILED \<or> p AND (pref AND ucast available) \<noteq> 0"
proof -
  have c: "(ucast (2 :: UCHAR) :: DWORD) = 2" "(ucast (1 :: UCHAR) :: DWORD) = 1" by simp_all
  show ?thesis
    using assms(2) set_protocol_again_allowed [OF _ assms(1) _ refl, of "pref AND ucast available" dflt 2 e p e']
      set_protocol_again_allowed [OF _ assms(1) _ refl, of "pref AND ucast available" dflt 1 e p e']
    unfolding PHSetProtocol_def Let_def c by (simp add: and.commute split: if_splits)
qed

theorem negotiated_protocol_allowed_witness:
  "fst (PHSetProtocol (ex_reader True [] 0 0 0) 3 2 1 \<lparr>driver = (), hotplugSignals = 0, fault = False\<rparr>) = 2 \<and>
   (2 :: DWORD) AND (3 AND ucast (2 :: UCHAR)) \<noteq> 0"
proof -
  let ?e = "\<lparr>driver = (), hotplugSignals = 0, fault = False\<rparr>"
  have n: "fst (IFDSetPTS (ex_reader True [] 0 0 0) q 0 0 0 0 e) \<noteq> IFD_NOT_SUPPORTED" for q e
    by (simp add: IFDSetPTS_def ex_functions_def drv_call_def split_beta)
  have f: "fst (PHSetProtocol (ex_reader True [] 0 0 0) 3 2 1 ?e) = 2" by code_simp
  then have p: "PHSetProtocol (ex_reader True [] 0 0 0) 3 2 1 ?e = (2, snd (PHSetProtocol (ex_reader True [] 0 0 0) 3 2 1 ?e))"
    by (metis prod.collapse)
  from negotiated_protocol_allowed [OF n p] f show ?thesis by simp
qed

end
