(* ===== verification/Reader_Registry.thy ===== *)
theory Reader_Registry
  imports Reader_Driver
begin

text \<open>
  The table of readers in \<^verbatim>\<open>src/src/readerfactory.c\<close>: its allocation, the names of readers, adding
  and removing readers, the readers of the serial configuration and the clean-up at the end.

  Memory from \<^verbatim>\<open>malloc\<close> is not cleared: \<open>junk\<close> is what a new \<^verbatim>\<open>READER_CONTEXT\<close> holds before the
  code assigns to its members. The code does not check these calls for failure. Strings are
  \<^verbatim>\<open>char\<close> lists without the terminating NUL.
\<close>

section \<open>C strings\<close>

fun strstr :: "string \<Rightarrow> string \<Rightarrow> bool" where
  "strstr [] needle = (needle = [])"
| "strstr (c # hay) needle = (take (length needle) (c # hay) = needle \<or> strstr hay needle)"

text \<open>The parts of a string between the separators \<^verbatim>\<open>:\<close>.\<close>

fun split_colon :: "string \<Rightarrow> string list" where
  "split_colon [] = [[]]"
| "split_colon (c # cs) =
     (if c = CHR '':'' then [] # split_colon cs
      else (c # hd (split_colon cs)) # tl (split_colon cs))"

definition hex_char :: "nat \<Rightarrow> char" where
  "hex_char d = (if d < 10 then char_of (48 + d) else char_of (55 + d))"

text \<open>\<^verbatim>\<open>%02X\<close>.\<close>

fun hex_digits :: "nat \<Rightarrow> string" where
  "hex_digits n = (if n < 16 then [hex_char n] else hex_digits (n div 16) @ [hex_char (n mod 16)])"

declare hex_digits.simps [simp del]

definition hex2 :: "nat \<Rightarrow> string" where
  "hex2 n = (if n < 16 then [CHR ''0'', hex_char n] else hex_digits n)"

definition hex_value :: "char \<Rightarrow> nat option" where
  "hex_value c =
     (let n = of_char c :: nat in
      if 48 \<le> n \<and> n \<le> 57 then Some (n - 48)
      else if 65 \<le> n \<and> n \<le> 70 then Some (n - 55)
      else if 97 \<le> n \<and> n \<le> 102 then Some (n - 87)
      else None)"

text \<open>\<^verbatim>\<open>strtol(s, NULL, 16)\<close>, for strings too short to overflow.\<close>

fun hex_prefix :: "string \<Rightarrow> int \<Rightarrow> int" where
  "hex_prefix [] n = n"
| "hex_prefix (c # cs) n = (case hex_value c of None \<Rightarrow> n | Some d \<Rightarrow> hex_prefix cs (16 * n + int d))"

definition skip_0x :: "string \<Rightarrow> string" where
  "skip_0x s = (case s of
     z # x # d # cs \<Rightarrow> if z = CHR ''0'' \<and> (x = CHR ''x'' \<or> x = CHR ''X'') \<and> hex_value d \<noteq> None then d # cs else s
   | _ \<Rightarrow> s)"

definition strtol16 :: "string \<Rightarrow> int" where
  "strtol16 s = (case dropWhile (\<lambda>c. c \<in> {CHR '' '', CHR 0x09, CHR 0x0A, CHR 0x0B, CHR 0x0C, CHR 0x0D}) s of
     [] \<Rightarrow> 0
   | c # cs \<Rightarrow> if c = CHR ''-'' then - hex_prefix (skip_0x cs) 0
       else if c = CHR ''+'' then hex_prefix (skip_0x cs) 0
       else hex_prefix (skip_0x (c # cs)) 0)"

text \<open>Writing a NUL \<open>k\<close> characters before the end of a name; before its start it is out of bounds.\<close>

definition strip_name :: "nat \<Rightarrow> string \<Rightarrow> string" where
  "strip_name k name = (if k \<le> length name then take (length name - k) name else name)"

definition fault_if :: "bool \<Rightarrow> 'd pcscd \<Rightarrow> 'd pcscd" where
  "fault_if b w = (if b then set_fault w else w)"

section \<open>The table\<close>

abbreviation (input) INITIAL_MAX_READERS_CONTEXTS :: nat where "INITIAL_MAX_READERS_CONTEXTS \<equiv> 2"
abbreviation (input) PCSCLITE_HP_BASE_PORT :: int where "PCSCLITE_HP_BASE_PORT \<equiv> 0x200000"
abbreviation (input) REMOVE_READER_NO_FLAG :: int where "REMOVE_READER_NO_FLAG \<equiv> 0"
abbreviation (input) REMOVE_READER_FLAG_REMOVED :: int where "REMOVE_READER_FLAG_REMOVED \<equiv> 1"

definition new_slot :: "'d READER_CONTEXT \<Rightarrow> 'd READER_CONTEXT" where
  "new_slot junk = upd_state clear_public_state
     (junk\<lparr>vHandle := None, hLockId := 0, contexts := 0, reference := 0\<rparr>)"

definition RFAllocateReaderSpace :: "'d READER_CONTEXT \<Rightarrow> nat \<Rightarrow> 'd pcscd \<Rightarrow> LONG \<times> 'd pcscd" where
  "RFAllocateReaderSpace junk customMaxReaderHandles w =
     (let w = (if customMaxReaderHandles \<noteq> 0
               then w\<lparr>maxReaderHandles := int32 (int customMaxReaderHandles)\<rparr> else w) in
      if \<not> memOk w then (SCARD_E_INSUFFICIENT_BUFFER, w)
      else EHInitializeEventStructures
        (w\<lparr>sReadersContexts := replicate INITIAL_MAX_READERS_CONTEXTS (new_slot junk)\<rparr>))"

definition RFReAllocateReaderSpace :: "'d READER_CONTEXT \<Rightarrow> 'd pcscd \<Rightarrow> LONG \<times> 'd pcscd" where
  "RFReAllocateReaderSpace junk w =
     (SCARD_S_SUCCESS, w\<lparr>sReadersContexts :=
        sReadersContexts w @ replicate INITIAL_MAX_READERS_CONTEXTS (new_slot junk)\<rparr>)"

text \<open>An empty slot, made if there is none.\<close>

definition find_slot :: "'d READER_CONTEXT \<Rightarrow> 'd pcscd \<Rightarrow> nat \<times> 'd pcscd" where
  "find_slot junk w =
     (case position (\<lambda>r. vHandle r = None) (sReadersContexts w) of
        Some i \<Rightarrow> (i, w)
      | None \<Rightarrow> (pcsclite_max_reader_context w, snd (RFReAllocateReaderSpace junk w)))"

section \<open>Names\<close>

text \<open>
  The local variables of \<^verbatim>\<open>RFSetReaderName\<close>: \<^verbatim>\<open>parent\<close>, \<^verbatim>\<open>currentDigit\<close>, \<^verbatim>\<open>supportedChannels\<close> and
  \<^verbatim>\<open>usedDigits\<close>.
\<close>

record name_scan =
  parent :: int
  currentDigit :: int
  supportedChannels :: int
  usedDigits :: "bool list"

definition scan_reader ::
  "string \<Rightarrow> int \<Rightarrow> nat \<Rightarrow> name_scan \<times> 'd pcscd \<Rightarrow> name_scan \<times> 'd pcscd" where
  "scan_reader libraryName port' i = (\<lambda>(s, w).
     if vHandle (rdr w i) = None \<or> library (rdr w i) \<noteq> libraryName then (s, w)
     else case call_ifd (IFDGetCapabilities (rdr w i) TAG_IFD_SIMULTANEOUS_ACCESS 1) w of
       ((ret, valueLength, tagValue), w) \<Rightarrow>
         let channels = (if ret = IFD_SUCCESS \<and> valueLength = 1 \<and> byte0 tagValue > 1
                         then uint (byte0 tagValue) else 1);
             s = s\<lparr>supportedChannels := channels\<rparr>
         in if port (rdr w i) AND 0xFFFF0000 = PCSCLITE_HP_BASE_PORT \<and> port (rdr w i) \<noteq> port' \<or> channels > 1
            then
              let reader = readerName (readerState (rdr w i));
                  digit = strtol16 (drop (length reader - 5) reader);
                  w = fault_if (length reader < 5 \<or> digit < 0 \<or> int (length (usedDigits s)) \<le> digit) w
              in (s\<lparr>parent := int i, currentDigit := digit,
                   usedDigits := (if digit < 0 then usedDigits s else (usedDigits s)[nat digit := True])\<rparr>, w)
            else (s, w))"

fun scan_readers ::
  "string \<Rightarrow> int \<Rightarrow> nat list \<Rightarrow> name_scan \<times> 'd pcscd \<Rightarrow> name_scan \<times> 'd pcscd" where
  "scan_readers libraryName port' [] sw = sw"
| "scan_readers libraryName port' (i # is) sw =
     scan_readers libraryName port' is (scan_reader libraryName port' i sw)"

text \<open>The number of the new reader, \<open>None\<close> for \<^verbatim>\<open>return -2\<close>.\<close>

definition choose_digit :: "name_scan \<Rightarrow> nat option" where
  "choose_digit s =
     (if currentDigit s = - 1 then Some 0
      else case position (\<lambda>used. \<not> used) (usedDigits s) of
          None \<Rightarrow> None
        | Some i \<Rightarrow> if int i \<ge> supportedChannels s then None else Some i)"

definition extend_name :: "'d pcscd \<Rightarrow> string" where
  "extend_name w = (case getenv w ''PCSCLITE_FILTER_EXTEND_READER_NAMES'' of None \<Rightarrow> [] | Some e \<Rightarrow> e)"

text \<open>\<^verbatim>\<open>snprintf(.., MAX_READERNAME, "%s%s %02X 00", ..)\<close>\<close>

definition full_name :: "string \<Rightarrow> string \<Rightarrow> nat \<Rightarrow> string" where
  "full_name name ext i = take (MAX_READERNAME - 1) (name @ ext @ '' '' @ hex2 i @ '' 00'')"

definition RFSetReaderName :: "nat \<Rightarrow> string \<Rightarrow> string \<Rightarrow> int \<Rightarrow> 'd pcscd \<Rightarrow> int \<times> 'd pcscd" where
  "RFSetReaderName c name libraryName port' w =
     (case scan_readers libraryName port' [0..<pcsclite_max_reader_context w]
             (\<lparr>parent = - 1, currentDigit = - 1, supportedChannels = 0,
               usedDigits = replicate (pcsclite_max_reader_context w) False\<rparr>, w) of
        (s, w) \<Rightarrow>
          case choose_digit s of
            None \<Rightarrow> (- 2, w)
          | Some i \<Rightarrow>
              (parent s,
               upd_rdr c (\<lambda>r. upd_state (\<lambda>st. st\<lparr>readerName := full_name name (extend_name w) i\<rparr>)
                 (r\<lparr>slot := int32 (push_bit 16 (int i))\<rparr>)) w))"

section \<open>Removing readers\<close>

definition bump_reader_events :: "'d pcscd \<Rightarrow> 'd pcscd" where
  "bump_reader_events w =
     (let n = signed_take_bit 15 (ReaderEvents w + 1) in w\<lparr>ReaderEvents := (if n < 0 then 1 else n)\<rparr>)"

text \<open>\<^verbatim>\<open>MAX_READERNAME - sizeof(" 00 00")\<close>\<close>

abbreviation (input) NAME_ROOM :: nat where "NAME_ROOM \<equiv> MAX_READERNAME - 7"

definition tell_removed :: "nat \<Rightarrow> int \<Rightarrow> 'd pcscd \<Rightarrow> 'd pcscd" where
  "tell_removed i flags w =
     (if flags AND REMOVE_READER_FLAG_REMOVED \<noteq> 0 then
        (case call_ifd (IFDGetCapabilities (rdr w i) TAG_IFD_DEVICE_REMOVED 1) w of
           ((ret, valueLength, tagValue), w) \<Rightarrow>
             if ret = IFD_SUCCESS \<and> byte0 tagValue = 1
             then snd (call_ifd (IFDSetCapabilities (rdr w i) TAG_IFD_DEVICE_REMOVED [1]) w)
             else w)
      else w)"

definition remove_if_named :: "string \<Rightarrow> int \<Rightarrow> int \<Rightarrow> nat \<Rightarrow> 'd pcscd \<Rightarrow> 'd pcscd" where
  "remove_if_named name port' flags i w =
     (if vHandle (rdr w i) = None then w
      else
        let k = 6 + length (extend_name w);
            reader = readerName (readerState (rdr w i));
            w = fault_if (length reader < k) w
        in if take NAME_ROOM name = take NAME_ROOM (strip_name k reader) \<and> port' = port (rdr w i)
           then snd (UnrefReader i (tell_removed i flags w)) else w)"

text \<open>The loop over the slots \<open>is\<close> that are not \<^verbatim>\<open>NULL\<close>.\<close>

fun remove_readers :: "string \<Rightarrow> int \<Rightarrow> int \<Rightarrow> nat list \<Rightarrow> 'd pcscd \<Rightarrow> 'd pcscd" where
  "remove_readers name port' flags [] w = w"
| "remove_readers name port' flags (i # is) w =
     remove_readers name port' flags is (remove_if_named name port' flags i w)"

definition RFRemoveReader :: "string option \<Rightarrow> int \<Rightarrow> int \<Rightarrow> 'd pcscd \<Rightarrow> LONG \<times> 'd pcscd" where
  "RFRemoveReader name port' flags w =
     (case name of
        None \<Rightarrow> (SCARD_E_INVALID_VALUE, w)
      | Some name \<Rightarrow> (SCARD_S_SUCCESS,
          bump_reader_events (remove_readers name port' flags [0..<pcsclite_max_reader_context w] w)))"

section \<open>Adding readers\<close>

definition ignored_name :: "string \<Rightarrow> 'd pcscd \<Rightarrow> bool" where
  "ignored_name name w =
     (case getenv w ''PCSCLITE_FILTER_IGNORE_READER_NAMES'' of
        None \<Rightarrow> False
      | Some patterns \<Rightarrow> list_ex (\<lambda>pattern. pattern \<noteq> [] \<and> strstr name pattern) (split_colon patterns))"

text \<open>The search for a reader with the same name, port and device.\<close>

fun duplicate_reader :: "string \<Rightarrow> int \<Rightarrow> string \<Rightarrow> nat list \<Rightarrow> 'd pcscd \<Rightarrow> bool \<times> 'd pcscd" where
  "duplicate_reader name port' dev [] w = (False, w)"
| "duplicate_reader name port' dev (i # is) w =
     (if vHandle (rdr w i) = None then duplicate_reader name port' dev is w
      else
        let reader = readerName (readerState (rdr w i));
            w = fault_if (length reader < 6) w
        in if name = strip_name 6 reader \<and> port' = port (rdr w i) \<and> dev = device (rdr w i) then (True, w)
           else duplicate_reader name port' dev is w)"

definition empty_handles :: "RDR_CLIHANDLES list_t" where
  "empty_handles = snd (list_attributes_seeker list_init RDR_CLIHANDLES_seeker)"

text \<open>The members of a new reader, before it takes anything from a clone.\<close>

definition init_reader :: "string \<Rightarrow> string \<Rightarrow> int \<Rightarrow> 'd READER_CONTEXT \<Rightarrow> 'd READER_CONTEXT" where
  "init_reader lib dev port' r = r\<lparr>library := lib, device := dev, version := 0, port := port', mMutex := None,
     contexts := 0, pthThread := False, hLockId := 0, LockCount := 0, vHandle := None, pFeeds := None,
     pMutex := None, pthCardEvent := None, handlesList := empty_handles,
     powerState := POWER_STATE_UNPOWERED, reference := 1\<rparr>"

definition clone_reader :: "nat \<Rightarrow> nat \<Rightarrow> 'd pcscd \<Rightarrow> 'd pcscd" where
  "clone_reader c p w =
     (let w = upd_rdr c (\<lambda>r. r\<lparr>pFeeds := pFeeds (rdr w p)\<rparr>) w;
          w = add_cell (pFeeds (rdr w c)) 1 w;
          w = upd_rdr c (\<lambda>r. r\<lparr>vHandle := vHandle (rdr w p), mMutex := mMutex (rdr w p),
                pMutex := pMutex (rdr w p)\<rparr>) w
      in case call_ifd (IFDGetCapabilities (rdr w p) TAG_IFD_THREAD_SAFE 1) w of
           ((rv, dwGetSize, ucThread), w) \<Rightarrow>
             if rv = IFD_SUCCESS \<and> dwGetSize = 1 \<and> byte0 ucThread = 1
             then upd_rdr c (\<lambda>r. r\<lparr>mMutex := None, pMutex := None\<rparr>) w
             else add_cell (pMutex (rdr w c)) 1 w)"

text \<open>The counters and the mutex a reader does not share.\<close>

definition own_resources :: "nat \<Rightarrow> 'd pcscd \<Rightarrow> 'd pcscd" where
  "own_resources c w =
     (let w = (if pFeeds (rdr w c) = None
               then case new_cell 1 w of (a, w) \<Rightarrow> upd_rdr c (\<lambda>r. r\<lparr>pFeeds := Some a\<rparr>) w else w);
          w = (if mMutex (rdr w c) = None
               then case new_cell 0 w of (a, w) \<Rightarrow> upd_rdr c (\<lambda>r. r\<lparr>mMutex := Some a\<rparr>) w else w)
      in if pMutex (rdr w c) = None
         then case new_cell 1 w of (a, w) \<Rightarrow> upd_rdr c (\<lambda>r. r\<lparr>pMutex := Some a\<rparr>) w else w)"

text \<open>The polling function of the driver, if it has one, and the event thread.\<close>

definition start_polling :: "nat \<Rightarrow> 'd pcscd \<Rightarrow> LONG \<times> 'd pcscd" where
  "start_polling c w =
     (case call_ifd (IFDGetCapabilities (rdr w c) TAG_IFD_POLLING_THREAD_WITH_TIMEOUT 8) w of
        ((rv, dwGetSize, fct), w) \<Rightarrow>
          EHSpawnEventHandler c
            (if rv \<noteq> SCARD_S_SUCCESS \<or> dwGetSize \<noteq> 8 then w
             else upd_rdr c (\<lambda>r. r\<lparr>pthCardEvent := Some fct\<rparr>) w))"

text \<open>Opening the reader and starting its thread; on failure the reader is removed by its name.\<close>

definition start_reader :: "string \<Rightarrow> int \<Rightarrow> nat \<Rightarrow> 'd pcscd \<Rightarrow> LONG \<times> 'd pcscd" where
  "start_reader name port' c w =
     (case RFInitializeReader c w of (rv, w) \<Rightarrow>
        if rv \<noteq> SCARD_S_SUCCESS
        then (rv, snd (RFRemoveReader (Some name) port' REMOVE_READER_NO_FLAG w))
        else case start_polling c w of (rv, w) \<Rightarrow>
          if rv \<noteq> SCARD_S_SUCCESS
          then (rv, snd (RFRemoveReader (Some name) port' REMOVE_READER_NO_FLAG w))
          else (SCARD_S_SUCCESS, w))"

text \<open>One further slot \<open>j\<close> of the reader at \<open>c\<close>.\<close>

definition init_slot :: "nat \<Rightarrow> nat \<Rightarrow> nat \<Rightarrow> 'd pcscd \<Rightarrow> 'd pcscd" where
  "init_slot c j b w =
     (let r = rdr w c; name = readerName (readerState r);
          w = fault_if (length name < 2) w;
          w = upd_rdr b (\<lambda>s. upd_state (\<lambda>st. st\<lparr>readerName := take (length name - 2) name @ take 2 (hex2 j)\<rparr>)
                (s\<lparr>library := library r, device := device r, version := version r, port := port r,
                   vHandle := vHandle r, mMutex := mMutex r, pMutex := pMutex r,
                   slot := int32 (slot r + int j), pthCardEvent := None, pFeeds := pFeeds r\<rparr>)) w;
          w = add_cell (pFeeds (rdr w b)) 1 w
      in upd_rdr b (\<lambda>s. s\<lparr>contexts := 0, hLockId := 0, LockCount := 0, handlesList := empty_handles,
           powerState := POWER_STATE_UNPOWERED, reference := 1\<rparr>) w)"

definition slot_resources :: "nat \<Rightarrow> nat \<Rightarrow> 'd pcscd \<Rightarrow> 'd pcscd" where
  "slot_resources c b w =
     (case call_ifd (IFDGetCapabilities (rdr w c) TAG_IFD_SLOT_THREAD_SAFE 1) w of
        ((rv, dwGetSize, ucThread), w) \<Rightarrow>
          if rv = IFD_SUCCESS \<and> dwGetSize = 1 \<and> byte0 ucThread = 1 then
            (case new_cell 0 w of (a, w) \<Rightarrow> case new_cell 1 w of (p, w) \<Rightarrow>
               upd_rdr b (\<lambda>s. s\<lparr>mMutex := Some a, pMutex := Some p\<rparr>) w)
          else add_cell (pMutex (rdr w b)) 1 w)"

fun add_slots :: "'d READER_CONTEXT \<Rightarrow> string \<Rightarrow> int \<Rightarrow> nat \<Rightarrow> nat list \<Rightarrow> 'd pcscd \<Rightarrow> LONG \<times> 'd pcscd" where
  "add_slots junk name port' c [] w = (SCARD_S_SUCCESS, w)"
| "add_slots junk name port' c (j # js) w =
     (case find_slot junk w of (b, w) \<Rightarrow>
        case start_reader name port' b (slot_resources c b (init_slot c j b w)) of (rv, w) \<Rightarrow>
          if rv \<noteq> SCARD_S_SUCCESS then (rv, w) else add_slots junk name port' c js w)"

text \<open>The number of slots the driver reports; 1 when it does not say.\<close>

definition slots_number :: "RESPONSECODE \<times> DWORD \<times> bytes \<Rightarrow> nat" where
  "slots_number answer =
     (case answer of (rv, dwGetSize, ucGetData) \<Rightarrow>
        if rv \<noteq> IFD_SUCCESS \<or> dwGetSize \<noteq> 1 \<or> byte0 ucGetData = 0 then 1 else unat (byte0 ucGetData))"

definition add_to_slot ::
  "'d READER_CONTEXT \<Rightarrow> string \<Rightarrow> int \<Rightarrow> string \<Rightarrow> string \<Rightarrow> nat \<Rightarrow> 'd pcscd \<Rightarrow> LONG \<times> 'd pcscd" where
  "add_to_slot junk name port' lib dev c w =
     (case RFSetReaderName c name lib port' w of (parentNode, w) \<Rightarrow>
        if parentNode < - 1 then (SCARD_E_NO_MEMORY, w)
        else
          let w = upd_rdr c (init_reader lib dev port') w;
              w = (if 0 \<le> parentNode \<and> parentNode < int (pcsclite_max_reader_context w)
                   then clone_reader c (nat parentNode) w else w);
              w = own_resources c w
          in case start_reader name port' c w of (rv, w) \<Rightarrow>
               if rv \<noteq> SCARD_S_SUCCESS then (rv, w)
               else
                 let w = bump_reader_events w
                 in case call_ifd (IFDGetCapabilities (rdr w c) TAG_IFD_SLOTS_NUMBER 1) w of
                      (answer, w) \<Rightarrow> add_slots junk name port' c [1..<slots_number answer] w)"

definition RFAddReader ::
  "'d READER_CONTEXT \<Rightarrow> string option \<Rightarrow> int \<Rightarrow> string option \<Rightarrow> string option \<Rightarrow> 'd pcscd \<Rightarrow> LONG \<times> 'd pcscd" where
  "RFAddReader junk readerNameLong port' lib dev w =
     (case (readerNameLong, lib, dev) of
        (Some readerNameLong, Some lib, Some dev) \<Rightarrow>
          if ignored_name readerNameLong w then (SCARD_E_READER_UNAVAILABLE, w)
          else
            let name = take NAME_ROOM readerNameLong
            in case duplicate_reader name port' dev [0..<pcsclite_max_reader_context w] w of (duplicate, w) \<Rightarrow>
                 if duplicate then (SCARD_E_DUPLICATE_READER, w)
                 else case find_slot junk w of (c, w) \<Rightarrow> add_to_slot junk name port' lib dev c w
      | _ \<Rightarrow> (SCARD_E_INVALID_VALUE, w))"

section \<open>The end of the daemon, and its start\<close>

text \<open>The slots before \<open>i\<close> are already freed and \<^verbatim>\<open>NULL\<close>.\<close>

definition cleanup_reader :: "nat \<Rightarrow> 'd pcscd \<Rightarrow> 'd pcscd" where
  "cleanup_reader i w =
     (if vHandle (rdr w i) = None then w
      else
        let reader = readerName (readerState (rdr w i));
            w = fault_if (length reader < 6) w
        in bump_reader_events (remove_readers (strip_name 6 reader) (port (rdr w i)) REMOVE_READER_NO_FLAG
             [i..<pcsclite_max_reader_context w] w))"

fun cleanup_readers :: "nat list \<Rightarrow> 'd pcscd \<Rightarrow> 'd pcscd" where
  "cleanup_readers [] w = w"
| "cleanup_readers (i # is) w = cleanup_readers is (cleanup_reader i w)"

text \<open>Without the final release of the memory of the slots.\<close>

definition RFCleanupReaders :: "'d pcscd \<Rightarrow> 'd pcscd" where
  "RFCleanupReaders w = cleanup_readers [0..<pcsclite_max_reader_context w] w"

definition need_to_wait :: "'d pcscd \<Rightarrow> bool" where
  "need_to_wait w = list_ex (\<lambda>r. vHandle r \<noteq> None \<and> cardAtrLength (readerState r) = READER_NOT_INITIALIZED)
     (sReadersContexts w)"

text \<open>\<open>others\<close> is what the event threads do during each sleep.\<close>

fun RFWaitForReaderInit :: "('d pcscd \<Rightarrow> 'd pcscd) list \<Rightarrow> 'd pcscd \<Rightarrow> 'd pcscd option" where
  "RFWaitForReaderInit [] w = (if need_to_wait w then None else Some w)"
| "RFWaitForReaderInit (other # others) w =
     (if need_to_wait w then RFWaitForReaderInit others (other w) else Some w)"

section \<open>Serial readers\<close>

text \<open>What the parser of the configuration file delivers.\<close>

record SerialReader =
  pcFriendlyname :: string
  pcDevicename :: string
  pcLibpath :: string
  channelId :: int

definition schar :: "char \<Rightarrow> int" where
  "schar c = (let n = of_char c in if n < 128 then n else n - 256)"

text \<open>\<^verbatim>\<open>for (j=0; j<s[j]; j++) crc += s[j];\<close>\<close>

fun weak_crc :: "nat \<Rightarrow> string \<Rightarrow> int" where
  "weak_crc j [] = 0"
| "weak_crc j (c # cs) = (if int j < schar c then schar c + weak_crc (j + 1) cs else 0)"

definition reader_crc :: "SerialReader \<Rightarrow> int" where
  "reader_crc s = weak_crc 0 (pcFriendlyname s) + weak_crc 0 (pcLibpath s) + weak_crc 0 (pcDevicename s)"

text \<open>
  \<open>answer\<close> is the result of \<^verbatim>\<open>DBGetReaderListDir\<close>: its return value and the list, \<open>None\<close> for
  \<^verbatim>\<open>NULL\<close>. The new \<^verbatim>\<open>ConfigFileCRC\<close> is a result.
\<close>

fun start_serial :: "'d READER_CONTEXT \<Rightarrow> SerialReader list \<Rightarrow> int \<Rightarrow> 'd pcscd \<Rightarrow> int \<times> 'd pcscd" where
  "start_serial junk [] crc w = (crc, w)"
| "start_serial junk (s # rest) crc w =
     start_serial junk rest (int32 (crc + reader_crc s))
       (snd (RFAddReader junk (Some (pcFriendlyname s)) (channelId s) (Some (pcLibpath s)) (Some (pcDevicename s)) w))"

definition RFStartSerialReaders ::
  "'d READER_CONTEXT \<Rightarrow> int \<times> SerialReader list option \<Rightarrow> int \<Rightarrow> 'd pcscd \<Rightarrow> int \<times> int \<times> 'd pcscd" where
  "RFStartSerialReaders junk answer ConfigFileCRC w =
     (case answer of (rv, reader_list) \<Rightarrow>
        case reader_list of
          None \<Rightarrow> (rv, ConfigFileCRC, w)
        | Some readers \<Rightarrow> (rv, start_serial junk readers ConfigFileCRC w))"

text \<open>The scan for one configured reader: whether it is present, after checking that it still answers.\<close>

fun recheck_present :: "SerialReader \<Rightarrow> nat list \<Rightarrow> bool \<Rightarrow> 'd pcscd \<Rightarrow> bool \<times> 'd pcscd" where
  "recheck_present s [] present w = (present, w)"
| "recheck_present s (i # is) present w =
     (if vHandle (rdr w i) = None then recheck_present s is present w
      else
        let reader = readerName (readerState (rdr w i));
            w = fault_if (length reader < 6) w
        in if pcFriendlyname s = strip_name 6 reader \<and> channelId s = port (rdr w i) then
             (case call_ifd (IFDStatusICC (rdr w i)) w of ((rv, dwStatus), w) \<Rightarrow>
                recheck_present s is True
                  (if rv \<noteq> SCARD_S_SUCCESS
                   then snd (RFRemoveReader (Some (pcFriendlyname s)) (channelId s) REMOVE_READER_NO_FLAG w)
                   else w))
           else recheck_present s is present w)"

fun recheck_serial :: "'d READER_CONTEXT \<Rightarrow> SerialReader list \<Rightarrow> 'd pcscd \<Rightarrow> 'd pcscd" where
  "recheck_serial junk [] w = w"
| "recheck_serial junk (s # rest) w =
     (case recheck_present s [0..<pcsclite_max_reader_context w] False w of (present, w) \<Rightarrow>
        recheck_serial junk rest
          (if present then w
           else snd (RFAddReader junk (Some (pcFriendlyname s)) (channelId s) (Some (pcLibpath s))
                  (Some (pcDevicename s)) w)))"

definition RFReCheckReaderConf ::
  "'d READER_CONTEXT \<Rightarrow> SerialReader list option \<Rightarrow> int \<Rightarrow> 'd pcscd \<Rightarrow> 'd pcscd" where
  "RFReCheckReaderConf junk reader_list ConfigFileCRC w =
     (case reader_list of
        None \<Rightarrow> w
      | Some readers \<Rightarrow>
          if int32 (sum_list (map reader_crc readers)) \<noteq> ConfigFileCRC then w
          else recheck_serial junk readers w)"

end
