(* ===== verification/Registry_Inv.thy ===== *)
theory Registry_Inv
  imports Reader_Registry
begin

text \<open>
  The invariant of the table of readers and that adding, removing and cleaning up keep it,
  whatever the driver answers; the numbers in the names of readers.
\<close>

section \<open>The invariant\<close>

text \<open>Every reader in use has its counters and room for a reference, and the invariant of the daemon holds.\<close>

definition registry_ok :: "'d pcscd \<Rightarrow> bool" where
  "registry_ok w = (pcscd_ok w \<and>
     (\<forall>i < length (sReadersContexts w). active (rdr w i) \<longrightarrow>
        pMutex (rdr w i) \<noteq> None \<and> pFeeds (rdr w i) \<noteq> None \<and> reference (rdr w i) + 1 < 2 ^ 31 - 1))"

text \<open>Only the reader at \<open>c\<close> changed.\<close>

definition only_slot :: "nat \<Rightarrow> 'd pcscd \<Rightarrow> 'd pcscd \<Rightarrow> bool" where
  "only_slot c w w' =
     (length (sReadersContexts w') = length (sReadersContexts w) \<and> (\<forall>j. j \<noteq> c \<longrightarrow> rdr w' j = rdr w j) \<and>
      ClientsWaitingForEvent w' = ClientsWaitingForEvent w \<and> maxReaderHandles w' = maxReaderHandles w)"

text \<open>A reader nobody has connected to yet.\<close>

definition unused :: "'d READER_CONTEXT \<Rightarrow> bool" where
  "unused r = (handlesList r = empty_handles \<and> contexts r = 0 \<and> reference r = 1)"

lemma only_slot_refl [simp]: "only_slot c w w"
  by (simp add: only_slot_def)

lemma only_slot_trans: "only_slot c w w' \<Longrightarrow> only_slot c w' w'' \<Longrightarrow> only_slot c w w''"
  by (simp add: only_slot_def)

lemma only_slot_length: "only_slot c w w' \<Longrightarrow> length (sReadersContexts w') = length (sReadersContexts w)"
  by (simp add: only_slot_def)

lemma new_cell_frame [simp]:
  "sReadersContexts (snd (new_cell v w)) = sReadersContexts w" "rdr (snd (new_cell v w)) i = rdr w i"
  "ClientsWaitingForEvent (snd (new_cell v w)) = ClientsWaitingForEvent w"
  "maxReaderHandles (snd (new_cell v w)) = maxReaderHandles w" "ifd (snd (new_cell v w)) = ifd w"
  by (simp_all add: new_cell_def rdr_def)

lemma dlclosed_frame [simp]: "maxReaderHandles (w\<lparr>dlclosed := d\<rparr>) = maxReaderHandles w"
  by simp

lemma fault_if_frame [simp]:
  "sReadersContexts (fault_if b w) = sReadersContexts w" "rdr (fault_if b w) i = rdr w i"
  "ClientsWaitingForEvent (fault_if b w) = ClientsWaitingForEvent w"
  "maxReaderHandles (fault_if b w) = maxReaderHandles w"
  "fault_if False w = w"
  by (simp_all add: fault_if_def)

lemma only_slot_upd_rdr: "only_slot c w w' \<Longrightarrow> c < length (sReadersContexts w) \<Longrightarrow> only_slot c w (upd_rdr c f w')"
  by (simp add: only_slot_def)

lemma only_slot_frame:
  assumes "only_slot c w w'" "sReadersContexts w'' = sReadersContexts w'"
    and "ClientsWaitingForEvent w'' = ClientsWaitingForEvent w'" "maxReaderHandles w'' = maxReaderHandles w'"
  shows "only_slot c w w''"
  using assms by (simp add: only_slot_def rdr_def)

lemma only_slot_ops:
  "only_slot c w w' \<Longrightarrow> only_slot c w (snd (call_ifd f w'))"
  "only_slot c w w' \<Longrightarrow> only_slot c w (add_cell p d w')"
  "only_slot c w w' \<Longrightarrow> only_slot c w (snd (new_cell v w'))"
  "only_slot c w w' \<Longrightarrow> only_slot c w (set_fault w')"
  "only_slot c w w' \<Longrightarrow> only_slot c w (fault_if b w')"
  "only_slot c w w' \<Longrightarrow> only_slot c w (w'\<lparr>dlclosed := l\<rparr>)"
  by (rule only_slot_frame; simp)+

lemmas only_slot_intros = only_slot_refl only_slot_upd_rdr only_slot_ops

lemma empty_handles_ok [simp]: "handles_ok empty_handles" "entries empty_handles = []"
  by (simp_all add: empty_handles_def handles_ok_def list_ok_def list_repOk_def list_init_def list_attributes_seeker_def)

lemma unused_handles [simp]: "unused r \<Longrightarrow> handles r = []"
  by (simp add: unused_def handles_def)

lemma unused_reader_ok: "unused r \<Longrightarrow> reader_ok r"
  by (simp add: reader_ok_def sharing_ok_def unused_def handles_def)

text \<open>Filling or changing a slot without clients keeps the invariant.\<close>

lemma pcscd_ok_slot:
  assumes "pcscd_ok w" "only_slot c w w'" "active (rdr w' c) \<Longrightarrow> reader_ok (rdr w' c) \<and> handles (rdr w' c) = []"
  shows "pcscd_ok w'"
  unfolding pcscd_ok_def
proof (intro conjI allI impI)
  fix i assume "i < length (sReadersContexts w')" "active (rdr w' i)"
  then show "reader_ok (rdr w' i)"
    using assms pcscd_ok_reader [OF assms(1), of i] by (cases "i = c") (auto simp: only_slot_def)
next
  fix i j assume ij: "i < length (sReadersContexts w')" "j < length (sReadersContexts w')"
    "i \<noteq> j \<and> active (rdr w' i) \<and> active (rdr w' j)"
  show "set (handles (rdr w' i)) \<inter> set (handles (rdr w' j)) = {}"
  proof (cases "i = c \<or> j = c")
    case True
    with ij assms(3) show ?thesis by auto
  next
    case False
    with ij assms(1,2) show ?thesis by (simp add: only_slot_def pcscd_ok_def)
  qed
qed (use assms in \<open>auto simp: pcscd_ok_def only_slot_def\<close>)

lemma registry_ok_slot:
  assumes "registry_ok w" "only_slot c w w'"
    and "active (rdr w' c) \<Longrightarrow> unused (rdr w' c) \<and> pMutex (rdr w' c) \<noteq> None \<and> pFeeds (rdr w' c) \<noteq> None"
  shows "registry_ok w'"
proof -
  have "pcscd_ok w'"
    using assms(1,3) by (intro pcscd_ok_slot [OF _ assms(2)]) (auto simp: registry_ok_def unused_reader_ok)
  moreover have "pMutex (rdr w' i) \<noteq> None \<and> pFeeds (rdr w' i) \<noteq> None \<and> reference (rdr w' i) + 1 < 2 ^ 31 - 1"
    if "i < length (sReadersContexts w')" "active (rdr w' i)" for i
    using that assms by (cases "i = c") (auto simp: registry_ok_def only_slot_def unused_def)
  ultimately show ?thesis
    by (simp add: registry_ok_def)
qed

text \<open>Steps that do not touch a slot at all.\<close>

lemma registry_ok_frame:
  assumes "registry_ok w" "sReadersContexts w' = sReadersContexts w"
    and "ClientsWaitingForEvent w' = ClientsWaitingForEvent w" "maxReaderHandles w' = maxReaderHandles w"
  shows "registry_ok w'"
  using assms by (simp add: registry_ok_def pcscd_ok_def rdr_def)

section \<open>Removing\<close>

lemma UnrefReader_registry_ok:
  assumes "registry_ok w" "i < length (sReadersContexts w)" "active (rdr w i)"
  shows "registry_ok (snd (UnrefReader i w))"
    and "length (sReadersContexts (snd (UnrefReader i w))) = length (sReadersContexts w)"
    and "j \<noteq> i \<Longrightarrow> rdr (snd (UnrefReader i w)) j = rdr w j"
proof -
  have ok: "pcscd_ok w" and m: "pMutex (rdr w i) \<noteq> None" "pFeeds (rdr w i) \<noteq> None"
    using assms by (auto simp: registry_ok_def)
  have r: "1 \<le> reference (rdr w i)" "reference (rdr w i) < 2 ^ 31 - 1"
    using pcscd_ok_reader [OF ok assms(2,3)] by (auto simp: reader_ok_def)
  have "registry_ok (snd (UnrefReader i w)) \<and>
      length (sReadersContexts (snd (UnrefReader i w))) = length (sReadersContexts w) \<and>
      (j \<noteq> i \<longrightarrow> rdr (snd (UnrefReader i w)) j = rdr w j)"
  proof (cases "reference (rdr w i) = 1")
    case True
    let ?v = "upd_rdr i (\<lambda>r. r\<lparr>reference := 0\<rparr>) w"
    have hl: "handles_ok (handlesList (rdr w i))" "list_ok (ClientsWaitingForEvent w)"
      using ok reader_ok_handles [OF pcscd_ok_reader [OF ok assms(2,3)]] by (auto simp: pcscd_ok_def)
    have u: "snd (UnrefReader i w) = snd (removeReader i ?v)"
      using True assms(2) by (simp add: UnrefReader_def upd_rdr_def)
    note q = removeReader_result [of i ?v, simplified, OF assms(2)]
    have x: "\<not> active (rdr (snd (removeReader i ?v)) i)" "j' \<noteq> i \<Longrightarrow> rdr (snd (removeReader i ?v)) j' = rdr w j'"
      "length (sReadersContexts (snd (removeReader i ?v))) = length (sReadersContexts w)"
      "list_ok (ClientsWaitingForEvent (snd (removeReader i ?v)))" for j'
      using q(2,6,7,10) assms(2) m hl by simp_all
    have same: "active (rdr w j') \<and> rdr (snd (removeReader i ?v)) j' = rdr w j'"
      if "active (rdr (snd (removeReader i ?v)) j')" for j'
      using that x(1) x(2) [of j'] by (cases "j' = i") auto
    have "pcscd_ok (snd (removeReader i ?v))"
      by (rule pcscd_ok_fewer [OF ok x(3,4) _ same]) simp_all
    with same x assms(1) show ?thesis
      unfolding u registry_ok_def by metis
  next
    case False
    then have u: "snd (UnrefReader i w) = set_rdr i ((rdr w i)\<lparr>reference := reference (rdr w i) - 1\<rparr>) w"
      using UnrefReader_dec [OF assms(2)] r by simp
    let ?v = "set_rdr i ((rdr w i)\<lparr>reference := reference (rdr w i) - 1\<rparr>) w"
    have s: "active (rdr ?v k) = active (rdr w k)" "handles (rdr ?v k) = handles (rdr w k)"
      "pMutex (rdr ?v k) = pMutex (rdr w k)" "pFeeds (rdr ?v k) = pFeeds (rdr w k)" for k
      using assms(2) by (auto simp: active_def handles_def)
    have "reader_ok (rdr ?v k)" if "k < length (sReadersContexts w)" "active (rdr w k)" for k
      using pcscd_ok_reader [OF ok that] r False assms(2)
      by (cases "k = i") (auto simp: reader_ok_def sharing_ok_def handles_def)
    with ok have "pcscd_ok ?v"
      by (simp add: pcscd_ok_def s)
    moreover have "reference (rdr ?v k) \<le> reference (rdr w k)" for k
      using assms(2) by simp
    ultimately show ?thesis
      using assms u s by (fastforce simp: registry_ok_def intro: le_less_trans)
  qed
  then show "registry_ok (snd (UnrefReader i w))"
    and "length (sReadersContexts (snd (UnrefReader i w))) = length (sReadersContexts w)"
    and "j \<noteq> i \<Longrightarrow> rdr (snd (UnrefReader i w)) j = rdr w j"
    by auto
qed

lemma tell_removed_frame [simp]:
  "sReadersContexts (tell_removed i flags w) = sReadersContexts w" "rdr (tell_removed i flags w) j = rdr w j"
  "ClientsWaitingForEvent (tell_removed i flags w) = ClientsWaitingForEvent w"
  "maxReaderHandles (tell_removed i flags w) = maxReaderHandles w"
  by (auto simp: tell_removed_def split_beta)

lemma remove_if_named_ok:
  assumes "registry_ok w" "i < length (sReadersContexts w)"
  shows "registry_ok (remove_if_named name p flags i w)"
    and "length (sReadersContexts (remove_if_named name p flags i w)) = length (sReadersContexts w)"
    and "j \<noteq> i \<Longrightarrow> rdr (remove_if_named name p flags i w) j = rdr w j"
proof -
  have f: "registry_ok (fault_if b w)" "registry_ok (tell_removed i flags (fault_if b w))" for b
    using assms(1) by (auto intro: registry_ok_frame)
  show "registry_ok (remove_if_named name p flags i w)"
    and "length (sReadersContexts (remove_if_named name p flags i w)) = length (sReadersContexts w)"
    and "j \<noteq> i \<Longrightarrow> rdr (remove_if_named name p flags i w) j = rdr w j"
    using assms f UnrefReader_registry_ok [OF f(2), of i]
    by (auto simp: remove_if_named_def Let_def active_def)
qed

lemma remove_readers_ok:
  assumes "registry_ok w" "\<forall>i \<in> set is. i < length (sReadersContexts w)"
  shows "registry_ok (remove_readers name p flags is w) \<and>
    length (sReadersContexts (remove_readers name p flags is w)) = length (sReadersContexts w) \<and>
    (\<forall>j. j \<notin> set is \<longrightarrow> rdr (remove_readers name p flags is w) j = rdr w j)"
  using assms
proof (induction "is" arbitrary: w)
  case Nil
  then show ?case by simp
next
  case (Cons i "is")
  let ?v = "remove_if_named name p flags i w"
  have v: "registry_ok ?v" "length (sReadersContexts ?v) = length (sReadersContexts w)"
    "j \<noteq> i \<Longrightarrow> rdr ?v j = rdr w j" for j
    using remove_if_named_ok [OF Cons.prems(1), of i] Cons.prems(2) by auto
  with Cons.IH [of ?v] Cons.prems show ?case by simp
qed

lemma bump_reader_events_frame [simp]:
  "sReadersContexts (bump_reader_events w) = sReadersContexts w" "rdr (bump_reader_events w) i = rdr w i"
  "ClientsWaitingForEvent (bump_reader_events w) = ClientsWaitingForEvent w"
  "maxReaderHandles (bump_reader_events w) = maxReaderHandles w"
  by (simp_all add: bump_reader_events_def rdr_def Let_def)

lemma bump_reader_events_ok [simp]: "registry_ok (bump_reader_events w) = registry_ok w"
  by (simp add: registry_ok_def pcscd_ok_def)

lemma fault_if_ok [simp]: "registry_ok (fault_if b w) = registry_ok w"
  by (simp add: registry_ok_def pcscd_ok_def)

lemma RFRemoveReader_registry_ok:
  assumes "registry_ok w"
  shows "registry_ok (snd (RFRemoveReader name p flags w))"
    and "length (sReadersContexts (snd (RFRemoveReader name p flags w))) = length (sReadersContexts w)"
  using assms remove_readers_ok [OF assms, of "[0..<length (sReadersContexts w)]"]
  by (auto simp: RFRemoveReader_def split: option.splits)

lemma cleanup_readers_ok:
  assumes "registry_ok w" "\<forall>i \<in> set is. i < length (sReadersContexts w)"
  shows "registry_ok (cleanup_readers is w)"
  using assms
proof (induction "is" arbitrary: w)
  case Nil
  then show ?case by simp
next
  case (Cons i "is")
  have "registry_ok (cleanup_reader i w)" "length (sReadersContexts (cleanup_reader i w)) = length (sReadersContexts w)"
    using Cons.prems(1) remove_readers_ok [of "fault_if b w" "[i..<length (sReadersContexts w)]" for b]
    by (auto simp: cleanup_reader_def Let_def)
  with Cons show ?case by simp
qed

section \<open>Adding\<close>

lemma new_slot_inactive [simp]: "\<not> active (new_slot junk)"
  by (simp add: new_slot_def active_def)

lemma rdr_append:
  "rdr (w\<lparr>sReadersContexts := sReadersContexts w @ rs\<rparr>) i =
    (if i < length (sReadersContexts w) then rdr w i else rs ! (i - length (sReadersContexts w)))"
  by (simp add: rdr_def nth_append)

lemma RFReAllocateReaderSpace_ok:
  assumes "registry_ok w"
  shows "registry_ok (snd (RFReAllocateReaderSpace junk w))"
proof -
  have a: "active (rdr (snd (RFReAllocateReaderSpace junk w)) i) \<longleftrightarrow>
      i < length (sReadersContexts w) \<and> active (rdr w i)"
    if "i < length (sReadersContexts (snd (RFReAllocateReaderSpace junk w)))" for i
    using that by (auto simp: RFReAllocateReaderSpace_def rdr_append nth_Cons' simp del: replicate_Suc)
  have r: "rdr (snd (RFReAllocateReaderSpace junk w)) i = rdr w i" if "i < length (sReadersContexts w)" for i
    using that by (simp add: RFReAllocateReaderSpace_def rdr_append)
  have f: "ClientsWaitingForEvent (snd (RFReAllocateReaderSpace junk w)) = ClientsWaitingForEvent w"
    "maxReaderHandles (snd (RFReAllocateReaderSpace junk w)) = maxReaderHandles w"
    by (simp_all add: RFReAllocateReaderSpace_def)
  show ?thesis
    using assms unfolding registry_ok_def pcscd_ok_def f by (metis a r)
qed

lemma find_slot_ok:
  assumes "registry_ok w" "find_slot junk w = (c, w')"
  shows "registry_ok w'" "c < length (sReadersContexts w')" "\<not> active (rdr w' c)"
    and "j < length (sReadersContexts w) \<Longrightarrow> j < length (sReadersContexts w') \<and> rdr w' j = rdr w j"
proof -
  let ?p = "position (\<lambda>r. vHandle r = None) (sReadersContexts w)"
  have "registry_ok w' \<and> c < length (sReadersContexts w') \<and> \<not> active (rdr w' c) \<and>
      (j < length (sReadersContexts w) \<longrightarrow> j < length (sReadersContexts w') \<and> rdr w' j = rdr w j)"
  proof (cases ?p)
    case None
    then have "c = length (sReadersContexts w)" "w' = snd (RFReAllocateReaderSpace junk w)"
      using assms(2) by (simp_all add: find_slot_def)
    with RFReAllocateReaderSpace_ok [OF assms(1), of junk] show ?thesis
      by (auto simp: RFReAllocateReaderSpace_def rdr_append numeral_2_eq_2)
  next
    case (Some i)
    with assms position_SomeD [OF Some] show ?thesis
      by (auto simp: find_slot_def active_def rdr_def)
  qed
  then show "registry_ok w'" "c < length (sReadersContexts w')" "\<not> active (rdr w' c)"
    and "j < length (sReadersContexts w) \<Longrightarrow> j < length (sReadersContexts w') \<and> rdr w' j = rdr w j"
    by auto
qed

text \<open>The scan for readers of the same driver only asks the driver.\<close>

lemma scan_reader_frame:
  "sReadersContexts (snd (scan_reader lib p i sw)) = sReadersContexts (snd sw)"
  "ClientsWaitingForEvent (snd (scan_reader lib p i sw)) = ClientsWaitingForEvent (snd sw)"
  "maxReaderHandles (snd (scan_reader lib p i sw)) = maxReaderHandles (snd sw)"
  "length (usedDigits (fst (scan_reader lib p i sw))) = length (usedDigits (fst sw))"
  by (auto simp: scan_reader_def split_beta Let_def)

lemma scan_readers_frame:
  "sReadersContexts (snd (scan_readers lib p is sw)) = sReadersContexts (snd sw)"
  "ClientsWaitingForEvent (snd (scan_readers lib p is sw)) = ClientsWaitingForEvent (snd sw)"
  "maxReaderHandles (snd (scan_readers lib p is sw)) = maxReaderHandles (snd sw)"
  "length (usedDigits (fst (scan_readers lib p is sw))) = length (usedDigits (fst sw))"
  by (induction "is" arbitrary: sw) (simp_all add: scan_reader_frame)

lemma RFSetReaderName_frame:
  assumes "c < length (sReadersContexts w)"
  shows "only_slot c w (snd (RFSetReaderName c name lib p w))"
    and "vHandle (rdr (snd (RFSetReaderName c name lib p w)) c) = vHandle (rdr w c)"
proof -
  let ?n = "length (sReadersContexts w)"
  let ?s0 = "\<lparr>parent = - 1, currentDigit = - 1, supportedChannels = 0, usedDigits = replicate ?n False\<rparr>"
  obtain s v where sv: "scan_readers lib p [0..<?n] (?s0, w) = (s, v)" by fastforce
  have v: "sReadersContexts v = sReadersContexts w" "ClientsWaitingForEvent v = ClientsWaitingForEvent w"
    "maxReaderHandles v = maxReaderHandles w"
    using scan_readers_frame [of lib p "[0..<?n]" "(?s0, w)"] sv by simp_all
  then have r: "rdr v j = rdr w j" for j by (simp add: rdr_def)
  have o: "only_slot c w v" by (rule only_slot_frame [OF only_slot_refl v])
  show "only_slot c w (snd (RFSetReaderName c name lib p w))"
    and "vHandle (rdr (snd (RFSetReaderName c name lib p w)) c) = vHandle (rdr w c)"
    using assms o r v
    by (auto simp: RFSetReaderName_def sv split: option.splits intro!: only_slot_upd_rdr)
qed

lemma clone_reader_slot:
  assumes "c < length (sReadersContexts w)"
  shows "only_slot c w (clone_reader c p w)"
    and "unused (rdr w c) \<Longrightarrow> unused (rdr (clone_reader c p w) c)"
  using assms by (auto simp: clone_reader_def Let_def split_beta unused_def intro!: only_slot_intros)

lemma own_resources_slot:
  assumes "c < length (sReadersContexts w)"
  shows "only_slot c w (own_resources c w)"
    and "unused (rdr w c) \<Longrightarrow> unused (rdr (own_resources c w) c)"
    and "pMutex (rdr (own_resources c w) c) \<noteq> None \<and> pFeeds (rdr (own_resources c w) c) \<noteq> None"
  using assms by (auto simp: own_resources_def Let_def split_beta unused_def intro!: only_slot_intros)

lemma RFInitializeReader_slot:
  assumes "c < length (sReadersContexts w)"
  shows "only_slot c w (snd (RFInitializeReader c w))"
    and "unused (rdr w c) \<Longrightarrow> unused (rdr (snd (RFInitializeReader c w)) c)"
    and "pMutex (rdr (snd (RFInitializeReader c w)) c) = pMutex (rdr w c)"
    and "pFeeds (rdr (snd (RFInitializeReader c w)) c) = pFeeds (rdr w c)"
    and "fst (RFInitializeReader c w) = SCARD_S_SUCCESS \<Longrightarrow> active (rdr (snd (RFInitializeReader c w)) c)"
proof -
  let ?w1 = "snd (RFLoadReader c w)"
  let ?w2 = "snd (RFBindFunctions c ?w1)"
  have 1: "only_slot c w ?w1" "unused (rdr w c) \<Longrightarrow> unused (rdr ?w1 c)" "pMutex (rdr ?w1 c) = pMutex (rdr w c)"
    "pFeeds (rdr ?w1 c) = pFeeds (rdr w c)" "fst (RFLoadReader c w) = SCARD_S_SUCCESS \<Longrightarrow> active (rdr ?w1 c)"
    using assms by (auto simp: RFLoadReader_def unused_def active_def split: option.splits if_splits intro!: only_slot_intros)
  have i1: "c < length (sReadersContexts ?w1)" using 1(1) assms by (simp add: only_slot_length)
  have 2: "only_slot c ?w1 ?w2" "unused (rdr ?w1 c) \<Longrightarrow> unused (rdr ?w2 c)" "pMutex (rdr ?w2 c) = pMutex (rdr ?w1 c)"
    "pFeeds (rdr ?w2 c) = pFeeds (rdr ?w1 c)" "active (rdr ?w2 c) = active (rdr ?w1 c)"
    using i1 by (auto simp: RFBindFunctions_def unused_def active_def Let_def split: prod.splits intro!: only_slot_intros)
  have o2: "only_slot c w ?w2" by (rule only_slot_trans [OF 1(1) 2(1)])
  have i2: "c < length (sReadersContexts ?w2)" using o2 assms by (simp add: only_slot_length)
  have 3: "only_slot c w (snd (RFUnloadReader c ?w2))" "unused (rdr ?w2 c) \<Longrightarrow> unused (rdr (snd (RFUnloadReader c ?w2)) c)"
    "pMutex (rdr (snd (RFUnloadReader c ?w2)) c) = pMutex (rdr ?w2 c)"
    "pFeeds (rdr (snd (RFUnloadReader c ?w2)) c) = pFeeds (rdr ?w2 c)"
    using o2 i2 assms by (auto simp: RFUnloadReader_def Let_def unused_def intro!: only_slot_upd_rdr only_slot_ops)
  show "only_slot c w (snd (RFInitializeReader c w))"
    using 1(1) 3(1) o2 assms by (auto simp: RFInitializeReader_def split_beta intro!: only_slot_upd_rdr only_slot_ops)
  show "unused (rdr (snd (RFInitializeReader c w)) c)" if "unused (rdr w c)"
    using 1(2) 2(2) 3(2) that i2 by (auto simp: RFInitializeReader_def split_beta) (auto simp: unused_def)
  show "pMutex (rdr (snd (RFInitializeReader c w)) c) = pMutex (rdr w c)"
    and "pFeeds (rdr (snd (RFInitializeReader c w)) c) = pFeeds (rdr w c)"
    using 1(3,4) 2(3,4) 3(3,4) i2 by (auto simp: RFInitializeReader_def split_beta)
  show "active (rdr (snd (RFInitializeReader c w)) c)" if "fst (RFInitializeReader c w) = SCARD_S_SUCCESS"
    using that 1(5) 2(5) i2 by (auto simp: RFInitializeReader_def split_beta split: if_splits)
qed

lemma start_polling_slot:
  assumes "c < length (sReadersContexts w)"
  shows "only_slot c w (snd (start_polling c w))"
    and "unused (rdr (snd (start_polling c w)) c) = unused (rdr w c)"
    and "pMutex (rdr (snd (start_polling c w)) c) = pMutex (rdr w c)"
    and "pFeeds (rdr (snd (start_polling c w)) c) = pFeeds (rdr w c)"
    and "active (rdr (snd (start_polling c w)) c) = active (rdr w c)"
  using assms
  by (auto simp: start_polling_def EHSpawnEventHandler_def split_beta unused_def active_def intro!: only_slot_intros)

text \<open>A slot as it must be when its reader is started.\<close>

definition filled :: "nat \<Rightarrow> 'd pcscd \<Rightarrow> bool" where
  "filled c w = (c < length (sReadersContexts w) \<and> unused (rdr w c) \<and> pMutex (rdr w c) \<noteq> None \<and> pFeeds (rdr w c) \<noteq> None)"

lemma filled_registry_ok: "registry_ok w \<Longrightarrow> only_slot c w w' \<Longrightarrow> filled c w' \<Longrightarrow> registry_ok w'"
  by (rule registry_ok_slot) (auto simp: filled_def)

lemma start_reader_ok:
  assumes "registry_ok w" "filled c w" "start_reader name p c w = (rv, w')"
  shows "registry_ok w'" "length (sReadersContexts w') = length (sReadersContexts w)"
    and "rv = SCARD_S_SUCCESS \<Longrightarrow> only_slot c w w' \<and> filled c w' \<and> active (rdr w' c)"
proof -
  obtain rv1 w1 where 1: "RFInitializeReader c w = (rv1, w1)" by fastforce
  obtain rv2 w2 where 2: "start_polling c w1 = (rv2, w2)" by fastforce
  have c: "c < length (sReadersContexts w)" using assms(2) by (simp add: filled_def)
  have s1: "only_slot c w w1" "filled c w1" "rv1 = SCARD_S_SUCCESS \<Longrightarrow> active (rdr w1 c)"
    using RFInitializeReader_slot [OF c] 1 assms(2) c by (auto simp: filled_def only_slot_length)
  have s2: "only_slot c w1 w2" "filled c w2" "active (rdr w2 c) = active (rdr w1 c)"
    using start_polling_slot [of c w1] 2 s1 by (auto simp: filled_def only_slot_length)
  have ok1: "registry_ok w1" by (rule filled_registry_ok [OF assms(1) s1(1,2)])
  have ok2: "registry_ok w2" by (rule filled_registry_ok [OF ok1 s2(1,2)])
  note l = only_slot_length [OF s1(1)] only_slot_length [OF s2(1)]
  show "registry_ok w'" "length (sReadersContexts w') = length (sReadersContexts w)"
    using assms(3) 1 2 ok1 ok2 l RFRemoveReader_registry_ok [OF ok1, of "Some name" p 0]
      RFRemoveReader_registry_ok [OF ok2, of "Some name" p 0]
    by (auto simp: start_reader_def split: if_splits)
  show "only_slot c w w' \<and> filled c w' \<and> active (rdr w' c)" if "rv = SCARD_S_SUCCESS"
    using that assms(3) 1 2 s1 s2 only_slot_trans [OF s1(1) s2(1)]
    by (auto simp: start_reader_def split: if_splits)
qed

lemma init_slot_slot:
  assumes "b < length (sReadersContexts w)" "c \<noteq> b"
  shows "only_slot b w (init_slot c j b w)"
    and "unused (rdr (init_slot c j b w) b)"
    and "pMutex (rdr (init_slot c j b w) b) = pMutex (rdr w c)"
    and "pFeeds (rdr (init_slot c j b w) b) = pFeeds (rdr w c)"
  using assms by (auto simp: init_slot_def Let_def unused_def intro!: only_slot_intros)

lemma slot_resources_slot:
  assumes "b < length (sReadersContexts w)"
  shows "only_slot b w (slot_resources c b w)"
    and "unused (rdr (slot_resources c b w) b) = unused (rdr w b)"
    and "pMutex (rdr w b) \<noteq> None \<Longrightarrow> pMutex (rdr (slot_resources c b w) b) \<noteq> None"
    and "pFeeds (rdr (slot_resources c b w) b) = pFeeds (rdr w b)"
  using assms by (auto simp: slot_resources_def split_beta unused_def intro!: only_slot_intros)

lemma add_slots_ok:
  assumes "registry_ok w" "c < length (sReadersContexts w)" "active (rdr w c)"
  shows "registry_ok (snd (add_slots junk name p c js w))"
  using assms
proof (induction js arbitrary: w)
  case Nil
  then show ?case by simp
next
  case (Cons j js)
  obtain b w1 where f: "find_slot junk w = (b, w1)" by fastforce
  note fs = find_slot_ok [OF Cons.prems(1) f]
  have c1: "c < length (sReadersContexts w1)" "rdr w1 c = rdr w c"
    using fs(4) Cons.prems(2) by auto
  have cb: "c \<noteq> b" using fs(3) c1(2) Cons.prems(3) by auto
  let ?w2 = "init_slot c j b w1"
  let ?w3 = "slot_resources c b ?w2"
  note i = init_slot_slot [OF fs(2) cb, of j]
  have b2: "b < length (sReadersContexts ?w2)" using i(1) fs(2) by (simp add: only_slot_length)
  note s = slot_resources_slot [OF b2, of c]
  have o3: "only_slot b w1 ?w3" by (rule only_slot_trans [OF i(1) s(1)])
  have "pMutex (rdr w c) \<noteq> None" "pFeeds (rdr w c) \<noteq> None"
    using Cons.prems by (auto simp: registry_ok_def)
  then have f3: "filled b ?w3"
    using i s c1(2) b2 only_slot_length [OF s(1)] by (simp add: filled_def)
  have ok3: "registry_ok ?w3" by (rule filled_registry_ok [OF fs(1) o3 f3])
  obtain rv w4 where st: "start_reader name p b ?w3 = (rv, w4)" by fastforce
  note r = start_reader_ok [OF ok3 f3 st]
  show ?case
  proof (cases "rv = SCARD_S_SUCCESS")
    case True
    have "rdr w4 c = rdr w c" "c < length (sReadersContexts w4)"
      using r(2) r(3) [OF True] o3 c1 cb by (auto simp: only_slot_def)
    with Cons.IH [OF r(1)] Cons.prems(3) True show ?thesis
      by (simp add: f st)
  next
    case False
    with r(1) show ?thesis by (simp add: f st)
  qed
qed

lemma add_to_slot_ok:
  assumes "registry_ok w" "c < length (sReadersContexts w)" "\<not> active (rdr w c)"
  shows "registry_ok (snd (add_to_slot junk name p lib dev c w))"
proof -
  obtain q w1 where n: "RFSetReaderName c name lib p w = (q, w1)" by fastforce
  have s1: "only_slot c w w1" "\<not> active (rdr w1 c)"
    using RFSetReaderName_frame [OF assms(2), of name lib p] n assms(3) by (auto simp: active_def)
  have ok1: "registry_ok w1"
    using s1 by (intro registry_ok_slot [OF assms(1) s1(1)]) simp
  have c1: "c < length (sReadersContexts w1)" using s1(1) assms(2) by (simp add: only_slot_length)
  let ?w2 = "upd_rdr c (init_reader lib dev p) w1"
  let ?w3 = "if 0 \<le> q \<and> q < int (length (sReadersContexts ?w2)) then clone_reader c (nat q) ?w2 else ?w2"
  let ?w4 = "own_resources c ?w3"
  have 2: "only_slot c w1 ?w2" "unused (rdr ?w2 c)" "c < length (sReadersContexts ?w2)"
    using c1 by (auto simp: init_reader_def unused_def intro!: only_slot_intros)
  have 3: "only_slot c w1 ?w3" "unused (rdr ?w3 c)" "c < length (sReadersContexts ?w3)"
    using 2 clone_reader_slot [OF 2(3), of "nat q"] by (auto intro: only_slot_trans simp: only_slot_length)
  have 4: "only_slot c w1 ?w4" "filled c ?w4"
    using own_resources_slot [OF 3(3)] 3 only_slot_trans [OF 3(1)]
    by (auto simp: filled_def only_slot_length)
  have ok4: "registry_ok ?w4" by (rule filled_registry_ok [OF ok1 4])
  obtain rv w5 where st: "start_reader name p c ?w4 = (rv, w5)" by fastforce
  note r = start_reader_ok [OF ok4 4(2) st]
  have ok6: "registry_ok (snd (call_ifd (IFDGetCapabilities (rdr w5 c) t k) (bump_reader_events w5)))" for t k
    by (rule registry_ok_frame [where w = w5]) (simp_all add: r(1))
  have eq: "add_to_slot junk name p lib dev c w =
      (if q < - 1 then (SCARD_E_NO_MEMORY, w1)
       else if rv \<noteq> SCARD_S_SUCCESS then (rv, w5)
       else case call_ifd (IFDGetCapabilities (rdr (bump_reader_events w5) c) TAG_IFD_SLOTS_NUMBER 1)
            (bump_reader_events w5) of (answer, v) \<Rightarrow> add_slots junk name p c [1..<slots_number answer] v)"
    by (simp only: add_to_slot_def n Let_def prod.case st)
  show ?thesis
  proof (cases "q < - 1 \<or> rv \<noteq> SCARD_S_SUCCESS")
    case True
    then show ?thesis
      using ok1 r(1) by (auto simp: eq)
  next
    case False
    have "c < length (sReadersContexts w5)" "active (rdr w5 c)"
      using False r(3) by (auto simp: filled_def)
    with False ok6 show ?thesis
      by (simp add: eq split_beta add_slots_ok)
  qed
qed

lemma duplicate_reader_frame:
  "sReadersContexts (snd (duplicate_reader name p dev is w)) = sReadersContexts w \<and>
   ClientsWaitingForEvent (snd (duplicate_reader name p dev is w)) = ClientsWaitingForEvent w \<and>
   maxReaderHandles (snd (duplicate_reader name p dev is w)) = maxReaderHandles w"
  by (induction "is" arbitrary: w) (simp_all add: Let_def)

lemma RFAddReader_registry_ok:
  assumes "registry_ok w"
  shows "registry_ok (snd (RFAddReader junk name p lib dev w))"
proof -
  have d: "registry_ok (snd (duplicate_reader n p d is w))" for n d "is"
    using registry_ok_frame [OF assms] duplicate_reader_frame [of n p d "is" w] by blast
  have f: "registry_ok (snd (case find_slot junk v of (c, v) \<Rightarrow> add_to_slot junk n p l d c v))"
    if "registry_ok v" for n l d v
    by (cases "find_slot junk v") (simp add: add_to_slot_ok find_slot_ok [OF that])
  show ?thesis
    using assms d f by (auto simp: RFAddReader_def Let_def split_beta split: option.splits)
qed

end
