(* ===== verification/Registry_Props.thy ===== *)
theory Registry_Props
  imports Registry_Inv Winscard_Life
begin

text \<open>
  The daemon as a whole: API calls, rounds of the event threads and the coming and going of
  readers in any order, and what the table of readers promises.
\<close>

section \<open>All steps of the daemon\<close>

lemma start_serial_ok: "registry_ok w \<Longrightarrow> registry_ok (snd (start_serial junk readers crc w))"
  by (induction readers arbitrary: crc w) (simp_all add: RFAddReader_registry_ok)

lemma RFStartSerialReaders_ok: "registry_ok w \<Longrightarrow> registry_ok (snd (snd (RFStartSerialReaders junk answer crc w)))"
  by (auto simp: RFStartSerialReaders_def start_serial_ok split: prod.splits option.splits)

lemma registry_ok_call_ifd [simp]: "registry_ok (snd (call_ifd f w)) = registry_ok w"
  by (simp add: registry_ok_def pcscd_ok_def)

lemma recheck_present_ok: "registry_ok w \<Longrightarrow> registry_ok (snd (recheck_present s is b w))"
  by (induction "is" arbitrary: b w) (simp_all add: Let_def split_beta RFRemoveReader_registry_ok)

lemma recheck_serial_ok: "registry_ok w \<Longrightarrow> registry_ok (recheck_serial junk readers w)"
  by (induction readers arbitrary: w) (simp_all add: split_beta RFAddReader_registry_ok recheck_present_ok)

lemma RFReCheckReaderConf_ok: "registry_ok w \<Longrightarrow> registry_ok (RFReCheckReaderConf junk l crc w)"
  by (simp add: RFReCheckReaderConf_def recheck_serial_ok split: option.splits)

inductive daemon_step :: "'d pcscd \<Rightarrow> 'd pcscd \<Rightarrow> bool" where
  daemon_call: "pcscd_step w w' \<Longrightarrow> daemon_step w w'"
| daemon_add: "RFAddReader junk name p lib dev w = (rv, w') \<Longrightarrow> daemon_step w w'"
| daemon_remove: "RFRemoveReader name p flags w = (rv, w') \<Longrightarrow> daemon_step w w'"
| daemon_serial: "RFStartSerialReaders junk answer crc w = (rv, crc', w') \<Longrightarrow> daemon_step w w'"
| daemon_recheck: "RFReCheckReaderConf junk l crc w = w' \<Longrightarrow> daemon_step w w'"
| daemon_cleanup: "RFCleanupReaders w = w' \<Longrightarrow> daemon_step w w'"

inductive daemon_reachable :: "'d pcscd \<Rightarrow> 'd pcscd \<Rightarrow> bool" for w0 where
  daemon_start: "daemon_reachable w0 w0"
| daemon_next: "daemon_reachable w0 w \<Longrightarrow> daemon_step w w' \<Longrightarrow> daemon_reachable w0 w'"

lemma registry_ok_iff: "registry_ok w \<longleftrightarrow> pcscd_ok w \<and> refs_room w \<and>
    (\<forall>i < length (sReadersContexts w). active (rdr w i) \<longrightarrow> pMutex (rdr w i) \<noteq> None \<and> pFeeds (rdr w i) \<noteq> None)"
  by (auto simp: registry_ok_def refs_room_def)

lemma call_ok_registry_ok:
  assumes "call_ok w w'" "registry_ok w"
  shows "registry_ok w'"
proof -
  have "pMutex (rdr w' i) = pMutex (rdr w i) \<and> pFeeds (rdr w' i) = pFeeds (rdr w i) \<and> active (rdr w' i) = active (rdr w i)" for i
    using assms(1) unfolding call_ok_def reader_step_def active_def by metis
  moreover have "length (sReadersContexts w') = length (sReadersContexts w)"
    using assms(1) by (auto simp: call_ok_def reader_step_def)
  ultimately show ?thesis
    using assms call_ok_pcscd_ok [OF assms(1)] call_ok_refs_room [OF assms(1)] by (simp add: registry_ok_iff)
qed

lemma daemon_step_ok:
  assumes "daemon_step w w'" "registry_ok w"
  shows "registry_ok w'"
  using assms
proof cases
  case daemon_call
  with pcscd_step_call_ok [OF daemon_call] assms(2) show ?thesis
    by (intro call_ok_registry_ok [OF _ assms(2)]) (simp add: registry_ok_iff)
next
  case (daemon_add junk name p lib dev rv)
  with RFAddReader_registry_ok [OF assms(2), of junk name p lib dev] show ?thesis by simp
next
  case (daemon_remove name p flags rv)
  with RFRemoveReader_registry_ok(1) [OF assms(2), of name p flags] show ?thesis by simp
next
  case (daemon_serial junk answer crc rv crc')
  with RFStartSerialReaders_ok [OF assms(2), of junk answer crc] show ?thesis by simp
next
  case (daemon_recheck junk l crc)
  with RFReCheckReaderConf_ok [OF assms(2)] show ?thesis by blast
next
  case daemon_cleanup
  with cleanup_readers_ok [OF assms(2), of "[0..<length (sReadersContexts w)]"] show ?thesis
    by (simp add: RFCleanupReaders_def)
qed

lemma daemon_reachable_ok: "daemon_reachable w0 w \<Longrightarrow> registry_ok w0 \<Longrightarrow> registry_ok w"
  by (induction rule: daemon_reachable.induct) (auto intro: daemon_step_ok)

lemma RFAllocateReaderSpace_ok:
  assumes "RFAllocateReaderSpace junk n w0 = (SCARD_S_SUCCESS, w)" "int n < 2 ^ 31 - 1" "maxReaderHandles w0 \<le> 2 ^ 31 - 2"
  shows "registry_ok w"
proof -
  let ?w1 = "(if n \<noteq> 0 then w0\<lparr>maxReaderHandles := int32 (int n)\<rparr> else w0)
    \<lparr>sReadersContexts := replicate 2 (new_slot junk)\<rparr>"
  have e: "EHInitializeEventStructures ?w1 = (SCARD_S_SUCCESS, w)"
    using assms(1) by (auto simp: RFAllocateReaderSpace_def Let_def split: if_splits)
  then have w: "sReadersContexts w = replicate 2 (new_slot junk)" "list_ok (ClientsWaitingForEvent w)"
    "maxReaderHandles w = maxReaderHandles ?w1"
    using EHInitializeEventStructures_ok [of ?w1]
    by (auto simp: EHInitializeEventStructures_def Let_def split: if_splits)
  have "maxReaderHandles ?w1 \<le> 2 ^ 31 - 2"
    using assms(2,3) by (auto simp: int32_id)
  moreover have "\<not> active (rdr w i)" if "i < length (sReadersContexts w)" for i
    using that w(1) by (simp add: rdr_def)
  ultimately show ?thesis
    using w(2,3) by (auto simp: registry_ok_def pcscd_ok_def)
qed

section \<open>Claims\<close>


definition ex_junk :: "unit READER_CONTEXT" where
  "ex_junk = ex_reader True [] 0 0 0"

definition ex_empty :: "unit pcscd" where
  "ex_empty = snd (RFAllocateReaderSpace ex_junk 0 (ex_pcscd ex_junk []))"

lemma ex_empty_allocated: "RFAllocateReaderSpace ex_junk 0 (ex_pcscd ex_junk []) = (SCARD_S_SUCCESS, ex_empty)"
proof -
  have "fst (RFAllocateReaderSpace ex_junk 0 (ex_pcscd ex_junk [])) = SCARD_S_SUCCESS" by code_simp
  then show ?thesis unfolding ex_empty_def by (metis prod.collapse)
qed

definition ex_plugged :: "unit pcscd" where
  "ex_plugged = snd (RFAddReader ex_junk (Some ''Foo'') 0x200000 (Some ''lib'') (Some ''usb:1'') ex_empty)"


section \<open>Names\<close>

lemma hex_value_None [simp]:
  "hex_value (CHR '' '') = None" "hex_value (CHR 0x09) = None" "hex_value (CHR 0x0A) = None"
  "hex_value (CHR 0x0B) = None" "hex_value (CHR 0x0C) = None" "hex_value (CHR 0x0D) = None"
  "hex_value (CHR ''-'') = None" "hex_value (CHR ''+'') = None" "hex_value (CHR ''x'') = None"
  "hex_value (CHR ''X'') = None"
  by (simp_all add: hex_value_def)

lemma hex_char_value: "d < 16 \<Longrightarrow> hex_value (hex_char d) = Some d"
  by (auto simp: hex_value_def hex_char_def Let_def)

lemma hex_char_neq: "d < 16 \<Longrightarrow> hex_value c = None \<Longrightarrow> hex_char d \<noteq> c"
  using hex_char_value [of d] by auto

lemma hex2_two:
  assumes "n < 256"
  shows "hex2 n = [hex_char (n div 16), hex_char (n mod 16)]"
proof (cases "n < 16")
  case True
  have "char_of (48 :: nat) = CHR ''0''" by (rule char_of_eq_iff [THEN iffD2]) simp
  with True show ?thesis by (simp add: hex2_def hex_char_def)
next
  case False
  have "hex_digits n = hex_digits (n div 16) @ [hex_char (n mod 16)]"
    using False by (subst hex_digits.simps) simp
  moreover have "hex_digits (n div 16) = [hex_char (n div 16)]"
  proof -
    have "n div 16 < 16" using assms by simp
    then show ?thesis by (subst hex_digits.simps) simp
  qed
  ultimately show ?thesis using False by (simp add: hex2_def)
qed

lemma strtol16_two:
  assumes "a < 16" "b < 16"
  shows "strtol16 ([hex_char a, hex_char b] @ '' 00'') = int (16 * a + b)"
proof -
  have "skip_0x [hex_char a, hex_char b, CHR '' '', CHR ''0'', CHR ''0''] =
      [hex_char a, hex_char b, CHR '' '', CHR ''0'', CHR ''0'']"
    using hex_char_neq [OF assms(2)] by (simp add: skip_0x_def)
  then show ?thesis
    using hex_char_neq [OF assms(1)] assms by (simp add: strtol16_def hex_char_value)
qed

lemma hex2_roundtrip:
  assumes "n < 256"
  shows "strtol16 (hex2 n @ '' 00'') = int n" "length (hex2 n) = 2"
  using strtol16_two [of "n div 16" "n mod 16"] assms by (simp_all add: hex2_two)

text \<open>The number in a well-formed reader name.\<close>

definition numbered :: "'d READER_CONTEXT \<Rightarrow> nat \<Rightarrow> bool" where
  "numbered r d = (d < 256 \<and> (\<exists>base. readerName (readerState r) = base @ '' '' @ hex2 d @ '' 00''))"

lemma drop_last5:
  assumes "length h = (2 :: nat)"
  shows "drop (length (b @ c # h @ '' 00'') - 5) (b @ c # h @ '' 00'') = h @ '' 00''"
  using assms by simp

lemma numbered_digit:
  assumes "numbered r d"
  shows "strtol16 (drop (length (readerName (readerState r)) - 5) (readerName (readerState r))) = int d"
    and "5 \<le> length (readerName (readerState r))"
proof -
  obtain b where b: "readerName (readerState r) = b @ CHR '' '' # hex2 d @ '' 00''" and d: "d < 256"
    using assms by (auto simp: numbered_def)
  note h = hex2_roundtrip [OF d]
  show "strtol16 (drop (length (readerName (readerState r)) - 5) (readerName (readerState r))) = int d"
    unfolding b drop_last5 [OF h(2)] by (rule h(1))
  show "5 \<le> length (readerName (readerState r))"
    by (simp add: b h(2))
qed

lemma rdr_cong: "sReadersContexts v = sReadersContexts w \<Longrightarrow> rdr v = rdr w"
  by (simp add: rdr_def fun_eq_iff)

text \<open>A reader on another hotplug port is counted; used numbers stay used.\<close>

lemma list_update_True: "us ! d \<Longrightarrow> d < length us \<Longrightarrow> us[k := True] ! d"
  by (cases "k = d") simp_all

lemma scan_reader_used:
  assumes "usedDigits (fst sw) ! d" "d < length (usedDigits (fst sw))"
  shows "usedDigits (fst (scan_reader lib p i sw)) ! d"
  using assms by (simp add: scan_reader_def split_beta Let_def list_update_True)

lemma scan_readers_used:
  assumes "usedDigits (fst sw) ! d" "d < length (usedDigits (fst sw))"
  shows "usedDigits (fst (scan_readers lib p is sw)) ! d"
  using assms by (induction "is" arbitrary: sw) (simp_all add: scan_reader_used scan_reader_frame)

lemma scan_reader_counts:
  fixes w :: "'d pcscd"
  assumes "active (rdr w j)" "library (rdr w j) = lib" "port (rdr w j) AND 0xFFFF0000 = PCSCLITE_HP_BASE_PORT"
    and "port (rdr w j) \<noteq> p" "numbered (rdr w j) d" "d < length (usedDigits s)"
  shows "usedDigits (fst (scan_reader lib p j (s, w))) ! d" "currentDigit (fst (scan_reader lib p j (s, w))) = int d"
  using assms numbered_digit [OF assms(5)] by (auto simp: scan_reader_def active_def split_beta Let_def)

lemma scan_reader_digit:
  fixes w :: "'d pcscd"
  assumes "active (rdr w i) \<Longrightarrow> numbered (rdr w i) e" "currentDigit s \<noteq> - 1"
  shows "currentDigit (fst (scan_reader lib p i (s, w))) \<noteq> - 1"
  using assms numbered_digit(1) [of "rdr w i" e] by (auto simp: scan_reader_def active_def split_beta Let_def)

lemma scan_readers_digit:
  assumes "\<And>i. i \<in> set is \<Longrightarrow> active (rdr (snd sw) i) \<Longrightarrow> \<exists>e. numbered (rdr (snd sw) i) e" "currentDigit (fst sw) \<noteq> - 1"
  shows "currentDigit (fst (scan_readers lib p is sw)) \<noteq> - 1"
  using assms
proof (induction "is" arbitrary: sw)
  case Nil
  then show ?case by simp
next
  case (Cons i "is")
  let ?v = "scan_reader lib p i sw"
  have r: "rdr (snd ?v) = rdr (snd sw)" by (rule rdr_cong) (simp add: scan_reader_frame)
  obtain e where "active (rdr (snd sw) i) \<Longrightarrow> numbered (rdr (snd sw) i) e"
    using Cons.prems(1) [of i] by auto
  then have "currentDigit (fst ?v) \<noteq> - 1"
    using scan_reader_digit [of "snd sw" i e "fst sw"] Cons.prems(2) by simp
  with Cons.IH [of ?v] Cons.prems(1) r show ?case by simp
qed

lemma scan_readers_counts:
  assumes "j \<in> set is" "active (rdr (snd sw) j)" "library (rdr (snd sw) j) = lib"
    and "port (rdr (snd sw) j) AND 0xFFFF0000 = PCSCLITE_HP_BASE_PORT" "port (rdr (snd sw) j) \<noteq> p"
    and "numbered (rdr (snd sw) j) d" "d < length (usedDigits (fst sw))"
    and "\<And>i. i \<in> set is \<Longrightarrow> active (rdr (snd sw) i) \<Longrightarrow> \<exists>e. numbered (rdr (snd sw) i) e"
  shows "usedDigits (fst (scan_readers lib p is sw)) ! d \<and> currentDigit (fst (scan_readers lib p is sw)) \<noteq> - 1"
  using assms
proof (induction "is" arbitrary: sw)
  case Nil
  then show ?case by simp
next
  case (Cons i "is")
  let ?v = "scan_reader lib p i sw"
  have r: "rdr (snd ?v) = rdr (snd sw)" by (rule rdr_cong) (simp add: scan_reader_frame)
  have l: "length (usedDigits (fst ?v)) = length (usedDigits (fst sw))" by (simp add: scan_reader_frame)
  show ?case
  proof (cases "i = j")
    case True
    have "usedDigits (fst ?v) ! d" "currentDigit (fst ?v) = int d"
      using scan_reader_counts [of "snd sw" j lib p d "fst sw"] Cons.prems True by simp_all
    with scan_readers_used [of ?v d lib p "is"] scan_readers_digit [of "is" ?v lib p] Cons.prems(7,8) r l show ?thesis
      by simp
  next
    case False
    with Cons.IH [of ?v] Cons.prems r l show ?thesis by simp
  qed
qed

lemma position_not_used:
  "position (\<lambda>used. \<not> used) us = Some i \<Longrightarrow> i < length us \<and> \<not> us ! i"
  using position_SomeD by blast

lemma getenv_frame [simp]:
  "getenv (snd (call_ifd f w)) = getenv w" "getenv (fault_if b w) = getenv w"
  by (simp_all add: fault_if_def set_fault_def call_ifd_def split_beta)

lemma getenv_scan_reader: "getenv (snd (scan_reader lib p i sw)) = getenv (snd sw)"
  by (simp add: scan_reader_def split_beta Let_def)

lemma getenv_scan: "getenv (snd (scan_readers lib p is sw)) = getenv (snd sw)"
  by (induction "is" arbitrary: sw) (simp_all add: getenv_scan_reader)

lemma full_name_digit:
  assumes "length (name @ ext) \<le> NAME_ROOM" "i < 256"
  shows "numbered (upd_state (\<lambda>s. s\<lparr>readerName := full_name name ext i\<rparr>) r) i"
  using assms hex2_roundtrip(2) [OF assms(2)]
  by (auto simp: numbered_def full_name_def intro: exI [where x = "name @ ext"])


definition ex_many :: "unit FCT_MAP" where
  "ex_many = (ex_functions True)\<lparr>pvfGetCapabilities := Some (\<lambda>lun tag len d.
     if tag = TAG_IFD_SIMULTANEOUS_ACCESS then ((IFD_SUCCESS, 1, [8]), d) else ((IFD_ERROR_TAG, len, []), d))\<rparr>"

definition ex_shared :: "unit pcscd" where
  "ex_shared = (ex_pcscd ex_junk [])\<lparr>sReadersContexts := [ex_junk\<lparr>psFunctions := ex_many\<rparr>, new_slot ex_junk]\<rparr>"

lemma ex_shared_readers:
  "sReadersContexts ex_shared = [ex_junk\<lparr>psFunctions := ex_many\<rparr>, new_slot ex_junk]"
  "rdr ex_shared 0 = ex_junk\<lparr>psFunctions := ex_many\<rparr>" "rdr ex_shared (Suc 0) = new_slot ex_junk"
  "extend_name ex_shared = []"
  by (simp_all add: ex_shared_def rdr_def extend_name_def ex_pcscd_def)

lemma ex_junk_numbered: "numbered (ex_junk\<lparr>psFunctions := f\<rparr>) 0"
proof -
  have "hex2 0 = ''00''"
    using hex2_two [of 0] by (simp add: hex_char_def char_of_eq_iff)
  then show ?thesis
    by (auto simp: numbered_def ex_junk_def ex_state_def intro!: exI [where x = "''R''"])
qed


section \<open>Duplicates and removal by name\<close>

lemma duplicate_reader_found:
  assumes "\<forall>k \<in> set is. active (rdr w k) \<longrightarrow> 6 \<le> length (readerName (readerState (rdr w k)))"
    and "j \<in> set is" "active (rdr w j)" "name = strip_name 6 (readerName (readerState (rdr w j)))"
    and "port (rdr w j) = p" "device (rdr w j) = dev"
  shows "duplicate_reader name p dev is w = (True, w)"
  using assms by (induction "is") (auto simp: Let_def active_def)

text \<open>
  A reader that is plugged a second time (same name up to the numbers, same port, same
  device) is refused, and the daemon is not changed.
\<close>

theorem duplicate_refused:
  assumes "j < length (sReadersContexts w)" "active (rdr w j)"
    and "\<forall>k < length (sReadersContexts w). active (rdr w k) \<longrightarrow> 6 \<le> length (readerName (readerState (rdr w k)))"
    and "\<not> ignored_name name w" "take NAME_ROOM name = strip_name 6 (readerName (readerState (rdr w j)))"
  shows "RFAddReader junk (Some name) (port (rdr w j)) (Some lib) (Some (device (rdr w j))) w = (SCARD_E_DUPLICATE_READER, w)"
proof -
  have "duplicate_reader (take NAME_ROOM name) (port (rdr w j)) (device (rdr w j)) [0..<length (sReadersContexts w)] w = (True, w)"
    by (rule duplicate_reader_found [where j = j]) (use assms in auto)
  with assms(4) show ?thesis by (simp add: RFAddReader_def)
qed

theorem duplicate_refused_witness:
  "RFAddReader ex_junk (Some ''R'') 0x200000 (Some ''lib'') (Some ''dev'') ex_shared = (SCARD_E_DUPLICATE_READER, ex_shared)"
proof -
  have "active (rdr ex_shared 0)" "strip_name 6 (readerName (readerState (rdr ex_shared 0))) = ''R''"
    "port (rdr ex_shared 0) = 0x200000" "device (rdr ex_shared 0) = ''dev''" "\<not> ignored_name ''R'' ex_shared"
    by code_simp+
  moreover have "\<forall>k < length (sReadersContexts ex_shared). active (rdr ex_shared k) \<longrightarrow>
      6 \<le> length (readerName (readerState (rdr ex_shared k)))"
    by (simp add: ex_shared_readers less_Suc_eq all_conj_distrib ex_junk_def ex_state_def)
  ultimately show ?thesis
    using duplicate_refused [of 0 ex_shared "''R''" ex_junk "''lib''"] by (simp add: ex_shared_readers(1))
qed

lemma getenv_ops [simp]:
  "getenv (upd_rdr i f w) = getenv w" "getenv (upd_rstate i g w) = getenv w" "getenv (set_fault w) = getenv w"
  "getenv (snd (call_at i a t w)) = getenv w" "getenv (add_cell p d w) = getenv w"
  "getenv (EHSignalEventToClients w) = getenv w"
  by (auto simp: upd_rdr_def upd_rstate_def set_fault_def call_at_def add_cell_def EHSignalEventToClients_def
      call_ifd_def Let_def split_beta split: option.splits)

lemma getenv_thread [simp]: "getenv (EHDestroyEventHandler i w) = getenv w"
  by (auto simp: EHDestroyEventHandler_def eh_destroy_request_def eh_exit_def eh_power_def Let_def split_beta)

lemma getenv_close [simp]: "getenv (RFUnInitializeReader i w) = getenv w"
  by (auto simp: RFUnInitializeReader_def RFUnBindFunctions_def RFUnloadReader_def Let_def)

lemma getenv_removeReader [simp]: "getenv (snd (removeReader i w)) = getenv w"
  by (auto simp: removeReader_def release_mutex_def release_feeds_def remove_handles_def Let_def split: option.splits)

lemma getenv_remove [simp]: "getenv (remove_if_named name p flags i w) = getenv w"
  by (auto simp: remove_if_named_def UnrefReader_def tell_removed_def Let_def split_beta)

text \<open>The reader a removal by name and port is about.\<close>

definition matches :: "string \<Rightarrow> int \<Rightarrow> nat \<Rightarrow> 'd pcscd \<Rightarrow> bool" where
  "matches name p i w = (active (rdr w i) \<and> port (rdr w i) = p \<and>
     take NAME_ROOM name = take NAME_ROOM (strip_name (6 + length (extend_name w)) (readerName (readerState (rdr w i)))))"

lemma matches_cong: "rdr v i = rdr w i \<Longrightarrow> getenv v = getenv w \<Longrightarrow> matches name p i v = matches name p i w"
  by (simp add: matches_def extend_name_def)

lemma remove_if_named_match:
  assumes "registry_ok w" "i < length (sReadersContexts w)"
  shows "\<not> matches name p i w \<Longrightarrow> rdr (remove_if_named name p flags i w) i = rdr w i"
    and "matches name p i w \<Longrightarrow> reference (rdr w i) = 1 \<Longrightarrow> \<not> active (rdr (remove_if_named name p flags i w) i)"
proof -
  show "\<not> matches name p i w \<Longrightarrow> rdr (remove_if_named name p flags i w) i = rdr w i"
    by (auto simp: remove_if_named_def matches_def active_def Let_def)
  assume m: "matches name p i w" "reference (rdr w i) = 1"
  let ?v = "tell_removed i flags (fault_if (length (readerName (readerState (rdr w i))) < 6 + length (extend_name w)) w)"
  let ?u = "upd_rdr i (\<lambda>r. r\<lparr>reference := 0\<rparr>) ?v"
  have a: "active (rdr w i)" using m(1) by (simp add: matches_def)
  have ok: "handles_ok (handlesList (rdr w i))" "list_ok (ClientsWaitingForEvent w)" "pMutex (rdr w i) \<noteq> None" "pFeeds (rdr w i) \<noteq> None"
    using assms a reader_ok_handles [OF pcscd_ok_reader [OF _ assms(2) a]] by (auto simp: registry_ok_def pcscd_ok_def)
  have "remove_if_named name p flags i w = snd (removeReader i ?u)"
    using m assms(2) by (auto simp: remove_if_named_def matches_def active_def Let_def UnrefReader_def upd_rdr_def)
  with removeReader_result(2) [of i ?u] ok assms(2) show "\<not> active (rdr (remove_if_named name p flags i w) i)"
    by simp
qed

lemma remove_readers_match:
  assumes "registry_ok w" "distinct is" "\<forall>i \<in> set is. i < length (sReadersContexts w)" "i \<in> set is"
  shows "(\<not> matches name p i w \<longrightarrow> rdr (remove_readers name p flags is w) i = rdr w i) \<and>
    (matches name p i w \<and> reference (rdr w i) = 1 \<longrightarrow> \<not> active (rdr (remove_readers name p flags is w) i))"
  using assms
proof (induction "is" arbitrary: w)
  case Nil
  then show ?case by simp
next
  case (Cons k "is")
  let ?v = "remove_if_named name p flags k w"
  have k: "k < length (sReadersContexts w)" using Cons.prems(3) by simp
  have v: "registry_ok ?v" "length (sReadersContexts ?v) = length (sReadersContexts w)"
    "j \<noteq> k \<Longrightarrow> rdr ?v j = rdr w j" for j
    using remove_if_named_ok [OF Cons.prems(1) k] by auto
  show ?case
  proof (cases "k = i")
    case True
    have "rdr (remove_readers name p flags is ?v) i = rdr ?v i"
      using remove_readers_ok [OF v(1), of "is" name p flags] v(2) Cons.prems(2,3) True by auto
    with remove_if_named_match [OF Cons.prems(1) k, of name p flags] True show ?thesis by simp
  next
    case False
    then have r: "rdr ?v i = rdr w i" using v(3) by simp
    have "matches name p i ?v = matches name p i w" by (rule matches_cong [OF r]) simp
    with Cons.IH [OF v(1)] Cons.prems v(2) r False show ?thesis by simp
  qed
qed



end
