(* ===== verification/Registry_Findings.thy ===== *)
theory Registry_Findings
  imports Registry_Props
begin

text \<open>
  Runs of the registry on concrete daemons that show where the code does not do what it
  means to: a reader that fails to start takes a working reader of the same name and port with
  it, and the extension of reader names is not taken into account everywhere.
\<close>

definition ex_broken :: "unit pcscd" where
  "ex_broken = (ex_pcscd (ex_reader True [5, 7] 2 0 0) [])
     \<lparr>dynlib := (\<lambda>name. Some \<lparr>symbols = (ex_functions True)\<lparr>pvfCreateChannelByName :=
        Some (\<lambda>lun name d. (IFD_COMMUNICATION_ERROR, d))\<rparr>, callable = (\<lambda>addr lun timeout d. (IFD_SUCCESS, d))\<rparr>)\<rparr>"

text \<open>
  Another reader with the same name and port and another device and driver does not start: the
  reader with two clients is removed too.
\<close>

lemma failed_reader_removes_namesake:
  "handles (rdr ex_broken 0) = [5, 7] \<and>
   fst (RFAddReader ex_junk (Some ''R'') 0x200000 (Some ''other'') (Some ''ttyS1'') ex_broken) = SCARD_E_INVALID_TARGET \<and>
   \<not> active (rdr (snd (RFAddReader ex_junk (Some ''R'') 0x200000 (Some ''other'') (Some ''ttyS1'') ex_broken)) 0)"
  by code_simp

definition ex_extended :: "unit pcscd" where
  "ex_extended = snd (RFAddReader ex_junk (Some ''Foo'') 0x200000 (Some ''lib'') (Some ''usb:1'')
     (ex_empty\<lparr>getenv := (\<lambda>name. if name = ''PCSCLITE_FILTER_EXTEND_READER_NAMES'' then Some ''X'' else None)\<rparr>))"

text \<open>With an extension the clean-up at the end finds no reader to remove.\<close>

lemma extended_name_not_cleaned:
  "readerName (readerState (rdr ex_extended 0)) = ''FooX 00 00'' \<and> active (rdr (RFCleanupReaders ex_extended) 0)"
  by code_simp

text \<open>And a reader plugged twice is not recognised as a duplicate.\<close>

lemma extended_name_not_duplicate:
  "\<not> fst (duplicate_reader ''Foo'' 0x200000 ''usb:1'' [0, 1] ex_extended) \<and>
   fst (duplicate_reader ''Foo'' 0x200000 ''usb:1'' [0, 1] ex_plugged)"
  by code_simp

text \<open>The checksum of the configuration stops at the first character smaller than its index.\<close>

lemma weak_crc_stops:
  "weak_crc 0 (''/dev/serial/by-id/usb-Foo_Bar_Reader'' @ replicate 20 (CHR ''a'')) =
   weak_crc 0 (''/dev/serial/by-id/usb-Foo_Bar_Reader'' @ replicate 20 (CHR ''a'') @ [CHR ''!'', CHR ''b''])"
  by code_simp

text \<open>A long extension truncates the numbers in the name.\<close>

lemma long_extension_truncated: "full_name (replicate 121 (CHR ''n'')) ''12345'' 0 = replicate 121 (CHR ''n'') @ ''12345 ''"
  by (simp add: full_name_def)

end
