(* ===== verification/Winscard_Msg.thy ===== *)
theory Winscard_Msg
  imports Pcsc_Prelude "HOL-Library.Signed_Division"
begin

text \<open>
  The messages between the client library and the daemon: the structures of
  \<^verbatim>\<open>src/src/winscard_msg.h\<close> and the transport of \<^verbatim>\<open>src/src/winscard_msg.c\<close>.

  A structure is sent as its memory image. All members are 32 bits wide or arrays of bytes
  whose size is a multiple of four, so there is no padding; both ends run on the same machine,
  and the byte order of the image is that of a little-endian one. A member of type
  \<^verbatim>\<open>int32_t\<close> is a 32-bit word that the code reads with \<open>sint\<close>. Members are named with the prefix
  of the variable that holds the structure in \<^verbatim>\<open>winscard_svc.c\<close> (\<^verbatim>\<open>trStr\<close>, \<^verbatim>\<open>ctStr\<close>, ...).

  A socket is the bytes that are still to be read, the bytes written so far, and what the
  next calls of \<^verbatim>\<open>poll\<close>, \<^verbatim>\<open>read\<close> and \<^verbatim>\<open>send\<close> do: the operating system is free to interrupt
  a call or to transfer a part of a message. A transfer whose list of events ends before it is
  complete is still waiting, which is the value \<open>None\<close>.
\<close>

abbreviation (input) SCARD_E_TIMEOUT :: LONG where "SCARD_E_TIMEOUT \<equiv> 0x8010000A"
abbreviation (input) SCARD_F_COMM_ERROR :: LONG where "SCARD_F_COMM_ERROR \<equiv> 0x80100013"
abbreviation (input) SCARD_E_NO_SERVICE :: LONG where "SCARD_E_NO_SERVICE \<equiv> 0x8010001D"

abbreviation (input) PROTOCOL_VERSION_MAJOR :: int where "PROTOCOL_VERSION_MAJOR \<equiv> 4"
abbreviation (input) PROTOCOL_VERSION_MINOR :: int where "PROTOCOL_VERSION_MINOR \<equiv> 6"
abbreviation (input) PROTOCOL_VERSION_MINOR_CLIENT_BACKWARD :: int where
  "PROTOCOL_VERSION_MINOR_CLIENT_BACKWARD \<equiv> 4"
abbreviation (input) PROTOCOL_VERSION_MINOR_SERVER_BACKWARD :: int where
  "PROTOCOL_VERSION_MINOR_SERVER_BACKWARD \<equiv> 4"

section \<open>Commands\<close>

text \<open>
  The commands in use. \<^verbatim>\<open>SCARD_LIST_READERS\<close>, \<^verbatim>\<open>SCARD_GET_STATUS_CHANGE\<close> and
  \<^verbatim>\<open>SCARD_CANCEL_TRANSACTION\<close> are numbered but belong to no message.
\<close>

datatype pcsc_msg_commands =
  SCARD_ESTABLISH_CONTEXT | SCARD_RELEASE_CONTEXT | SCARD_LIST_READERS | SCARD_CONNECT
| SCARD_RECONNECT | SCARD_DISCONNECT | SCARD_BEGIN_TRANSACTION | SCARD_END_TRANSACTION
| SCARD_TRANSMIT | SCARD_CONTROL | SCARD_STATUS | SCARD_GET_STATUS_CHANGE | SCARD_CANCEL
| SCARD_CANCEL_TRANSACTION | SCARD_GET_ATTRIB | SCARD_SET_ATTRIB | CMD_VERSION
| CMD_GET_READERS_STATE | CMD_WAIT_READER_STATE_CHANGE | CMD_STOP_WAITING_READER_STATE_CHANGE
| CMD_GET_READER_EVENTS | CMD_GET_READERS_STATE_SIZE | CMD_GET_READERS_STATE_ARRAY

text \<open>The enumeration in the order of its numbers, which start at 1.\<close>

definition command_list :: "pcsc_msg_commands list" where
  "command_list =
     [SCARD_ESTABLISH_CONTEXT, SCARD_RELEASE_CONTEXT, SCARD_LIST_READERS, SCARD_CONNECT,
      SCARD_RECONNECT, SCARD_DISCONNECT, SCARD_BEGIN_TRANSACTION, SCARD_END_TRANSACTION,
      SCARD_TRANSMIT, SCARD_CONTROL, SCARD_STATUS, SCARD_GET_STATUS_CHANGE, SCARD_CANCEL,
      SCARD_CANCEL_TRANSACTION, SCARD_GET_ATTRIB, SCARD_SET_ATTRIB, CMD_VERSION,
      CMD_GET_READERS_STATE, CMD_WAIT_READER_STATE_CHANGE, CMD_STOP_WAITING_READER_STATE_CHANGE,
      CMD_GET_READER_EVENTS, CMD_GET_READERS_STATE_SIZE, CMD_GET_READERS_STATE_ARRAY]"

fun command_number :: "pcsc_msg_commands \<Rightarrow> u32" where
  "command_number SCARD_ESTABLISH_CONTEXT = 0x01"
| "command_number SCARD_RELEASE_CONTEXT = 0x02"
| "command_number SCARD_LIST_READERS = 0x03"
| "command_number SCARD_CONNECT = 0x04"
| "command_number SCARD_RECONNECT = 0x05"
| "command_number SCARD_DISCONNECT = 0x06"
| "command_number SCARD_BEGIN_TRANSACTION = 0x07"
| "command_number SCARD_END_TRANSACTION = 0x08"
| "command_number SCARD_TRANSMIT = 0x09"
| "command_number SCARD_CONTROL = 0x0A"
| "command_number SCARD_STATUS = 0x0B"
| "command_number SCARD_GET_STATUS_CHANGE = 0x0C"
| "command_number SCARD_CANCEL = 0x0D"
| "command_number SCARD_CANCEL_TRANSACTION = 0x0E"
| "command_number SCARD_GET_ATTRIB = 0x0F"
| "command_number SCARD_SET_ATTRIB = 0x10"
| "command_number CMD_VERSION = 0x11"
| "command_number CMD_GET_READERS_STATE = 0x12"
| "command_number CMD_WAIT_READER_STATE_CHANGE = 0x13"
| "command_number CMD_STOP_WAITING_READER_STATE_CHANGE = 0x14"
| "command_number CMD_GET_READER_EVENTS = 0x15"
| "command_number CMD_GET_READERS_STATE_SIZE = 0x16"
| "command_number CMD_GET_READERS_STATE_ARRAY = 0x17"

definition command_of :: "u32 \<Rightarrow> pcsc_msg_commands option" where
  "command_of n = (if 0 < n \<and> unat n \<le> length command_list then Some (command_list ! (unat n - 1)) else None)"

lemma command_of_number [simp]: "command_of (command_number c) = Some c"
  by (cases c) (simp_all add: command_of_def command_list_def)

section \<open>Memory images\<close>

definition le32 :: "u32 \<Rightarrow> bytes" where
  "le32 x = [ucast x, ucast (drop_bit 8 x), ucast (drop_bit 16 x), ucast (drop_bit 24 x)]"

fun word32 :: "bytes \<Rightarrow> u32" where
  "word32 (a # b # c # d # _) =
     ucast a OR push_bit 8 (ucast b) OR push_bit 16 (ucast c) OR push_bit 24 (ucast d)"
| "word32 _ = 0"

text \<open>The words of an image and the image of words; \<open>member k\<close> is the word at offset 4k.\<close>

definition image :: "u32 list \<Rightarrow> bytes" where
  "image ws = concat (map le32 ws)"

definition member_at :: "nat \<Rightarrow> bytes \<Rightarrow> u32" where
  "member_at off b = word32 (drop off b)"

lemma length_le32 [simp]: "length (le32 x) = 4"
  by (simp add: le32_def)

lemma word32_le32 [simp]: "word32 (le32 x @ r) = x"
proof (rule bit_word_eqI)
  fix n
  assume "n < LENGTH(32)"
  then consider "n < 8" | "8 \<le> n" "n < 16" | "16 \<le> n" "n < 24" | "24 \<le> n" "n < 32" by fastforce
  then show "bit (word32 (le32 x @ r)) n = bit x n"
    by cases (auto simp: le32_def bit_simps)
qed

lemma byte_bits: "\<not> bit (a :: UCHAR) (8 + n)" "\<not> bit (a :: UCHAR) (16 + n)" "\<not> bit (a :: UCHAR) (24 + n)"
  using bit_imp_le_length [of a] by fastforce+

lemma le32_word32: "le32 (word32 [a, b, c, d]) = [a, b, c, d]"
  by (auto simp: le32_def bit_simps byte_bits intro!: bit_word_eqI)

lemma length_image [simp]: "length (image ws) = 4 * length ws"
  by (induction ws) (simp_all add: image_def)

lemma image_simps [simp]: "image [] = []" "image (w # ws) = le32 w @ image ws"
  by (simp_all add: image_def)

lemma member_at_0 [simp]: "member_at 0 (le32 x @ r) = x" "member_at 0 (le32 x) = x"
  using word32_le32 [of x r] word32_le32 [of x "[]"] by (simp_all add: member_at_def)

lemma member_at_skip [simp]:
  "4 \<le> n \<Longrightarrow> member_at n (le32 x @ r) = member_at (n - 4) r"
  by (simp add: member_at_def)

lemma member_at_skip_bytes:
  "length b \<le> n \<Longrightarrow> member_at n (b @ r) = member_at (n - length b) r"
  by (simp add: member_at_def)

section \<open>The structures of the messages\<close>

text \<open>
  For every structure its memory image and the structure an image holds; the number of bytes of
  the image is \<^verbatim>\<open>sizeof\<close> of the structure.
\<close>

record version_struct =
  ve_major :: u32
  ve_minor :: u32
  ve_rv :: u32

record rxHeader =
  header_size :: u32
  header_command :: u32

record wait_reader_state_change =
  wa_timeOut :: u32
  wa_rv :: u32

record establish_struct =
  es_dwScope :: u32
  es_hContext :: u32
  es_rv :: u32

record release_struct =
  re_hContext :: u32
  re_rv :: u32

record connect_struct =
  co_hContext :: u32
  co_szReader :: bytes
  co_dwShareMode :: u32
  co_dwPreferredProtocols :: u32
  co_hCard :: u32
  co_dwActiveProtocol :: u32
  co_rv :: u32

record reconnect_struct =
  rc_hCard :: u32
  rc_dwShareMode :: u32
  rc_dwPreferredProtocols :: u32
  rc_dwInitialization :: u32
  rc_dwActiveProtocol :: u32
  rc_rv :: u32

record disconnect_struct =
  di_hCard :: u32
  di_dwDisposition :: u32
  di_rv :: u32

record begin_struct =
  be_hCard :: u32
  be_rv :: u32

record end_struct =
  en_hCard :: u32
  en_dwDisposition :: u32
  en_rv :: u32

record cancel_struct =
  ca_hContext :: u32
  ca_rv :: u32

record status_struct =
  st_hCard :: u32
  st_rv :: u32

record transmit_struct =
  tr_hCard :: u32
  tr_ioSendPciProtocol :: u32
  tr_ioSendPciLength :: u32
  tr_cbSendLength :: u32
  tr_ioRecvPciProtocol :: u32
  tr_ioRecvPciLength :: u32
  tr_pcbRecvLength :: u32
  tr_rv :: u32

record control_struct =
  ct_hCard :: u32
  ct_dwControlCode :: u32
  ct_cbSendLength :: u32
  ct_cbRecvLength :: u32
  ct_dwBytesReturned :: u32
  ct_rv :: u32

record getset_struct =
  gs_hCard :: u32
  gs_dwAttrId :: u32
  gs_pbAttr :: bytes
  gs_cbAttrLen :: u32
  gs_rv :: u32

record get_reader_events =
  ge_readerEvents :: u32
  ge_rv :: u32

text \<open>Images of the structures, with their members in the order of declaration.\<close>

definition version_struct_image :: "version_struct \<Rightarrow> bytes" where
  "version_struct_image x = image [ve_major x, ve_minor x, ve_rv x]"

definition version_struct_at :: "bytes \<Rightarrow> version_struct" where
  "version_struct_at b = \<lparr>ve_major = member_at 0 b, ve_minor = member_at 4 b,
     ve_rv = member_at 8 b\<rparr>"

definition rxHeader_image :: "rxHeader \<Rightarrow> bytes" where
  "rxHeader_image x = image [header_size x, header_command x]"

definition rxHeader_at :: "bytes \<Rightarrow> rxHeader" where
  "rxHeader_at b = \<lparr>header_size = member_at 0 b, header_command = member_at 4 b\<rparr>"

definition wait_reader_state_change_image :: "wait_reader_state_change \<Rightarrow> bytes" where
  "wait_reader_state_change_image x = image [wa_timeOut x, wa_rv x]"

definition wait_reader_state_change_at :: "bytes \<Rightarrow> wait_reader_state_change" where
  "wait_reader_state_change_at b = \<lparr>wa_timeOut = member_at 0 b, wa_rv = member_at 4 b\<rparr>"

definition establish_struct_image :: "establish_struct \<Rightarrow> bytes" where
  "establish_struct_image x = image [es_dwScope x, es_hContext x, es_rv x]"

definition establish_struct_at :: "bytes \<Rightarrow> establish_struct" where
  "establish_struct_at b = \<lparr>es_dwScope = member_at 0 b, es_hContext = member_at 4 b,
     es_rv = member_at 8 b\<rparr>"

definition release_struct_image :: "release_struct \<Rightarrow> bytes" where
  "release_struct_image x = image [re_hContext x, re_rv x]"

definition release_struct_at :: "bytes \<Rightarrow> release_struct" where
  "release_struct_at b = \<lparr>re_hContext = member_at 0 b, re_rv = member_at 4 b\<rparr>"

definition connect_struct_image :: "connect_struct \<Rightarrow> bytes" where
  "connect_struct_image x = image [co_hContext x] @ co_szReader x @ image [co_dwShareMode x,
     co_dwPreferredProtocols x, co_hCard x, co_dwActiveProtocol x, co_rv x]"

definition connect_struct_at :: "bytes \<Rightarrow> connect_struct" where
  "connect_struct_at b = \<lparr>co_hContext = member_at 0 b,
     co_szReader = take 128 (drop 4 b), co_dwShareMode = member_at 132 b,
     co_dwPreferredProtocols = member_at 136 b, co_hCard = member_at 140 b,
     co_dwActiveProtocol = member_at 144 b, co_rv = member_at 148 b\<rparr>"

definition reconnect_struct_image :: "reconnect_struct \<Rightarrow> bytes" where
  "reconnect_struct_image x = image [rc_hCard x, rc_dwShareMode x, rc_dwPreferredProtocols x,
     rc_dwInitialization x, rc_dwActiveProtocol x, rc_rv x]"

definition reconnect_struct_at :: "bytes \<Rightarrow> reconnect_struct" where
  "reconnect_struct_at b = \<lparr>rc_hCard = member_at 0 b, rc_dwShareMode = member_at 4 b,
     rc_dwPreferredProtocols = member_at 8 b, rc_dwInitialization = member_at 12 b,
     rc_dwActiveProtocol = member_at 16 b, rc_rv = member_at 20 b\<rparr>"

definition disconnect_struct_image :: "disconnect_struct \<Rightarrow> bytes" where
  "disconnect_struct_image x = image [di_hCard x, di_dwDisposition x, di_rv x]"

definition disconnect_struct_at :: "bytes \<Rightarrow> disconnect_struct" where
  "disconnect_struct_at b = \<lparr>di_hCard = member_at 0 b, di_dwDisposition = member_at 4 b,
     di_rv = member_at 8 b\<rparr>"

definition begin_struct_image :: "begin_struct \<Rightarrow> bytes" where
  "begin_struct_image x = image [be_hCard x, be_rv x]"

definition begin_struct_at :: "bytes \<Rightarrow> begin_struct" where
  "begin_struct_at b = \<lparr>be_hCard = member_at 0 b, be_rv = member_at 4 b\<rparr>"

definition end_struct_image :: "end_struct \<Rightarrow> bytes" where
  "end_struct_image x = image [en_hCard x, en_dwDisposition x, en_rv x]"

definition end_struct_at :: "bytes \<Rightarrow> end_struct" where
  "end_struct_at b = \<lparr>en_hCard = member_at 0 b, en_dwDisposition = member_at 4 b,
     en_rv = member_at 8 b\<rparr>"

definition cancel_struct_image :: "cancel_struct \<Rightarrow> bytes" where
  "cancel_struct_image x = image [ca_hContext x, ca_rv x]"

definition cancel_struct_at :: "bytes \<Rightarrow> cancel_struct" where
  "cancel_struct_at b = \<lparr>ca_hContext = member_at 0 b, ca_rv = member_at 4 b\<rparr>"

definition status_struct_image :: "status_struct \<Rightarrow> bytes" where
  "status_struct_image x = image [st_hCard x, st_rv x]"

definition status_struct_at :: "bytes \<Rightarrow> status_struct" where
  "status_struct_at b = \<lparr>st_hCard = member_at 0 b, st_rv = member_at 4 b\<rparr>"

definition transmit_struct_image :: "transmit_struct \<Rightarrow> bytes" where
  "transmit_struct_image x = image [tr_hCard x, tr_ioSendPciProtocol x, tr_ioSendPciLength x,
     tr_cbSendLength x, tr_ioRecvPciProtocol x, tr_ioRecvPciLength x, tr_pcbRecvLength x,
     tr_rv x]"

definition transmit_struct_at :: "bytes \<Rightarrow> transmit_struct" where
  "transmit_struct_at b = \<lparr>tr_hCard = member_at 0 b,
     tr_ioSendPciProtocol = member_at 4 b, tr_ioSendPciLength = member_at 8 b,
     tr_cbSendLength = member_at 12 b, tr_ioRecvPciProtocol = member_at 16 b,
     tr_ioRecvPciLength = member_at 20 b, tr_pcbRecvLength = member_at 24 b,
     tr_rv = member_at 28 b\<rparr>"

definition control_struct_image :: "control_struct \<Rightarrow> bytes" where
  "control_struct_image x = image [ct_hCard x, ct_dwControlCode x, ct_cbSendLength x,
     ct_cbRecvLength x, ct_dwBytesReturned x, ct_rv x]"

definition control_struct_at :: "bytes \<Rightarrow> control_struct" where
  "control_struct_at b = \<lparr>ct_hCard = member_at 0 b, ct_dwControlCode = member_at 4 b,
     ct_cbSendLength = member_at 8 b, ct_cbRecvLength = member_at 12 b,
     ct_dwBytesReturned = member_at 16 b, ct_rv = member_at 20 b\<rparr>"

definition getset_struct_image :: "getset_struct \<Rightarrow> bytes" where
  "getset_struct_image x = image [gs_hCard x,
     gs_dwAttrId x] @ gs_pbAttr x @ image [gs_cbAttrLen x, gs_rv x]"

definition getset_struct_at :: "bytes \<Rightarrow> getset_struct" where
  "getset_struct_at b = \<lparr>gs_hCard = member_at 0 b, gs_dwAttrId = member_at 4 b,
     gs_pbAttr = take 264 (drop 8 b), gs_cbAttrLen = member_at 272 b, gs_rv = member_at 276 b\<rparr>"

definition get_reader_events_image :: "get_reader_events \<Rightarrow> bytes" where
  "get_reader_events_image x = image [ge_readerEvents x, ge_rv x]"

definition get_reader_events_at :: "bytes \<Rightarrow> get_reader_events" where
  "get_reader_events_at b = \<lparr>ge_readerEvents = member_at 0 b, ge_rv = member_at 4 b\<rparr>"

lemmas struct_defs =
  version_struct_image_def version_struct_at_def
  rxHeader_image_def rxHeader_at_def
  wait_reader_state_change_image_def wait_reader_state_change_at_def
  establish_struct_image_def establish_struct_at_def
  release_struct_image_def release_struct_at_def
  connect_struct_image_def connect_struct_at_def
  reconnect_struct_image_def reconnect_struct_at_def
  disconnect_struct_image_def disconnect_struct_at_def
  begin_struct_image_def begin_struct_at_def
  end_struct_image_def end_struct_at_def
  cancel_struct_image_def cancel_struct_at_def
  status_struct_image_def status_struct_at_def
  transmit_struct_image_def transmit_struct_at_def
  control_struct_image_def control_struct_at_def
  getset_struct_image_def getset_struct_at_def
  get_reader_events_image_def get_reader_events_at_def

text \<open>
  What a structure that travels as a memory image promises: its size is fixed, reading an image
  gives the structure back, and every image of the right size is the image of what is read from
  it up to the arrays' lengths.
\<close>

locale wire_struct =
  fixes enc :: "'a \<Rightarrow> bytes" and dec :: "bytes \<Rightarrow> 'a" and valid :: "'a \<Rightarrow> bool" and sz :: nat
  assumes size: "valid x \<Longrightarrow> length (enc x) = sz"
    and dec_enc: "valid x \<Longrightarrow> dec (enc x) = x"
    and valid_dec: "length b = sz \<Longrightarrow> valid (dec b)"
begin

lemma enc_inj: "valid x \<Longrightarrow> valid y \<Longrightarrow> enc x = enc y \<Longrightarrow> x = y"
  by (metis dec_enc)

lemma dec_prefix: "valid x \<Longrightarrow> dec (take sz (enc x @ r)) = x"
  by (simp add: size dec_enc)

end

interpretation veStr: wire_struct version_struct_image version_struct_at "\<lambda>_. True" 12
  by unfold_locales (auto simp: struct_defs member_at_skip_bytes)

interpretation headerStr: wire_struct rxHeader_image rxHeader_at "\<lambda>_. True" 8
  by unfold_locales (auto simp: struct_defs member_at_skip_bytes)

interpretation waStr: wire_struct wait_reader_state_change_image wait_reader_state_change_at "\<lambda>_. True" 8
  by unfold_locales (auto simp: struct_defs member_at_skip_bytes)

interpretation esStr: wire_struct establish_struct_image establish_struct_at "\<lambda>_. True" 12
  by unfold_locales (auto simp: struct_defs member_at_skip_bytes)

interpretation reStr: wire_struct release_struct_image release_struct_at "\<lambda>_. True" 8
  by unfold_locales (auto simp: struct_defs member_at_skip_bytes)

interpretation coStr: wire_struct connect_struct_image connect_struct_at "\<lambda>x. length (co_szReader x) = 128" 152
  by unfold_locales (auto simp: struct_defs member_at_skip_bytes)

interpretation rcStr: wire_struct reconnect_struct_image reconnect_struct_at "\<lambda>_. True" 24
  by unfold_locales (auto simp: struct_defs member_at_skip_bytes)

interpretation diStr: wire_struct disconnect_struct_image disconnect_struct_at "\<lambda>_. True" 12
  by unfold_locales (auto simp: struct_defs member_at_skip_bytes)

interpretation beStr: wire_struct begin_struct_image begin_struct_at "\<lambda>_. True" 8
  by unfold_locales (auto simp: struct_defs member_at_skip_bytes)

interpretation enStr: wire_struct end_struct_image end_struct_at "\<lambda>_. True" 12
  by unfold_locales (auto simp: struct_defs member_at_skip_bytes)

interpretation caStr: wire_struct cancel_struct_image cancel_struct_at "\<lambda>_. True" 8
  by unfold_locales (auto simp: struct_defs member_at_skip_bytes)

interpretation stStr: wire_struct status_struct_image status_struct_at "\<lambda>_. True" 8
  by unfold_locales (auto simp: struct_defs member_at_skip_bytes)

interpretation trStr: wire_struct transmit_struct_image transmit_struct_at "\<lambda>_. True" 32
  by unfold_locales (auto simp: struct_defs member_at_skip_bytes)

interpretation ctStr: wire_struct control_struct_image control_struct_at "\<lambda>_. True" 24
  by unfold_locales (auto simp: struct_defs member_at_skip_bytes)

interpretation gsStr: wire_struct getset_struct_image getset_struct_at "\<lambda>x. length (gs_pbAttr x) = 264" 280
  by unfold_locales (auto simp: struct_defs member_at_skip_bytes)

interpretation geStr: wire_struct get_reader_events_image get_reader_events_at "\<lambda>_. True" 8
  by unfold_locales (auto simp: struct_defs member_at_skip_bytes)

section \<open>Sockets\<close>

datatype errno = EINTR | EAGAIN | ECONNRESET | EOTHER

text \<open>
  What \<^verbatim>\<open>read\<close> or \<^verbatim>\<open>send\<close> does: transfer at most so many bytes (none when the peer has closed
  the socket), or fail. What \<^verbatim>\<open>poll\<close> does: report the descriptor, with or without the event that
  was asked for, return 0 (with the \<^verbatim>\<open>errno\<close> some earlier call left), or fail.
\<close>

datatype transfer = Io nat | Io_error errno

datatype poll_event = Poll_ready bool transfer | Poll_zero errno | Poll_error errno

record sock =
  rx :: bytes
  rxEvents :: "poll_event list"
  tx :: bytes
  txEvents :: "poll_event list"

subsection \<open>Receiving\<close>

text \<open>
  One round of the loop of \<^verbatim>\<open>MessageReceive\<close>: an error that ends it, or the number of bytes
  read (none when the call was interrupted). An empty socket whose peer is gone reads 0 bytes.
\<close>

fun receive_round :: "poll_event \<Rightarrow> nat \<Rightarrow> bytes \<Rightarrow> LONG + nat" where
  "receive_round (Poll_ready readable io) remaining avail =
     (if \<not> readable then Inl SCARD_F_COMM_ERROR
      else case io of
          Io n \<Rightarrow> (let bytes_read = min n (min remaining (length avail)) in
                  if bytes_read > 0 then Inr bytes_read else Inl SCARD_F_COMM_ERROR)
        | Io_error errno \<Rightarrow>
            (if errno \<noteq> EINTR \<and> errno \<noteq> EAGAIN
             then Inl (if errno = ECONNRESET then SCARD_W_SECURITY_VIOLATION else SCARD_F_COMM_ERROR)
             else Inr 0))"
| "receive_round (Poll_zero errno) remaining avail = (if errno \<noteq> EINTR then Inl SCARD_F_COMM_ERROR else Inr 0)"
| "receive_round (Poll_error errno) remaining avail = (if errno \<noteq> EINTR then Inl SCARD_F_COMM_ERROR else Inr 0)"

text \<open>The loop: status, the bytes stored in the buffer, the events and the bytes left.\<close>

fun receive_loop ::
  "nat \<Rightarrow> bytes \<Rightarrow> poll_event list \<Rightarrow> bytes \<Rightarrow> (LONG \<times> bytes \<times> poll_event list \<times> bytes) option" where
  "receive_loop remaining buffer [] avail =
     (if remaining = 0 then Some (SCARD_S_SUCCESS, buffer, [], avail) else None)"
| "receive_loop remaining buffer (ev # evs) avail =
     (if remaining = 0 then Some (SCARD_S_SUCCESS, buffer, ev # evs, avail)
      else case receive_round ev remaining avail of
          Inl rv \<Rightarrow> Some (rv, buffer, evs, avail)
        | Inr k \<Rightarrow> receive_loop (remaining - k) (buffer @ take k avail) evs (drop k avail))"

definition MessageReceive :: "nat \<Rightarrow> sock \<Rightarrow> ((LONG \<times> bytes) \<times> sock) option" where
  "MessageReceive buffer_size s =
     map_option (\<lambda>(rv, buffer, evs, avail). ((rv, buffer), s\<lparr>rx := avail, rxEvents := evs\<rparr>))
       (receive_loop buffer_size [] (rxEvents s) (rx s))"

subsection \<open>Receiving with a time limit\<close>

text \<open>Times are pairs of seconds and microseconds; \<^verbatim>\<open>time_sub\<close> is in \<^verbatim>\<open>utils.c\<close>.\<close>

type_synonym timeval = "int \<times> int"

definition time_sub :: "timeval \<Rightarrow> timeval \<Rightarrow> int" where
  "time_sub a b =
     (let tv_sec = fst a - fst b; tv_usec = snd a - snd b;
          (tv_sec, tv_usec) = (if tv_usec < 0 then (tv_sec - 1, tv_usec + 1000000) else (tv_sec, tv_usec))
      in tv_sec * 1000000 + tv_usec)"

text \<open>\<^verbatim>\<open>stat\<close> of the daemon's socket file says whether there is a daemon.\<close>

definition SCardCheckDaemonAvailability :: "bool \<Rightarrow> LONG" where
  "SCardCheckDaemonAvailability present = (if \<not> present then SCARD_E_NO_SERVICE else SCARD_S_SUCCESS)"

text \<open>
  One round: the time, what \<^verbatim>\<open>poll\<close> and \<^verbatim>\<open>read\<close> do, and whether the socket file is there.
  Unlike \<^verbatim>\<open>MessageReceive\<close> every failure of \<^verbatim>\<open>read\<close> is a communication error.
\<close>

record timed_event =
  now :: timeval
  event :: poll_event
  daemonThere :: bool

definition timed_round :: "timed_event \<Rightarrow> nat \<Rightarrow> bytes \<Rightarrow> LONG + nat" where
  "timed_round t remaining avail =
     (case event t of
        Poll_ready readable (Io_error errno) \<Rightarrow>
          (if \<not> readable \<or> errno \<noteq> EINTR \<and> errno \<noteq> EAGAIN then Inl SCARD_F_COMM_ERROR else Inr 0)
      | Poll_zero _ \<Rightarrow>
          (let rv = SCardCheckDaemonAvailability (daemonThere t) in
           if rv \<noteq> SCARD_S_SUCCESS then Inl rv else Inr 0)
      | ev \<Rightarrow> receive_round ev remaining avail)"

fun receive_timeout_loop ::
  "timeval \<Rightarrow> int \<Rightarrow> nat \<Rightarrow> bytes \<Rightarrow> timed_event list \<Rightarrow> bytes \<Rightarrow> (LONG \<times> bytes \<times> bytes) option" where
  "receive_timeout_loop start timeOut remaining buffer [] avail =
     (if remaining = 0 then Some (SCARD_S_SUCCESS, buffer, avail) else None)"
| "receive_timeout_loop start timeOut remaining buffer (t # ts) avail =
     (if remaining = 0 then Some (SCARD_S_SUCCESS, buffer, avail)
      else if time_sub (now t) start sdiv 1000 > timeOut then Some (SCARD_E_TIMEOUT, buffer, avail)
      else case timed_round t remaining avail of
          Inl rv \<Rightarrow> Some (rv, buffer, avail)
        | Inr k \<Rightarrow> receive_timeout_loop start timeOut (remaining - k) (buffer @ take k avail) ts (drop k avail))"

definition MessageReceiveTimeout ::
  "timeval \<Rightarrow> int \<Rightarrow> nat \<Rightarrow> timed_event list \<Rightarrow> sock \<Rightarrow> ((LONG \<times> bytes) \<times> sock) option" where
  "MessageReceiveTimeout start timeOut buffer_size ts s =
     map_option (\<lambda>(rv, buffer, avail). ((rv, buffer), s\<lparr>rx := avail\<rparr>))
       (receive_timeout_loop start timeOut buffer_size [] ts (rx s))"

subsection \<open>Sending\<close>

fun send_round :: "poll_event \<Rightarrow> nat \<Rightarrow> LONG + nat" where
  "send_round (Poll_ready writable io) remaining =
     (if \<not> writable then Inl SCARD_F_COMM_ERROR
      else case io of
          Io n \<Rightarrow> (let written = min n remaining in
                  if written > 0 then Inr written else Inl SCARD_F_COMM_ERROR)
        | Io_error errno \<Rightarrow>
            (if errno \<noteq> EINTR \<and> errno \<noteq> EAGAIN then Inl SCARD_E_NO_SERVICE else Inr 0))"
| "send_round (Poll_zero errno) remaining = Inl SCARD_E_TIMEOUT"
| "send_round (Poll_error errno) remaining = (if errno \<noteq> EINTR then Inl SCARD_F_COMM_ERROR else Inr 0)"

fun send_loop :: "bytes \<Rightarrow> poll_event list \<Rightarrow> bytes \<Rightarrow> (LONG \<times> poll_event list \<times> bytes) option" where
  "send_loop buffer [] out = (if buffer = [] then Some (SCARD_S_SUCCESS, [], out) else None)"
| "send_loop buffer (ev # evs) out =
     (if buffer = [] then Some (SCARD_S_SUCCESS, ev # evs, out)
      else case send_round ev (length buffer) of
          Inl rv \<Rightarrow> Some (rv, evs, out)
        | Inr k \<Rightarrow> send_loop (drop k buffer) evs (out @ take k buffer))"

definition MessageSend :: "bytes \<Rightarrow> sock \<Rightarrow> (LONG \<times> sock) option" where
  "MessageSend buffer s =
     map_option (\<lambda>(rv, evs, out). (rv, s\<lparr>tx := out, txEvents := evs\<rparr>)) (send_loop buffer (txEvents s) (tx s))"

definition MessageSendWithHeader :: "u32 \<Rightarrow> bytes \<Rightarrow> sock \<Rightarrow> (LONG \<times> sock) option" where
  "MessageSendWithHeader command data s =
     Option.bind (MessageSend (rxHeader_image \<lparr>header_size = of_nat (length data), header_command = command\<rparr>) s)
       (\<lambda>(ret, s). if length data > 0 then MessageSend data s else Some (ret, s))"

section \<open>Messages arrive whole\<close>

text \<open>Events that do not end a transfer: interruptions, and progress.\<close>

fun harmless :: "poll_event \<Rightarrow> bool" where
  "harmless (Poll_ready ready (Io n)) = (ready \<and> n > 0)"
| "harmless (Poll_ready ready (Io_error e)) = (ready \<and> (e = EINTR \<or> e = EAGAIN))"
| "harmless (Poll_zero e) = False"
| "harmless (Poll_error e) = (e = EINTR)"

text \<open>The number of transfers in a sequence of events; each moves at least one byte.\<close>

fun progress :: "poll_event list \<Rightarrow> nat" where
  "progress [] = 0"
| "progress (Poll_ready ready (Io n) # evs) = Suc (progress evs)"
| "progress (_ # evs) = progress evs"

lemma receive_loop_stream:
  "receive_loop m buf evs avail = Some (rv, buf', evs', avail') \<Longrightarrow>
    buf' @ avail' = buf @ avail \<and> length buf \<le> length buf' \<and> length buf' \<le> length buf + m \<and>
    (rv = SCARD_S_SUCCESS \<longrightarrow> length buf' = length buf + m) \<and>
    rv \<in> {SCARD_S_SUCCESS, SCARD_F_COMM_ERROR, SCARD_W_SECURITY_VIOLATION}"
proof (induction evs arbitrary: m buf avail)
  case Nil
  then show ?case by (auto split: if_splits)
next
  case (Cons ev evs)
  show ?case
  proof (cases "m = 0")
    case False
    show ?thesis
    proof (cases "receive_round ev m avail")
      case (Inl e)
      then have "e \<in> {SCARD_F_COMM_ERROR, SCARD_W_SECURITY_VIOLATION}"
        by (cases ev) (auto simp: Let_def split: if_splits transfer.splits)
      with Cons.prems False Inl show ?thesis by auto
    next
      case (Inr k)
      then have "k \<le> m" "k \<le> length avail"
        by (cases ev; auto simp: Let_def split: if_splits transfer.splits)+
      with Cons.IH [of "m - k" "buf @ take k avail" "drop k avail"] Cons.prems False Inr
      show ?thesis by auto
    qed
  qed (use Cons.prems in auto)
qed

lemma receive_round_harmless:
  assumes "harmless ev" "m \<le> length avail" "0 < m"
  shows "\<exists>k \<le> m. receive_round ev m avail = Inr k \<and> progress (ev # evs) \<le> k + progress evs"
proof (cases ev)
  case (Poll_ready r io)
  with assms show ?thesis
  proof (cases io)
    case (Io n)
    with Poll_ready assms show ?thesis by (intro exI [where x = "min n m"]) (auto simp: Let_def min_def)
  qed auto
qed (use assms in auto)

lemma send_round_harmless:
  assumes "harmless ev" "0 < m"
  shows "\<exists>k \<le> m. send_round ev m = Inr k \<and> progress (ev # evs) \<le> k + progress evs"
proof (cases ev)
  case (Poll_ready r io)
  with assms show ?thesis
  proof (cases io)
    case (Io n)
    with Poll_ready assms show ?thesis by (intro exI [where x = "min n m"]) (auto simp: Let_def min_def)
  qed auto
qed (use assms in auto)

lemma receive_loop_complete:
  "\<forall>ev \<in> set evs. harmless ev \<Longrightarrow> m \<le> progress evs \<Longrightarrow> m \<le> length avail \<Longrightarrow>
    \<exists>evs'. receive_loop m buf evs avail = Some (SCARD_S_SUCCESS, buf @ take m avail, evs', drop m avail) \<and>
      (\<forall>ev \<in> set evs'. harmless ev) \<and> progress evs - m \<le> progress evs'"
proof (induction evs arbitrary: m buf avail)
  case Nil
  then show ?case by simp
next
  case (Cons ev evs)
  show ?case
  proof (cases "m = 0")
    case False
    then obtain k where k: "receive_round ev m avail = Inr k" "progress (ev # evs) \<le> k + progress evs" "k \<le> m"
      using receive_round_harmless [of ev m avail evs] Cons.prems by auto
    have "m - k \<le> progress evs" "m - k \<le> length (drop k avail)" using k Cons.prems by auto
    with Cons.IH [of "m - k" "drop k avail" "buf @ take k avail"] Cons.prems
    obtain evs' where "receive_loop (m - k) (buf @ take k avail) evs (drop k avail) =
        Some (SCARD_S_SUCCESS, (buf @ take k avail) @ take (m - k) (drop k avail), evs', drop (m - k) (drop k avail))"
      and "\<forall>ev \<in> set evs'. harmless ev" "progress evs - (m - k) \<le> progress evs'"
      by auto
    moreover from this(3) k have "progress (ev # evs) - m \<le> progress evs'" by linarith
    moreover have "take k avail @ take (m - k) (drop k avail) = take m avail"
      using \<open>k \<le> m\<close> by (metis le_add_diff_inverse take_add)
    ultimately show ?thesis using k False by simp
  qed (use Cons.prems in auto)
qed

lemma send_loop_stream:
  "send_loop b evs out = Some (rv, evs', out') \<Longrightarrow>
    \<exists>n \<le> length b. out' = out @ take n b \<and> (rv = SCARD_S_SUCCESS \<longrightarrow> n = length b) \<and>
      rv \<in> {SCARD_S_SUCCESS, SCARD_F_COMM_ERROR, SCARD_E_TIMEOUT, SCARD_E_NO_SERVICE}"
proof (induction evs arbitrary: b out)
  case Nil
  then show ?case by (auto split: if_splits)
next
  case (Cons ev evs)
  show ?case
  proof (cases "b = []")
    case False
    show ?thesis
    proof (cases "send_round ev (length b)")
      case (Inl e)
      then have "e \<in> {SCARD_F_COMM_ERROR, SCARD_E_TIMEOUT, SCARD_E_NO_SERVICE}"
        by (cases ev) (auto simp: Let_def split: if_splits transfer.splits)
      with Cons.prems False Inl show ?thesis by auto
    next
      case (Inr k)
      then have "k \<le> length b"
        by (cases ev) (auto simp: Let_def split: if_splits transfer.splits)
      with Cons.IH [of "drop k b" "out @ take k b"] Cons.prems False Inr
      obtain n where "n \<le> length b - k" "out' = (out @ take k b) @ take n (drop k b)"
        "rv = SCARD_S_SUCCESS \<longrightarrow> n = length b - k"
        "rv \<in> {SCARD_S_SUCCESS, SCARD_F_COMM_ERROR, SCARD_E_TIMEOUT, SCARD_E_NO_SERVICE}" by auto
      with \<open>k \<le> length b\<close> show ?thesis
        by (intro exI [where x = "k + n"]) (auto simp: take_add)
    qed
  qed (use Cons.prems in auto)
qed

lemma send_loop_complete:
  "\<forall>ev \<in> set evs. harmless ev \<Longrightarrow> length b \<le> progress evs \<Longrightarrow>
    \<exists>evs'. send_loop b evs out = Some (SCARD_S_SUCCESS, evs', out @ b) \<and>
      (\<forall>ev \<in> set evs'. harmless ev) \<and> progress evs - length b \<le> progress evs'"
proof (induction evs arbitrary: b out)
  case Nil
  then show ?case by simp
next
  case (Cons ev evs)
  show ?case
  proof (cases "b = []")
    case False
    then obtain k where k: "send_round ev (length b) = Inr k" "progress (ev # evs) \<le> k + progress evs" "k \<le> length b"
      using send_round_harmless [of ev "length b" evs] Cons.prems by auto
    have "length (drop k b) \<le> progress evs" using k Cons.prems by auto
    with Cons.IH [of "drop k b" "out @ take k b"] Cons.prems
    obtain evs' where "send_loop (drop k b) evs (out @ take k b) = Some (SCARD_S_SUCCESS, evs', out @ b)"
      and "\<forall>ev \<in> set evs'. harmless ev" "progress evs - length (drop k b) \<le> progress evs'"
      by auto
    moreover from this(3) k have "progress (ev # evs) - length b \<le> progress evs'" by simp
    ultimately show ?thesis using k False by simp
  qed (use Cons.prems in auto)
qed

subsection \<open>Whole messages\<close>

definition rx_ready :: "nat \<Rightarrow> sock \<Rightarrow> bool" where
  "rx_ready n s = ((\<forall>ev \<in> set (rxEvents s). harmless ev) \<and> n \<le> progress (rxEvents s))"

definition tx_ready :: "nat \<Rightarrow> sock \<Rightarrow> bool" where
  "tx_ready n s = ((\<forall>ev \<in> set (txEvents s). harmless ev) \<and> n \<le> progress (txEvents s))"

lemma MessageReceive_ready:
  assumes "rx_ready (n + m) s" "n \<le> length (rx s)"
  shows "\<exists>evs. MessageReceive n s = Some ((SCARD_S_SUCCESS, take n (rx s)), s\<lparr>rx := drop n (rx s), rxEvents := evs\<rparr>) \<and>
    rx_ready m (s\<lparr>rx := drop n (rx s), rxEvents := evs\<rparr>)"
  using receive_loop_complete [of "rxEvents s" n "rx s" "[]"] assms
  by (auto simp: MessageReceive_def rx_ready_def)

lemma MessageReceive_stream:
  assumes "MessageReceive n s = Some ((rv, b), s')"
  shows "b @ rx s' = rx s \<and> length b \<le> n \<and> (rv = SCARD_S_SUCCESS \<longrightarrow> length b = n) \<and>
    tx s' = tx s \<and> txEvents s' = txEvents s"
  using assms receive_loop_stream [of n "[]" "rxEvents s" "rx s"]
  by (auto simp: MessageReceive_def)

lemma MessageReceive_success:
  assumes "MessageReceive n s = Some ((SCARD_S_SUCCESS, b), s')"
  shows "b = take n (rx s) \<and> rx s' = drop n (rx s) \<and> length b = n"
  using MessageReceive_stream [OF assms] by (metis append_eq_conv_conj)

lemma MessageSend_ready:
  assumes "tx_ready (length b + m) s"
  shows "\<exists>evs. MessageSend b s = Some (SCARD_S_SUCCESS, s\<lparr>tx := tx s @ b, txEvents := evs\<rparr>) \<and>
    tx_ready m (s\<lparr>tx := tx s @ b, txEvents := evs\<rparr>)"
  using send_loop_complete [of "txEvents s" b "tx s"] assms
  by (auto simp: MessageSend_def tx_ready_def)

lemma MessageSend_stream:
  assumes "MessageSend b s = Some (rv, s')"
  shows "\<exists>n \<le> length b. tx s' = tx s @ take n b \<and> (rv = SCARD_S_SUCCESS \<longrightarrow> n = length b)"
    and "rx s' = rx s \<and> rxEvents s' = rxEvents s"
  using assms send_loop_stream [of b "txEvents s" "tx s"]
  by (auto simp: MessageSend_def)

lemma MessageSend_success:
  assumes "MessageSend b s = Some (SCARD_S_SUCCESS, s')"
  shows "tx s' = tx s @ b"
  using MessageSend_stream(1) [OF assms] by auto

text \<open>A structure that arrives is the structure that was sent.\<close>

context wire_struct
begin

lemma received:
  assumes "valid x" "rx s = enc x @ rest" "MessageReceive sz s = Some ((SCARD_S_SUCCESS, b), s')"
  shows "dec b = x" "rx s' = rest"
  using MessageReceive_success [OF assms(3)] assms(1,2) by (auto simp: size dec_enc)

lemma sent_received:
  assumes "valid x" "MessageSend (enc x) s = Some (SCARD_S_SUCCESS, s')" "tx s = []"
    and "rx c = tx s' @ rest" "MessageReceive sz c = Some ((SCARD_S_SUCCESS, b), c')"
  shows "dec b = x" "rx c' = rest"
  using received [OF assms(1) _ assms(5)] MessageSend_success [OF assms(2)] assms(3,4) by auto

end

end
