(* ===== verification/Winscard_Svc.thy ===== *)
theory Winscard_Svc
  imports Winscard_Msg Winscard Reader_Registry
begin

text \<open>
  The message dispatcher \<^verbatim>\<open>src/src/winscard_svc.c\<close>: the contexts of the connected clients, the
  handles each of them may use, and the thread that serves a client.

  A \<^verbatim>\<open>SCONTEXT *\<close> is an address into the store \<open>ctxMem\<close>; \<open>contextsList\<close> holds the addresses of
  the contexts in use. The function \<^verbatim>\<open>ContextThread\<close> is divided at its loop: one step receives
  one command, executes it and answers, and its result says whether the thread goes on (\<open>True\<close>)
  or leaves through \<^verbatim>\<open>exit\<close>; \<open>None\<close> is a step that still waits for its socket or for another
  client's transaction.
\<close>

section \<open>State\<close>

abbreviation (input) PCSC_MAX_CONTEXT_THREADS :: int where "PCSC_MAX_CONTEXT_THREADS \<equiv> 200"
abbreviation (input) PCSC_MAX_CONTEXT_CARD_HANDLES :: int where "PCSC_MAX_CONTEXT_CARD_HANDLES \<equiv> 200"
abbreviation (input) TIME_BEFORE_SUICIDE :: int where "TIME_BEFORE_SUICIDE \<equiv> 60"

record SCONTEXT =
  hContext :: int
  cardsList :: "int list_t"
  dwClientID :: int

text \<open>
  \<open>oldApi c\<close> is the local variable \<^verbatim>\<open>old_reader_state_api\<close> of the thread that serves context \<open>c\<close>;
  \<open>IsAuthorized\<close> is what polkit answers for a descriptor, an action and a reader; \<open>stack\<close> is the
  content of uninitialised buffers; \<open>alarmClock\<close> is the argument of the last \<^verbatim>\<open>alarm\<close>.
\<close>

record 'd svc =
  daemon :: "'d pcscd"
  contextMaxThreadCounter :: int
  contextMaxCardHandles :: int
  contextsList :: "nat list_t"
  ctxMem :: "nat \<Rightarrow> SCONTEXT"
  freshCtx :: nat
  oldApi :: "nat \<Rightarrow> bool"
  sockets :: "int \<Rightarrow> sock"
  closedFds :: "int list"
  AutoExit :: bool
  alarmClock :: "int option"
  disable_polkit :: bool
  IsAuthorized :: "int \<Rightarrow> string \<Rightarrow> string option \<Rightarrow> bool"
  stack :: "nat \<Rightarrow> UCHAR"

definition empty_context :: SCONTEXT where
  "empty_context = \<lparr>hContext = 0, cardsList = list_init, dwClientID = 0\<rparr>"

definition upd_ctx :: "nat \<Rightarrow> (SCONTEXT \<Rightarrow> SCONTEXT) \<Rightarrow> 'd svc \<Rightarrow> 'd svc" where
  "upd_ctx c f s = s\<lparr>ctxMem := (ctxMem s)(c := f (ctxMem s c))\<rparr>"

text \<open>The seeker of the list of contexts reads the contexts the addresses point to.\<close>

definition contextsListhContext_seeker :: "(nat \<Rightarrow> SCONTEXT) \<Rightarrow> nat \<Rightarrow> int \<Rightarrow> bool" where
  "contextsListhContext_seeker mem el key = (hContext (mem el) = key)"

definition seek_context :: "int \<Rightarrow> 'd svc \<Rightarrow> nat option" where
  "seek_context key s =
     list_seek ((contextsList s)\<lparr>seeker := Some (contextsListhContext_seeker (ctxMem s))\<rparr>) key"

section \<open>Start and end of the service\<close>

definition ContextsInitialize :: "int \<Rightarrow> int \<Rightarrow> 'd svc \<Rightarrow> LONG \<times> 'd svc" where
  "ContextsInitialize customMaxThreadCounter customMaxThreadCardHandles s =
     (let s = (if customMaxThreadCounter \<noteq> 0 then s\<lparr>contextMaxThreadCounter := customMaxThreadCounter\<rparr> else s);
          s = (if customMaxThreadCardHandles \<noteq> 0 then s\<lparr>contextMaxCardHandles := customMaxThreadCardHandles\<rparr> else s)
      in (1, s\<lparr>contextsList := list_init\<rparr>))"

text \<open>
  The \<^verbatim>\<open>while\<close> loop over the remaining clients. The threads are detached, so that
  \<^verbatim>\<open>pthread_join\<close> has nothing to wait for.
\<close>

function close_clients :: "nat list_t \<Rightarrow> 'd svc \<Rightarrow> nat list_t \<times> 'd svc" where
  "close_clients l s =
     (if list_iterator_hasnext l then
        (case list_iterator_next l of
           (None, l) \<Rightarrow> close_clients l s
         | (Some elt, l) \<Rightarrow>
             let fd = dwClientID (ctxMem s elt);
                 s = s\<lparr>daemon := snd (EHTryToUnregisterClientForEvent fd (daemon s)), closedFds := closedFds s @ [fd]\<rparr>
             in close_clients l s)
      else (l, s))"
  by pat_completeness auto
termination
  by (relation "measure (\<lambda>(l, s). numels l - iter_pos l)")
    (auto simp: list_iterator_hasnext_def list_iterator_next_def split: if_splits)

definition ContextsDeinitialize :: "'d svc \<Rightarrow> 'd svc" where
  "ContextsDeinitialize s =
     (case list_iterator_start (contextsList s) of (rv, l) \<Rightarrow>
        case (if rv = 0 then (l, s) else close_clients l s) of (l, s) \<Rightarrow>
          s\<lparr>contextsList := list_destroy l\<rparr>)"

section \<open>A new client\<close>

definition new_context :: "int \<Rightarrow> SCONTEXT" where
  "new_context fd =
     (let l = list_init; l = snd (list_attributes_copy l True True);
          l = snd (list_attributes_comparator l (=))
      in empty_context\<lparr>dwClientID := fd, cardsList := l\<rparr>)"

definition CreateContextThread :: "int \<Rightarrow> 'd svc \<Rightarrow> LONG \<times> 'd svc" where
  "CreateContextThread fd s =
     (let failed = (SCARD_E_NO_MEMORY, s\<lparr>closedFds := closedFds s @ [fd]\<rparr>) in
      if int (list_size (contextsList s)) \<ge> contextMaxThreadCounter s then failed
      else if \<not> memOk (daemon s) then failed
      else
        let c = freshCtx s;
            s = s\<lparr>ctxMem := (ctxMem s)(c := new_context fd), freshCtx := c + 1, oldApi := (oldApi s)(c := False)\<rparr>
        in case list_append (memOk (daemon s)) (contextsList s) c of (lrv, l) \<Rightarrow>
          if lrv < 0 then (SCARD_E_NO_MEMORY, s\<lparr>closedFds := closedFds s @ [fd]\<rparr>)
          else let s = s\<lparr>contextsList := l\<rparr> in
            if \<not> threadOk (daemon s)
            then (SCARD_E_NO_MEMORY, s\<lparr>contextsList := snd (list_delete l c), closedFds := closedFds s @ [fd]\<rparr>)
            else (SCARD_S_SUCCESS, if AutoExit s then s\<lparr>alarmClock := Some 0\<rparr> else s))"

section \<open>Authorization\<close>

definition IsClientAuthorized :: "int \<Rightarrow> string \<Rightarrow> string option \<Rightarrow> 'd svc \<Rightarrow> bool" where
  "IsClientAuthorized socket action reader s =
     (if disable_polkit s then True else IsAuthorized s socket (''org.debian.pcsc-lite.'' @ action) reader)"

section \<open>The handles of a client\<close>

definition MSGAddContext :: "u32 \<Rightarrow> nat \<Rightarrow> 'd svc \<Rightarrow> LONG \<times> 'd svc" where
  "MSGAddContext hCtx c s = (SCARD_S_SUCCESS, upd_ctx c (\<lambda>x. x\<lparr>hContext := sint hCtx\<rparr>) s)"

text \<open>
  Disconnecting one handle of a context that goes away: the client's own lock is released and
  the card reset, unless it was reset or removed already.
\<close>

definition drop_handle :: "SCARDHANDLE \<Rightarrow> nat \<Rightarrow> 'd pcscd \<Rightarrow> 'd pcscd option" where
  "drop_handle h i w =
     (if hLockId (rdr w i) = 0 then map_option snd (SCardDisconnect [] h SCARD_LEAVE_CARD w)
      else if h \<noteq> hLockId (rdr w i) then map_option snd (SCardDisconnect [] h SCARD_LEAVE_CARD w)
      else case SCardStatus h (upd_rdr i (\<lambda>r. r\<lparr>hLockId := 0\<rparr>) w) of (rv, w) \<Rightarrow>
        map_option snd (SCardDisconnect [] h
          (if rv = SCARD_W_RESET_CARD \<or> rv = SCARD_W_REMOVED_CARD then SCARD_LEAVE_CARD else SCARD_RESET_CARD) w))"

text \<open>
  The \<^verbatim>\<open>while\<close> loop of \<^verbatim>\<open>MSGRemoveContext\<close>. It ends only when every handle is off the list, so
  that it is a partial function; \<open>Inl\<close> is the early return.
\<close>

partial_function (option) drop_handles ::
  "int list_t \<Rightarrow> 'd pcscd \<Rightarrow> ((LONG + unit) \<times> int list_t \<times> 'd pcscd) option" where
  "drop_handles l w =
     (if list_size l = 0 then Some (Inr (), l, w)
      else case list_get_at l 0 of
          None \<Rightarrow> drop_handles l w
        | Some h \<Rightarrow>
          (case RFReaderInfoById h w of
             (Inl rv, w) \<Rightarrow>
               if rv \<noteq> SCARD_E_INVALID_VALUE \<and> rv \<noteq> SCARD_E_READER_UNAVAILABLE then Some (Inl rv, l, w)
               else drop_handles (snd (list_delete_at l 0)) w
           | (Inr i, w) \<Rightarrow>
               Option.bind (drop_handle h i w) (\<lambda>w.
                 drop_handles (snd (list_delete_at l 0)) (snd (UnrefReader i w)))))"

declare drop_handles.simps [code]

definition MSGRemoveContext :: "int \<Rightarrow> nat \<Rightarrow> 'd svc \<Rightarrow> (LONG \<times> 'd svc) option" where
  "MSGRemoveContext hCtx c s =
     (if hContext (ctxMem s c) = 0 then Some (SCARD_E_INVALID_HANDLE, s)
      else if hContext (ctxMem s c) \<noteq> hCtx then Some (SCARD_E_INVALID_VALUE, s)
      else map_option (\<lambda>(q, l, w).
          let s = (upd_ctx c (\<lambda>x. x\<lparr>cardsList := l\<rparr>) s)\<lparr>daemon := w\<rparr> in
          case q of Inl rv \<Rightarrow> (rv, s)
            | Inr _ \<Rightarrow> (SCARD_S_SUCCESS, upd_ctx c (\<lambda>x. x\<lparr>hContext := 0\<rparr>) s))
        (drop_handles (cardsList (ctxMem s c)) (daemon s)))"

definition MSGAddHandle :: "int \<Rightarrow> SCARDHANDLE \<Rightarrow> nat \<Rightarrow> 'd svc \<Rightarrow> LONG \<times> 'd svc" where
  "MSGAddHandle hCtx h c s =
     (if hContext (ctxMem s c) = 0 then (SCARD_E_INVALID_HANDLE, s)
      else if hContext (ctxMem s c) = hCtx then
        (let l = cardsList (ctxMem s c) in
         if int (list_size l) \<ge> contextMaxCardHandles s then (SCARD_E_NO_MEMORY, s)
         else case list_append (memOk (daemon s)) l (int32 h) of (lrv, l) \<Rightarrow>
           if lrv < 0 then (SCARD_E_NO_MEMORY, s)
           else (SCARD_S_SUCCESS, upd_ctx c (\<lambda>x. x\<lparr>cardsList := l\<rparr>) s))
      else (SCARD_E_INVALID_VALUE, s))"

definition MSGRemoveHandle :: "SCARDHANDLE \<Rightarrow> nat \<Rightarrow> 'd svc \<Rightarrow> LONG \<times> 'd svc" where
  "MSGRemoveHandle h c s =
     (case list_delete (cardsList (ctxMem s c)) (int32 h) of (lrv, l) \<Rightarrow>
        (if lrv < 0 then SCARD_E_INVALID_VALUE else SCARD_S_SUCCESS, upd_ctx c (\<lambda>x. x\<lparr>cardsList := l\<rparr>) s))"

text \<open>Success is 0; the two seconds of sleep for a rogue client are not visible.\<close>

definition MSGCheckHandleAssociation :: "SCARDHANDLE \<Rightarrow> nat \<Rightarrow> 'd svc \<Rightarrow> LONG" where
  "MSGCheckHandleAssociation h c s =
     (if hContext (ctxMem s c) = 0 then - 1
      else if list_locate (cardsList (ctxMem s c)) (int32 h) \<ge> 0 then 0 else - 1)"

definition MSGCleanupClient :: "nat \<Rightarrow> 'd svc \<Rightarrow> 'd svc option" where
  "MSGCleanupClient c s =
     map_option (\<lambda>s.
         let s = upd_ctx c (\<lambda>x. empty_context) s;
             l = snd (list_delete (contextsList s) c);
             s = s\<lparr>contextsList := l\<rparr>
         in if AutoExit s \<and> list_size l < 1 then s\<lparr>alarmClock := Some TIME_BEFORE_SUICIDE\<rparr> else s)
       (if hContext (ctxMem s c) \<noteq> 0 then map_option snd (MSGRemoveContext (hContext (ctxMem s c)) c s) else Some s)"

end
