(* ===== verification/Context_Thread.thy ===== *)
theory Context_Thread
  imports Winscard_Svc
begin

text \<open>
  The thread that serves a client, \<^verbatim>\<open>ContextThread\<close> of \<^verbatim>\<open>src/src/winscard_svc.c\<close>: one definition
  for every command of its \<^verbatim>\<open>switch\<close>, in the order of the source.
\<close>

section \<open>The socket of a client\<close>

definition recv_msg :: "int \<Rightarrow> nat \<Rightarrow> 'd svc \<Rightarrow> ((LONG \<times> bytes) \<times> 'd svc) option" where
  "recv_msg fd n s =
     map_option (\<lambda>(r, k). (r, s\<lparr>sockets := (sockets s)(fd := k)\<rparr>)) (MessageReceive n (sockets s fd))"

definition send_msg :: "int \<Rightarrow> bytes \<Rightarrow> 'd svc \<Rightarrow> (LONG \<times> 'd svc) option" where
  "send_msg fd b s =
     map_option (\<lambda>(r, k). (r, s\<lparr>sockets := (sockets s)(fd := k)\<rparr>)) (MessageSend b (sockets s fd))"

text \<open>\<^verbatim>\<open>READ_BODY\<close>: a wrong length or a failed read leaves the loop; then the rest of the case.\<close>

definition READ_BODY ::
  "nat \<Rightarrow> rxHeader \<Rightarrow> int \<Rightarrow> (bytes \<Rightarrow> 'd svc \<Rightarrow> (bool \<times> 'd svc) option) \<Rightarrow> 'd svc \<Rightarrow> (bool \<times> 'd svc) option" where
  "READ_BODY sz header fd k s =
     (if header_size header \<noteq> of_nat sz then Some (False, s)
      else Option.bind (recv_msg fd sz s)
        (\<lambda>((ret, b), s). if ret \<noteq> SCARD_S_SUCCESS then Some (False, s) else k b s))"

text \<open>\<^verbatim>\<open>WRITE_BODY\<close> and the test of \<^verbatim>\<open>ret\<close> at the end of the loop.\<close>

definition WRITE_BODY :: "int \<Rightarrow> bytes \<Rightarrow> 'd svc \<Rightarrow> (bool \<times> 'd svc) option" where
  "WRITE_BODY fd b s = map_option (\<lambda>(ret, s). (ret = SCARD_S_SUCCESS, s)) (send_msg fd b s)"

section \<open>Signals and reader states\<close>

definition MSGSignalClient :: "int \<Rightarrow> LONG \<Rightarrow> 'd svc \<Rightarrow> (LONG \<times> 'd svc) option" where
  "MSGSignalClient fd rv s =
     send_msg fd (wait_reader_state_change_image \<lparr>wa_timeOut = 0, wa_rv = word_of_int rv\<rparr>) s"

text \<open>
  The memory image of a \<^verbatim>\<open>READER_STATE\<close> (184 bytes): the name in its array of 128 characters, three
  words, the 33 bytes of the ATR and the three bytes that align the next word, two words. What
  follows the NUL of the name does not matter to its readers and is 0 here.
\<close>

definition name_array :: "string \<Rightarrow> bytes" where
  "name_array name = take MAX_READERNAME (map (\<lambda>c. of_nat (of_char c)) name @ replicate MAX_READERNAME 0)"

definition reader_state_image :: "READER_STATE \<Rightarrow> bytes" where
  "reader_state_image r =
     name_array (readerName r) @ image [eventCounter r, rsState r, word_of_int (readerSharing r)] @
     map (atr_memory r) [0..<36] @ image [cardAtrLength r, cardProtocol r]"

fun send_each :: "int \<Rightarrow> bytes list \<Rightarrow> LONG \<Rightarrow> 'd svc \<Rightarrow> (LONG \<times> 'd svc) option" where
  "send_each fd [] ret s = Some (ret, s)"
| "send_each fd (b # bs) ret s = Option.bind (send_msg fd b s) (\<lambda>(ret, s). send_each fd bs ret s)"

definition MSGSendReaderStates :: "int \<Rightarrow> bool \<Rightarrow> 'd svc \<Rightarrow> (LONG \<times> 'd svc) option" where
  "MSGSendReaderStates fd old_api s =
     (let states = map (\<lambda>r. reader_state_image (readerState r)) (sReadersContexts (daemon s));
          states = (if old_api
            then take PCSCLITE_MAX_READERS_CONTEXTS states @
                 replicate (PCSCLITE_MAX_READERS_CONTEXTS - length states) (replicate 184 0)
            else states)
      in send_each fd states SCARD_S_SUCCESS s)"

section \<open>Commands without a body\<close>

definition cmd_version :: "nat \<Rightarrow> rxHeader \<Rightarrow> int \<Rightarrow> 'd svc \<Rightarrow> (bool \<times> 'd svc) option" where
  "cmd_version c header fd = READ_BODY 12 header fd (\<lambda>b s.
     let veStr = version_struct_at b; major = sint (ve_major veStr); minor = sint (ve_minor veStr);
         mismatch = (major \<noteq> PROTOCOL_VERSION_MAJOR \<or> minor \<noteq> PROTOCOL_VERSION_MINOR);
         backward = (PROTOCOL_VERSION_MAJOR = major \<and> minor \<ge> PROTOCOL_VERSION_MINOR_SERVER_BACKWARD \<and>
           minor < PROTOCOL_VERSION_MINOR);
         s = (if mismatch \<and> backward then s\<lparr>oldApi := (oldApi s)(c := True)\<rparr> else s)
     in WRITE_BODY fd (version_struct_image \<lparr>ve_major = word_of_int PROTOCOL_VERSION_MAJOR,
          ve_minor = word_of_int PROTOCOL_VERSION_MINOR,
          ve_rv = (if mismatch \<and> \<not> backward then word_of_int SCARD_E_SERVICE_STOPPED
                   else word_of_int SCARD_S_SUCCESS)\<rparr>) s)"

definition wait_readers :: "'d others \<Rightarrow> 'd svc \<Rightarrow> 'd svc option" where
  "wait_readers others s = map_option (\<lambda>w. s\<lparr>daemon := w\<rparr>) (RFWaitForReaderInit others (daemon s))"

definition cmd_get_readers_state :: "'d others \<Rightarrow> bool \<Rightarrow> int \<Rightarrow> 'd svc \<Rightarrow> (bool \<times> 'd svc) option" where
  "cmd_get_readers_state others old_api fd s =
     Option.bind (wait_readers others s) (\<lambda>s. map_option (\<lambda>(_, s). (True, s)) (MSGSendReaderStates fd old_api s))"

definition cmd_wait_reader_state_change :: "'d others \<Rightarrow> nat \<Rightarrow> int \<Rightarrow> 'd svc \<Rightarrow> (bool \<times> 'd svc) option" where
  "cmd_wait_reader_state_change others c fd s =
     Option.bind (wait_readers others s) (\<lambda>s.
       let s = s\<lparr>daemon := snd (EHRegisterClientForEvent fd (daemon s))\<rparr> in
       if oldApi s c then map_option (\<lambda>(_, s). (True, s)) (MSGSendReaderStates fd True s) else Some (True, s))"

definition cmd_stop_waiting :: "int \<Rightarrow> 'd svc \<Rightarrow> (bool \<times> 'd svc) option" where
  "cmd_stop_waiting fd s =
     (case EHUnregisterClientForEvent fd (daemon s) of (rv, w) \<Rightarrow>
        let s = s\<lparr>daemon := w\<rparr> in
        if rv \<noteq> SCARD_F_INTERNAL_ERROR
        then WRITE_BODY fd (wait_reader_state_change_image \<lparr>wa_timeOut = 0, wa_rv = word_of_int rv\<rparr>) s
        else Some (True, s))"

definition cmd_get_reader_events :: "int \<Rightarrow> 'd svc \<Rightarrow> (bool \<times> 'd svc) option" where
  "cmd_get_reader_events fd s =
     WRITE_BODY fd (get_reader_events_image \<lparr>ge_readerEvents = word_of_int (ReaderEvents (daemon s)),
       ge_rv = word_of_int SCARD_S_SUCCESS\<rparr>) s"

definition cmd_get_readers_state_size :: "int \<Rightarrow> 'd svc \<Rightarrow> (bool \<times> 'd svc) option" where
  "cmd_get_readers_state_size fd s =
     map_option (\<lambda>(_, s). (True, s)) (send_msg fd (le32 (of_nat (pcsclite_max_reader_context (daemon s)))) s)"

section \<open>Contexts\<close>

text \<open>A context number is the next random number; \<open>None\<close> when none is given.\<close>

definition scard_establish_context :: "nat \<Rightarrow> rxHeader \<Rightarrow> int \<Rightarrow> 'd svc \<Rightarrow> (bool \<times> 'd svc) option" where
  "scard_establish_context c header fd = READ_BODY 12 header fd (\<lambda>b s.
     let esStr = establish_struct_at b;
         (rv, hCtx) = SCardEstablishContext (ucast (es_dwScope esStr))
           (case randoms (daemon s) of [] \<Rightarrow> 0 | randomInt # _ \<Rightarrow> randomInt);
         esStr = esStr\<lparr>es_rv := word_of_int rv, es_hContext := word_of_int hCtx\<rparr>
     in if rv \<noteq> SCARD_S_SUCCESS then WRITE_BODY fd (establish_struct_image esStr) s
        else if randoms (daemon s) = [] then None
        else case MSGAddContext (es_hContext esStr) c (s\<lparr>daemon := (daemon s)\<lparr>randoms := tl (randoms (daemon s))\<rparr>\<rparr>) of
          (rv, s) \<Rightarrow> WRITE_BODY fd (establish_struct_image (esStr\<lparr>es_rv := word_of_int rv\<rparr>)) s)"

definition scard_release_context :: "nat \<Rightarrow> rxHeader \<Rightarrow> int \<Rightarrow> 'd svc \<Rightarrow> (bool \<times> 'd svc) option" where
  "scard_release_context c header fd = READ_BODY 8 header fd (\<lambda>b s.
     let reStr = release_struct_at b; rv = SCardReleaseContext (uint (re_hContext reStr)) in
     Option.bind (if rv = SCARD_S_SUCCESS then MSGRemoveContext (uint (re_hContext reStr)) c s else Some (rv, s))
       (\<lambda>(rv, s). WRITE_BODY fd (release_struct_image (reStr\<lparr>re_rv := word_of_int rv\<rparr>)) s))"

section \<open>Connections\<close>

text \<open>The string in an array of characters that ends with a NUL.\<close>

definition c_string :: "bytes \<Rightarrow> string" where
  "c_string b = map (\<lambda>x. char_of (unat x)) (takeWhile (\<lambda>x. x \<noteq> 0) b)"

text \<open>Storing the handle, or disconnecting when that fails.\<close>

definition store_handle :: "connect_struct \<Rightarrow> nat \<Rightarrow> 'd svc \<Rightarrow> (u32 \<times> 'd svc) option" where
  "store_handle coStr c s =
     (if co_rv coStr = 0 then
        (case MSGAddHandle (uint (co_hContext coStr)) (sint (co_hCard coStr)) c s of (rv, s) \<Rightarrow>
           if (word_of_int rv :: u32) \<noteq> 0
           then map_option (\<lambda>(_, w). (word_of_int rv, s\<lparr>daemon := w\<rparr>))
                  (SCardDisconnect [] (sint (co_hCard coStr)) SCARD_LEAVE_CARD (daemon s))
           else Some (word_of_int rv, s))
      else Some (co_rv coStr, s))"

text \<open>The call, for an authorized client; the members it sets.\<close>

definition connect_call ::
  "'d others \<Rightarrow> int \<Rightarrow> connect_struct \<Rightarrow> 'd svc \<Rightarrow> ((LONG \<times> SCARDHANDLE \<times> DWORD) \<times> 'd svc) option" where
  "connect_call others fd coStr s =
     (let szReader = c_string (co_szReader coStr) in
      if \<not> IsClientAuthorized fd ''access_card'' (Some szReader) s
      then Some ((SCARD_W_SECURITY_VIOLATION, - 1, - 1), s)
      else map_option (\<lambda>(res, w). (res, s\<lparr>daemon := w\<rparr>))
             (SCardConnect others szReader (ucast (co_dwShareMode coStr)) (ucast (co_dwPreferredProtocols coStr))
               (ucast (co_dwActiveProtocol coStr)) (daemon s)))"

definition connect_result :: "connect_struct \<Rightarrow> LONG \<times> SCARDHANDLE \<times> DWORD \<Rightarrow> connect_struct" where
  "connect_result coStr res =
     (case res of (rv, h, dwActiveProtocol) \<Rightarrow>
        coStr\<lparr>co_rv := word_of_int rv, co_hCard := word_of_int h, co_dwActiveProtocol := ucast dwActiveProtocol\<rparr>)"

definition scard_connect :: "'d others \<Rightarrow> nat \<Rightarrow> rxHeader \<Rightarrow> int \<Rightarrow> 'd svc \<Rightarrow> (bool \<times> 'd svc) option" where
  "scard_connect others c header fd = READ_BODY 152 header fd (\<lambda>b s.
     let coStr = connect_struct_at b; coStr = coStr\<lparr>co_szReader := (co_szReader coStr)[127 := 0]\<rparr> in
     Option.bind (connect_call others fd coStr s) (\<lambda>(res, s).
       let coStr = connect_result coStr res in
       Option.bind (store_handle coStr c s) (\<lambda>(rv, s).
         WRITE_BODY fd (connect_struct_image (coStr\<lparr>co_rv := rv\<rparr>)) s)))"

definition scard_reconnect :: "nat \<Rightarrow> rxHeader \<Rightarrow> int \<Rightarrow> 'd svc \<Rightarrow> (bool \<times> 'd svc) option" where
  "scard_reconnect c header fd = READ_BODY 24 header fd (\<lambda>b s.
     let rcStr = reconnect_struct_at b; h = sint (rc_hCard rcStr) in
     if MSGCheckHandleAssociation h c s \<noteq> 0 then Some (False, s)
     else case SCardReconnect h (ucast (rc_dwShareMode rcStr)) (ucast (rc_dwPreferredProtocols rcStr))
            (ucast (rc_dwInitialization rcStr)) SCARD_PROTOCOL_UNDEFINED (daemon s) of
       ((rv, dwActiveProtocol), w) \<Rightarrow>
         WRITE_BODY fd (reconnect_struct_image (rcStr\<lparr>rc_rv := word_of_int rv,
           rc_dwActiveProtocol := ucast dwActiveProtocol\<rparr>)) (s\<lparr>daemon := w\<rparr>))"

definition scard_disconnect :: "'d others \<Rightarrow> nat \<Rightarrow> rxHeader \<Rightarrow> int \<Rightarrow> 'd svc \<Rightarrow> (bool \<times> 'd svc) option" where
  "scard_disconnect others c header fd = READ_BODY 12 header fd (\<lambda>b s.
     let diStr = disconnect_struct_at b; h = sint (di_hCard diStr) in
     if MSGCheckHandleAssociation h c s \<noteq> 0 then Some (False, s)
     else Option.bind (SCardDisconnect others h (ucast (di_dwDisposition diStr)) (daemon s)) (\<lambda>(rv, w).
       let s = s\<lparr>daemon := w\<rparr> in
       case (if (word_of_int rv :: u32) = 0 then MSGRemoveHandle h c s else (rv, s)) of (rv, s) \<Rightarrow>
         WRITE_BODY fd (disconnect_struct_image (diStr\<lparr>di_rv := word_of_int rv\<rparr>)) s))"

section \<open>Transactions, cancellation, status\<close>

definition scard_begin_transaction :: "nat \<Rightarrow> rxHeader \<Rightarrow> int \<Rightarrow> 'd svc \<Rightarrow> (bool \<times> 'd svc) option" where
  "scard_begin_transaction c header fd = READ_BODY 8 header fd (\<lambda>b s.
     let beStr = begin_struct_at b; h = sint (be_hCard beStr) in
     if MSGCheckHandleAssociation h c s \<noteq> 0 then Some (False, s)
     else case SCardBeginTransaction h (daemon s) of (rv, w) \<Rightarrow>
       WRITE_BODY fd (begin_struct_image (beStr\<lparr>be_rv := word_of_int rv\<rparr>)) (s\<lparr>daemon := w\<rparr>))"

definition scard_end_transaction :: "nat \<Rightarrow> rxHeader \<Rightarrow> int \<Rightarrow> 'd svc \<Rightarrow> (bool \<times> 'd svc) option" where
  "scard_end_transaction c header fd = READ_BODY 12 header fd (\<lambda>b s.
     let enStr = end_struct_at b; h = sint (en_hCard enStr) in
     if MSGCheckHandleAssociation h c s \<noteq> 0 then Some (False, s)
     else case SCardEndTransaction h (ucast (en_dwDisposition enStr)) (daemon s) of (rv, w) \<Rightarrow>
       WRITE_BODY fd (end_struct_image (enStr\<lparr>en_rv := word_of_int rv\<rparr>)) (s\<lparr>daemon := w\<rparr>))"

definition scard_cancel :: "rxHeader \<Rightarrow> int \<Rightarrow> 'd svc \<Rightarrow> (bool \<times> 'd svc) option" where
  "scard_cancel header fd = READ_BODY 8 header fd (\<lambda>b s.
     let caStr = cancel_struct_at b in
     Option.bind
       (case seek_context (sint (ca_hContext caStr)) s of
          None \<Rightarrow> Some (SCARD_E_INVALID_HANDLE, s)
        | Some target \<Rightarrow>
            let fd = dwClientID (ctxMem s target) in
            (case EHUnregisterClientForEvent fd (daemon s) of (rv, w) \<Rightarrow>
               let s = s\<lparr>daemon := w\<rparr> in
               if rv = SCARD_S_SUCCESS then MSGSignalClient fd SCARD_E_CANCELLED s
               else Some (SCARD_S_SUCCESS, s)))
       (\<lambda>(rv, s). WRITE_BODY fd (cancel_struct_image (caStr\<lparr>ca_rv := word_of_int rv\<rparr>)) s))"

definition scard_status :: "nat \<Rightarrow> rxHeader \<Rightarrow> int \<Rightarrow> 'd svc \<Rightarrow> (bool \<times> 'd svc) option" where
  "scard_status c header fd = READ_BODY 8 header fd (\<lambda>b s.
     let stStr = status_struct_at b; h = sint (st_hCard stStr) in
     if MSGCheckHandleAssociation h c s \<noteq> 0 then Some (False, s)
     else case SCardStatus h (daemon s) of (rv, w) \<Rightarrow>
       WRITE_BODY fd (status_struct_image (stStr\<lparr>st_rv := word_of_int rv\<rparr>)) (s\<lparr>daemon := w\<rparr>))"

section \<open>Transmission and control\<close>

text \<open>The first \<open>n\<close> bytes of a buffer on the stack into which the driver wrote \<open>b\<close>.\<close>

definition buffer_bytes :: "'d svc \<Rightarrow> bytes \<Rightarrow> nat \<Rightarrow> bytes" where
  "buffer_bytes s b n = map (\<lambda>k. if k < length b then b ! k else stack s k) [0..<n]"

text \<open>The answer, and the data after it when the call succeeded.\<close>

definition write_answer :: "int \<Rightarrow> u32 \<Rightarrow> bytes \<Rightarrow> bytes \<Rightarrow> 'd svc \<Rightarrow> (bool \<times> 'd svc) option" where
  "write_answer fd rv b data s =
     Option.bind (send_msg fd b s) (\<lambda>(ret, s).
       if rv = 0 then WRITE_BODY fd data s else Some (ret = SCARD_S_SUCCESS, s))"

definition scard_transmit :: "nat \<Rightarrow> rxHeader \<Rightarrow> int \<Rightarrow> 'd svc \<Rightarrow> (bool \<times> 'd svc) option" where
  "scard_transmit c header fd = READ_BODY 32 header fd (\<lambda>b s.
     let trStr = transmit_struct_at b; h = sint (tr_hCard trStr) in
     if MSGCheckHandleAssociation h c s \<noteq> 0 then Some (False, s)
     else if unat (tr_cbSendLength trStr) > MAX_BUFFER_SIZE_EXTENDED then Some (False, s)
     else Option.bind (recv_msg fd (unat (tr_cbSendLength trStr)) s) (\<lambda>((ret, pbSendBuffer), s).
       if ret \<noteq> SCARD_S_SUCCESS then Some (False, s)
       else case SCardTransmit h
              \<lparr>ioProtocol = ucast (tr_ioSendPciProtocol trStr), ioLength = ucast (tr_ioSendPciLength trStr)\<rparr>
              pbSendBuffer
              \<lparr>ioProtocol = ucast (tr_ioRecvPciProtocol trStr), ioLength = ucast (tr_ioRecvPciLength trStr)\<rparr>
              (of_nat MAX_BUFFER_SIZE_EXTENDED) (daemon s) of
         ((rv, pbRecvBuffer, cbRecvLength, ioRecvPci), w) \<Rightarrow>
           let rv = (if cbRecvLength > ucast (tr_pcbRecvLength trStr) then SCARD_E_INSUFFICIENT_BUFFER else rv);
               trStr = trStr\<lparr>tr_rv := word_of_int rv, tr_ioRecvPciProtocol := ucast (ioProtocol ioRecvPci),
                 tr_ioRecvPciLength := ucast (ioLength ioRecvPci), tr_pcbRecvLength := ucast cbRecvLength\<rparr>
           in write_answer fd (tr_rv trStr) (transmit_struct_image trStr)
                (buffer_bytes s pbRecvBuffer (unat cbRecvLength)) (s\<lparr>daemon := w\<rparr>)))"

definition scard_control :: "nat \<Rightarrow> rxHeader \<Rightarrow> int \<Rightarrow> 'd svc \<Rightarrow> (bool \<times> 'd svc) option" where
  "scard_control c header fd = READ_BODY 24 header fd (\<lambda>b s.
     let ctStr = control_struct_at b; h = sint (ct_hCard ctStr) in
     if MSGCheckHandleAssociation h c s \<noteq> 0 then Some (False, s)
     else if unat (ct_cbSendLength ctStr) > MAX_BUFFER_SIZE_EXTENDED then Some (False, s)
     else Option.bind (recv_msg fd (unat (ct_cbSendLength ctStr)) s) (\<lambda>((ret, pbSendBuffer), s).
       if ret \<noteq> SCARD_S_SUCCESS then Some (False, s)
       else case SCardControl h (ucast (ct_dwControlCode ctStr)) pbSendBuffer
              (of_nat MAX_BUFFER_SIZE_EXTENDED) (daemon s) of
         ((rv, pbRecvBuffer, dwBytesReturned), w) \<Rightarrow>
           let rv = (if dwBytesReturned > ucast (ct_cbRecvLength ctStr) then SCARD_E_INSUFFICIENT_BUFFER else rv);
               ctStr = ctStr\<lparr>ct_rv := word_of_int rv, ct_dwBytesReturned := ucast dwBytesReturned\<rparr>
           in write_answer fd (ct_rv ctStr) (control_struct_image ctStr)
                (buffer_bytes s pbRecvBuffer (unat dwBytesReturned)) (s\<lparr>daemon := w\<rparr>)))"

section \<open>Attributes\<close>

text \<open>The array of the message after the call wrote into its beginning.\<close>

definition overwrite :: "bytes \<Rightarrow> bytes \<Rightarrow> bytes" where
  "overwrite new old = take (length old) new @ drop (length new) old"

definition scard_get_attrib :: "nat \<Rightarrow> rxHeader \<Rightarrow> int \<Rightarrow> 'd svc \<Rightarrow> (bool \<times> 'd svc) option" where
  "scard_get_attrib c header fd = READ_BODY 280 header fd (\<lambda>b s.
     let gsStr = getset_struct_at b; h = sint (gs_hCard gsStr) in
     if MSGCheckHandleAssociation h c s \<noteq> 0 then Some (False, s)
     else if unat (gs_cbAttrLen gsStr) > MAX_BUFFER_SIZE then Some (False, s)
     else case SCardGetAttrib h (ucast (gs_dwAttrId gsStr)) (ucast (gs_cbAttrLen gsStr)) (daemon s) of
       ((rv, attr, cbAttrLen), w) \<Rightarrow>
         WRITE_BODY fd (getset_struct_image (gsStr\<lparr>gs_pbAttr := overwrite attr (gs_pbAttr gsStr),
           gs_cbAttrLen := ucast cbAttrLen, gs_rv := word_of_int rv\<rparr>)) (s\<lparr>daemon := w\<rparr>))"

definition scard_set_attrib :: "nat \<Rightarrow> rxHeader \<Rightarrow> int \<Rightarrow> 'd svc \<Rightarrow> (bool \<times> 'd svc) option" where
  "scard_set_attrib c header fd = READ_BODY 280 header fd (\<lambda>b s.
     let gsStr = getset_struct_at b; h = sint (gs_hCard gsStr) in
     if MSGCheckHandleAssociation h c s \<noteq> 0 then Some (False, s)
     else if unat (gs_cbAttrLen gsStr) > MAX_BUFFER_SIZE then Some (False, s)
     else case SCardSetAttrib h (ucast (gs_dwAttrId gsStr)) (take (unat (gs_cbAttrLen gsStr)) (gs_pbAttr gsStr))
            (daemon s) of (rv, w) \<Rightarrow>
       WRITE_BODY fd (getset_struct_image (gsStr\<lparr>gs_rv := word_of_int rv\<rparr>)) (s\<lparr>daemon := w\<rparr>))"

section \<open>The loop of the thread\<close>

definition dispatch ::
  "'d others \<Rightarrow> nat \<Rightarrow> int \<Rightarrow> rxHeader \<Rightarrow> 'd svc \<Rightarrow> (bool \<times> 'd svc) option" where
  "dispatch others c fd header s =
     (case command_of (header_command header) of
        None \<Rightarrow> Some (False, s)
      | Some command \<Rightarrow> (case command of
            CMD_VERSION \<Rightarrow> cmd_version c header fd s
          | CMD_GET_READERS_STATE \<Rightarrow> cmd_get_readers_state others True fd s
          | CMD_WAIT_READER_STATE_CHANGE \<Rightarrow> cmd_wait_reader_state_change others c fd s
          | CMD_STOP_WAITING_READER_STATE_CHANGE \<Rightarrow> cmd_stop_waiting fd s
          | CMD_GET_READER_EVENTS \<Rightarrow> cmd_get_reader_events fd s
          | CMD_GET_READERS_STATE_SIZE \<Rightarrow> cmd_get_readers_state_size fd s
          | CMD_GET_READERS_STATE_ARRAY \<Rightarrow> cmd_get_readers_state others False fd s
          | SCARD_ESTABLISH_CONTEXT \<Rightarrow> scard_establish_context c header fd s
          | SCARD_RELEASE_CONTEXT \<Rightarrow> scard_release_context c header fd s
          | SCARD_CONNECT \<Rightarrow> scard_connect others c header fd s
          | SCARD_RECONNECT \<Rightarrow> scard_reconnect c header fd s
          | SCARD_DISCONNECT \<Rightarrow> scard_disconnect others c header fd s
          | SCARD_BEGIN_TRANSACTION \<Rightarrow> scard_begin_transaction c header fd s
          | SCARD_END_TRANSACTION \<Rightarrow> scard_end_transaction c header fd s
          | SCARD_CANCEL \<Rightarrow> scard_cancel header fd s
          | SCARD_STATUS \<Rightarrow> scard_status c header fd s
          | SCARD_TRANSMIT \<Rightarrow> scard_transmit c header fd s
          | SCARD_CONTROL \<Rightarrow> scard_control c header fd s
          | SCARD_GET_ATTRIB \<Rightarrow> scard_get_attrib c header fd s
          | SCARD_SET_ATTRIB \<Rightarrow> scard_set_attrib c header fd s
          | _ \<Rightarrow> Some (False, s)))"

text \<open>The label \<^verbatim>\<open>exit\<close>.\<close>

definition thread_exit :: "nat \<Rightarrow> int \<Rightarrow> 'd svc \<Rightarrow> (bool \<times> 'd svc) option" where
  "thread_exit c fd s = map_option (\<lambda>s. (False, s)) (MSGCleanupClient c (s\<lparr>closedFds := closedFds s @ [fd]\<rparr>))"

text \<open>One round of the loop: receive a header and execute the command.\<close>

definition ContextThread_step :: "'d others \<Rightarrow> nat \<Rightarrow> 'd svc \<Rightarrow> (bool \<times> 'd svc) option" where
  "ContextThread_step others c s =
     (let fd = dwClientID (ctxMem s c) in
      Option.bind (recv_msg fd 8 s) (\<lambda>((ret, b), s).
        if ret \<noteq> SCARD_S_SUCCESS
        then thread_exit c fd (s\<lparr>daemon := snd (EHTryToUnregisterClientForEvent fd (daemon s))\<rparr>)
        else Option.bind (dispatch others c fd (rxHeader_at b) s)
          (\<lambda>(continue, s). if continue then Some (True, s) else thread_exit c fd s)))"

text \<open>The whole thread: authorization, then rounds; \<open>others\<close> gives what the others do in each round.\<close>

fun thread_rounds :: "'d others list \<Rightarrow> nat \<Rightarrow> 'd svc \<Rightarrow> (bool \<times> 'd svc) option" where
  "thread_rounds [] c s = Some (True, s)"
| "thread_rounds (others # rounds) c s =
     Option.bind (ContextThread_step others c s)
       (\<lambda>(continue, s). if continue then thread_rounds rounds c s else Some (False, s))"

definition ContextThread :: "'d others list \<Rightarrow> nat \<Rightarrow> 'd svc \<Rightarrow> (bool \<times> 'd svc) option" where
  "ContextThread rounds c s =
     (let fd = dwClientID (ctxMem s c) in
      if \<not> IsClientAuthorized fd ''access_pcsc'' None s then thread_exit c fd s
      else thread_rounds rounds c s)"

end
