(* ===== verification/Winscard_Spares.thy ===== *)
theory Winscard_Spares
  imports Winscard_Effects
begin

text \<open>
  What a call on behalf of one client leaves to the others: the calls that work through the
  handles \<open>H\<close> disconnect no other handle and take no lock away from another connected one.
\<close>

definition spares_reader :: "SCARDHANDLE set \<Rightarrow> 'd READER_CONTEXT \<Rightarrow> 'd READER_CONTEXT \<Rightarrow> bool" where
  "spares_reader H r r' =
     (set (handles r) - H \<subseteq> set (handles r') \<and>
      (hLockId r \<noteq> 0 \<and> hLockId r \<in> set (handles r) - H \<longrightarrow> hLockId r' = hLockId r))"

definition spares :: "SCARDHANDLE set \<Rightarrow> 'd pcscd \<Rightarrow> 'd pcscd \<Rightarrow> bool" where
  "spares H w w' =
     (length (sReadersContexts w') = length (sReadersContexts w) \<and>
      (\<forall>j < length (sReadersContexts w). active (rdr w j) \<longrightarrow>
         active (rdr w' j) \<and> spares_reader H (rdr w j) (rdr w' j)))"

lemma spares_reader_refl [simp]: "spares_reader H r r"
  by (simp add: spares_reader_def)

lemma spares_refl [simp]: "spares H w w"
  by (simp add: spares_def)

lemma spares_reader_trans: "spares_reader H r r' \<Longrightarrow> spares_reader H r' r'' \<Longrightarrow> spares_reader H r r''"
  by (auto simp: spares_reader_def)

lemma spares_trans: "spares H w w' \<Longrightarrow> spares H w' w'' \<Longrightarrow> spares H w w''"
  by (auto simp: spares_def intro: spares_reader_trans)

lemma spares_mono: "spares H w w' \<Longrightarrow> H \<subseteq> H' \<Longrightarrow> spares H' w w'"
  by (auto simp: spares_def spares_reader_def)

lemma spares_fresh:
  assumes "spares A w w1" "spares (A \<union> N) w1 w2" "N \<inter> all_handles w = {}"
  shows "spares A w w2"
proof -
  have "spares_reader A (rdr w j) (rdr w2 j)" if "j < length (sReadersContexts w)" "active (rdr w j)" for j
  proof -
    have 1: "spares_reader A (rdr w j) (rdr w1 j)" and 2: "spares_reader (A \<union> N) (rdr w1 j) (rdr w2 j)"
      using assms(1,2) that by (auto simp: spares_def)
    have n: "set (handles (rdr w j)) \<inter> N = {}" using assms(3) that by (auto simp: all_handles_def)
    have "set (handles (rdr w j)) - A \<subseteq> set (handles (rdr w1 j)) - (A \<union> N)"
      using 1 n by (auto simp: spares_reader_def)
    then have "hLockId (rdr w2 j) = hLockId (rdr w j)"
      if "hLockId (rdr w j) \<noteq> 0" "hLockId (rdr w j) \<in> set (handles (rdr w j)) - A"
      using that 1 2 unfolding spares_reader_def by (metis subsetD)
    moreover have "set (handles (rdr w j)) - A \<subseteq> set (handles (rdr w2 j))"
      using \<open>_ \<subseteq> set (handles (rdr w1 j)) - (A \<union> N)\<close> 2 by (auto simp: spares_reader_def)
    ultimately show ?thesis by (simp add: spares_reader_def)
  qed
  with assms(1,2) show ?thesis by (simp add: spares_def)
qed

lemma spares_cong: "sReadersContexts w' = sReadersContexts w \<Longrightarrow> spares H w w'"
  by (simp add: spares_def rdr_def)

lemma spares_step:
  assumes "reader_step i K w w'" "spares_reader H (rdr w i) (rdr w' i)"
  shows "spares H w w'"
proof -
  have "active (rdr w' j)" "spares_reader H (rdr w j) (rdr w' j)" if "active (rdr w j)" for j
    using assms that by (cases "j = i"; auto simp: reader_step_def active_def)+
  with assms(1) show ?thesis by (simp add: spares_def reader_step_def)
qed

lemma spares_reader_frame:
  assumes "handlesList r' = handlesList r" "hLockId r' = hLockId r"
  shows "spares_reader H r r'"
  using assms by (simp add: spares_reader_def handles_def)

lemma spares_reader_reference [simp]:
  "spares_reader H (r\<lparr>reference := n\<rparr>) r' = spares_reader H r r'"
  "spares_reader H r (r'\<lparr>reference := n\<rparr>) = spares_reader H r r'"
  by (simp_all add: spares_reader_def handles_def)

text \<open>The calls that work through \<open>by_handle\<close>.\<close>

lemma by_handle_spares:
  fixes w :: "'d pcscd"
  assumes "pcscd_ok w"
    and "\<And>i v. i < length (sReadersContexts v) \<Longrightarrow> h \<in> set (handles (rdr v i)) \<Longrightarrow> reader_step i {} v (snd (body i v))"
    and "\<And>i v. i < length (sReadersContexts v) \<Longrightarrow> sharing_ok (rdr v i) \<Longrightarrow>
      spares_reader {h} (rdr v i) (rdr (snd (body i v)) i)"
  shows "spares {h} w (snd (by_handle h fail body w))"
proof (cases "RFReaderInfoById h w")
  case (Pair q w1)
  show ?thesis
  proof (cases q)
    case (Inl rv)
    with Pair have "by_handle h fail body w = (fail rv, w1)" by (simp add: by_handle_def)
    with RFReaderInfoById_not_found(2) [of h w rv w1] Pair Inl assms(1) show ?thesis by simp
  next
    case (Inr i)
    with Pair have f: "RFReaderInfoById h w = (Inr i, w1)" by simp
    note ff = RFReaderInfoById_found [OF f assms(1)]
    have i1: "i < length (sReadersContexts w1)" "h \<in> set (handles (rdr w1 i))" "sharing_ok (rdr w1 i)"
      using ff pcscd_ok_reader [OF assms(1) ff(1,2)] by (auto simp: handles_def reader_ok_def reader_ok_reference)
    note u = reader_step_ref_unref [OF f assms(1) assms(2) [OF i1(1,2)]]
    have "snd (by_handle h fail body w) = snd (UnrefReader i (snd (body i w1)))"
      using f by (simp add: by_handle_def split_beta)
    moreover have "spares_reader {h} (rdr w i) (rdr (snd (UnrefReader i (snd (body i w1)))) i)"
      using assms(3) [OF i1(1,3)] ff(1) unfolding u(2) by (simp add: ff(4))
    ultimately show ?thesis using spares_step [OF u(1)] by simp
  qed
qed

lemma RFSetReaderEventState_spares:
  "handles_ok (handlesList r) \<Longrightarrow> handles (RFSetReaderEventState ev r) = handles r"
  "hLockId (RFSetReaderEventState SCARD_RESET r) = hLockId r"
  using RFSetReaderEventState_entries [of r ev]
  by (auto simp: handles_def comp_def RFSetReaderEventState_frame)

lemma lock_ops_spare:
  "spares_reader {h} r (snd (RFLockSharing h r))" "spares_reader {h} r (snd (RFUnlockSharing h r))"
  "spares_reader {h} r (snd (RFUnlockAllSharing h r))"
  by (auto simp: RFLockSharing_def RFUnlockSharing_def RFUnlockAllSharing_def RFCheckSharing_def Let_def
      spares_reader_def handles_def)

lemma SCardBeginTransaction_spares: "pcscd_ok w \<Longrightarrow> spares {h} w (snd (SCardBeginTransaction h w))"
  unfolding SCardBeginTransaction_def begin_body_def
  by (auto simp: Let_def split_beta lock_ops_spare intro!: by_handle_spares reader_step_set_rdr)

lemma SCardStatus_spares: "pcscd_ok w \<Longrightarrow> spares {h} w (snd (SCardStatus h w))"
  unfolding SCardStatus_def status_body_def
  by (auto simp: Let_def intro!: by_handle_spares)

lemma SCardControl_spares: "pcscd_ok w \<Longrightarrow> spares {h} w (snd (SCardControl h code send len w))"
  unfolding SCardControl_def control_body_def
  by (auto simp: Let_def intro!: by_handle_spares)

lemma SCardGetAttrib_spares: "pcscd_ok w \<Longrightarrow> spares {h} w (snd (SCardGetAttrib h a len w))"
  unfolding SCardGetAttrib_def get_attrib_body_def
  by (auto simp: Let_def split_beta intro!: by_handle_spares)

lemma SCardSetAttrib_spares: "pcscd_ok w \<Longrightarrow> spares {h} w (snd (SCardSetAttrib h a attr w))"
  unfolding SCardSetAttrib_def set_attrib_body_def
  by (auto simp: Let_def split_beta intro!: by_handle_spares)

lemma transmit_body_frame:
  assumes "i < length (sReadersContexts w)"
  shows "handlesList (rdr (snd (transmit_body h p send q len i w)) i) = handlesList (rdr w i)"
    and "hLockId (rdr (snd (transmit_body h p send q len i w)) i) = hLockId (rdr w i)"
  using assms by (auto simp: transmit_body_def Let_def split_beta)

lemma SCardTransmit_spares: "pcscd_ok w \<Longrightarrow> spares {h} w (snd (SCardTransmit h p send q len w))"
  unfolding SCardTransmit_def
  by (auto intro!: by_handle_spares transmit_body_step spares_reader_frame simp: transmit_body_frame)

lemma end_body_spares:
  assumes "i < length (sReadersContexts w)" "sharing_ok (rdr w i)"
  shows "spares_reader {h} (rdr w i) (rdr (snd (end_body h d i w)) i)"
proof (cases "RFCheckReaderEventState (rdr w i) h \<noteq> 0 \<or>
    d \<noteq> SCARD_LEAVE_CARD \<and> hLockId (rdr w i) \<noteq> 0 \<and> hLockId (rdr w i) \<noteq> h")
  case True
  then show ?thesis by (auto simp: end_body_def Let_def)
next
  case False
  let ?w1 = "snd (end_transaction_card d i w)"
  have ok: "handles_ok (handlesList (rdr w i))" using assms(2) by (simp add: sharing_ok_def)
  have "handles (rdr ?w1 i) = handles (rdr w i) \<and> hLockId (rdr ?w1 i) = hLockId (rdr w i)"
    using assms(1) ok
    by (auto simp: end_transaction_card_def reset_card_def eject_card_def Let_def split_beta
        RFSetReaderEventState_spares)
  then have 1: "spares_reader {h} (rdr w i) (rdr ?w1 i)" by (simp add: spares_reader_def)
  have i1: "i < length (sReadersContexts ?w1)"
    using end_transaction_card_step [OF assms(1), of d] assms(1) by (simp add: reader_step_length)
  have "rdr (snd (end_body h d i w)) i = snd (RFUnlockSharing h (rdr ?w1 i))"
    using False i1 by (auto simp: end_body_def Let_def split_beta)
  with spares_reader_trans [OF 1 lock_ops_spare(2)] show ?thesis by simp
qed

lemma end_body_step:
  "i < length (sReadersContexts w) \<Longrightarrow> reader_step i {} w (snd (end_body h d i w))"
  unfolding end_body_def
  by (auto simp: Let_def split_beta
      intro!: reader_step_then_set_rdr end_transaction_card_step)

lemma SCardEndTransaction_spares: "pcscd_ok w \<Longrightarrow> spares {h} w (snd (SCardEndTransaction h d w))"
  unfolding SCardEndTransaction_def
  by (auto intro!: by_handle_spares end_body_spares end_body_step)

text \<open>Reconnection: a reader locked by another client refuses it.\<close>

lemma reconnect_init_handles:
  assumes "i < length (sReadersContexts w)" "handles_ok (handlesList (rdr w i))"
  shows "handles (rdr (snd (reconnect_init ini i w)) i) = handles (rdr w i)"
    and "handles_ok (handlesList (rdr (snd (reconnect_init ini i w)) i))"
  using assms RFSetReaderEventState_entries [OF assms(2), of SCARD_RESET]
  by (auto simp: reconnect_init_def reset_card_def Let_def split_beta RFSetReaderEventState_spares)

lemma reconnect_body_handles:
  assumes "i < length (sReadersContexts w)" "handles_ok (handlesList (rdr w i))"
  shows "handles (rdr (snd (reconnect_body h share pref ini act i w)) i) = handles (rdr w i)"
proof -
  let ?w1 = "snd (reconnect_init ini i w)"
  let ?w2 = "snd (reconnect_protocol share pref i ?w1)"
  note r1 = reconnect_init_handles [OF assms, of ini]
  have i1: "i < length (sReadersContexts ?w1)"
    using reconnect_init_step [OF assms(1), of ini] assms(1) by (simp add: reader_step_length)
  have i2: "i < length (sReadersContexts ?w2)"
    using reconnect_protocol_step [OF i1, of share pref] i1 by (simp add: reader_step_length)
  have h2: "handlesList (rdr ?w2 i) = handlesList (rdr ?w1 i)"
    by (rule reconnect_protocol_frame [OF i1])
  have s1: "handles (rdr ?w2 i) = handles (rdr w i)"
    using r1 h2 by (simp add: handles_def)
  have s2: "handles (snd (reconnect_share share h (rdr ?w2 i))) = handles (rdr w i)"
    and "handles_ok (handlesList (snd (reconnect_share share h (rdr ?w2 i))))"
    using r1 h2 by (simp_all add: handles_def)
  with RFClearReaderEventState_handles [of "snd (reconnect_share share h (rdr ?w2 i))" h] r1 i2 s2 s1
  show ?thesis
    by (auto simp: reconnect_body_def Let_def split: prod.splits sum.splits)
qed

lemma SCardReconnect_spares: "pcscd_ok w \<Longrightarrow> spares {h} w (snd (SCardReconnect h share pref ini act w))"
proof -
  have "spares_reader {h} (rdr v i) (rdr (snd (reconnect_body h share pref ini act i v)) i)"
    if "i < length (sReadersContexts v)" "sharing_ok (rdr v i)" for i and v :: "'a pcscd"
  proof (cases "hLockId (rdr v i) \<noteq> 0 \<and> hLockId (rdr v i) \<noteq> h")
    case True
    then have "snd (reconnect_body h share pref ini act i v) = v"
      by (auto simp: reconnect_body_def RFCheckSharing_def Let_def)
    then show ?thesis by simp
  next
    case False
    with reconnect_body_handles [OF that(1), of h share pref ini act] that(2) show ?thesis
      by (auto simp: spares_reader_def sharing_ok_def)
  qed
  then show "pcscd_ok w \<Longrightarrow> spares {h} w (snd (SCardReconnect h share pref ini act w))"
    unfolding SCardReconnect_def by (auto intro!: by_handle_spares reconnect_body_step)
qed

section \<open>Disconnection\<close>

lemma set_remove1_others: "set xs - {h} \<subseteq> set (remove1 h xs)"
  by (induction xs) auto

text \<open>A disconnection that goes through removes the handle, and the lock if the handle owns it.\<close>

lemma disconnect_body_effect:
  assumes "i < length (sReadersContexts w)" "sharing_ok (rdr w i)" "h \<in> set (handles (rdr w i))"
    and "d = SCARD_LEAVE_CARD \<or> hLockId (rdr w i) = 0 \<or> hLockId (rdr w i) = h"
  shows "fst (disconnect_body h d i w) = SCARD_S_SUCCESS"
    and "handles (rdr (snd (disconnect_body h d i w)) i) = remove1 h (handles (rdr w i))"
    and "hLockId (rdr (snd (disconnect_body h d i w)) i) =
      (if hLockId (rdr w i) = h then 0 else hLockId (rdr w i))"
proof -
  let ?r = "snd (RFUnlockAllSharing h (rdr w i))"
  let ?w1 = "set_rdr i ?r w"
  define w2 where "w2 = (if d = SCARD_RESET_CARD \<or> d = SCARD_UNPOWER_CARD then disconnect_card d i ?w1
     else if d = SCARD_EJECT_CARD then snd (eject_card i ?w1) else ?w1)"
  let ?w3 = "upd_rdr i (disconnect_share h) w2"
  let ?w4 = "disconnect_last i ?w3"
  have i1: "i < length (sReadersContexts ?w1)" "rdr ?w1 i = ?r" using assms(1) by simp_all
  have go: "fst (RFUnlockAllSharing h (rdr w i)) = SCARD_S_SUCCESS \<or>
      fst (RFUnlockAllSharing h (rdr w i)) = SCARD_E_SHARING_VIOLATION \<and> d = SCARD_LEAVE_CARD"
    and lk: "hLockId ?r = (if hLockId (rdr w i) = h then 0 else hLockId (rdr w i))"
    using assms(4) by (auto simp: RFUnlockAllSharing_def RFCheckSharing_def Let_def)
  have sh: "sharing_ok ?r" "handles ?r = handles (rdr w i)"
    using assms(2) by (simp_all add: sharing_ok_def handles_def)
  have w2: "handles (rdr w2 i) = handles (rdr w i)" "hLockId (rdr w2 i) = hLockId ?r"
    using disconnect_card_handles(1,3) [of i ?w1 d] i1 sh
    by (auto simp: w2_def eject_card_def split_beta sharing_ok_def)
  have st: "reader_step i {} ?w1 w2"
    using disconnect_card_step [OF i1(1), of d] eject_card_step [of i ?w1] by (auto simp: w2_def)
  have i2: "i < length (sReadersContexts w2)" "sharing_ok (rdr w2 i)"
    using st i1 sh(1) by (auto simp: reader_step_def)
  have i3: "i < length (sReadersContexts ?w3)" "rdr ?w3 i = disconnect_share h (rdr w2 i)" using i2 by simp_all
  have i4: "i < length (sReadersContexts ?w4)"
    using disconnect_last_step [OF i3(1)] i3(1) by (simp add: reader_step_length)
  have hw3: "handles (rdr ?w3 i) = remove1 h (handles (rdr w i))"
    using remove_handle_keeps [OF i2(2), of h] assms(3) w2(1) unfolding i3(2) by simp
  have lw3: "hLockId (rdr ?w3 i) = hLockId ?r" using w2(2) unfolding i3(2) by simp
  have b: "disconnect_body h d i w =
      (SCARD_S_SUCCESS, upd_rstate i (\<lambda>s. s\<lparr>readerSharing := contexts (rdr ?w4 i)\<rparr>) ?w4)"
    using go by (auto simp: disconnect_body_def split_beta Let_def w2_def)
  show "fst (disconnect_body h d i w) = SCARD_S_SUCCESS" using b by simp
  show "handles (rdr (snd (disconnect_body h d i w)) i) = remove1 h (handles (rdr w i))"
    and "hLockId (rdr (snd (disconnect_body h d i w)) i) =
      (if hLockId (rdr w i) = h then 0 else hLockId (rdr w i))"
    using b i4 disconnect_last_frame(1,4) [OF i3(1)] hw3 lw3 lk by simp_all
qed

text \<open>The call for a handle of reader \<open>i\<close> that does not have to wait.\<close>

lemma SCardDisconnect_effect:
  assumes "pcscd_ok w" "i < length (sReadersContexts w)" "active (rdr w i)" "h \<in> set (handles (rdr w i))" "h \<noteq> 0"
    and "valid_disposition d" "d = SCARD_LEAVE_CARD \<or> hLockId (rdr w i) = 0 \<or> hLockId (rdr w i) = h"
  obtains w' where "SCardDisconnect others h d w = Some (SCARD_S_SUCCESS, w')" "reader_step i {} w w'"
    "handles (rdr w' i) = remove1 h (handles (rdr w i))"
    "hLockId (rdr w' i) = (if hLockId (rdr w i) = h then 0 else hLockId (rdr w i))"
proof -
  obtain w1 where f: "RFReaderInfoById h w = (Inr i, w1)"
    using RFReaderInfoById_complete [OF assms(1-4)] by auto
  note w1 = RFReaderInfoById_found(4) [OF f assms(1)]
  have i1: "i < length (sReadersContexts w1)" "sharing_ok (rdr w1 i)" "h \<in> set (handles (rdr w1 i))"
    and l1: "hLockId (rdr w1 i) = hLockId (rdr w i)" "handles (rdr w1 i) = handles (rdr w i)"
    using pcscd_ok_reader [OF assms(1-3)] assms(2,4) by (auto simp: w1 reader_ok_def reader_ok_reference)
  have d1: "d = SCARD_LEAVE_CARD \<or> hLockId (rdr w1 i) = 0 \<or> hLockId (rdr w1 i) = h"
    using assms(7) l1(1) by simp
  note e = disconnect_body_effect [OF i1 d1]
  let ?w2 = "snd (disconnect_body h d i w1)"
  have st: "reader_step i {} w1 ?w2" using disconnect_body_step [OF i1(1)] i1(3) by simp
  note u = reader_step_ref_unref [OF f assms(1) st]
  have "SCardDisconnect others h d w = Some (SCARD_S_SUCCESS, snd (UnrefReader i ?w2))"
    using f e(1) assms(5,6) d1 by (auto simp: SCardDisconnect_def split_beta)
  from that [OF this u(1)] e(2,3) l1 show thesis
    unfolding u(2) by (simp add: handles_def)
qed

lemma SCardDisconnect_unknown:
  assumes "pcscd_ok w" "h \<notin> all_handles w"
  shows "\<exists>rv. SCardDisconnect others h d w = Some (rv, w)"
proof (cases "RFReaderInfoById h w")
  case (Pair q w1)
  then show ?thesis
  proof (cases q)
    case (Inl rv)
    with Pair RFReaderInfoById_not_found [of h w rv w1] assms show ?thesis by (auto simp: SCardDisconnect_def)
  next
    case (Inr i)
    with Pair RFReaderInfoById_found [of h w i w1] assms show ?thesis by (auto simp: all_handles_def)
  qed
qed

lemma SCardDisconnect_spares:
  assumes "pcscd_ok w" "SCardDisconnect [] h d w = Some (rv, w')"
  shows "spares {h} w w'"
proof (cases "h \<in> all_handles w \<and> h \<noteq> 0 \<and> valid_disposition d")
  case True
  then obtain i where i: "i < length (sReadersContexts w)" "active (rdr w i)" "h \<in> set (handles (rdr w i))"
    by (auto simp: all_handles_def)
  show ?thesis
  proof (cases "d = SCARD_LEAVE_CARD \<or> hLockId (rdr w i) = 0 \<or> hLockId (rdr w i) = h")
    case cond: True
    obtain w2 where "SCardDisconnect [] h d w = Some (SCARD_S_SUCCESS, w2)" "reader_step i {} w w2"
      "handles (rdr w2 i) = remove1 h (handles (rdr w i))"
      "hLockId (rdr w2 i) = (if hLockId (rdr w i) = h then 0 else hLockId (rdr w i))"
      by (rule SCardDisconnect_effect [OF assms(1) i _ _ cond, of "[]"]) (use True in auto)
    moreover from this(1) assms(2) have "w2 = w'" by simp
    ultimately show ?thesis
      by (intro spares_step [of i "{}"]) (simp_all add: spares_reader_def set_remove1_others)
  next
    case False
    obtain w1 where f: "RFReaderInfoById h w = (Inr i, w1)"
      using RFReaderInfoById_complete [OF assms(1) i] by auto
    with False assms(2) True RFReaderInfoById_found(1,4) [OF f assms(1)] show ?thesis
      by (auto simp: SCardDisconnect_def)
  qed
next
  case False
  then have "w' = w"
    using SCardDisconnect_unknown [OF assms(1), of h "[]" d] assms(2) by (auto simp: SCardDisconnect_def split: if_splits)
  then show ?thesis by simp
qed

section \<open>Connection\<close>

lemma SCardConnect_spares:
  assumes "pcscd_ok w" "refs_room w" "SCardConnect [] name share pref act w = Some ((rv, h, prot), w')"
  shows "spares {} w w'"
  using assms(1,3,2)
proof (cases rule: SCardConnect_cases)
  case refused
  then show ?thesis by simp
next
  case (body i H)
  have "set (handles (rdr w i)) \<subseteq> set (handles (rdr w' i))"
    using body(9,10) by (cases "rv = SCARD_S_SUCCESS") auto
  with body(6) have "spares_reader {} (rdr w i) (rdr w' i)" by (simp add: spares_reader_def)
  with body(7) show ?thesis by (rule spares_step)
qed

end
