(* ===== verification/Svc_Cleanup.thy ===== *)
theory Svc_Cleanup
  imports Context_Thread Winscard_Spares
begin

text \<open>
  The end of a client: \<^verbatim>\<open>MSGRemoveContext\<close> and \<^verbatim>\<open>MSGCleanupClient\<close> always return, and then every
  handle of the client is disconnected, the locks it held are free, and the other clients keep
  their handles and their locks.
\<close>

definition clients_gone :: "SCARDHANDLE set \<Rightarrow> 'd pcscd \<Rightarrow> 'd pcscd \<Rightarrow> bool" where
  "clients_gone H w w' =
     (pcscd_ok w' \<and> refs_room w' \<and> length (sReadersContexts w') = length (sReadersContexts w) \<and>
      (\<forall>j < length (sReadersContexts w). active (rdr w' j) = active (rdr w j) \<and>
         (active (rdr w j) \<longrightarrow> set (handles (rdr w' j)) = set (handles (rdr w j)) - H \<and>
            hLockId (rdr w' j) =
              (if hLockId (rdr w j) \<in> H \<inter> set (handles (rdr w j)) then 0 else hLockId (rdr w j)))))"

lemma clients_gone_refl: "pcscd_ok w \<Longrightarrow> refs_room w \<Longrightarrow> clients_gone {} w w"
  by (simp add: clients_gone_def)

lemma clients_gone_unknown:
  assumes "pcscd_ok w" "refs_room w" "h \<notin> all_handles w"
  shows "clients_gone {h} w w"
  using assms by (auto simp: clients_gone_def all_handles_def)

lemma clients_gone_trans:
  assumes "clients_gone A w w'" "clients_gone B w' w''" "0 \<notin> A \<union> B"
  shows "clients_gone (A \<union> B) w w''"
proof -
  let ?n = "length (sReadersContexts w)"
  have "set (handles (rdr w'' j)) = set (handles (rdr w j)) - (A \<union> B)"
    and "hLockId (rdr w'' j) =
      (if hLockId (rdr w j) \<in> (A \<union> B) \<inter> set (handles (rdr w j)) then 0 else hLockId (rdr w j))"
    if "j < ?n" "active (rdr w j)" for j
    using that assms unfolding clients_gone_def by auto
  with assms(1,2) show ?thesis by (simp add: clients_gone_def)
qed

lemma clients_gone_spares: "clients_gone H w w' \<Longrightarrow> spares H w w'"
  by (auto simp: clients_gone_def spares_def spares_reader_def)

lemma clients_gone_step:
  assumes "pcscd_ok w" "refs_room w" "i < length (sReadersContexts w)" "active (rdr w i)"
    and "h \<in> set (handles (rdr w i))" "reader_step i {} w w'"
    and "handles (rdr w' i) = remove1 h (handles (rdr w i))"
    and "hLockId (rdr w' i) = (if hLockId (rdr w i) = h then 0 else hLockId (rdr w i))"
  shows "clients_gone {h} w w'"
proof -
  let ?n = "length (sReadersContexts w)"
  have ok: "pcscd_ok w'" "refs_room w'"
    using call_okI [OF assms(3,6)] assms(1,2) by (auto intro: call_ok_pcscd_ok call_ok_refs_room)
  have d: "distinct (handles (rdr w i))"
    using reader_ok_handles [OF pcscd_ok_reader [OF assms(1,3,4)]] by simp
  have o: "h \<notin> set (handles (rdr w j))" if "j < ?n" "active (rdr w j)" "j \<noteq> i" for j
    using pcscd_ok_unique [OF assms(1) that(1) assms(3) that(2) assms(4) _ assms(5)] that(3) by auto
  have "active (rdr w' j) = active (rdr w j) \<and>
      (active (rdr w j) \<longrightarrow> set (handles (rdr w' j)) = set (handles (rdr w j)) - {h} \<and>
        hLockId (rdr w' j) = (if hLockId (rdr w j) \<in> {h} \<inter> set (handles (rdr w j)) then 0 else hLockId (rdr w j)))"
    if "j < ?n" for j
  proof (cases "j = i")
    case True
    with assms(5,6,7,8) d show ?thesis by (auto simp: reader_step_def active_def set_remove1_eq)
  next
    case False
    with assms(6) o [OF that _ False] show ?thesis by (auto simp: reader_step_def)
  qed
  with ok assms(6) show ?thesis by (simp add: clients_gone_def reader_step_length)
qed

section \<open>One handle\<close>

lemma SCardStatus_unchanged:
  assumes "pcscd_ok w" "i < length (sReadersContexts w)" "active (rdr w i)" "h \<in> set (handles (rdr w i))" "h \<noteq> 0"
  shows "\<exists>rv. SCardStatus h w = (rv, w)"
proof -
  let ?rv = "fst (status_body h i w)"
  have "status_body h i (set_rdr i ((rdr w i)\<lparr>reference := n\<rparr>) w) = (?rv, set_rdr i ((rdr w i)\<lparr>reference := n\<rparr>) w)" for n
    using assms(2) by (simp add: status_body_def RFCheckSharing_def RFCheckReaderStatus_def Let_def)
  with by_handle_unchanged [OF assms(1-4), of "status_body h"] assms(5) show ?thesis
    by (auto simp: SCardStatus_def)
qed

lemma drop_handle_gone:
  assumes "pcscd_ok w" "refs_room w" "RFReaderInfoById h w = (Inr i, w1)" "h \<noteq> 0"
  obtains w2 where "drop_handle h i w1 = Some w2" "clients_gone {h} w (snd (UnrefReader i w2))"
proof -
  note f = RFReaderInfoById_found [OF assms(3,1)]
  have l: "reference (rdr w i) + 1 < 2 ^ 31 - 1" using assms(2) f(1,2) by (simp add: refs_room_def)
  have ok1: "pcscd_ok w1" "i < length (sReadersContexts w1)" "active (rdr w1 i)" "h \<in> set (handles (rdr w1 i))"
    using pcscd_ok_ref [OF assms(1) f(1) l] f by (auto simp: active_def handles_def)
  have r1: "handles (rdr w1 i) = handles (rdr w i)" "hLockId (rdr w1 i) = hLockId (rdr w i)"
    using f(1) by (simp_all add: f(4) handles_def)
  obtain w2 where w2: "drop_handle h i w1 = Some w2" "reader_step i {} w1 w2"
    "handles (rdr w2 i) = remove1 h (handles (rdr w1 i))"
    "hLockId (rdr w2 i) = (if hLockId (rdr w1 i) = h then 0 else hLockId (rdr w1 i))"
  proof (cases "hLockId (rdr w1 i) = h")
    case False
    have "valid_disposition SCARD_LEAVE_CARD" by (simp add: valid_disposition_def)
    then obtain w2 where "SCardDisconnect [] h SCARD_LEAVE_CARD w1 = Some (SCARD_S_SUCCESS, w2)" "reader_step i {} w1 w2"
      "handles (rdr w2 i) = remove1 h (handles (rdr w1 i))"
      "hLockId (rdr w2 i) = (if hLockId (rdr w1 i) = h then 0 else hLockId (rdr w1 i))"
      by (rule SCardDisconnect_effect [OF ok1 assms(4), of _ "[]"]) auto
    with False that [of w2] show thesis by (simp add: drop_handle_def)
  next
    case True
    let ?v = "upd_rdr i (\<lambda>r. r\<lparr>hLockId := 0\<rparr>) w1"
    have v: "reader_step i {} w1 ?v"
      using ok1(2) by (intro reader_step_upd_rdr keeps_sharing_frame) simp_all
    have rv: "handles (rdr ?v i) = handles (rdr w1 i)" "hLockId (rdr ?v i) = 0"
      using ok1(2) by (simp_all add: handles_def)
    have okv: "pcscd_ok ?v" "i < length (sReadersContexts ?v)" "active (rdr ?v i)" "h \<in> set (handles (rdr ?v i))"
      using call_ok_pcscd_ok [OF call_okI [OF ok1(2) v] ok1(1)] ok1 rv(1) by (auto simp: active_def)
    obtain rv' where st: "SCardStatus h ?v = (rv', ?v)"
      using SCardStatus_unchanged [OF okv assms(4)] by auto
    let ?d = "if rv' = SCARD_W_RESET_CARD \<or> rv' = SCARD_W_REMOVED_CARD then SCARD_LEAVE_CARD else SCARD_RESET_CARD"
    have "valid_disposition ?d" by (simp add: valid_disposition_def)
    then obtain w2 where "SCardDisconnect [] h ?d ?v = Some (SCARD_S_SUCCESS, w2)" "reader_step i {} ?v w2"
      "handles (rdr w2 i) = remove1 h (handles (rdr ?v i))"
      "hLockId (rdr w2 i) = (if hLockId (rdr ?v i) = h then 0 else hLockId (rdr ?v i))"
      by (rule SCardDisconnect_effect [OF okv assms(4), of _ "[]"]) (auto simp: rv)
    with True that [of w2] st rv reader_step_trans [OF v, of "{}" w2] assms(4) show thesis
      by (simp add: drop_handle_def)
  qed
  note u = reader_step_unref [OF assms(1) f(1,2) w2(2) [unfolded f(4)]]
  have "clients_gone {h} w (snd (UnrefReader i w2))"
    by (rule clients_gone_step [OF assms(1,2) f(1-3) u(1)])
      (use w2(3,4) r1 in \<open>simp_all add: u(2) handles_def\<close>)
  with w2(1) that show thesis by blast
qed

text \<open>The handle 0 is rejected by \<^verbatim>\<open>SCardDisconnect\<close> and stays connected.\<close>

lemma drop_handle_any:
  assumes "pcscd_ok w" "refs_room w" "RFReaderInfoById h w = (Inr i, w1)"
  obtains w2 where "drop_handle h i w1 = Some w2" "clients_gone ({h} - {0}) w (snd (UnrefReader i w2))"
proof (cases "h = 0")
  case True
  note f = RFReaderInfoById_found [OF assms(3,1)]
  have "drop_handle h i w1 = Some w1" using True by (simp add: drop_handle_def SCardDisconnect_def)
  moreover have "snd (UnrefReader i w1) = w"
    using UnrefReader_dec [of i w1] f pcscd_ok_reader [OF assms(1) f(1,2)] by (auto simp: reader_ok_def)
  ultimately show thesis using that [of w1] True clients_gone_refl [OF assms(1,2)] by simp
next
  case False
  obtain w2 where "drop_handle h i w1 = Some w2" "clients_gone {h} w (snd (UnrefReader i w2))"
    by (rule drop_handle_gone [OF assms False])
  with that [of w2] False show thesis by (simp add: Diff_insert_absorb)
qed

section \<open>All handles of a context\<close>

text \<open>The loop ends, whatever the driver does, and empties the list.\<close>

lemma drop_handles_gone:
  assumes "list_ok l" "pcscd_ok w" "refs_room w"
  shows "\<exists>l' w'. drop_handles l w = Some (Inr (), l', w') \<and> list_ok l' \<and> entries l' = [] \<and>
    comparator l' = comparator l \<and> clients_gone (set (entries l) - {0}) w w'"
  using assms
proof (induction "length (entries l)" arbitrary: l w)
  case 0
  then show ?case
    by (subst drop_handles.simps) (auto simp: list_size_def list_ok_def list_repOk_def clients_gone_refl)
next
  case (Suc n)
  obtain h hs where l: "entries l = h # hs" using Suc.hyps(2) by (cases "entries l") auto
  have sz: "list_size l \<noteq> 0" "list_get_at l 0 = Some h"
    using simclist.size_of [OF Suc.prems(1)] simclist.get_at [OF Suc.prems(1), of 0] l by auto
  let ?l = "snd (list_delete_at l 0)"
  have l': "list_ok ?l" "entries ?l = hs"
    using simclist.delete_at_ok [OF Suc.prems(1), of 0] simclist.inv_delete_at [OF Suc.prems(1), of 0] l
    by (auto simp: remove_nth_def)
  have "\<exists>v. drop_handles l w = drop_handles ?l v \<and> clients_gone ({h} - {0}) w v"
  proof (cases "RFReaderInfoById h w")
    case (Pair q w1)
    show ?thesis
    proof (cases q)
      case (Inl rv)
      note n = RFReaderInfoById_not_found [OF Pair [unfolded Inl] Suc.prems(2)]
      have "drop_handles l w = drop_handles ?l w"
        using sz n(1,2) Pair Inl by (subst drop_handles.simps) simp
      moreover have "clients_gone ({h} - {0}) w w"
        using clients_gone_unknown [OF Suc.prems(2,3) n(3)] clients_gone_refl [OF Suc.prems(2,3)]
        by (cases "h = 0") simp_all
      ultimately show ?thesis by blast
    next
      case (Inr i)
      obtain w2 where w2: "drop_handle h i w1 = Some w2" "clients_gone ({h} - {0}) w (snd (UnrefReader i w2))"
        by (rule drop_handle_any [OF Suc.prems(2,3) Pair [unfolded Inr]])
      have "drop_handles l w = drop_handles ?l (snd (UnrefReader i w2))"
        using sz Pair Inr w2(1) by (subst drop_handles.simps) simp
      with w2(2) show ?thesis by blast
    qed
  qed
  then obtain v where v: "drop_handles l w = drop_handles ?l v" "clients_gone ({h} - {0}) w v" by blast
  have "\<exists>l' w'. drop_handles ?l v = Some (Inr (), l', w') \<and> list_ok l' \<and> entries l' = [] \<and>
      comparator l' = comparator ?l \<and> clients_gone (set (entries ?l) - {0}) v w'"
    using v(2) l' l Suc.hyps(2) by (intro Suc.hyps(1)) (auto simp: clients_gone_def)
  then obtain l2 w' where "drop_handles ?l v = Some (Inr (), l2, w')" "list_ok l2" "entries l2 = []"
    "comparator l2 = comparator l" "clients_gone (set hs - {0}) v w'"
    using l'(2) by auto
  with v(1) clients_gone_trans [OF v(2), of "set hs - {0}" w'] l show ?case
    by (auto simp: Un_Diff [symmetric])
qed

end
