(* ===== verification/Winscard_Random.thy ===== *)
theory Winscard_Random
  imports Winscard_Life Winscard_Msg
begin

text \<open>
  The random numbers behind handles and contexts: \<^verbatim>\<open>SYS_RandomInt\<close> of \<^verbatim>\<open>src/src/sys_unix.c\<close>, and
  that the calls only consume the numbers they draw, so that every handle is one of them.
\<close>

text \<open>
  The bytes of \<^verbatim>\<open>getrandom\<close>, or \<^verbatim>\<open>lrand48\<close> when it fails. The mask keeps the result non-negative.
\<close>

definition SYS_RandomInt :: "bytes option \<Rightarrow> int \<Rightarrow> int" where
  "SYS_RandomInt getrandom lrand48 =
     (case getrandom of
        None \<Rightarrow> int32 lrand48
      | Some c \<Rightarrow> uint (foldl (\<lambda>ui b. push_bit 8 ui OR ucast b) (0 :: u32) c AND 0x7FFFFFFF))"

definition random_int :: "int \<Rightarrow> bool" where
  "random_int r = (0 \<le> r \<and> r < 2 ^ 31)"

lemma and_int_max: "uint ((x :: u32) AND 0x7FFFFFFF) < 2 ^ 31"
  using AND_upper2 [of "0x7FFFFFFF" "uint x"] by (simp add: unsigned_and_eq)

lemma SYS_RandomInt_range: "random_int lrand48 \<Longrightarrow> random_int (SYS_RandomInt g lrand48)"
  using and_int_max by (auto simp: SYS_RandomInt_def random_int_def int32_id split: option.splits)

lemma random_int_word: "random_int r \<Longrightarrow> sint (word_of_int r :: u32) = r"
  by (simp add: random_int_def sint_sbintrunc' signed_take_bit_int_eq_self)

definition randoms_ok :: "'d pcscd \<Rightarrow> bool" where
  "randoms_ok w = (\<forall>r \<in> set (randoms w). random_int r)"

section \<open>The calls keep the random numbers\<close>

lemma randoms_ops [simp]:
  "randoms (set_fault w) = randoms w" "randoms (snd (call_at i a t w)) = randoms w"
  "randoms (add_cell p d w) = randoms w" "randoms (EHSignalEventToClients w) = randoms w"
  by (auto simp: set_fault_def call_at_def add_cell_def EHSignalEventToClients_def call_ifd_def Let_def split_beta
      split: option.splits)

lemma randoms_thread [simp]: "randoms (EHDestroyEventHandler i w) = randoms w"
  by (auto simp: EHDestroyEventHandler_def eh_destroy_request_def eh_exit_def eh_power_def Let_def split_beta)

lemma randoms_close [simp]: "randoms (RFUnInitializeReader i w) = randoms w"
  by (auto simp: RFUnInitializeReader_def RFUnBindFunctions_def RFUnloadReader_def Let_def)

lemma randoms_removeReader [simp]: "randoms (snd (removeReader i w)) = randoms w"
  by (auto simp: removeReader_def release_mutex_def release_feeds_def remove_handles_def Let_def split: option.splits)

lemma randoms_lookup [simp]:
  "randoms (snd (UnrefReader i w)) = randoms w" "randoms (snd (RFReaderInfoById h w)) = randoms w"
  "randoms (snd (RFReaderInfo name w)) = randoms w"
  by (auto simp: UnrefReader_def RFReaderInfoById_def RFReaderInfo_def ref_found_def Let_def split_beta split: option.splits)

lemma randoms_by_handle:
  "(\<And>i v. randoms (snd (body i v)) = randoms v) \<Longrightarrow> randoms (snd (by_handle h fail body w)) = randoms w"
  using randoms_lookup(2) [of h w]
  by (auto simp: by_handle_def split_beta split: sum.splits prod.splits)

lemma randoms_card [simp]:
  "randoms (snd (reset_card a i w)) = randoms w" "randoms (snd (eject_card i w)) = randoms w"
  "randoms (disconnect_card d i w) = randoms w" "randoms (disconnect_last i w) = randoms w"
  by (auto simp: reset_card_def eject_card_def disconnect_card_def disconnect_last_def Let_def split_beta)

lemma randoms_calls [simp]:
  "randoms (snd (SCardBeginTransaction h w)) = randoms w"
  "randoms (snd (SCardEndTransaction h d w)) = randoms w"
  "randoms (snd (SCardStatus h w)) = randoms w"
  "randoms (snd (SCardControl h code send len w)) = randoms w"
  "randoms (snd (SCardGetAttrib h a alen w)) = randoms w"
  "randoms (snd (SCardSetAttrib h a attr w)) = randoms w"
  "randoms (snd (SCardTransmit h p send q tlen w)) = randoms w"
  by (auto simp: SCardBeginTransaction_def begin_body_def SCardEndTransaction_def end_body_def end_transaction_card_def
      SCardStatus_def status_body_def SCardControl_def control_body_def SCardGetAttrib_def get_attrib_body_def
      SCardSetAttrib_def set_attrib_body_def SCardTransmit_def transmit_body_def Let_def split_beta
      intro!: randoms_by_handle)

lemma randoms_reconnect_phases [simp]:
  "randoms (snd (reconnect_init ini i w)) = randoms w"
  "randoms (snd (reconnect_protocol share pref i w)) = randoms w"
  using connect_randoms(2) [of share pref i w]
  by (auto simp: reconnect_init_def reconnect_protocol_def Let_def split_beta split: sum.splits prod.splits)

lemma randoms_SCardReconnect [simp]: "randoms (snd (SCardReconnect h share pref ini act w)) = randoms w"
proof -
  have "randoms (snd (reconnect_body h share pref ini act i v)) = randoms v" for i and v :: "'a pcscd"
  proof -
    obtain q1 w1 where 1: "reconnect_init ini i v = (q1, w1)" by fastforce
    obtain q2 w2 where 2: "reconnect_protocol share pref i w1 = (q2, w2)" by fastforce
    have "randoms w1 = randoms v" "randoms w2 = randoms w1"
      using randoms_reconnect_phases(1) [of ini i v] randoms_reconnect_phases(2) [of share pref i w1] 1 2 by auto
    with 1 2 show ?thesis
      by (simp add: reconnect_body_def Let_def split_beta split: sum.splits)
  qed
  then show ?thesis by (auto simp: SCardReconnect_def intro!: randoms_by_handle)
qed

lemma randoms_SCardDisconnect:
  "SCardDisconnect [] h d w = Some (rv, w') \<Longrightarrow> randoms w' = randoms w"
  using randoms_lookup(2) [of h w]
  by (auto simp: SCardDisconnect_def disconnect_body_def Let_def split_beta split: if_splits sum.splits prod.splits)

text \<open>A connection consumes the numbers it draws, and its handle is one of them.\<close>

lemma randoms_connect_body:
  assumes "pcscd_ok w" "i < length (sReadersContexts w)"
    and "connect_body share pref act i w = Some ((rv, h, prot), w')"
  shows "set (randoms w') \<subseteq> set (randoms w)" "rv = SCARD_S_SUCCESS \<Longrightarrow> h \<in> set (randoms w)"
proof -
  obtain q1 w1 where c: "connect_card share i w = (q1, w1)" by fastforce
  obtain q2 w2 where p: "set_up_protocol share pref i w1 = (q2, w2)" by fastforce
  have r: "randoms w1 = randoms w" "randoms w2 = randoms w"
    using connect_randoms(1) [of share i w] connect_randoms(2) [of share pref i w1] c p by auto
  have s: "reader_step i {} w w2"
    using connect_card_step [OF assms(2), of share] set_up_protocol_step [of i w1 share pref] c p assms(2)
    by (auto simp: reader_step_length intro: reader_step_trans)
  have ok2: "pcscd_ok w2" using pcscd_ok_step [OF assms(1,2) s] by simp
  have h: "x \<in> set (randoms w) \<and> set (randoms w3) \<subseteq> set (randoms w)" if "RFCreateReaderHandle w2 = Some (x, w3)" for x w3
    using create_handle_fresh [OF that [unfolded RFCreateReaderHandle_def] ok2] r by auto
  have e: "e \<noteq> 0" if "q1 = Inl e \<or> q2 = Inl e" for e
    using c p that by (auto simp: connect_card_def set_up_protocol_def Let_def split_beta split: if_splits)
  consider (early) "w' = w1 \<or> w' = w2" "rv \<noteq> 0"
    | (late) x w3 where "RFCreateReaderHandle w2 = Some (x, w3)" "randoms w' = randoms w3"
        "rv = SCARD_S_SUCCESS \<longrightarrow> h = x"
  proof (cases q1)
    case (Inl e1)
    with assms(3) c e early show thesis by (auto simp: connect_body_def)
  next
    case q1: (Inr u)
    show thesis
    proof (cases q2)
      case (Inl e2)
      with assms(3) c p q1 e early show thesis by (auto simp: connect_body_def)
    next
      case (Inr v)
      obtain x w3 where x: "RFCreateReaderHandle w2 = Some (x, w3)"
        using assms(3) c q1 p Inr by (auto simp: connect_body_def Let_def split: option.splits)
      have "randoms w' = randoms w3" "rv = SCARD_S_SUCCESS \<longrightarrow> h = x"
        using assms(3) c q1 p Inr x
        by (auto simp: connect_body_def connect_share_def connect_add_handle_def Let_def split_beta split: if_splits)
      with x late show thesis by blast
    qed
  qed
  then show "set (randoms w') \<subseteq> set (randoms w)" "rv = SCARD_S_SUCCESS \<Longrightarrow> h \<in> set (randoms w)"
    using r h by (cases, auto)+
qed

lemma randoms_SCardConnect:
  assumes "pcscd_ok w" "refs_room w" "SCardConnect [] name share pref act w = Some ((rv, h, prot), w')"
  shows "set (randoms w') \<subseteq> set (randoms w)" "rv = SCARD_S_SUCCESS \<Longrightarrow> h \<in> set (randoms w)"
proof -
  obtain q w1 where q: "RFReaderInfo name w = (q, w1)" by fastforce
  have r1: "randoms w1 = randoms w" using randoms_lookup(3) [of name w] q by simp
  show "set (randoms w') \<subseteq> set (randoms w)"
  proof (cases "\<exists>i w2. q = Inr i \<and> connect_body share pref act i w1 = Some ((rv, h, prot), w2) \<and>
      w' = snd (UnrefReader i w2)")
    case True
    then obtain i w2 where b: "q = Inr i" "connect_body share pref act i w1 = Some ((rv, h, prot), w2)"
      "w' = snd (UnrefReader i w2)" by auto
    note f = RFReaderInfo_found [OF q [unfolded b(1)] assms(1)]
    have "pcscd_ok w1" "i < length (sReadersContexts w1)"
      using pcscd_ok_ref [OF assms(1) f(1)] assms(2) f by (auto simp: refs_room_def)
    from randoms_connect_body(1) [OF this b(2)] b(3) r1 show ?thesis by simp
  next
    case False
    with assms(3) q r1 show ?thesis
      by (auto simp: SCardConnect_def Let_def split: if_splits sum.splits)
  qed
  assume "rv = SCARD_S_SUCCESS"
  with assms(1,3,2) show "h \<in> set (randoms w)"
  proof (cases rule: SCardConnect_cases)
    case (body i H)
    let ?w1 = "set_rdr i ((rdr w i)\<lparr>reference := reference (rdr w i) + 1\<rparr>) w"
    obtain w2 where b: "connect_body share pref act i ?w1 = Some ((rv, h, prot), w2)" using body(11) by auto
    have "pcscd_ok ?w1" using pcscd_ok_ref [OF assms(1) body(1)] assms(2) body(1,2) by (simp add: refs_room_def)
    from randoms_connect_body(2) [OF this _ b] body(1) \<open>rv = SCARD_S_SUCCESS\<close> show ?thesis by simp
  qed simp
qed

end
