(* ===== verification/Svc_Inv.thy ===== *)
theory Svc_Inv
  imports Svc_Cleanup Winscard_Random
begin

text \<open>
  The invariant of the dispatcher and what one command of a client can do: \<open>handler_ok\<close> is the
  contract every command keeps, whatever the client sends.
\<close>

definition cards :: "'d svc \<Rightarrow> nat \<Rightarrow> SCARDHANDLE set" where
  "cards s c = set (entries (cardsList (ctxMem s c)))"

definition client_ok :: "'d svc \<Rightarrow> nat \<Rightarrow> bool" where
  "client_ok s c =
     (c < freshCtx s \<and> list_ok (cardsList (ctxMem s c)) \<and>
      int (length (entries (cardsList (ctxMem s c)))) \<le> max 0 (contextMaxCardHandles s))"

definition svc_ok :: "'d svc \<Rightarrow> bool" where
  "svc_ok s =
     (pcscd_ok (daemon s) \<and> refs_room (daemon s) \<and> randoms_ok (daemon s) \<and> list_ok (contextsList s) \<and> distinct (entries (contextsList s)) \<and>
      int (length (entries (contextsList s))) \<le> max 0 (contextMaxThreadCounter s) \<and>
      (\<forall>c \<in> set (entries (contextsList s)). client_ok s c))"

text \<open>
  What serving client \<open>c\<close> may change: its own context and socket traffic. New handles are
  fresh, and the handles and locks of the other clients are spared.
\<close>

definition handler_ok :: "nat \<Rightarrow> 'd svc \<Rightarrow> 'd svc \<Rightarrow> bool" where
  "handler_ok c s s' =
     (contextsList s' = contextsList s \<and> freshCtx s' = freshCtx s \<and> closedFds s' = closedFds s \<and>
      contextMaxCardHandles s' = contextMaxCardHandles s \<and> contextMaxThreadCounter s' = contextMaxThreadCounter s \<and>
      AutoExit s' = AutoExit s \<and> (\<forall>c'. c' \<noteq> c \<longrightarrow> ctxMem s' c' = ctxMem s c') \<and>
      dwClientID (ctxMem s' c) = dwClientID (ctxMem s c) \<and>
      pcscd_ok (daemon s') \<and> refs_room (daemon s') \<and> randoms_ok (daemon s') \<and> client_ok s' c \<and>
      (\<exists>N. N \<inter> all_handles (daemon s) = {} \<and> cards s' c \<subseteq> cards s c \<union> N) \<and>
      spares (cards s c) (daemon s) (daemon s'))"

text \<open>A state of the dispatcher in which client \<open>c\<close> can be served.\<close>

definition serving :: "nat \<Rightarrow> 'd svc \<Rightarrow> bool" where
  "serving c s = (pcscd_ok (daemon s) \<and> refs_room (daemon s) \<and> randoms_ok (daemon s) \<and> client_ok s c)"

lemma handler_ok_refl: "serving c s \<Longrightarrow> handler_ok c s s"
  by (auto simp: handler_ok_def serving_def intro: exI [of _ "{}"])

lemma handler_ok_serving: "handler_ok c s s' \<Longrightarrow> serving c s'"
  by (simp add: handler_ok_def serving_def)

text \<open>Socket traffic does not matter to the contract.\<close>

lemma svc_frame [simp]:
  "cards (s\<lparr>sockets := k\<rparr>) c = cards s c" "client_ok (s\<lparr>sockets := k\<rparr>) c = client_ok s c"
  "cards (s\<lparr>daemon := w\<rparr>) c = cards s c" "client_ok (s\<lparr>daemon := w\<rparr>) c = client_ok s c"
  "cards (s\<lparr>oldApi := q\<rparr>) c = cards s c" "client_ok (s\<lparr>oldApi := q\<rparr>) c = client_ok s c"
  by (simp_all add: cards_def client_ok_def)

lemma serving_frame [simp]:
  "serving c (s\<lparr>sockets := k\<rparr>) = serving c s" "serving c (s\<lparr>oldApi := q\<rparr>) = serving c s"
  by (simp_all add: serving_def)

lemma handler_ok_sockets [simp]:
  "handler_ok c (s\<lparr>sockets := k\<rparr>) s' = handler_ok c s s'"
  "handler_ok c s (s'\<lparr>sockets := k\<rparr>) = handler_ok c s s'"
  "handler_ok c s (s'\<lparr>oldApi := q\<rparr>) = handler_ok c s s'"
  by (simp_all add: handler_ok_def)

lemma recv_msg_sockets: "recv_msg fd n s = Some (r, s') \<Longrightarrow> \<exists>k. s' = s\<lparr>sockets := k\<rparr>"
  by (auto simp: recv_msg_def)

lemma send_msg_sockets: "send_msg fd b s = Some (r, s') \<Longrightarrow> \<exists>k. s' = s\<lparr>sockets := k\<rparr>"
  by (auto simp: send_msg_def)

lemma WRITE_BODY_ok: "WRITE_BODY fd b s = Some (x, s') \<Longrightarrow> handler_ok c s0 s \<Longrightarrow> handler_ok c s0 s'"
  by (auto simp: WRITE_BODY_def dest: send_msg_sockets)

lemma write_answer_ok: "write_answer fd rv b d s = Some (x, s') \<Longrightarrow> handler_ok c s0 s \<Longrightarrow> handler_ok c s0 s'"
  by (auto simp: write_answer_def bind_eq_Some_conv split: if_splits
      dest!: send_msg_sockets intro: WRITE_BODY_ok)

lemma send_each_ok: "send_each fd bs r s = Some (x, s') \<Longrightarrow> handler_ok c s0 s \<Longrightarrow> handler_ok c s0 s'"
  by (induction bs arbitrary: r s) (auto simp: bind_eq_Some_conv dest!: send_msg_sockets)

lemma READ_BODY_ok:
  assumes "READ_BODY sz header fd k s = Some (x, s')" "serving c s"
    and "\<And>b s1. serving c s1 \<Longrightarrow> k b s1 = Some (x, s') \<Longrightarrow> handler_ok c s1 s'"
  shows "handler_ok c s s'"
proof (cases "header_size header = of_nat sz")
  case False
  with assms(1,2) show ?thesis by (auto simp: READ_BODY_def handler_ok_refl)
next
  case True
  with assms(1) obtain ret b s1 where r: "recv_msg fd sz s = Some ((ret, b), s1)"
    and c: "(if ret \<noteq> 0 then Some (False, s1) else k b s1) = Some (x, s')"
    by (auto simp: READ_BODY_def bind_eq_Some_conv)
  obtain q where "s1 = s\<lparr>sockets := q\<rparr>" using recv_msg_sockets [OF r] by auto
  moreover from this assms(2) have "serving c s1" by simp
  ultimately show ?thesis
    using c assms(3) [of s1 b] by (cases "ret = 0") (auto simp: handler_ok_refl)
qed

section \<open>Commands on a handle of the client\<close>

lemma MSGCheckHandleAssociation_own:
  assumes "client_ok s c" "MSGCheckHandleAssociation (sint (x :: u32)) c s = 0"
  shows "sint x \<in> cards s c"
proof -
  have "int32 (sint x) = sint x"
    using sint_greater_eq [of x] sint_less [of x] by (intro int32_id) simp_all
  moreover from assms have "list_locate (cardsList (ctxMem s c)) (int32 (sint x)) \<ge> 0"
    by (auto simp: MSGCheckHandleAssociation_def split: if_splits)
  moreover have "comparator (cardsList (ctxMem s c)) = None \<or> comparator (cardsList (ctxMem s c)) = Some (=)"
    using assms(1) by (auto simp: client_ok_def list_ok_def)
  ultimately show ?thesis
    by (auto simp: list_locate_eq cards_def in_set_conv_nth split: option.splits dest!: position_SomeD)
qed

lemma daemon_call_ok:
  assumes "serving c s" "call_ok (daemon s) w" "spares {h} (daemon s) w" "h \<in> cards s c"
    and "randoms w = randoms (daemon s)"
  shows "handler_ok c s (s\<lparr>daemon := w\<rparr>)"
proof -
  have "pcscd_ok w" "refs_room w"
    using assms(1,2) by (auto simp: serving_def intro: call_ok_pcscd_ok call_ok_refs_room)
  moreover have "spares (cards s c) (daemon s) w"
    using spares_mono [OF assms(3)] assms(4) by simp
  ultimately show ?thesis
    using assms(1,5) by (auto simp: handler_ok_def serving_def randoms_ok_def intro: exI [of _ "{}"])
qed

text \<open>The commands that call one function with a handle of the client.\<close>

lemma serving_daemon: "serving c s \<Longrightarrow> pcscd_ok (daemon s)" "serving c s \<Longrightarrow> client_ok s c"
  by (simp_all add: serving_def)

lemma own_handle_ok:
  assumes "serving c s" "MSGCheckHandleAssociation (sint (x :: u32)) c s = 0"
    and "\<And>w. pcscd_ok w \<Longrightarrow> call_ok w (snd (f w))" "\<And>w. pcscd_ok w \<Longrightarrow> spares {sint x} w (snd (f w))"
    and "\<And>w. randoms (snd (f w)) = randoms w" "f (daemon s) = (r, w')"
  shows "handler_ok c s (s\<lparr>daemon := w'\<rparr>)"
  using daemon_call_ok [OF assms(1), of w' "sint x"] assms(3,4) [OF serving_daemon(1) [OF assms(1)]] assms(5) [of "daemon s"] assms(6)
    MSGCheckHandleAssociation_own [OF serving_daemon(2) [OF assms(1)] assms(2)] by simp

lemmas own_handle_calls =
  own_handle_ok [OF _ _ SCardBeginTransaction_ok SCardBeginTransaction_spares randoms_calls(1)]
  own_handle_ok [OF _ _ SCardEndTransaction_ok SCardEndTransaction_spares randoms_calls(2)]
  own_handle_ok [OF _ _ SCardStatus_ok SCardStatus_spares randoms_calls(3)]
  own_handle_ok [OF _ _ SCardControl_ok SCardControl_spares randoms_calls(4)]
  own_handle_ok [OF _ _ SCardGetAttrib_ok SCardGetAttrib_spares randoms_calls(5)]
  own_handle_ok [OF _ _ SCardSetAttrib_ok SCardSetAttrib_spares randoms_calls(6)]
  own_handle_ok [OF _ _ SCardTransmit_ok SCardTransmit_spares randoms_calls(7)]
  own_handle_ok [OF _ _ SCardReconnect_ok SCardReconnect_spares randoms_SCardReconnect]

lemma scard_begin_transaction_ok:
  "scard_begin_transaction c header fd s = Some (x, s') \<Longrightarrow> serving c s \<Longrightarrow> handler_ok c s s'"
  unfolding scard_begin_transaction_def
  by (erule READ_BODY_ok, assumption)
    (auto simp: Let_def split: if_splits prod.splits
      intro: handler_ok_refl WRITE_BODY_ok [OF _ own_handle_calls(1)])

lemma scard_end_transaction_ok:
  "scard_end_transaction c header fd s = Some (x, s') \<Longrightarrow> serving c s \<Longrightarrow> handler_ok c s s'"
  unfolding scard_end_transaction_def
  by (erule READ_BODY_ok, assumption)
    (auto simp: Let_def split: if_splits prod.splits
      intro: handler_ok_refl WRITE_BODY_ok [OF _ own_handle_calls(2)])

lemma scard_status_ok:
  "scard_status c header fd s = Some (x, s') \<Longrightarrow> serving c s \<Longrightarrow> handler_ok c s s'"
  unfolding scard_status_def
  by (erule READ_BODY_ok, assumption)
    (auto simp: Let_def split: if_splits prod.splits
      intro: handler_ok_refl WRITE_BODY_ok [OF _ own_handle_calls(3)])

lemma scard_reconnect_ok:
  "scard_reconnect c header fd s = Some (x, s') \<Longrightarrow> serving c s \<Longrightarrow> handler_ok c s s'"
  unfolding scard_reconnect_def
  by (erule READ_BODY_ok, assumption)
    (auto simp: Let_def split: if_splits prod.splits
      intro: handler_ok_refl WRITE_BODY_ok [OF _ own_handle_calls(8)])

lemma scard_get_attrib_ok:
  "scard_get_attrib c header fd s = Some (x, s') \<Longrightarrow> serving c s \<Longrightarrow> handler_ok c s s'"
  unfolding scard_get_attrib_def
  by (erule READ_BODY_ok, assumption)
    (auto simp: Let_def split: if_splits prod.splits
      intro: handler_ok_refl WRITE_BODY_ok [OF _ own_handle_calls(5)])

lemma scard_set_attrib_ok:
  "scard_set_attrib c header fd s = Some (x, s') \<Longrightarrow> serving c s \<Longrightarrow> handler_ok c s s'"
  unfolding scard_set_attrib_def
  by (erule READ_BODY_ok, assumption)
    (auto simp: Let_def split: if_splits prod.splits
      intro: handler_ok_refl WRITE_BODY_ok [OF _ own_handle_calls(6)])

text \<open>Reading the data of the client is socket traffic.\<close>

lemma write_answer_then_ok:
  assumes "write_answer fd rv b d (s\<lparr>sockets := k, daemon := w\<rparr>) = Some (x, s')" "handler_ok c s (s\<lparr>daemon := w\<rparr>)"
  shows "handler_ok c s s'"
proof -
  have "s\<lparr>sockets := k, daemon := w\<rparr> = s\<lparr>daemon := w\<rparr>\<lparr>sockets := k\<rparr>" by simp
  then have "handler_ok c s (s\<lparr>sockets := k, daemon := w\<rparr>)"
    using assms(2) handler_ok_sockets(2) [where c = c and s = s and s' = "s\<lparr>daemon := w\<rparr>" and k = k] by metis
  with assms(1) show ?thesis by (rule write_answer_ok)
qed

lemma scard_transmit_ok:
  "scard_transmit c header fd s = Some (x, s') \<Longrightarrow> serving c s \<Longrightarrow> handler_ok c s s'"
  unfolding scard_transmit_def
  by (erule READ_BODY_ok, assumption)
    (auto simp: Let_def bind_eq_Some_conv split: if_splits prod.splits dest!: recv_msg_sockets
      intro: handler_ok_refl write_answer_then_ok [OF _ own_handle_calls(7)])

lemma scard_control_ok:
  "scard_control c header fd s = Some (x, s') \<Longrightarrow> serving c s \<Longrightarrow> handler_ok c s s'"
  unfolding scard_control_def
  by (erule READ_BODY_ok, assumption)
    (auto simp: Let_def bind_eq_Some_conv split: if_splits prod.splits dest!: recv_msg_sockets
      intro: handler_ok_refl write_answer_then_ok [OF _ own_handle_calls(4)])

section \<open>Commands without a handle\<close>

lemma handler_ok_daemon:
  assumes "serving c s" "sReadersContexts w = sReadersContexts (daemon s)" "list_ok (ClientsWaitingForEvent w)"
    and "maxReaderHandles w = maxReaderHandles (daemon s)" "set (randoms w) \<subseteq> set (randoms (daemon s))"
  shows "handler_ok c s (s\<lparr>daemon := w\<rparr>)"
proof -
  have "rdr w = rdr (daemon s)" using assms(2) by (simp add: rdr_def fun_eq_iff)
  moreover have "spares (cards s c) (daemon s) w" by (rule spares_cong [OF assms(2)])
  ultimately show ?thesis
    using assms by (auto simp: handler_ok_def serving_def pcscd_ok_def refs_room_def randoms_ok_def intro: exI [of _ "{}"])
qed

lemma waiting_list_ok:
  assumes "serving c s"
  shows "handler_ok c s (s\<lparr>daemon := snd (EHRegisterClientForEvent fd (daemon s))\<rparr>)"
    and "handler_ok c s (s\<lparr>daemon := snd (EHTryToUnregisterClientForEvent fd (daemon s))\<rparr>)"
proof -
  have l: "list_ok (ClientsWaitingForEvent (daemon s))" using assms by (simp add: serving_def pcscd_ok_def)
  show "handler_ok c s (s\<lparr>daemon := snd (EHRegisterClientForEvent fd (daemon s))\<rparr>)"
    using simclist.inv_append [OF l] by (intro handler_ok_daemon [OF assms]) (simp_all add: EHRegisterClientForEvent_def)
  show "handler_ok c s (s\<lparr>daemon := snd (EHTryToUnregisterClientForEvent fd (daemon s))\<rparr>)"
    using simclist.inv_delete [OF l]
    by (intro handler_ok_daemon [OF assms]) (simp_all add: EHTryToUnregisterClientForEvent_def split_beta)
qed

lemma wait_readers_same: "wait_readers [] s = Some s' \<Longrightarrow> s' = s"
  by (auto simp: wait_readers_def split: if_splits)

lemma MSGSendReaderStates_ok: "MSGSendReaderStates fd old s = Some (r, s') \<Longrightarrow> handler_ok c s0 s \<Longrightarrow> handler_ok c s0 s'"
  by (auto simp: MSGSendReaderStates_def Let_def intro: send_each_ok)

lemma commands_without_body_ok:
  assumes "serving c s"
  shows "cmd_get_readers_state [] old fd s = Some (x, s') \<Longrightarrow> handler_ok c s s'"
    and "cmd_wait_reader_state_change [] c' fd s = Some (x, s') \<Longrightarrow> handler_ok c s s'"
    and "cmd_stop_waiting fd s = Some (x, s') \<Longrightarrow> handler_ok c s s'"
    and "cmd_get_reader_events fd s = Some (x, s') \<Longrightarrow> handler_ok c s s'"
    and "cmd_get_readers_state_size fd s = Some (x, s') \<Longrightarrow> handler_ok c s s'"
proof -
  show "cmd_get_readers_state [] old fd s = Some (x, s') \<Longrightarrow> handler_ok c s s'"
    using handler_ok_refl [OF assms]
    by (auto simp: cmd_get_readers_state_def bind_eq_Some_conv dest!: wait_readers_same intro: MSGSendReaderStates_ok)
  show "cmd_wait_reader_state_change [] c' fd s = Some (x, s') \<Longrightarrow> handler_ok c s s'"
    using waiting_list_ok(1) [OF assms, of fd]
    by (auto simp: cmd_wait_reader_state_change_def bind_eq_Some_conv Let_def split: if_splits
        dest!: wait_readers_same intro: MSGSendReaderStates_ok)
  show "cmd_stop_waiting fd s = Some (x, s') \<Longrightarrow> handler_ok c s s'"
    using waiting_list_ok(2) [OF assms, of fd]
    by (auto simp: cmd_stop_waiting_def EHUnregisterClientForEvent_def Let_def split_beta split: if_splits
        intro: WRITE_BODY_ok)
  show "cmd_get_reader_events fd s = Some (x, s') \<Longrightarrow> handler_ok c s s'"
    using handler_ok_refl [OF assms] by (auto simp: cmd_get_reader_events_def intro: WRITE_BODY_ok)
  show "cmd_get_readers_state_size fd s = Some (x, s') \<Longrightarrow> handler_ok c s s'"
    using handler_ok_refl [OF assms] by (auto simp: cmd_get_readers_state_size_def dest!: send_msg_sockets)
qed

lemma cmd_version_ok: "cmd_version c header fd s = Some (x, s') \<Longrightarrow> serving c s \<Longrightarrow> handler_ok c s s'"
  unfolding cmd_version_def
  by (erule READ_BODY_ok, assumption) (auto simp: Let_def handler_ok_refl split: if_splits intro: WRITE_BODY_ok)

lemma scard_cancel_ok: "scard_cancel header fd s = Some (x, s') \<Longrightarrow> serving c s \<Longrightarrow> handler_ok c s s'"
  unfolding scard_cancel_def
proof (erule READ_BODY_ok, assumption)
  fix b and s1 :: "'a svc"
  let ?t = "\<lambda>t. s1\<lparr>daemon := snd (EHTryToUnregisterClientForEvent (dwClientID (ctxMem s1 t)) (daemon s1))\<rparr>"
  assume s1: "serving c s1"
  have t: "handler_ok c s1 (?t t)" for t by (rule waiting_list_ok(2) [OF s1])
  assume "(let caStr = cancel_struct_at b in
     Option.bind
       (case seek_context (sint (ca_hContext caStr)) s1 of
          None \<Rightarrow> Some (SCARD_E_INVALID_HANDLE, s1)
        | Some target \<Rightarrow>
            let fd = dwClientID (ctxMem s1 target) in
            (case EHUnregisterClientForEvent fd (daemon s1) of (rv, w) \<Rightarrow>
               let s = s1\<lparr>daemon := w\<rparr> in
               if rv = SCARD_S_SUCCESS then MSGSignalClient fd SCARD_E_CANCELLED s
               else Some (SCARD_S_SUCCESS, s)))
       (\<lambda>(rv, s). WRITE_BODY fd (cancel_struct_image (caStr\<lparr>ca_rv := word_of_int rv\<rparr>)) s)) = Some (x, s')"
  with t handler_ok_refl [OF s1] show "handler_ok c s1 s'"
    by (auto simp: Let_def bind_eq_Some_conv EHUnregisterClientForEvent_def MSGSignalClient_def split_beta
        split: option.splits if_splits dest!: send_msg_sockets intro: WRITE_BODY_ok)
qed

section \<open>Contexts\<close>

lemma upd_ctx_simps [simp]:
  "daemon (upd_ctx c f s) = daemon s" "ctxMem (upd_ctx c f s) c = f (ctxMem s c)"
  "contextsList (upd_ctx c f s) = contextsList s" "freshCtx (upd_ctx c f s) = freshCtx s"
  "closedFds (upd_ctx c f s) = closedFds s" "AutoExit (upd_ctx c f s) = AutoExit s"
  "contextMaxCardHandles (upd_ctx c f s) = contextMaxCardHandles s"
  "contextMaxThreadCounter (upd_ctx c f s) = contextMaxThreadCounter s"
  "c' \<noteq> c \<Longrightarrow> ctxMem (upd_ctx c f s) c' = ctxMem s c'"
  by (simp_all add: upd_ctx_def)

lemma handler_ok_context:
  assumes "handler_ok c s0 s" "cardsList (f (ctxMem s c)) = cardsList (ctxMem s c)"
    and "dwClientID (f (ctxMem s c)) = dwClientID (ctxMem s c)"
  shows "handler_ok c s0 (upd_ctx c f s)"
proof -
  have "client_ok (upd_ctx c f s) c = client_ok s c" "cards (upd_ctx c f s) c = cards s c"
    using assms(2) by (simp_all add: client_ok_def cards_def)
  with assms(1,3) show ?thesis by (simp add: handler_ok_def)
qed

lemma scard_establish_context_ok:
  "scard_establish_context c header fd s = Some (x, s') \<Longrightarrow> serving c s \<Longrightarrow> handler_ok c s s'"
  unfolding scard_establish_context_def
proof (erule READ_BODY_ok, assumption)
  fix b and s1 :: "'a svc"
  assume s1: "serving c s1"
  let ?s2 = "s1\<lparr>daemon := (daemon s1)\<lparr>randoms := tl (randoms (daemon s1))\<rparr>\<rparr>"
  have s2: "handler_ok c s1 (upd_ctx c (\<lambda>x. x\<lparr>hContext := n\<rparr>) ?s2)" if "randoms (daemon s1) \<noteq> []" for n
  proof (rule handler_ok_context)
    show "handler_ok c s1 ?s2"
      using that s1 by (intro handler_ok_daemon [OF s1]) (auto simp: serving_def pcscd_ok_def dest: list.set_sel(2))
  qed simp_all
  assume "(let esStr = establish_struct_at b;
         (rv, hCtx) = SCardEstablishContext (ucast (es_dwScope esStr))
           (case randoms (daemon s1) of [] \<Rightarrow> 0 | randomInt # _ \<Rightarrow> randomInt);
         esStr = esStr\<lparr>es_rv := word_of_int rv, es_hContext := word_of_int hCtx\<rparr>
     in if rv \<noteq> SCARD_S_SUCCESS then WRITE_BODY fd (establish_struct_image esStr) s1
        else if randoms (daemon s1) = [] then None
        else case MSGAddContext (es_hContext esStr) c ?s2 of
          (rv, s) \<Rightarrow> WRITE_BODY fd (establish_struct_image (esStr\<lparr>es_rv := word_of_int rv\<rparr>)) s) = Some (x, s')"
  with s2 handler_ok_refl [OF s1] show "handler_ok c s1 s'"
    by (auto simp: Let_def MSGAddContext_def split_beta split: if_splits intro: WRITE_BODY_ok)
qed

lemma drop_handle_randoms: "drop_handle h i w = Some w' \<Longrightarrow> randoms w' = randoms w"
  by (auto simp: drop_handle_def split_beta split: if_splits dest!: randoms_SCardDisconnect)

lemma drop_handles_randoms:
  fixes w :: "'d pcscd"
  assumes "drop_handles l w = Some y"
  shows "randoms (snd (snd y)) = randoms w"
proof (rule drop_handles.raw_induct [where P = "\<lambda>l w y. randoms (snd (snd y)) = randoms w", OF _ assms])
  fix f :: "int list_t \<Rightarrow> 'd pcscd \<Rightarrow> ((LONG + unit) \<times> int list_t \<times> 'd pcscd) option"
    and l :: "int list_t" and w :: "'d pcscd" and y
  assume 1: "\<And>l w y. f l w = Some y \<Longrightarrow> randoms (snd (snd y)) = randoms w"
  assume 2: "(if list_size l = 0 then Some (Inr (), l, w)
      else case list_get_at l 0 of
          None \<Rightarrow> f l w
        | Some h \<Rightarrow>
          (case RFReaderInfoById h w of
             (Inl rv, w) \<Rightarrow>
               if rv \<noteq> SCARD_E_INVALID_VALUE \<and> rv \<noteq> SCARD_E_READER_UNAVAILABLE then Some (Inl rv, l, w)
               else f (snd (list_delete_at l 0)) w
           | (Inr i, w) \<Rightarrow>
               Option.bind (drop_handle h i w) (\<lambda>w. f (snd (list_delete_at l 0)) (snd (UnrefReader i w))))) = Some y"
  have u: "randoms v = randoms w" if "RFReaderInfoById h w = (q, v)" for h q v
    using randoms_lookup(2) [of h w] that by simp
  from 2 show "randoms (snd (snd y)) = randoms w"
    by (auto simp: bind_eq_Some_conv split: if_splits option.splits prod.splits sum.splits
        dest!: u drop_handle_randoms dest: 1)
qed

text \<open>Removing the context of a client that may be served always returns.\<close>

lemma MSGRemoveContext_returns:
  assumes "serving c s"
  shows "\<exists>rv s'. MSGRemoveContext h c s = Some (rv, s') \<and> handler_ok c s s' \<and>
    (hContext (ctxMem s c) \<noteq> 0 \<and> hContext (ctxMem s c) = h \<longrightarrow> cards s' c = {} \<and> hContext (ctxMem s' c) = 0 \<and>
       clients_gone (cards s c - {0}) (daemon s) (daemon s'))"
proof (cases "hContext (ctxMem s c) \<noteq> 0 \<and> hContext (ctxMem s c) = h")
  case False
  with handler_ok_refl [OF assms] show ?thesis by (auto simp: MSGRemoveContext_def)
next
  case True
  obtain l w where d: "drop_handles (cardsList (ctxMem s c)) (daemon s) = Some (Inr (), l, w)" "list_ok l" "entries l = []"
    "clients_gone (cards s c - {0}) (daemon s) w"
    using drop_handles_gone [of "cardsList (ctxMem s c)" "daemon s"] assms
    by (auto simp: serving_def client_ok_def cards_def)
  define s' where "s' = upd_ctx c (\<lambda>x. x\<lparr>hContext := 0\<rparr>) ((upd_ctx c (\<lambda>x. x\<lparr>cardsList := l\<rparr>) s)\<lparr>daemon := w\<rparr>)"
  have m: "MSGRemoveContext h c s = Some (SCARD_S_SUCCESS, s')"
    using True d(1) by (simp add: MSGRemoveContext_def Let_def s'_def)
  have k: "cards s' c = {}" "hContext (ctxMem s' c) = 0" "daemon s' = w"
    using d(3) by (simp_all add: cards_def upd_ctx_def s'_def)
  have f: "contextsList s' = contextsList s" "freshCtx s' = freshCtx s" "closedFds s' = closedFds s"
    "contextMaxCardHandles s' = contextMaxCardHandles s" "contextMaxThreadCounter s' = contextMaxThreadCounter s"
    "AutoExit s' = AutoExit s" "\<And>c'. c' \<noteq> c \<Longrightarrow> ctxMem s' c' = ctxMem s c'"
    "dwClientID (ctxMem s' c) = dwClientID (ctxMem s c)" "cardsList (ctxMem s' c) = l"
    by (simp_all add: upd_ctx_def s'_def)
  have "spares (cards s c) (daemon s) w"
    by (rule spares_mono [OF clients_gone_spares [OF d(4)]]) auto
  moreover have "pcscd_ok w" "refs_room w" using d(4) by (simp_all add: clients_gone_def)
  moreover have "randoms w = randoms (daemon s)" using drop_handles_randoms [OF d(1)] by simp
  moreover have "client_ok s' c" using assms d(2,3) f by (simp add: serving_def client_ok_def)
  ultimately have "handler_ok c s s'"
    using assms k f by (auto simp: handler_ok_def serving_def randoms_ok_def)
  with m k d(4) show ?thesis by blast
qed

lemma scard_release_context_ok:
  "scard_release_context c header fd s = Some (x, s') \<Longrightarrow> serving c s \<Longrightarrow> handler_ok c s s'"
  unfolding scard_release_context_def
proof (erule READ_BODY_ok, assumption)
  fix b and s1 :: "'a svc"
  assume s1: "serving c s1"
  assume "(let reStr = release_struct_at b; rv = SCardReleaseContext (uint (re_hContext reStr)) in
     Option.bind (if rv = SCARD_S_SUCCESS then MSGRemoveContext (uint (re_hContext reStr)) c s1 else Some (rv, s1))
       (\<lambda>(rv, s). WRITE_BODY fd (release_struct_image (reStr\<lparr>re_rv := word_of_int rv\<rparr>)) s)) = Some (x, s')"
  with MSGRemoveContext_returns [OF s1, of "uint (re_hContext (release_struct_at b))"] show "handler_ok c s1 s'"
    by (auto simp: Let_def SCardReleaseContext_def bind_eq_Some_conv intro: WRITE_BODY_ok)
qed

section \<open>Connections\<close>

lemma scard_disconnect_ok:
  "scard_disconnect [] c header fd s = Some (x, s') \<Longrightarrow> serving c s \<Longrightarrow> handler_ok c s s'"
  unfolding scard_disconnect_def
proof (erule READ_BODY_ok, assumption)
  fix b and s1 :: "'a svc"
  let ?di = "disconnect_struct_at b"
  let ?h = "sint (di_hCard ?di)"
  assume s1: "serving c s1"
  have rm: "handler_ok c s1 (upd_ctx c (\<lambda>x. x\<lparr>cardsList := snd (list_delete (cardsList (ctxMem s2 c)) k)\<rparr>) s2)"
    if "handler_ok c s1 s2" "cards s2 c = cards s1 c" for s2 k
  proof -
    let ?l = "cardsList (ctxMem s2 c)"
    have l: "list_ok ?l" using that(1) by (simp add: handler_ok_def client_ok_def)
    have "list_ok (snd (list_delete ?l k))" "entries (snd (list_delete ?l k)) = remove1 k (entries ?l)"
      using simclist.inv_delete [OF l] simclist.delete_ok [OF l] by simp_all
    with that show ?thesis
      using set_remove1_subset [of k "entries ?l"] length_remove1 [of k "entries ?l"]
      by (auto simp: handler_ok_def client_ok_def cards_def intro!: exI [of _ "{}"])
  qed
  assume "(let diStr = ?di; h = sint (di_hCard diStr) in
     if MSGCheckHandleAssociation h c s1 \<noteq> 0 then Some (False, s1)
     else Option.bind (SCardDisconnect [] h (ucast (di_dwDisposition diStr)) (daemon s1)) (\<lambda>(rv, w).
       let s = s1\<lparr>daemon := w\<rparr> in
       case (if (word_of_int rv :: u32) = 0 then MSGRemoveHandle h c s else (rv, s)) of (rv, s) \<Rightarrow>
         WRITE_BODY fd (disconnect_struct_image (diStr\<lparr>di_rv := word_of_int rv\<rparr>)) s)) = Some (x, s')"
  then consider "s' = s1" | rv w s2 r where "MSGCheckHandleAssociation ?h c s1 = 0"
      "SCardDisconnect [] ?h (ucast (di_dwDisposition ?di)) (daemon s1) = Some (rv, w)"
      "s2 = s1\<lparr>daemon := w\<rparr> \<or> s2 = snd (MSGRemoveHandle ?h c (s1\<lparr>daemon := w\<rparr>))" "WRITE_BODY fd r s2 = Some (x, s')"
    by (auto simp: Let_def bind_eq_Some_conv split_beta split: if_splits)
  then show "handler_ok c s1 s'"
  proof cases
    case 1
    with handler_ok_refl [OF s1] show ?thesis by simp
  next
    case (2 rv w s2 r)
    have "handler_ok c s1 (s1\<lparr>daemon := w\<rparr>)"
      using daemon_call_ok [OF s1 SCardDisconnect_ok [OF _ 2(2)] SCardDisconnect_spares [OF _ 2(2)]] s1
        MSGCheckHandleAssociation_own [OF _ 2(1)] randoms_SCardDisconnect [OF 2(2)] by (simp add: serving_def)
    then have "handler_ok c s1 s2"
      using 2(3) rm [of "s1\<lparr>daemon := w\<rparr>" "int32 ?h"] by (auto simp: MSGRemoveHandle_def split_beta)
    with 2(4) show ?thesis by (rule WRITE_BODY_ok)
  qed
qed

text \<open>Storing a fresh handle in the list of the client.\<close>

lemma list_append_success: "0 \<le> fst (list_append m l x) \<Longrightarrow> list_append m l x = list_append True l x"
  by (auto simp: list_append_def list_insert_at_def Let_def split: if_splits)

lemma MSGAddHandle_ok:
  assumes "handler_ok c s0 s" "cards s c = cards s0 c" "int32 h \<notin> all_handles (daemon s0)"
  shows "handler_ok c s0 (snd (MSGAddHandle n h c s))"
proof (cases "fst (MSGAddHandle n h c s) = SCARD_S_SUCCESS")
  case False
  then have "snd (MSGAddHandle n h c s) = s"
    by (auto simp: MSGAddHandle_def Let_def split_beta split: if_splits)
  with assms(1) show ?thesis by simp
next
  case True
  let ?l = "cardsList (ctxMem s c)"
  let ?a = "list_append (memOk (daemon s)) ?l (int32 h)"
  have l: "list_ok ?l" "int (length (entries ?l)) \<le> max 0 (contextMaxCardHandles s)"
    using assms(1) unfolding handler_ok_def client_ok_def by blast+
  have a: "fst ?a \<ge> 0" "int (length (entries ?l)) < contextMaxCardHandles s"
    and s': "snd (MSGAddHandle n h c s) = upd_ctx c (\<lambda>x. x\<lparr>cardsList := snd ?a\<rparr>) s"
    using True simclist.size_of [OF l(1)] by (auto simp: MSGAddHandle_def Let_def split_beta split: if_splits)
  have e: "list_ok (snd ?a)" "entries (snd ?a) = entries ?l @ [int32 h]"
    using simclist.inv_append [OF l(1)] simclist.append_ok [OF l(1), of "int32 h"] list_append_success [OF a(1)]
    by simp_all
  have "client_ok (snd (MSGAddHandle n h c s)) c" "cards (snd (MSGAddHandle n h c s)) c = insert (int32 h) (cards s0 c)"
    using assms(1,2) e a(2) unfolding s' by (auto simp: handler_ok_def client_ok_def cards_def)
  moreover have "\<exists>N. N \<inter> all_handles (daemon s0) = {} \<and> insert (int32 h) (cards s0 c) \<subseteq> cards s0 c \<union> N"
    using assms(3) by (intro exI [of _ "{int32 h}"]) auto
  ultimately show ?thesis using assms(1) unfolding s' by (simp add: handler_ok_def)
qed

text \<open>A connection, then the handle is stored or disconnected again.\<close>

lemma call_spares_ok:
  assumes "serving c s" "call_ok (daemon s) w" "spares {} (daemon s) w" "set (randoms w) \<subseteq> set (randoms (daemon s))"
  shows "handler_ok c s (s\<lparr>daemon := w\<rparr>)"
proof -
  have "pcscd_ok w" "refs_room w"
    using assms(1,2) by (auto simp: serving_def intro: call_ok_pcscd_ok call_ok_refs_room)
  moreover have "spares (cards s c) (daemon s) w"
    using spares_mono [OF assms(3)] by simp
  ultimately show ?thesis
    using assms(1,4) by (auto simp: handler_ok_def serving_def randoms_ok_def intro: exI [of _ "{}"])
qed

lemma handler_ok_fresh:
  assumes "handler_ok c s0 s" "cards s c = cards s0 c" "call_ok (daemon s) w" "spares {h} (daemon s) w"
    and "h \<notin> all_handles (daemon s0)" "randoms w = randoms (daemon s)"
  shows "handler_ok c s0 (s\<lparr>daemon := w\<rparr>)"
proof -
  have "pcscd_ok w" "refs_room w"
    using assms(1,3) by (auto simp: handler_ok_def intro: call_ok_pcscd_ok call_ok_refs_room)
  moreover have "spares (cards s0 c) (daemon s0) w"
  proof (rule spares_fresh)
    show "spares (cards s0 c) (daemon s0) (daemon s)" using assms(1) by (simp add: handler_ok_def)
    show "spares (cards s0 c \<union> {h}) (daemon s) w" using spares_mono [OF assms(4)] by simp
  qed (use assms(5) in simp)
  ultimately show ?thesis
    using assms(1,6) by (simp add: handler_ok_def randoms_ok_def)
qed

lemma store_handle_ok:
  assumes "handler_ok c s0 s" "cards s c = cards s0 c" "store_handle co c s = Some (rv, s')"
    and "co_rv co = 0 \<longrightarrow> sint (co_hCard co) \<notin> all_handles (daemon s0)"
  shows "handler_ok c s0 s'"
proof (cases "co_rv co = 0")
  case False
  with assms(1,3) show ?thesis by (auto simp: store_handle_def)
next
  case True
  let ?h = "sint (co_hCard co)"
  let ?m = "MSGAddHandle (uint (co_hContext co)) ?h c s"
  have h: "int32 ?h = ?h" using sint_greater_eq [of "co_hCard co"] sint_less [of "co_hCard co"] by (intro int32_id) simp_all
  have m: "handler_ok c s0 (snd ?m)"
    using MSGAddHandle_ok [OF assms(1,2), of ?h] assms(4) True h by simp
  show ?thesis
  proof (cases "(word_of_int (fst ?m) :: u32) = 0")
    case ok: True
    with assms(3) True m show ?thesis by (auto simp: store_handle_def split_beta)
  next
    case fail: False
    then have "fst ?m \<noteq> 0" by (metis of_int_0)
    then have s: "snd ?m = s" by (auto simp: MSGAddHandle_def Let_def split_beta split: if_splits)
    obtain r w where d: "SCardDisconnect [] ?h SCARD_LEAVE_CARD (daemon s) = Some (r, w)" "s' = s\<lparr>daemon := w\<rparr>"
      using assms(3) True fail s by (auto simp: store_handle_def split_beta)
    have ok: "pcscd_ok (daemon s)" using assms(1) by (simp add: handler_ok_def)
    show ?thesis
      unfolding d(2)
      by (rule handler_ok_fresh [OF assms(1,2) SCardDisconnect_ok [OF ok d(1)] SCardDisconnect_spares [OF ok d(1)]])
        (use assms(4) True randoms_SCardDisconnect [OF d(1)] in auto)
  qed
qed

text \<open>The status of a connection is one of the 32-bit codes, so that the reply shows it unchanged.\<close>

definition code32 :: "LONG \<Rightarrow> bool" where
  "code32 rv = (0 \<le> rv \<and> rv < 2 ^ 32)"

lemma code32_zero: "code32 rv \<Longrightarrow> (word_of_int rv :: u32) = 0 \<longleftrightarrow> rv = 0"
  using uint_word_of_int [of rv, where 'a = 32] unsigned_eq_0_iff [of "word_of_int rv :: u32", where 'a = int]
  by (auto simp: code32_def)

lemma connect_body_code:
  assumes "connect_body share pref act i w = Some ((rv, h, prot), w')"
  shows "code32 rv"
proof -
  have 1: "code32 e" if "fst (connect_card share i v) = Inl e" for e and v :: "'a pcscd"
    using that by (auto simp: connect_card_def code32_def Let_def split_beta split: if_splits)
  have 2: "code32 e" if "fst (set_up_protocol share pref i v) = Inl e" for e and v :: "'a pcscd"
    using that by (auto simp: set_up_protocol_def code32_def Let_def split_beta split: if_splits)
  have 3: "code32 e" if "fst (connect_share share k r) = Inl e" for e k and r :: "'a READER_CONTEXT"
    using that by (auto simp: connect_share_def code32_def split: if_splits)
  have 4: "code32 (fst (connect_add_handle n m k r))" for n m k and r :: "'a READER_CONTEXT"
    by (auto simp: connect_add_handle_def code32_def split_beta)
  show ?thesis
    using assms 4 by (auto simp: connect_body_def Let_def split_beta split: sum.splits prod.splits option.splits dest: 1 2 3)
qed

lemma SCardConnect_code:
  assumes "SCardConnect [] name share pref act w = Some ((rv, h, prot), w')"
  shows "code32 rv"
proof -
  have 1: "code32 e" if "RFReaderInfo name w = (Inl e, v)" for e v
    using that by (auto simp: RFReaderInfo_def ref_found_def RefReader_def code32_def split: option.splits if_splits)
  have 2: "code32 (RFCheckReaderStatus r)" for r :: "'a READER_CONTEXT"
    by (simp add: RFCheckReaderStatus_def code32_def)
  show ?thesis
    using assms
    by (auto simp: SCardConnect_def code32_def [of 2148532239] code32_def [of 2148532241] code32_def [of 2148532235] Let_def
        split: if_splits prod.splits sum.splits dest: 1 connect_body_code intro: 2)
qed

lemma connect_call_ok:
  assumes "serving c s" "connect_call [] fd co s = Some (res, s')"
  shows "handler_ok c s s' \<and> cards s' c = cards s c \<and>
    (co_rv (connect_result co res) = 0 \<longrightarrow> sint (co_hCard (connect_result co res)) \<notin> all_handles (daemon s))"
proof -
  let ?name = "c_string (co_szReader co)"
  let ?call = "SCardConnect [] ?name (ucast (co_dwShareMode co)) (ucast (co_dwPreferredProtocols co))
    (ucast (co_dwActiveProtocol co)) (daemon s)"
  obtain rv h act where res: "res = (rv, h, act)" by (cases res)
  show ?thesis
  proof (cases "IsClientAuthorized fd ''access_card'' (Some ?name) s")
    case False
    with assms(2) handler_ok_refl [OF assms(1)] show ?thesis
      by (auto simp: connect_call_def connect_result_def Let_def)
  next
    case True
    with assms(2) res obtain w where w: "?call = Some ((rv, h, act), w)" "s' = s\<lparr>daemon := w\<rparr>"
      by (auto simp: connect_call_def Let_def)
    have d: "pcscd_ok (daemon s)" "refs_room (daemon s)" "randoms_ok (daemon s)" using assms(1) by (simp_all add: serving_def)
    have "handler_ok c s s'"
      unfolding w(2) using call_spares_ok [OF assms(1) SCardConnect_ok [OF d(1) w(1) d(2)] SCardConnect_spares [OF d(1,2) w(1)]]
        randoms_SCardConnect(1) [OF d(1,2) w(1)] by simp
    moreover have "sint (word_of_int h :: u32) \<notin> all_handles (daemon s)" if "(word_of_int rv :: u32) = 0"
    proof -
      have rv: "rv = 0" using that code32_zero [OF SCardConnect_code [OF w(1)]] by simp
      then have "random_int h" using randoms_SCardConnect(2) [OF d(1,2) w(1)] d(3) by (simp add: randoms_ok_def)
      moreover have "h \<notin> all_handles (daemon s)"
        using d(1) w(1) d(2)
      proof (cases rule: SCardConnect_cases)
        case (body i H)
        with rv show ?thesis by auto
      qed (use rv in simp)
      ultimately show ?thesis using random_int_word by simp
    qed
    ultimately show ?thesis using w(2) by (simp add: res connect_result_def)
  qed
qed

lemma scard_connect_ok:
  "scard_connect [] c header fd s = Some (x, s') \<Longrightarrow> serving c s \<Longrightarrow> handler_ok c s s'"
  unfolding scard_connect_def
proof (erule READ_BODY_ok, assumption)
  fix b and s1 :: "'a svc"
  assume s1: "serving c s1"
  define co where "co = (connect_struct_at b)\<lparr>co_szReader := (co_szReader (connect_struct_at b))[127 := 0]\<rparr>"
  assume "(let coStr = connect_struct_at b; coStr = coStr\<lparr>co_szReader := (co_szReader coStr)[127 := 0]\<rparr> in
     Option.bind (connect_call [] fd coStr s1) (\<lambda>(res, s).
       let coStr = connect_result coStr res in
       Option.bind (store_handle coStr c s) (\<lambda>(rv, s).
         WRITE_BODY fd (connect_struct_image (coStr\<lparr>co_rv := rv\<rparr>)) s))) = Some (x, s')"
  then obtain res s2 q s3 r where "connect_call [] fd co s1 = Some (res, s2)"
    "store_handle (connect_result co res) c s2 = Some (q, s3)" and w: "WRITE_BODY fd r s3 = Some (x, s')"
    by (auto simp: Let_def bind_eq_Some_conv simp flip: co_def)
  with connect_call_ok [OF s1] store_handle_ok [of c s1 s2] have "handler_ok c s1 s3" by blast
  with w show "handler_ok c s1 s'" by (rule WRITE_BODY_ok)
qed

section \<open>Dispatch and the end of the thread\<close>

lemma dispatch_ok: "dispatch [] c fd header s = Some (x, s') \<Longrightarrow> serving c s \<Longrightarrow> handler_ok c s s'"
  by (auto simp: dispatch_def handler_ok_refl split: option.splits pcsc_msg_commands.splits
      intro: cmd_version_ok commands_without_body_ok scard_establish_context_ok scard_release_context_ok
        scard_connect_ok scard_reconnect_ok scard_disconnect_ok scard_begin_transaction_ok
        scard_end_transaction_ok scard_cancel_ok scard_status_ok scard_transmit_ok scard_control_ok
        scard_get_attrib_ok scard_set_attrib_ok)

lemma svc_ok_serving: "svc_ok s \<Longrightarrow> c \<in> set (entries (contextsList s)) \<Longrightarrow> serving c s"
  by (simp add: svc_ok_def serving_def)

lemma handler_ok_svc_ok:
  assumes "svc_ok s" "handler_ok c s s'"
  shows "svc_ok s'"
proof -
  have "client_ok s' c'" if "c' \<in> set (entries (contextsList s))" for c'
  proof (cases "c' = c")
    case True
    with assms(2) show ?thesis by (simp add: handler_ok_def)
  next
    case False
    with assms that show ?thesis by (simp add: svc_ok_def handler_ok_def client_ok_def)
  qed
  with assms show ?thesis by (simp add: svc_ok_def handler_ok_def)
qed

text \<open>The end of a thread always comes: the client's handles and its context are gone.\<close>

lemma thread_exit_effect:
  assumes "svc_ok s" "c \<in> set (entries (contextsList s))"
  obtains s' where "thread_exit c fd s = Some (False, s')" "svc_ok s'"
    "entries (contextsList s') = remove1 c (entries (contextsList s))"
    "\<And>c'. c' \<noteq> c \<Longrightarrow> ctxMem s' c' = ctxMem s c'" "ctxMem s' c = empty_context"
    "closedFds s' = closedFds s @ [fd]"
    "hContext (ctxMem s c) \<noteq> 0 \<longrightarrow> clients_gone (cards s c - {0}) (daemon s) (daemon s')"
    "hContext (ctxMem s c) = 0 \<longrightarrow> daemon s' = daemon s"
    "spares (cards s c) (daemon s) (daemon s')"
    "AutoExit s \<and> entries (contextsList s) = [c] \<longrightarrow> alarmClock s' = Some TIME_BEFORE_SUICIDE"
proof -
  let ?s = "s\<lparr>closedFds := closedFds s @ [fd]\<rparr>"
  have sv: "serving c ?s" "svc_ok ?s"
    using svc_ok_serving [OF assms] assms(1) by (auto simp: serving_def client_ok_def svc_ok_def)
  obtain s1 where s1: "(if hContext (ctxMem ?s c) \<noteq> 0 then map_option snd (MSGRemoveContext (hContext (ctxMem ?s c)) c ?s) else Some ?s) = Some s1"
    "handler_ok c ?s s1"
    "hContext (ctxMem s c) \<noteq> 0 \<longrightarrow> clients_gone (cards s c - {0}) (daemon s) (daemon s1)"
    "hContext (ctxMem s c) = 0 \<longrightarrow> daemon s1 = daemon s"
  proof (cases "hContext (ctxMem s c) = 0")
    case True
    with that [of ?s] handler_ok_refl [OF sv(1)] show thesis by simp
  next
    case False
    obtain rv s1 where "MSGRemoveContext (hContext (ctxMem ?s c)) c ?s = Some (rv, s1)" "handler_ok c ?s s1"
      "clients_gone (cards ?s c - {0}) (daemon ?s) (daemon s1)"
      using MSGRemoveContext_returns [OF sv(1), of "hContext (ctxMem ?s c)"] False by auto
    with that [of s1] False show thesis by (simp add: cards_def)
  qed
  have ok1: "svc_ok s1" by (rule handler_ok_svc_ok [OF sv(2) s1(2)])
  have f1: "contextsList s1 = contextsList s" "closedFds s1 = closedFds s @ [fd]" "AutoExit s1 = AutoExit s"
    "\<And>c'. c' \<noteq> c \<Longrightarrow> ctxMem s1 c' = ctxMem s c'" "spares (cards s c) (daemon s) (daemon s1)"
    using s1(2) by (auto simp: handler_ok_def cards_def)
  define l where "l = snd (list_delete (contextsList s) c)"
  have lo: "list_ok (contextsList s)" using assms(1) by (simp add: svc_ok_def)
  have l: "list_ok l" "entries l = remove1 c (entries (contextsList s))" "list_size l = length (entries l)"
    using simclist.inv_delete [OF lo] simclist.delete_ok [OF lo] simclist.size_of [OF simclist.inv_delete [OF lo]]
    by (simp_all add: l_def)
  define s2 where "s2 = (upd_ctx c (\<lambda>x. empty_context) s1)\<lparr>contextsList := l\<rparr>"
  define s3 where "s3 = (if AutoExit s \<and> list_size l < 1 then s2\<lparr>alarmClock := Some TIME_BEFORE_SUICIDE\<rparr> else s2)"
  have e: "thread_exit c fd s = Some (False, s3)"
    using s1(1) f1(1,3) by (simp add: thread_exit_def MSGCleanupClient_def Let_def s3_def s2_def l_def)
  have f3: "contextsList s3 = l" "daemon s3 = daemon s1" "closedFds s3 = closedFds s @ [fd]" "ctxMem s3 c = empty_context"
    "freshCtx s3 = freshCtx s1" "contextMaxCardHandles s3 = contextMaxCardHandles s1"
    "contextMaxThreadCounter s3 = contextMaxThreadCounter s1" "\<And>c'. c' \<noteq> c \<Longrightarrow> ctxMem s3 c' = ctxMem s1 c'"
    using f1(2) by (simp_all add: s3_def s2_def)
  have d: "distinct (entries (contextsList s))" using assms(1) by (simp add: svc_ok_def)
  have "client_ok s3 c'" if "c' \<in> set (entries l)" for c'
  proof -
    have "c' \<noteq> c" "c' \<in> set (entries (contextsList s))" using that l(2) d by auto
    with ok1 f1(1) f3 show ?thesis by (auto simp: svc_ok_def client_ok_def)
  qed
  moreover have "length (entries l) \<le> length (entries (contextsList s))" by (simp add: l(2) length_remove1)
  ultimately have "svc_ok s3"
    using ok1 f1(1) f3 l(1,2) d by (auto simp: svc_ok_def)
  moreover have "alarmClock s3 = Some TIME_BEFORE_SUICIDE" if "AutoExit s \<and> entries (contextsList s) = [c]"
    using that l by (simp add: s3_def)
  ultimately show thesis
    using that [OF e] l(2) f1 f3 s1(3,4) by simp
qed

section \<open>A round of a thread\<close>

definition round_ok :: "nat \<Rightarrow> 'd svc \<Rightarrow> 'd svc \<Rightarrow> bool" where
  "round_ok c s s' =
     (svc_ok s' \<and> set (entries (contextsList s')) \<subseteq> set (entries (contextsList s)) \<and>
      (\<forall>c'. c' \<noteq> c \<longrightarrow> ctxMem s' c' = ctxMem s c') \<and> spares (cards s c) (daemon s) (daemon s'))"

lemma handler_round_ok: "svc_ok s \<Longrightarrow> handler_ok c s s' \<Longrightarrow> round_ok c s s'"
  using handler_ok_svc_ok [of s c s'] by (simp add: round_ok_def handler_ok_def)

lemma exit_round_ok:
  assumes "svc_ok s" "c \<in> set (entries (contextsList s))" "handler_ok c s s1" "thread_exit c fd s1 = Some (b, s')"
  shows "round_ok c s s'"
proof -
  have ok1: "svc_ok s1" "c \<in> set (entries (contextsList s1))"
    using handler_ok_svc_ok [OF assms(1,3)] assms(2,3) by (auto simp: handler_ok_def)
  obtain N where n: "N \<inter> all_handles (daemon s) = {}" "cards s1 c \<subseteq> cards s c \<union> N"
    using assms(3) by (auto simp: handler_ok_def)
  obtain s2 where "thread_exit c fd s1 = Some (False, s2)" and s2: "svc_ok s2"
    "entries (contextsList s2) = remove1 c (entries (contextsList s1))"
    "\<And>c'. c' \<noteq> c \<Longrightarrow> ctxMem s2 c' = ctxMem s1 c'" "spares (cards s1 c) (daemon s1) (daemon s2)"
    by (rule thread_exit_effect [OF ok1, of fd]) blast
  with assms(4) have "s2 = s'" by simp
  moreover have "spares (cards s c) (daemon s) (daemon s2)"
  proof (rule spares_fresh [OF _ spares_mono [OF s2(4) n(2)] n(1)])
    show "spares (cards s c) (daemon s) (daemon s1)" using assms(3) by (simp add: handler_ok_def)
  qed
  ultimately show ?thesis
    using s2(1-3) assms(3) set_remove1_subset [of c "entries (contextsList s1)"]
    by (simp add: round_ok_def handler_ok_def)
qed

lemma ContextThread_step_ok:
  assumes "svc_ok s" "c \<in> set (entries (contextsList s))" "ContextThread_step [] c s = Some (b, s')"
  shows "round_ok c s s'"
proof -
  let ?fd = "dwClientID (ctxMem s c)"
  obtain ret m s1 where r: "recv_msg ?fd 8 s = Some ((ret, m), s1)"
    and k: "(if ret \<noteq> 0 then thread_exit c ?fd (s1\<lparr>daemon := snd (EHTryToUnregisterClientForEvent ?fd (daemon s1))\<rparr>)
        else Option.bind (dispatch [] c ?fd (rxHeader_at m) s1)
          (\<lambda>(continue, s). if continue then Some (True, s) else thread_exit c ?fd s)) = Some (b, s')"
    using assms(3) by (auto simp: ContextThread_step_def Let_def bind_eq_Some_conv)
  have sv: "serving c s1" "handler_ok c s s1"
    using recv_msg_sockets [OF r] svc_ok_serving [OF assms(1,2)] handler_ok_refl [OF svc_ok_serving [OF assms(1,2)]] by auto
  have t: "handler_ok c s s2" if "handler_ok c s1 s2" for s2
    using that recv_msg_sockets [OF r] by auto
  show ?thesis
  proof (cases "ret = 0")
    case False
    with k show ?thesis
      using exit_round_ok [OF assms(1,2) t [OF waiting_list_ok(2) [OF sv(1)]]] by auto
  next
    case True
    with k obtain cont s2 where d: "dispatch [] c ?fd (rxHeader_at m) s1 = Some (cont, s2)"
      "(if cont then Some (True, s2) else thread_exit c ?fd s2) = Some (b, s')"
      by (auto simp: bind_eq_Some_conv)
    have h: "handler_ok c s s2" by (rule t [OF dispatch_ok [OF d(1) sv(1)]])
    show ?thesis
      using d(2) handler_round_ok [OF assms(1) h] exit_round_ok [OF assms(1,2) h]
      by (auto split: if_splits)
  qed
qed

section \<open>New clients\<close>

lemma new_context_ok: "list_ok (cardsList (new_context fd))" "entries (cardsList (new_context fd)) = []"
  by (simp_all add: new_context_def empty_context_def list_attributes_copy_def list_attributes_comparator_def
      list_ok_def list_repOk_def list_init_def Let_def)

lemma CreateContextThread_ok:
  assumes "svc_ok s"
  shows "svc_ok (snd (CreateContextThread fd s))"
    and "fst (CreateContextThread fd s) \<noteq> SCARD_S_SUCCESS \<Longrightarrow>
      entries (contextsList (snd (CreateContextThread fd s))) = entries (contextsList s) \<and>
      closedFds (snd (CreateContextThread fd s)) = closedFds s @ [fd]"
    and "fst (CreateContextThread fd s) = SCARD_S_SUCCESS \<Longrightarrow>
      entries (contextsList (snd (CreateContextThread fd s))) = entries (contextsList s) @ [freshCtx s] \<and>
      int (length (entries (contextsList s))) < contextMaxThreadCounter s \<and>
      ctxMem (snd (CreateContextThread fd s)) (freshCtx s) = new_context fd"
proof -
  let ?l = "contextsList s" and ?c = "freshCtx s"
  let ?a = "list_append (memOk (daemon s)) ?l ?c"
  have lo: "list_ok ?l" and fresh: "?c \<notin> set (entries ?l)"
    using assms by (auto simp: svc_ok_def client_ok_def)
  have sz: "list_size ?l = length (entries ?l)" by (rule simclist.size_of [OF lo])
  have a: "list_ok (snd ?a)" "0 \<le> fst ?a \<Longrightarrow> entries (snd ?a) = entries ?l @ [?c]" "fst ?a < 0 \<Longrightarrow> entries (snd ?a) = entries ?l"
    using simclist.inv_append [OF lo] simclist.append_ok [OF lo, of ?c] list_append_success [of "memOk (daemon s)" ?l ?c]
      simclist.append_fail [OF lo] by auto
  have d: "list_ok (snd (list_delete (snd ?a) ?c))" "0 \<le> fst ?a \<Longrightarrow> entries (snd (list_delete (snd ?a) ?c)) = entries ?l"
    using simclist.inv_delete [OF a(1)] simclist.delete_ok [OF a(1)] a(2) fresh by (simp_all add: remove1_append)
  show "svc_ok (snd (CreateContextThread fd s))"
    using assms sz a d fresh
    by (auto simp: CreateContextThread_def Let_def split_beta svc_ok_def client_ok_def new_context_ok
        less_Suc_eq)
  show "fst (CreateContextThread fd s) \<noteq> SCARD_S_SUCCESS \<Longrightarrow>
      entries (contextsList (snd (CreateContextThread fd s))) = entries (contextsList s) \<and>
      closedFds (snd (CreateContextThread fd s)) = closedFds s @ [fd]"
    using a d by (auto simp: CreateContextThread_def Let_def split_beta split: if_splits)
  show "fst (CreateContextThread fd s) = SCARD_S_SUCCESS \<Longrightarrow>
      entries (contextsList (snd (CreateContextThread fd s))) = entries (contextsList s) @ [freshCtx s] \<and>
      int (length (entries (contextsList s))) < contextMaxThreadCounter s \<and>
      ctxMem (snd (CreateContextThread fd s)) (freshCtx s) = new_context fd"
    using a sz by (auto simp: CreateContextThread_def Let_def split_beta split: if_splits)
qed

end
