(* ===== verification/Svc_Props.thy ===== *)
theory Svc_Props
  imports Svc_Inv Winscard_Props
begin

text \<open>
  The properties of the message dispatcher: its invariant in every interleaving of clients and
  event threads, the isolation of clients from each other, the clean-up of a client that
  goes away, and the service of a transmission from the bytes of the request to the bytes
  of the answer.
\<close>

section \<open>All interleavings\<close>

lemma randoms_event_thread:
  "randoms (snd (eh_poll i t w)) = randoms w"
  "randoms (snd (eh_exit i (eh_power i (eh_wait i w)))) = randoms w"
  by (auto simp: eh_poll_def eh_sharing_def eh_removed_def eh_inserted_def eh_error_def eh_power_up_def eh_exit_def
      eh_power_def eh_wait_def Let_def split_beta split: option.splits)

text \<open>
  The steps of the service: a client connects, a thread finds its client unauthorized, a thread
  serves one command, or an event thread does one half of a round.
\<close>

inductive service_step :: "'d svc \<Rightarrow> 'd svc \<Rightarrow> bool" where
  accept: "CreateContextThread fd s = (rv, s') \<Longrightarrow> service_step s s'"
| reject: "c \<in> set (entries (contextsList s)) \<Longrightarrow> thread_exit c (dwClientID (ctxMem s c)) s = Some (x, s') \<Longrightarrow> service_step s s'"
| serve: "c \<in> set (entries (contextsList s)) \<Longrightarrow> ContextThread_step [] c s = Some (x, s') \<Longrightarrow> service_step s s'"
| poll: "i < length (sReadersContexts (daemon s)) \<Longrightarrow> eh_poll i t (daemon s) = (t', w) \<Longrightarrow> service_step s (s\<lparr>daemon := w\<rparr>)"
| wake: "i < length (sReadersContexts (daemon s)) \<Longrightarrow>
    eh_exit i (eh_power i (eh_wait i (daemon s))) = (ended, w) \<Longrightarrow> service_step s (s\<lparr>daemon := w\<rparr>)"

inductive service_reachable :: "'d svc \<Rightarrow> 'd svc \<Rightarrow> bool" for s0 where
  start: "service_reachable s0 s0"
| step: "service_reachable s0 s \<Longrightarrow> service_step s s' \<Longrightarrow> service_reachable s0 s'"

inductive_cases service_stepE: "service_step s s'"

lemma svc_ok_daemon:
  assumes "svc_ok s" "call_ok (daemon s) w" "randoms w = randoms (daemon s)"
  shows "svc_ok (s\<lparr>daemon := w\<rparr>)"
  using assms call_ok_pcscd_ok [OF assms(2)] call_ok_refs_room [OF assms(2)]
  by (simp add: svc_ok_def randoms_ok_def)

lemma service_step_ok: "service_step s s' \<Longrightarrow> svc_ok s \<Longrightarrow> svc_ok s'"
proof (elim service_stepE)
  fix fd rv
  assume "svc_ok s" "CreateContextThread fd s = (rv, s')"
  with CreateContextThread_ok(1) [of s fd] show "svc_ok s'" by simp
next
  fix c x
  assume a: "svc_ok s" "c \<in> set (entries (contextsList s))" "thread_exit c (dwClientID (ctxMem s c)) s = Some (x, s')"
  with exit_round_ok [OF a(1,2) handler_ok_refl [OF svc_ok_serving [OF a(1,2)]] a(3)] show "svc_ok s'"
    by (simp add: round_ok_def)
next
  fix c x
  assume "svc_ok s" "c \<in> set (entries (contextsList s))" "ContextThread_step [] c s = Some (x, s')"
  from ContextThread_step_ok [OF this] show "svc_ok s'" by (simp add: round_ok_def)
next
  fix i t t' w
  assume "svc_ok s" "s' = s\<lparr>daemon := w\<rparr>" "i < length (sReadersContexts (daemon s))" "eh_poll i t (daemon s) = (t', w)"
  with svc_ok_daemon [of s w] eh_poll_call [of i "daemon s" t] randoms_event_thread(1) [of i t "daemon s"]
  show "svc_ok s'" by simp
next
  fix i e w
  assume "svc_ok s" "s' = s\<lparr>daemon := w\<rparr>" "i < length (sReadersContexts (daemon s))"
    "eh_exit i (eh_power i (eh_wait i (daemon s))) = (e, w)"
  with svc_ok_daemon [of s w] eh_wake_call [of i "daemon s"] randoms_event_thread(2) [of i "daemon s"]
  show "svc_ok s'" by simp
qed

lemma service_reachable_ok: "service_reachable s0 s \<Longrightarrow> svc_ok s0 \<Longrightarrow> svc_ok s"
  by (induction rule: service_reachable.induct) (auto intro: service_step_ok)

lemma ContextsInitialize_ok:
  assumes "ContextsInitialize a b s0 = (rv, s)" "pcscd_ok (daemon s0)" "refs_room (daemon s0)" "randoms_ok (daemon s0)"
  shows "svc_ok s" "contextsList s = list_init"
  using assms by (auto simp: ContextsInitialize_def svc_ok_def list_ok_def list_repOk_def list_init_def Let_def)

section \<open>An example service\<close>

definition ex_list :: "'a list \<Rightarrow> 'a list_t" where
  "ex_list xs = list_init\<lparr>entries := xs, numels := length xs,
     mid := (if xs = [] then None else Some ((int (length xs) - 1) div 2)), comparator := Some (=), copy_data := True\<rparr>"

lemma ex_list_ok [simp]: "list_ok (ex_list xs)" "entries (ex_list xs) = xs"
  by (simp_all add: ex_list_def list_ok_def list_repOk_def list_init_def)

text \<open>A socket with the given bytes to read; every transfer moves at most three bytes, and some are interrupted.\<close>

definition ex_events :: "nat \<Rightarrow> poll_event list" where
  "ex_events n = concat (replicate n [Poll_ready True (Io 3), Poll_error EINTR, Poll_ready True (Io_error EAGAIN)])"

definition ex_sock :: "bytes \<Rightarrow> sock" where
  "ex_sock b = \<lparr>rx = b, rxEvents = ex_events 100, tx = [], txEvents = ex_events 100\<rparr>"

definition ex_client :: "int \<Rightarrow> int list \<Rightarrow> int \<Rightarrow> SCONTEXT" where
  "ex_client ctx hs fd = \<lparr>hContext = ctx, cardsList = ex_list hs, dwClientID = fd\<rparr>"

text \<open>
  Two clients: context 0 on descriptor 5 with the handle 7, context 1 on descriptor 6 with the
  handle 8, both connected to the reader, whose lock belongs to \<open>owner\<close>.
\<close>

definition ex_svc :: "SCARDHANDLE \<Rightarrow> bytes \<Rightarrow> unit svc" where
  "ex_svc owner b = \<lparr>daemon = ex_pcscd (ex_reader True [7, 8] 2 owner (if owner = 0 then 0 else 1)) [],
     contextMaxThreadCounter = 200, contextMaxCardHandles = 200, contextsList = ex_list [0, 1],
     ctxMem = (\<lambda>c. if c = 0 then ex_client 1 [7] 5 else if c = 1 then ex_client 2 [8] 6 else empty_context),
     freshCtx = 2, oldApi = (\<lambda>c. False), sockets = (\<lambda>fd. ex_sock (if fd = 5 then b else [])), closedFds = [],
     AutoExit = False, alarmClock = None, disable_polkit = True, IsAuthorized = (\<lambda>fd action reader. False), stack = (\<lambda>k. 0)\<rparr>"

lemma ex_svc_fields [simp]:
  "daemon (ex_svc owner b) = ex_pcscd (ex_reader True [7, 8] 2 owner (if owner = 0 then 0 else 1)) []"
  "contextsList (ex_svc owner b) = ex_list [0, 1]" "ctxMem (ex_svc owner b) 0 = ex_client 1 [7] 5"
  "ctxMem (ex_svc owner b) (Suc 0) = ex_client 2 [8] 6" "freshCtx (ex_svc owner b) = 2"
  "contextMaxCardHandles (ex_svc owner b) = 200" "contextMaxThreadCounter (ex_svc owner b) = 200"
  "closedFds (ex_svc owner b) = []" "AutoExit (ex_svc owner b) = False"
  "sockets (ex_svc owner b) = (\<lambda>fd. ex_sock (if fd = 5 then b else []))"
  by (simp_all add: ex_svc_def)

lemma ex_client_fields [simp]:
  "hContext (ex_client ctx hs fd) = ctx" "cardsList (ex_client ctx hs fd) = ex_list hs" "dwClientID (ex_client ctx hs fd) = fd"
  by (simp_all add: ex_client_def)

lemma ex_svc_ok: "svc_ok (ex_svc owner b)"
proof -
  have "pcscd_ok (daemon (ex_svc owner b))" by (simp add: ex_pcscd_ok)
  moreover have "randoms_ok (daemon (ex_svc owner b))" by (simp add: randoms_ok_def ex_pcscd_def random_int_def)
  ultimately show ?thesis by (auto simp: svc_ok_def client_ok_def)
qed

lemma ex_svc_cards [simp]: "cards (ex_svc owner b) 0 = {7}" "cards (ex_svc owner b) (Suc 0) = {8}"
  by (simp_all add: cards_def)

section \<open>Claims\<close>


definition ex_start :: "unit svc" where
  "ex_start = snd (ContextsInitialize 0 3 (ex_svc 0 []))"

definition ex_accepted :: "unit svc" where
  "ex_accepted = snd (CreateContextThread 9 ex_start)"

lemma ex_accepted_contexts: "entries (contextsList ex_accepted) = [2]" "contextMaxCardHandles ex_accepted = 3"
  by (simp_all add: ex_accepted_def ex_start_def ContextsInitialize_def CreateContextThread_def ex_pcscd_def list_init_def
      list_append_def list_insert_at_def list_size_def list_findpos_def Let_def)


text \<open>
  C3. Clients are isolated: whatever bytes a client sends, and also when its thread ends, a handle
  of a reader that is not in its own list stays connected, the lock of such a handle stays, and
  the contexts of the other clients are not touched.
\<close>

theorem client_isolation:
  assumes "svc_ok s" "c \<in> set (entries (contextsList s))" "ContextThread_step [] c s = Some (x, s')"
    and "i < length (sReadersContexts (daemon s))" "active (rdr (daemon s) i)"
    and "h \<in> set (handles (rdr (daemon s) i))" "h \<notin> set (entries (cardsList (ctxMem s c)))"
  shows "svc_ok s' \<and> active (rdr (daemon s') i) \<and> h \<in> set (handles (rdr (daemon s') i)) \<and>
    (h \<noteq> 0 \<and> hLockId (rdr (daemon s) i) = h \<longrightarrow> hLockId (rdr (daemon s') i) = h) \<and>
    (\<forall>c'. c' \<noteq> c \<longrightarrow> ctxMem s' c' = ctxMem s c')"
  using ContextThread_step_ok [OF assms(1-3)] assms(4-7)
  by (auto simp: round_ok_def spares_def spares_reader_def cards_def)

text \<open>The first client asks for a reset on disconnection of the other's handle, and of its own.\<close>

definition ex_disconnect :: "int \<Rightarrow> bytes" where
  "ex_disconnect h = rxHeader_image \<lparr>header_size = 12, header_command = 6\<rparr> @
     disconnect_struct_image \<lparr>di_hCard = word_of_int h, di_dwDisposition = 0, di_rv = 0\<rparr>"

lemma ex_isolation_steps:
  "\<not> Option.is_none (ContextThread_step [] 0 (ex_svc 8 (ex_disconnect 7)))"
  "\<not> Option.is_none (ContextThread_step [] 0 (ex_svc 8 (ex_disconnect 8)))"
  by code_simp+

theorem client_isolation_witness:
  "\<exists>x s'. ContextThread_step [] 0 (ex_svc 8 (ex_disconnect 8)) = Some (x, s') \<and>
    8 \<in> set (handles (rdr (daemon s') 0)) \<and> hLockId (rdr (daemon s') 0) = 8"
proof -
  obtain x s' where c: "ContextThread_step [] 0 (ex_svc 8 (ex_disconnect 8)) = Some (x, s')"
    using ex_isolation_steps(2) by (auto simp: Option.is_none_def)
  from client_isolation [OF ex_svc_ok _ c, of 0 8] c show ?thesis by auto
qed

section \<open>The end of a client\<close>



section \<open>Handles of other clients\<close>

lemma READ_BODY_foreign:
  assumes "READ_BODY sz header fd k s = Some (x, s')" "4 \<le> sz"
    and "\<And>b s1 q. s1 = s\<lparr>sockets := q\<rparr> \<Longrightarrow> member_at 0 b = member_at 0 (rx (sockets s fd)) \<Longrightarrow> k b s1 = Some (False, s1)"
  shows "\<not> x \<and> (\<exists>q. s' = s\<lparr>sockets := q\<rparr>)"
proof (cases "header_size header = of_nat sz")
  case False
  with assms(1) show ?thesis by (auto simp: READ_BODY_def intro: exI [where x = "sockets s"])
next
  case True
  with assms(1) obtain ret b s1 where r: "recv_msg fd sz s = Some ((ret, b), s1)"
    and c: "(if ret \<noteq> 0 then Some (False, s1) else k b s1) = Some (x, s')"
    by (auto simp: READ_BODY_def bind_eq_Some_conv)
  obtain q where q: "s1 = s\<lparr>sockets := q\<rparr>" using recv_msg_sockets [OF r] by auto
  show ?thesis
  proof (cases "ret = 0")
    case False
    with c q show ?thesis by auto
  next
    case True
    then obtain k' where m: "MessageReceive sz (sockets s fd) = Some ((0, b), k')" using r by (auto simp: recv_msg_def)
    have "b = take sz (rx (sockets s fd))" "length b = sz" using MessageReceive_success [OF m] by auto
    moreover obtain a0 a1 a2 a3 r where "b = a0 # a1 # a2 # a3 # r"
      using assms(2) calculation(2) by (cases b rule: word32.cases) auto
    ultimately have "member_at 0 b = member_at 0 (rx (sockets s fd))"
      by (metis append_Cons append_take_drop_id drop0 member_at_def word32.simps(1))
    with assms(3) [OF q] c True q show ?thesis by auto
  qed
qed

lemma MSGCheckHandleAssociation_sockets:
  "MSGCheckHandleAssociation h c (s\<lparr>sockets := q\<rparr>) = MSGCheckHandleAssociation h c s"
  by (simp add: MSGCheckHandleAssociation_def)

definition handle_commands :: "pcsc_msg_commands list" where
  "handle_commands = [SCARD_RECONNECT, SCARD_DISCONNECT, SCARD_BEGIN_TRANSACTION, SCARD_END_TRANSACTION, SCARD_STATUS,
     SCARD_TRANSMIT, SCARD_CONTROL, SCARD_GET_ATTRIB, SCARD_SET_ATTRIB]"

text \<open>
  C5. A client that names a card handle which is not its own, in any of the nine commands on a
  card, is thrown out: its thread leaves the loop, and neither a reader nor a driver nor any context
  has been touched.
\<close>

theorem foreign_handle_refused:
  assumes "svc_ok s" "c \<in> set (entries (contextsList s))"
    and "command_of (header_command header) = Some cmd" "cmd \<in> set handle_commands"
    and "sint (member_at 0 (rx (sockets s fd))) \<notin> set (entries (cardsList (ctxMem s c)))"
    and "dispatch others c fd header s = Some (x, s')"
  shows "\<not> x \<and> daemon s' = daemon s \<and> ctxMem s' = ctxMem s \<and> contextsList s' = contextsList s"
proof -
  have "client_ok s c" using assms(1,2) by (simp add: svc_ok_def)
  then have m: "MSGCheckHandleAssociation (sint (member_at 0 (rx (sockets s fd)))) c (s\<lparr>sockets := q\<rparr>) \<noteq> 0" for q
    using MSGCheckHandleAssociation_own [of s c "member_at 0 (rx (sockets s fd))"] assms(5)
    by (auto simp: cards_def MSGCheckHandleAssociation_sockets)
  note defs = scard_reconnect_def scard_disconnect_def scard_begin_transaction_def scard_end_transaction_def
    scard_status_def scard_transmit_def scard_control_def scard_get_attrib_def scard_set_attrib_def
  let ?out = "\<not> x \<and> (\<exists>q. s' = s\<lparr>sockets := q\<rparr>)"
  have "scard_reconnect c header fd s = Some (x, s') \<Longrightarrow> ?out" "scard_disconnect others c header fd s = Some (x, s') \<Longrightarrow> ?out"
    "scard_begin_transaction c header fd s = Some (x, s') \<Longrightarrow> ?out" "scard_end_transaction c header fd s = Some (x, s') \<Longrightarrow> ?out"
    "scard_status c header fd s = Some (x, s') \<Longrightarrow> ?out" "scard_transmit c header fd s = Some (x, s') \<Longrightarrow> ?out"
    "scard_control c header fd s = Some (x, s') \<Longrightarrow> ?out" "scard_get_attrib c header fd s = Some (x, s') \<Longrightarrow> ?out"
    "scard_set_attrib c header fd s = Some (x, s') \<Longrightarrow> ?out"
    unfolding defs by (erule READ_BODY_foreign, simp, simp add: struct_defs Let_def m)+
  then have ?out
    using assms(3,4,6) by (auto simp: handle_commands_def dispatch_def)
  then show ?thesis by auto
qed

lemma ex_foreign_dispatch:
  "\<not> Option.is_none (dispatch [] 0 5 \<lparr>header_size = 12, header_command = 6\<rparr> (ex_svc 0 (drop 8 (ex_disconnect 8))))"
  "sint (member_at 0 (drop 8 (ex_disconnect 8))) = 8"
  by code_simp+

theorem foreign_handle_refused_witness:
  "\<exists>s'. dispatch [] 0 5 \<lparr>header_size = 12, header_command = 6\<rparr> (ex_svc 0 (drop 8 (ex_disconnect 8))) = Some (False, s') \<and>
    daemon s' = daemon (ex_svc 0 [])"
proof -
  let ?h = "\<lparr>header_size = 12, header_command = 6\<rparr>" and ?s = "ex_svc 0 (drop 8 (ex_disconnect 8))"
  obtain x s' where d: "dispatch [] 0 5 ?h ?s = Some (x, s')"
    using ex_foreign_dispatch(1) by (auto simp: Option.is_none_def)
  have c: "command_of (header_command ?h) = Some SCARD_DISCONNECT" by (simp add: command_of_def command_list_def)
  have "sint (member_at 0 (rx (sockets ?s 5))) \<notin> set (entries (cardsList (ctxMem ?s 0)))"
    using ex_foreign_dispatch(2) by (simp add: ex_sock_def)
  from foreign_handle_refused [OF ex_svc_ok _ c _ this d] d show ?thesis by (auto simp: handle_commands_def)
qed

section \<open>A transmission from end to end\<close>

lemma recv_ready:
  assumes "rx (sockets s fd) = b @ r" "rx_ready (length b + m) (sockets s fd)"
  obtains k where "recv_msg fd (length b) s = Some ((SCARD_S_SUCCESS, b), s\<lparr>sockets := (sockets s)(fd := k)\<rparr>)"
    "rx k = r" "rx_ready m k" "tx k = tx (sockets s fd)" "txEvents k = txEvents (sockets s fd)"
  using MessageReceive_ready [OF assms(2)] assms(1) by (fastforce simp: recv_msg_def)

lemma send_ready:
  assumes "tx_ready (length b + m) (sockets s fd)"
  obtains k where "send_msg fd b s = Some (SCARD_S_SUCCESS, s\<lparr>sockets := (sockets s)(fd := k)\<rparr>)"
    "tx k = tx (sockets s fd) @ b" "tx_ready m k" "rx k = rx (sockets s fd)"
  using MessageSend_ready [OF assms] by (fastforce simp: send_msg_def)

lemma tx_ready_cong: "txEvents k = txEvents k' \<Longrightarrow> tx_ready n k = tx_ready n k'"
  by (simp add: tx_ready_def)

lemma write_answer_ready:
  assumes "tx_ready (length b + length d) (sockets s fd)"
  obtains k where "write_answer fd rv b d s = Some (True, s\<lparr>sockets := (sockets s)(fd := k)\<rparr>)"
    "tx k = tx (sockets s fd) @ b @ (if rv = 0 then d else [])" "rx k = rx (sockets s fd)"
proof -
  obtain k where k: "send_msg fd b s = Some (SCARD_S_SUCCESS, s\<lparr>sockets := (sockets s)(fd := k)\<rparr>)"
    "tx k = tx (sockets s fd) @ b" "tx_ready (length d) k" "rx k = rx (sockets s fd)"
    by (rule send_ready [OF assms])
  let ?s = "s\<lparr>sockets := (sockets s)(fd := k)\<rparr>"
  have "tx_ready (length d + 0) (sockets ?s fd)" using k(3) by simp
  then obtain k' where k': "send_msg fd d ?s = Some (SCARD_S_SUCCESS, ?s\<lparr>sockets := (sockets ?s)(fd := k')\<rparr>)"
    "tx k' = tx (sockets ?s fd) @ d" "rx k' = rx (sockets ?s fd)"
    by (rule send_ready) blast
  show thesis
  proof (cases "rv = 0")
    case True
    with k k' that [of k'] show thesis by (simp add: write_answer_def WRITE_BODY_def)
  next
    case False
    with k that [of k] show thesis by (simp add: write_answer_def)
  qed
qed

text \<open>The call of a transmission request and the answer to it.\<close>

definition transmit_call :: "transmit_struct \<Rightarrow> bytes \<Rightarrow> 'd pcscd \<Rightarrow> (LONG \<times> bytes \<times> DWORD \<times> SCARD_IO_HEADER) \<times> 'd pcscd" where
  "transmit_call tr data w =
     SCardTransmit (sint (tr_hCard tr))
       \<lparr>ioProtocol = ucast (tr_ioSendPciProtocol tr), ioLength = ucast (tr_ioSendPciLength tr)\<rparr> data
       \<lparr>ioProtocol = ucast (tr_ioRecvPciProtocol tr), ioLength = ucast (tr_ioRecvPciLength tr)\<rparr>
       (of_nat MAX_BUFFER_SIZE_EXTENDED) w"

definition transmit_answer :: "transmit_struct \<Rightarrow> LONG \<Rightarrow> DWORD \<Rightarrow> SCARD_IO_HEADER \<Rightarrow> transmit_struct" where
  "transmit_answer tr rv len pci =
     tr\<lparr>tr_rv := word_of_int (if len > ucast (tr_pcbRecvLength tr) then SCARD_E_INSUFFICIENT_BUFFER else rv),
       tr_ioRecvPciProtocol := ucast (ioProtocol pci), tr_ioRecvPciLength := ucast (ioLength pci),
       tr_pcbRecvLength := ucast len\<rparr>"

text \<open>
  A transmission is served from end to end: when the bytes of a request for one of the client's
  own handles arrive, cut into pieces and interrupted in any way, the thread calls
  \<^verbatim>\<open>SCardTransmit\<close> exactly once with the fields of the request, the answer it writes is the image of
  the request with the results filled in, followed by the card's answer when the call succeeded
  and the client has room for it; the card's answer is never longer than the daemon's buffer,
  the bytes after the request are left in the socket, and the thread goes on.
\<close>

lemma transmit_served:
  assumes "svc_ok s" "c \<in> set (entries (contextsList s))" "fd = dwClientID (ctxMem s c)" "hContext (ctxMem s c) \<noteq> 0"
    and "sint (tr_hCard tr) \<in> set (entries (cardsList (ctxMem s c)))"
    and "rx (sockets s fd) = rxHeader_image \<lparr>header_size = 32, header_command = command_number SCARD_TRANSMIT\<rparr> @
      transmit_struct_image tr @ data @ rest"
    and "length data = unat (tr_cbSendLength tr)" "length data \<le> MAX_BUFFER_SIZE_EXTENDED"
    and "rx_ready (8 + (32 + length data)) (sockets s fd)" "tx_ready (32 + MAX_BUFFER_SIZE_EXTENDED) (sockets s fd)"
    and "transmit_call tr data (daemon s) = ((rv, answer, len, pci), w)"
  shows "\<exists>s'. ContextThread_step [] c s = Some (True, s') \<and> daemon s' = w \<and> ctxMem s' = ctxMem s \<and>
    rx (sockets s' fd) = rest \<and> unat len \<le> MAX_BUFFER_SIZE_EXTENDED \<and>
    tx (sockets s' fd) = tx (sockets s fd) @ transmit_struct_image (transmit_answer tr rv len pci) @
      (if tr_rv (transmit_answer tr rv len pci) = 0 then buffer_bytes s answer (unat len) else [])"
proof -
  let ?h = "\<lparr>header_size = 32, header_command = command_number SCARD_TRANSMIT\<rparr>"
  let ?sock = "\<lambda>s k. s\<lparr>sockets := (sockets s)(fd := k)\<rparr>"
  have len: "unat len \<le> MAX_BUFFER_SIZE_EXTENDED"
    using SCardTransmit_length assms(11) unfolding transmit_call_def by (fastforce simp: word_le_nat_alt)
  have img: "length (rxHeader_image ?h) = 8" "length (transmit_struct_image tr) = 32"
    by (simp_all add: headerStr.size trStr.size)
  have "rx_ready (length (rxHeader_image ?h) + (32 + length data)) (sockets s fd)" using assms(9) img by simp
  from recv_ready [OF assms(6) this] obtain k1 where k1: "recv_msg fd 8 s = Some ((SCARD_S_SUCCESS, rxHeader_image ?h), ?sock s k1)"
    "rx k1 = transmit_struct_image tr @ data @ rest" "rx_ready (32 + length data) k1"
    "tx k1 = tx (sockets s fd)" "txEvents k1 = txEvents (sockets s fd)"
    using img by auto
  let ?s1 = "?sock s k1"
  have "rx (sockets ?s1 fd) = transmit_struct_image tr @ data @ rest"
    "rx_ready (length (transmit_struct_image tr) + length data) (sockets ?s1 fd)" using k1 img by simp_all
  from recv_ready [OF this] obtain k2 where k2: "recv_msg fd 32 ?s1 = Some ((SCARD_S_SUCCESS, transmit_struct_image tr), ?sock ?s1 k2)"
    "rx k2 = data @ rest" "rx_ready (length data) k2" "tx k2 = tx k1" "txEvents k2 = txEvents k1"
    using img by auto
  let ?s2 = "?sock ?s1 k2"
  have "rx (sockets ?s2 fd) = data @ rest" "rx_ready (length data + 0) (sockets ?s2 fd)" using k2 by simp_all
  from recv_ready [OF this] obtain k3 where k3: "recv_msg fd (length data) ?s2 = Some ((SCARD_S_SUCCESS, data), ?sock ?s2 k3)"
    "rx k3 = rest" "tx k3 = tx k2" "txEvents k3 = txEvents k2"
    by auto
  let ?s3 = "?sock ?s2 k3"
  let ?t = "transmit_answer tr rv len pci"
  have own: "MSGCheckHandleAssociation (sint (tr_hCard tr)) c ?s2 = 0"
  proof -
    have "client_ok s c" using assms(1,2) by (simp add: svc_ok_def)
    then have cmp: "comparator (cardsList (ctxMem s c)) = None \<or> comparator (cardsList (ctxMem s c)) = Some (=)"
      by (auto simp: client_ok_def list_ok_def)
    have "int32 (sint (tr_hCard tr)) = sint (tr_hCard tr)"
      using sint_greater_eq [of "tr_hCard tr"] sint_less [of "tr_hCard tr"] by (intro int32_id) simp_all
    with position_SomeI [OF assms(5), of "\<lambda>y. y = sint (tr_hCard tr)"] assms(4) show ?thesis
      by (auto simp: MSGCheckHandleAssociation_def list_locate_eq [OF cmp])
  qed
  let ?d = "buffer_bytes ?s3 answer (unat len)"
  have "tx_ready (32 + MAX_BUFFER_SIZE_EXTENDED) (sockets (?s3\<lparr>daemon := w\<rparr>) fd)"
    using assms(10) k1(5) k2(5) k3(4) tx_ready_cong [of k3 "sockets s fd"] by simp
  then have "tx_ready (length (transmit_struct_image ?t) + length ?d) (sockets (?s3\<lparr>daemon := w\<rparr>) fd)"
    using len by (simp add: trStr.size tx_ready_def buffer_bytes_def)
  then obtain k4 where k4: "write_answer fd (tr_rv ?t) (transmit_struct_image ?t) ?d (?s3\<lparr>daemon := w\<rparr>) =
      Some (True, ?sock (?s3\<lparr>daemon := w\<rparr>) k4)"
    "tx k4 = tx (sockets (?s3\<lparr>daemon := w\<rparr>) fd) @ transmit_struct_image ?t @ (if tr_rv ?t = 0 then ?d else [])"
    "rx k4 = rx (sockets (?s3\<lparr>daemon := w\<rparr>) fd)"
    by (rule write_answer_ready)
  have "scard_transmit c ?h fd ?s1 = Some (True, ?sock (?s3\<lparr>daemon := w\<rparr>) k4)"
    using k2(1) own assms(7,8) k3(1) assms(11) k4(1)
    by (simp add: scard_transmit_def READ_BODY_def trStr.dec_enc Let_def transmit_call_def transmit_answer_def)
  moreover have "dispatch [] c fd ?h ?s1 = scard_transmit c ?h fd ?s1" by (simp add: dispatch_def del: command_number.simps)
  ultimately have "ContextThread_step [] c s = Some (True, ?sock (?s3\<lparr>daemon := w\<rparr>) k4)"
    using k1(1) assms(3) by (simp add: ContextThread_step_def headerStr.dec_enc Let_def)
  with k4(2,3) k1(4) k2(4) k3(2,3) len show ?thesis
    by (auto simp: buffer_bytes_def)
qed

text \<open>A SELECT command for the handle 7.\<close>

definition ex_transmit :: "transmit_struct" where
  "ex_transmit = \<lparr>tr_hCard = 7, tr_ioSendPciProtocol = 1, tr_ioSendPciLength = 16, tr_cbSendLength = 2,
     tr_ioRecvPciProtocol = 0, tr_ioRecvPciLength = 16, tr_pcbRecvLength = 258, tr_rv = 0\<rparr>"

lemma progress_skip: "progress (Poll_error e # evs) = progress evs" "progress (Poll_ready r (Io_error e) # evs) = progress evs"
  by simp_all

lemma ex_events_ready: "progress (ex_events n) = n \<and> (\<forall>ev \<in> set (ex_events n). harmless ev)"
  by (induction n) (auto simp: ex_events_def)

lemma ex_transmit_call:
  "fst (transmit_call ex_transmit [0x00, 0xA4] (daemon (ex_svc 0 []))) = (SCARD_S_SUCCESS, [0x90, 0x00], 2, \<lparr>ioProtocol = 0, ioLength = 16\<rparr>)"
proof -
  have "fst (SCardTransmit 7 \<lparr>ioProtocol = 1, ioLength = 16\<rparr> [0x00, 0xA4] \<lparr>ioProtocol = 0, ioLength = 16\<rparr> 65548
      (ex_pcscd (ex_reader True [7, 8] 2 0 0) [])) = (SCARD_S_SUCCESS, [0x90, 0x00], 2, \<lparr>ioProtocol = 0, ioLength = 16\<rparr>)"
    by code_simp
  then show ?thesis by (simp add: transmit_call_def ex_transmit_def)
qed

section \<open>Versions\<close>

text \<open>
  C8. The protocol version is negotiated: the answer carries the server's version; it is a success
  exactly for version 4.6 and the older 4.4 and 4.5, the older ones switch this client, and no
  other, to the old layout of the reader states, and a request of another length ends the thread.
\<close>

theorem version_negotiated:
  assumes "rx (sockets s fd) = version_struct_image ve @ rest" "rx_ready 12 (sockets s fd)" "tx_ready 12 (sockets s fd)"
  shows "(\<exists>s'. dispatch others c fd \<lparr>header_size = 12, header_command = command_number CMD_VERSION\<rparr> s = Some (True, s') \<and>
      daemon s' = daemon s \<and> rx (sockets s' fd) = rest \<and>
      tx (sockets s' fd) = tx (sockets s fd) @ version_struct_image \<lparr>ve_major = 4, ve_minor = 6,
        ve_rv = (if sint (ve_major ve) = 4 \<and> sint (ve_minor ve) \<in> {4, 5, 6} then 0 else word_of_int SCARD_E_SERVICE_STOPPED)\<rparr> \<and>
      (\<forall>c'. oldApi s' c' = (oldApi s c' \<or> c' = c \<and> sint (ve_major ve) = 4 \<and> sint (ve_minor ve) \<in> {4, 5}))) \<and>
    (n \<noteq> 12 \<longrightarrow> dispatch others c fd \<lparr>header_size = n, header_command = command_number CMD_VERSION\<rparr> s = Some (False, s))"
proof -
  let ?h = "\<lparr>header_size = 12, header_command = command_number CMD_VERSION\<rparr>"
  let ?M = "sint (ve_major ve)" and ?m = "sint (ve_minor ve)"
  have len: "length (version_struct_image ve) = 12" by (simp add: veStr.size)
  have "rx_ready (length (version_struct_image ve) + 0) (sockets s fd)" using assms(2) len by simp
  from recv_ready [OF assms(1) this] obtain k where k: "recv_msg fd 12 s = Some ((SCARD_S_SUCCESS, version_struct_image ve), s\<lparr>sockets := (sockets s)(fd := k)\<rparr>)"
    "rx k = rest" "tx k = tx (sockets s fd)" "txEvents k = txEvents (sockets s fd)"
    using len by auto
  define old where "old = (?M = 4 \<and> ?m \<in> {4, 5})"
  define s1 where "s1 = (if old then s\<lparr>sockets := (sockets s)(fd := k), oldApi := (oldApi s)(c := True)\<rparr>
    else s\<lparr>sockets := (sockets s)(fd := k)\<rparr>)"
  define ans where "ans = version_struct_image \<lparr>ve_major = 4, ve_minor = 6,
        ve_rv = (if ?M = 4 \<and> ?m \<in> {4, 5, 6} then 0 else word_of_int SCARD_E_SERVICE_STOPPED)\<rparr>"
  have "tx_ready (length ans + 0) (sockets s1 fd)"
    using assms(3) k(4) tx_ready_cong [of k "sockets s fd"] by (simp add: ans_def veStr.size s1_def)
  then obtain k' where k': "send_msg fd ans s1 = Some (SCARD_S_SUCCESS, s1\<lparr>sockets := (sockets s1)(fd := k')\<rparr>)"
    "tx k' = tx (sockets s1 fd) @ ans" "rx k' = rx (sockets s1 fd)"
    by (rule send_ready) blast
  have between: "?m \<ge> 4 \<and> ?m < 6 \<longleftrightarrow> ?m \<in> {4, 5}" by auto
  have v: "cmd_version c ?h fd s = WRITE_BODY fd ans s1"
    using k(1) between
    by (auto simp: cmd_version_def READ_BODY_def veStr.dec_enc Let_def s1_def ans_def old_def)
  then have "dispatch others c fd ?h s = Some (True, s1\<lparr>sockets := (sockets s1)(fd := k')\<rparr>)"
    using k'(1) by (simp add: dispatch_def WRITE_BODY_def del: command_number.simps)
  moreover have "n \<noteq> 12 \<longrightarrow> dispatch others c fd \<lparr>header_size = n, header_command = command_number CMD_VERSION\<rparr> s = Some (False, s)"
    by (simp add: dispatch_def cmd_version_def READ_BODY_def del: command_number.simps)
  ultimately show ?thesis
    using k'(2,3) k(2,3) by (auto simp: s1_def ans_def old_def)
qed

theorem version_negotiated_witness:
  "\<exists>s'. dispatch [] 0 5 \<lparr>header_size = 12, header_command = command_number CMD_VERSION\<rparr>
     (ex_svc 0 (version_struct_image \<lparr>ve_major = 4, ve_minor = 4, ve_rv = 0\<rparr>)) = Some (True, s') \<and>
   oldApi s' 0 \<and> \<not> oldApi s' 1"
proof -
  let ?ve = "\<lparr>ve_major = 4, ve_minor = 4, ve_rv = 0\<rparr>"
  let ?s = "ex_svc 0 (version_struct_image ?ve)"
  have "rx (sockets ?s 5) = version_struct_image ?ve @ []" "rx_ready 12 (sockets ?s 5)" "tx_ready 12 (sockets ?s 5)"
    "\<not> oldApi ?s 1"
    using ex_events_ready [of 100] by (simp_all add: ex_sock_def rx_ready_def tx_ready_def ex_svc_def)
  with version_negotiated [OF this(1-3), of "[]" 0 12] show ?thesis by auto
qed

end
