(* ===== verification/Svc_Findings.thy ===== *)
theory Svc_Findings
  imports Svc_Props
begin

text \<open>
  Behaviours of the dispatcher and of the transport that differ from what the code means to do,
  or from what its comments say, each on a concrete input.
\<close>

text \<open>
  A thread unregisters its client from the list of waiting clients only when the header of a
  command can not be read. A client that waits for events and then sends a command the daemon
  does not know leaves its descriptor registered after it was closed: the next event is sent to
  whoever has got that descriptor.
\<close>

definition ex_waiting_svc :: "unit svc" where
  "ex_waiting_svc = (ex_svc 0 (rxHeader_image \<lparr>header_size = 0, header_command = 99\<rparr>))
     \<lparr>daemon := ex_pcscd (ex_reader True [7, 8] 2 0 0) [5]\<rparr>"

lemma stale_registration:
  "map_option (\<lambda>(x, s'). (x, closedFds s', entries (ClientsWaitingForEvent (daemon s')), entries (contextsList s')))
     (ContextThread_step [] 0 ex_waiting_svc) = Some (False, [5], [5], [1])"
  by code_simp

text \<open>The same client unregistered when it closes its socket between two commands.\<close>

lemma clean_registration:
  "map_option (\<lambda>(x, s'). (x, closedFds s', entries (ClientsWaitingForEvent (daemon s'))))
     (ContextThread_step [] 0 (ex_waiting_svc\<lparr>sockets := (\<lambda>fd. ex_sock [])\<rparr>)) = Some (False, [5], [])"
  by code_simp

text \<open>
  The length a driver reports for a control command is compared with the client's buffer, never
  with the daemon's own buffer of 65548 bytes from which the answer is sent.
\<close>

definition ex_long_control :: "unit READER_CONTEXT" where
  "ex_long_control = (ex_reader True [7] 1 0 0)\<lparr>psFunctions := (ex_functions True)
     \<lparr>pvfControl_v3 := Some (\<lambda>lun code tx len ret d. ((IFD_SUCCESS, [], 70000), d))\<rparr>\<rparr>"

lemma control_length_unchecked:
  "fst (SCardControl 7 0 [] 65548 (ex_pcscd ex_long_control [])) = (SCARD_S_SUCCESS, [], 70000)"
  by code_simp

text \<open>
  A random number 0 is accepted as a handle, although every function rejects the handle 0: the
  connection can be used by nobody and is never closed.
\<close>

lemma zero_handle_connected:
  "map_option (\<lambda>(res, w). (res, handles (rdr w 0)))
     (SCardConnect [] ''R 00 00'' SCARD_SHARE_SHARED 3 0 ((ex_pcscd (ex_reader True [] 0 0 0) [])\<lparr>randoms := [0]\<rparr>)) =
   Some ((SCARD_S_SUCCESS, 0, 1), [0])"
  by code_simp

lemma zero_handle_kept: "SCardDisconnect others 0 d w = Some (SCARD_E_INVALID_HANDLE, w)"
  by (simp add: SCardDisconnect_def)

text \<open>
  A client that asks for the cancellation of context 0 reaches a client that has not established
  a context, and ends its wait.
\<close>

definition ex_cancel_svc :: "unit svc" where
  "ex_cancel_svc = (ex_svc 0 (cancel_struct_image \<lparr>ca_hContext = 0, ca_rv = 0\<rparr>))
     \<lparr>ctxMem := (\<lambda>c. if c = 0 then ex_client 1 [7] 5 else ex_client 0 [] 6),
      daemon := ex_pcscd (ex_reader True [7] 1 0 0) [6]\<rparr>"

lemma cancel_without_context:
  "map_option (\<lambda>(x, s'). (entries (ClientsWaitingForEvent (daemon s')), tx (sockets s' 6)))
     (dispatch [] 0 5 \<lparr>header_size = 8, header_command = 13\<rparr> ex_cancel_svc) =
   Some ([], wait_reader_state_change_image \<lparr>wa_timeOut = 0, wa_rv = word_of_int SCARD_E_CANCELLED\<rparr>)"
  by code_simp

text \<open>The comment on \<^verbatim>\<open>CreateContextThread\<close> announces another code for too many clients.\<close>

lemma too_many_clients:
  "int (list_size (contextsList s)) \<ge> contextMaxThreadCounter s \<Longrightarrow>
    CreateContextThread fd s = (SCARD_E_NO_MEMORY, s\<lparr>closedFds := closedFds s @ [fd]\<rparr>)"
  by (simp add: CreateContextThread_def Let_def)

text \<open>The status of sending the header is overwritten by that of the data.\<close>

lemma header_failure_hidden:
  "map_option (\<lambda>(rv, s). (rv, tx s))
     (MessageSendWithHeader 9 [1, 2] \<lparr>rx = [], rxEvents = [], tx = [],
        txEvents = [Poll_ready True (Io_error EOTHER), Poll_ready True (Io 2)]\<rparr>) = Some (SCARD_S_SUCCESS, [1, 2])"
  by code_simp

end
