(* ===== verification/Winscard_Clnt.thy ===== *)
theory Winscard_Clnt
  imports Context_Thread
begin

text \<open>
  The client library \<^verbatim>\<open>src/src/winscard_clnt.c\<close> and the sessions of \<^verbatim>\<open>src/src/winscard_msg.c\<close>: the
  contexts and channels of an application, and the functions of the API as exchanges of messages
  with the daemon. The functions that the daemon also has carry the suffix \<open>_clnt\<close>.

  One thread of the application is modelled: the mutexes, which keep the threads of an
  application apart, and the sleep before a call is repeated are not visible. A \<^verbatim>\<open>SCONTEXTMAP *\<close> and
  a \<^verbatim>\<open>CHANNEL_MAP *\<close> are addresses into the stores \<open>contextMaps\<close> and \<open>channelMaps\<close>. A pointer argument
  that may be \<^verbatim>\<open>NULL\<close> is an option (or a truth value when nothing is read through it), and what a
  call stores through its pointers is part of its result. \<open>None\<close> as the result of a call means that
  it still waits for the daemon.
\<close>

section \<open>State\<close>

abbreviation (input) SCARD_E_NO_READERS_AVAILABLE :: LONG where "SCARD_E_NO_READERS_AVAILABLE \<equiv> 0x8010002E"
abbreviation (input) SCARD_AUTOALLOCATE :: DWORD where "SCARD_AUTOALLOCATE \<equiv> - 1"
abbreviation (input) SCARD_PROTOCOL_ANY :: "'a::len word" where "SCARD_PROTOCOL_ANY \<equiv> 3"

record CHANNEL_MAP =
  chCard :: SCARDHANDLE
  chReaderName :: string

record SCONTEXTMAP =
  mapClientID :: int
  mapContext :: SCARDCONTEXT
  channelMapList :: "nat list_t"
  cancellable :: bool

text \<open>What the operating system does when a session is opened: its descriptor, and the three steps after it.\<close>

record session =
  sockFd :: int
  connectOk :: bool
  getFlagsOk :: bool
  setFlagsOk :: bool

text \<open>
  \<open>readerStates\<close> is the array of \<^verbatim>\<open>READER_STATE\<close> as the bytes that were received, \<open>None\<close> for a null
  pointer; \<open>maxStates\<close> is the client's \<^verbatim>\<open>pcsclite_max_reader_context\<close>; \<open>heap\<close> is what fresh memory
  contains; \<open>links\<close> are the client's ends of its sockets; \<open>initDone\<close> is the \<^verbatim>\<open>pthread_once_t\<close>.
\<close>

record clnt =
  sharing_shall_block :: bool
  Protocol_version :: int
  initDone :: bool
  isExecuted :: bool
  contextMapList :: "nat list_t"
  contextMaps :: "nat \<Rightarrow> SCONTEXTMAP"
  freshMap :: nat
  channelMaps :: "nat \<Rightarrow> CHANNEL_MAP"
  freshChannel :: nat
  readerStates :: "bytes option"
  maxStates :: int
  links :: "int \<Rightarrow> sock"
  attempts :: "session list"
  closedSessions :: "int list"
  fileThere :: "string \<Rightarrow> bool"
  clientEnv :: "string \<Rightarrow> string option"
  ipcName :: string
  clientMem :: bool
  heap :: "nat \<Rightarrow> UCHAR"

definition CHANNEL_MAP_seeker :: "(nat \<Rightarrow> CHANNEL_MAP) \<Rightarrow> nat \<Rightarrow> int \<Rightarrow> bool" where
  "CHANNEL_MAP_seeker mem el key = (chCard (mem el) = key)"

definition SCONTEXTMAP_seeker :: "(nat \<Rightarrow> SCONTEXTMAP) \<Rightarrow> nat \<Rightarrow> int \<Rightarrow> bool" where
  "SCONTEXTMAP_seeker mem el key = (mapContext (mem el) = key)"

definition upd_map :: "nat \<Rightarrow> (SCONTEXTMAP \<Rightarrow> SCONTEXTMAP) \<Rightarrow> clnt \<Rightarrow> clnt" where
  "upd_map c f s = s\<lparr>contextMaps := (contextMaps s)(c := f (contextMaps s c))\<rparr>"

section \<open>Sessions\<close>

definition SocketName_init :: "clnt \<Rightarrow> string" where
  "SocketName_init s =
     take 107 (case clientEnv s ''PCSCLITE_CSOCK_NAME'' of Some name \<Rightarrow> name | None \<Rightarrow> ipcName s)"

definition daemon_available :: "clnt \<Rightarrow> LONG" where
  "daemon_available s = SCardCheckDaemonAvailability (fileThere s (SocketName_init s))"

definition ClientCloseSession :: "int \<Rightarrow> clnt \<Rightarrow> clnt" where
  "ClientCloseSession fd s = s\<lparr>closedSessions := closedSessions s @ [fd]\<rparr>"

text \<open>Success gives the descriptor; with no attempt left there is no socket.\<close>

definition ClientSetupSession :: "clnt \<Rightarrow> int option \<times> clnt" where
  "ClientSetupSession s =
     (case attempts s of
        [] \<Rightarrow> (None, s)
      | a # as \<Rightarrow>
          let s = s\<lparr>attempts := as\<rparr> in
          if sockFd a < 0 then (None, s)
          else if \<not> connectOk a \<or> \<not> getFlagsOk a \<or> \<not> setFlagsOk a then (None, ClientCloseSession (sockFd a) s)
          else (Some (sockFd a), s))"

section \<open>Contexts and channels\<close>

definition SCardGetContextTH :: "SCARDCONTEXT \<Rightarrow> clnt \<Rightarrow> nat option" where
  "SCardGetContextTH hCtx s =
     list_seek ((contextMapList s)\<lparr>seeker := Some (SCONTEXTMAP_seeker (contextMaps s))\<rparr>) hCtx"

text \<open>With the mutexes left out, locking a context is finding it.\<close>

definition SCardGetAndLockContext :: "SCARDCONTEXT \<Rightarrow> clnt \<Rightarrow> nat option" where
  "SCardGetAndLockContext hCtx s = SCardGetContextTH hCtx s"

definition SCardGetContextValidity :: "SCARDCONTEXT \<Rightarrow> clnt \<Rightarrow> bool" where
  "SCardGetContextValidity hCtx s = (SCardGetContextTH hCtx s \<noteq> None)"

definition SCardAddContext :: "SCARDCONTEXT \<Rightarrow> int \<Rightarrow> clnt \<Rightarrow> LONG \<times> clnt" where
  "SCardAddContext hCtx fd s =
     (if \<not> clientMem s then (SCARD_E_NO_MEMORY, s)
      else
        let c = freshMap s;
            s = s\<lparr>freshMap := c + 1, contextMaps := (contextMaps s)(c := \<lparr>mapClientID = fd, mapContext = hCtx,
                  channelMapList = list_init, cancellable = False\<rparr>)\<rparr>
        in case list_append (clientMem s) (contextMapList s) c of (lrv, l) \<Rightarrow>
             if lrv < 0 then (SCARD_E_NO_MEMORY, s)
             else (SCARD_S_SUCCESS, s\<lparr>contextMapList := l\<rparr>))"

definition SCardCleanContext :: "nat \<Rightarrow> clnt \<Rightarrow> clnt" where
  "SCardCleanContext c s =
     (let fd = mapClientID (contextMaps s c);
          s = ClientCloseSession fd (upd_map c (\<lambda>m. m\<lparr>mapContext := 0\<rparr>) s);
          s = upd_map c (\<lambda>m. m\<lparr>mapClientID := 0, channelMapList := list_destroy (channelMapList m)\<rparr>) s
      in s\<lparr>contextMapList := snd (list_delete (contextMapList s) c)\<rparr>)"

definition SCardRemoveContext :: "SCARDCONTEXT \<Rightarrow> clnt \<Rightarrow> clnt" where
  "SCardRemoveContext hCtx s =
     (case SCardGetContextTH hCtx s of None \<Rightarrow> s | Some c \<Rightarrow> SCardCleanContext c s)"

definition SCardAddHandle :: "SCARDHANDLE \<Rightarrow> nat \<Rightarrow> string \<Rightarrow> clnt \<Rightarrow> LONG \<times> clnt" where
  "SCardAddHandle h c name s =
     (if \<not> clientMem s then (SCARD_E_NO_MEMORY, s)
      else
        let ch = freshChannel s;
            s = s\<lparr>freshChannel := ch + 1, channelMaps := (channelMaps s)(ch := \<lparr>chCard = h, chReaderName = name\<rparr>)\<rparr>
        in case list_append (clientMem s) (channelMapList (contextMaps s c)) ch of (lrv, l) \<Rightarrow>
             if lrv < 0 then (SCARD_E_NO_MEMORY, s)
             else (SCARD_S_SUCCESS, upd_map c (\<lambda>m. m\<lparr>channelMapList := l\<rparr>) s))"

definition seek_channel :: "nat \<Rightarrow> SCARDHANDLE \<Rightarrow> clnt \<Rightarrow> nat option" where
  "seek_channel c h s =
     list_seek ((channelMapList (contextMaps s c))\<lparr>seeker := Some (CHANNEL_MAP_seeker (channelMaps s))\<rparr>) h"

text \<open>The \<^verbatim>\<open>for\<close> loop over the indices of the list of contexts.\<close>

fun search_channel :: "nat list \<Rightarrow> SCARDHANDLE \<Rightarrow> clnt \<Rightarrow> (nat \<times> nat) option" where
  "search_channel [] h s = None"
| "search_channel (list_index # rest) h s =
     (case list_get_at (contextMapList s) list_index of
        None \<Rightarrow> search_channel rest h s
      | Some c \<Rightarrow>
          (case seek_channel c h s of
             Some ch \<Rightarrow> Some (c, ch)
           | None \<Rightarrow> search_channel rest h s))"

definition SCardGetContextAndChannelFromHandleTH :: "SCARDHANDLE \<Rightarrow> clnt \<Rightarrow> (nat \<times> nat) option" where
  "SCardGetContextAndChannelFromHandleTH h s = search_channel [0..<list_size (contextMapList s)] h s"

definition SCardGetContextChannelAndLockFromHandle :: "SCARDHANDLE \<Rightarrow> clnt \<Rightarrow> (nat \<times> nat) option" where
  "SCardGetContextChannelAndLockFromHandle h s =
     (if h = 0 then None else SCardGetContextAndChannelFromHandleTH h s)"

definition SCardRemoveHandle :: "SCARDHANDLE \<Rightarrow> clnt \<Rightarrow> clnt" where
  "SCardRemoveHandle h s =
     (case SCardGetContextAndChannelFromHandleTH h s of
        None \<Rightarrow> s
      | Some (c, ch) \<Rightarrow> upd_map c (\<lambda>m. m\<lparr>channelMapList := snd (list_delete (channelMapList m) ch)\<rparr>) s)"

section \<open>Exchanges with the daemon\<close>

definition clnt_send :: "pcsc_msg_commands \<Rightarrow> bytes \<Rightarrow> int \<Rightarrow> clnt \<Rightarrow> (LONG \<times> clnt) option" where
  "clnt_send cmd data fd s =
     map_option (\<lambda>(rv, k). (rv, s\<lparr>links := (links s)(fd := k)\<rparr>))
       (MessageSendWithHeader (command_number cmd) data (links s fd))"

definition clnt_send_data :: "bytes \<Rightarrow> int \<Rightarrow> clnt \<Rightarrow> (LONG \<times> clnt) option" where
  "clnt_send_data data fd s =
     map_option (\<lambda>(rv, k). (rv, s\<lparr>links := (links s)(fd := k)\<rparr>)) (MessageSend data (links s fd))"

definition clnt_recv :: "nat \<Rightarrow> int \<Rightarrow> clnt \<Rightarrow> ((LONG \<times> bytes) \<times> clnt) option" where
  "clnt_recv n fd s =
     map_option (\<lambda>(r, k). (r, s\<lparr>links := (links s)(fd := k)\<rparr>)) (MessageReceive n (links s fd))"

text \<open>A message, and its answer of \<open>n\<close> bytes; what was received is meaningful only on success.\<close>

definition request :: "pcsc_msg_commands \<Rightarrow> bytes \<Rightarrow> nat \<Rightarrow> int \<Rightarrow> clnt \<Rightarrow> ((LONG \<times> bytes) \<times> clnt) option" where
  "request cmd data n fd s =
     Option.bind (clnt_send cmd data fd s) (\<lambda>(rv, s).
       if rv \<noteq> SCARD_S_SUCCESS then Some ((rv, []), s) else clnt_recv n fd s)"

section \<open>Establishing and releasing a context\<close>

definition init_lib :: "clnt \<Rightarrow> clnt" where
  "init_lib s =
     (let s = s\<lparr>contextMapList := list_init\<rparr>;
          s = (if clientEnv s ''PCSCLITE_NO_BLOCKING'' \<noteq> None then s\<lparr>sharing_shall_block := False\<rparr> else s)
      in s\<lparr>isExecuted := True\<rparr>)"

definition init_lib_once :: "clnt \<Rightarrow> clnt" where
  "init_lib_once s = (if initDone s then s else (init_lib s)\<lparr>initDone := True\<rparr>)"

text \<open>
  The jump to \<^verbatim>\<open>connect_again\<close>: an older server that refused the version is asked again with the
  version it gave. \<open>Inl\<close> is an error, \<open>Inr\<close> the server's version.
\<close>

partial_function (option) negotiate ::
  "int \<Rightarrow> version_struct \<Rightarrow> clnt \<Rightarrow> ((LONG + version_struct) \<times> clnt) option" where
  "negotiate fd veStr s =
     Option.bind (request CMD_VERSION (version_struct_image (veStr\<lparr>ve_rv := word_of_int SCARD_S_SUCCESS\<rparr>)) 12 fd s)
       (\<lambda>((rv, b), s).
          if rv \<noteq> SCARD_S_SUCCESS then Some (Inl rv, s)
          else let veStr = version_struct_at b in
            if uint (ve_rv veStr) = SCARD_E_SERVICE_STOPPED \<and> sint (ve_major veStr) = PROTOCOL_VERSION_MAJOR \<and>
               PROTOCOL_VERSION_MINOR_CLIENT_BACKWARD \<le> sint (ve_minor veStr)
            then negotiate fd veStr s
            else if uint (ve_rv veStr) \<noteq> SCARD_S_SUCCESS then Some (Inl (uint (ve_rv veStr)), s)
            else Some (Inr veStr, s))"

declare negotiate.simps [code]

text \<open>The jump to \<^verbatim>\<open>again\<close>: a context number the application already has is not used.\<close>

partial_function (option) establish_again :: "int \<Rightarrow> DWORD \<Rightarrow> clnt \<Rightarrow> ((LONG + SCARDCONTEXT) \<times> clnt) option" where
  "establish_again fd dwScope s =
     Option.bind (request SCARD_ESTABLISH_CONTEXT
         (establish_struct_image \<lparr>es_dwScope = ucast dwScope, es_hContext = 0, es_rv = word_of_int SCARD_S_SUCCESS\<rparr>) 12 fd s)
       (\<lambda>((rv, b), s).
          if rv \<noteq> SCARD_S_SUCCESS then Some (Inl rv, s)
          else let esStr = establish_struct_at b in
            if uint (es_rv esStr) \<noteq> SCARD_S_SUCCESS then Some (Inl (uint (es_rv esStr)), s)
            else if SCardGetContextTH (uint (es_hContext esStr)) s \<noteq> None then establish_again fd dwScope s
            else Some (Inr (uint (es_hContext esStr)), s))"

declare establish_again.simps [code]

text \<open>The result is the status and what is stored through \<^verbatim>\<open>phContext\<close>, if anything.\<close>

definition SCardEstablishContextTH :: "DWORD \<Rightarrow> bool \<Rightarrow> clnt \<Rightarrow> ((LONG \<times> SCARDCONTEXT option) \<times> clnt) option" where
  "SCardEstablishContextTH dwScope phContext s =
     (if \<not> phContext then Some ((SCARD_E_INVALID_PARAMETER, None), s)
      else let s = init_lib_once s in
        if \<not> isExecuted s then Some ((SCARD_E_NO_MEMORY, Some 0), s)
        else case ClientSetupSession s of
          (None, s) \<Rightarrow> Some ((SCARD_E_NO_SERVICE, Some 0), s)
        | (Some fd, s) \<Rightarrow>
            Option.bind (negotiate fd \<lparr>ve_major = word_of_int PROTOCOL_VERSION_MAJOR,
                ve_minor = word_of_int PROTOCOL_VERSION_MINOR, ve_rv = 0\<rparr> s)
              (\<lambda>(v, s). case v of
                 Inl rv \<Rightarrow> Some ((rv, Some 0), ClientCloseSession fd s)
               | Inr veStr \<Rightarrow>
                   let s = s\<lparr>Protocol_version := sint (ve_major veStr) * 1000 + sint (ve_minor veStr)\<rparr> in
                   map_option (\<lambda>(r, s). case r of
                        Inl rv \<Rightarrow> ((rv, Some 0), ClientCloseSession fd s)
                      | Inr hCtx \<Rightarrow> (case SCardAddContext hCtx fd s of (rv, s) \<Rightarrow> ((rv, Some hCtx), s)))
                     (establish_again fd dwScope s)))"

definition SCardEstablishContext_clnt :: "DWORD \<Rightarrow> bool \<Rightarrow> clnt \<Rightarrow> ((LONG \<times> SCARDCONTEXT option) \<times> clnt) option" where
  "SCardEstablishContext_clnt dwScope phContext s =
     (let rv = daemon_available s in
      if rv \<noteq> SCARD_S_SUCCESS then Some ((rv, None), s) else SCardEstablishContextTH dwScope phContext s)"

text \<open>The context is removed whatever the daemon answers.\<close>

definition SCardReleaseContext_clnt :: "SCARDCONTEXT \<Rightarrow> clnt \<Rightarrow> (LONG \<times> clnt) option" where
  "SCardReleaseContext_clnt hCtx s =
     (case SCardGetAndLockContext hCtx s of
        None \<Rightarrow> Some (SCARD_E_INVALID_HANDLE, s)
      | Some c \<Rightarrow>
          map_option (\<lambda>((rv, b), s).
              (if rv \<noteq> SCARD_S_SUCCESS then rv else uint (re_rv (release_struct_at b)), SCardRemoveContext hCtx s))
            (request SCARD_RELEASE_CONTEXT
               (release_struct_image \<lparr>re_hContext = word_of_int hCtx, re_rv = word_of_int SCARD_S_SUCCESS\<rparr>) 8
               (mapClientID (contextMaps s c)) s))"

section \<open>Connections\<close>

text \<open>
  The result is the status and what is stored through \<^verbatim>\<open>phCard\<close> and \<^verbatim>\<open>pdwActiveProtocol\<close>; the first two
  arguments say that the pointers are not \<^verbatim>\<open>NULL\<close>.
\<close>

definition connect_name :: "string \<Rightarrow> bytes" where
  "connect_name szReader = (take 128 (map (\<lambda>c. of_nat (of_char c)) szReader @ replicate 128 0))[127 := 0]"

definition SCardConnect_clnt ::
  "bool \<Rightarrow> bool \<Rightarrow> SCARDCONTEXT \<Rightarrow> string option \<Rightarrow> DWORD \<Rightarrow> DWORD \<Rightarrow> clnt \<Rightarrow>
    ((LONG \<times> SCARDHANDLE option \<times> DWORD option) \<times> clnt) option" where
  "SCardConnect_clnt phCard pdwActiveProtocol hCtx szReader dwShareMode dwPreferredProtocols s =
     (if \<not> phCard \<or> \<not> pdwActiveProtocol then Some ((SCARD_E_INVALID_PARAMETER, None, None), s)
      else case szReader of
        None \<Rightarrow> Some ((SCARD_E_UNKNOWN_READER, Some 0, None), s)
      | Some szReader \<Rightarrow>
          if length szReader > MAX_READERNAME then Some ((SCARD_E_INVALID_VALUE, Some 0, None), s)
          else case SCardGetAndLockContext hCtx s of
            None \<Rightarrow> Some ((SCARD_E_INVALID_HANDLE, Some 0, None), s)
          | Some c \<Rightarrow>
              map_option (\<lambda>((rv, b), s).
                  if rv \<noteq> SCARD_S_SUCCESS then ((rv, Some 0, None), s)
                  else let coStr = connect_struct_at b; h = sint (co_hCard coStr);
                           proto = Some (ucast (co_dwActiveProtocol coStr)) in
                    if uint (co_rv coStr) = SCARD_S_SUCCESS
                    then (case SCardAddHandle h c szReader s of (rv, s) \<Rightarrow> ((rv, Some h, proto), s))
                    else ((uint (co_rv coStr), Some h, proto), s))
                (request SCARD_CONNECT
                  (connect_struct_image \<lparr>co_hContext = word_of_int hCtx, co_szReader = connect_name szReader,
                     co_dwShareMode = ucast dwShareMode, co_dwPreferredProtocols = ucast dwPreferredProtocols,
                     co_hCard = 0, co_dwActiveProtocol = 0, co_rv = word_of_int SCARD_S_SUCCESS\<rparr>) 152
                  (mapClientID (contextMaps s c)) s))"

text \<open>The jump to \<^verbatim>\<open>retry\<close>. The argument and the result are what \<^verbatim>\<open>pdwActiveProtocol\<close> points to.\<close>

partial_function (option) SCardReconnect_clnt ::
  "SCARDHANDLE \<Rightarrow> DWORD \<Rightarrow> DWORD \<Rightarrow> DWORD \<Rightarrow> DWORD option \<Rightarrow> clnt \<Rightarrow> ((LONG \<times> DWORD option) \<times> clnt) option" where
  "SCardReconnect_clnt h dwShareMode dwPreferredProtocols dwInitialization pdwActiveProtocol s =
     (case pdwActiveProtocol of
        None \<Rightarrow> Some ((SCARD_E_INVALID_PARAMETER, None), s)
      | Some proto \<Rightarrow>
          (case SCardGetContextChannelAndLockFromHandle h s of
             None \<Rightarrow> Some ((SCARD_E_INVALID_HANDLE, Some proto), s)
           | Some (c, ch) \<Rightarrow>
               Option.bind
                 (request SCARD_RECONNECT
                   (reconnect_struct_image \<lparr>rc_hCard = word_of_int h, rc_dwShareMode = ucast dwShareMode,
                      rc_dwPreferredProtocols = ucast dwPreferredProtocols,
                      rc_dwInitialization = ucast dwInitialization, rc_dwActiveProtocol = ucast proto,
                      rc_rv = word_of_int SCARD_S_SUCCESS\<rparr>) 24 (mapClientID (contextMaps s c)) s)
                 (\<lambda>((rv, b), s).
                    if rv \<noteq> SCARD_S_SUCCESS then Some ((rv, Some proto), s)
                    else let rcStr = reconnect_struct_at b in
                      if sharing_shall_block s \<and> uint (rc_rv rcStr) = SCARD_E_SHARING_VIOLATION
                      then SCardReconnect_clnt h dwShareMode dwPreferredProtocols dwInitialization pdwActiveProtocol s
                      else Some ((uint (rc_rv rcStr), Some (ucast (rc_dwActiveProtocol rcStr))), s))))"

declare SCardReconnect_clnt.simps [code]

definition SCardDisconnect_clnt :: "SCARDHANDLE \<Rightarrow> DWORD \<Rightarrow> clnt \<Rightarrow> (LONG \<times> clnt) option" where
  "SCardDisconnect_clnt h dwDisposition s =
     (case SCardGetContextChannelAndLockFromHandle h s of
        None \<Rightarrow> Some (SCARD_E_INVALID_HANDLE, s)
      | Some (c, ch) \<Rightarrow>
          map_option (\<lambda>((rv, b), s).
              if rv \<noteq> SCARD_S_SUCCESS then (rv, s)
              else let rv = uint (di_rv (disconnect_struct_at b)) in
                (rv, if rv = SCARD_S_SUCCESS then SCardRemoveHandle h s else s))
            (request SCARD_DISCONNECT
              (disconnect_struct_image \<lparr>di_hCard = word_of_int h, di_dwDisposition = ucast dwDisposition,
                 di_rv = word_of_int SCARD_S_SUCCESS\<rparr>) 12 (mapClientID (contextMaps s c)) s))"

section \<open>Transactions\<close>

partial_function (option) SCardBeginTransaction_clnt :: "SCARDHANDLE \<Rightarrow> clnt \<Rightarrow> (LONG \<times> clnt) option" where
  "SCardBeginTransaction_clnt h s =
     (case SCardGetContextChannelAndLockFromHandle h s of
        None \<Rightarrow> Some (SCARD_E_INVALID_HANDLE, s)
      | Some (c, ch) \<Rightarrow>
          Option.bind
            (request SCARD_BEGIN_TRANSACTION
              (begin_struct_image \<lparr>be_hCard = word_of_int h, be_rv = word_of_int SCARD_S_SUCCESS\<rparr>) 8
              (mapClientID (contextMaps s c)) s)
            (\<lambda>((rv, b), s).
               if rv \<noteq> SCARD_S_SUCCESS then Some (rv, s)
               else let rv = uint (be_rv (begin_struct_at b)) in
                 if rv \<noteq> SCARD_E_SHARING_VIOLATION then Some (rv, s) else SCardBeginTransaction_clnt h s))"

declare SCardBeginTransaction_clnt.simps [code]

definition SCardEndTransaction_clnt :: "SCARDHANDLE \<Rightarrow> DWORD \<Rightarrow> clnt \<Rightarrow> (LONG \<times> clnt) option" where
  "SCardEndTransaction_clnt h dwDisposition s =
     (case SCardGetContextChannelAndLockFromHandle h s of
        None \<Rightarrow> Some (SCARD_E_INVALID_HANDLE, s)
      | Some (c, ch) \<Rightarrow>
          map_option (\<lambda>((rv, b), s). (if rv \<noteq> SCARD_S_SUCCESS then rv else uint (en_rv (end_struct_at b)), s))
            (request SCARD_END_TRANSACTION
              (end_struct_image \<lparr>en_hCard = word_of_int h, en_dwDisposition = ucast dwDisposition,
                 en_rv = word_of_int SCARD_S_SUCCESS\<rparr>) 12 (mapClientID (contextMaps s c)) s))"

section \<open>The states of the readers\<close>

text \<open>The \<^verbatim>\<open>READER_STATE\<close> an image of 184 bytes holds.\<close>

definition reader_state_at :: "bytes \<Rightarrow> READER_STATE" where
  "reader_state_at b = \<lparr>readerName = c_string (take MAX_READERNAME b), eventCounter = member_at 128 b,
     rsState = member_at 132 b, readerSharing = sint (member_at 136 b), cardAtr = take MAX_ATR_SIZE (drop 140 b),
     pastAtr = (\<lambda>p. if 140 + p < length b then b ! (140 + p) else 0),
     cardAtrLength = member_at 176 b, cardProtocol = member_at 180 b\<rparr>"

definition client_states :: "clnt \<Rightarrow> READER_STATE list" where
  "client_states s =
     map (\<lambda>i. reader_state_at (take 184 (drop (184 * i) (case readerStates s of None \<Rightarrow> [] | Some b \<Rightarrow> b))))
       [0..<nat (maxStates s)]"

definition getReaderEvents :: "nat \<Rightarrow> clnt \<Rightarrow> ((LONG \<times> int) \<times> clnt) option" where
  "getReaderEvents c s =
     (if Protocol_version s < 4005 then Some ((SCARD_E_UNSUPPORTED_FEATURE, 0), s)
      else map_option (\<lambda>((rv, b), s).
          if rv \<noteq> SCARD_S_SUCCESS then ((rv, 0), s)
          else ((SCARD_S_SUCCESS, sint (ge_readerEvents (get_reader_events_at b))), s))
        (request CMD_GET_READER_EVENTS [] 8 (mapClientID (contextMaps s c)) s))"

text \<open>Receiving into the array; \<^verbatim>\<open>read\<close> into a null pointer fails.\<close>

definition recv_states :: "int \<Rightarrow> int \<Rightarrow> clnt \<Rightarrow> (LONG \<times> clnt) option" where
  "recv_states count fd s =
     (case readerStates s of
        None \<Rightarrow> Some (if count = 0 then SCARD_S_SUCCESS else SCARD_F_COMM_ERROR, s)
      | Some old \<Rightarrow>
          map_option (\<lambda>((rv, b), s). (rv, s\<lparr>readerStates := Some (overwrite b old)\<rparr>)) (clnt_recv (nat (count * 184)) fd s))"

text \<open>\<^verbatim>\<open>realloc\<close>, when the daemon has more readers than there is room for.\<close>

definition grow_states :: "int \<Rightarrow> clnt \<Rightarrow> LONG \<times> clnt" where
  "grow_states array_size s =
     (if array_size > maxStates s then
        if \<not> clientMem s then (SCARD_E_INSUFFICIENT_BUFFER, s\<lparr>readerStates := None\<rparr>)
        else let old = (case readerStates s of None \<Rightarrow> [] | Some b \<Rightarrow> b) in
          (SCARD_S_SUCCESS, s\<lparr>readerStates := Some (old @ map (heap s) [length old..<nat (array_size * 184)]),
             maxStates := array_size\<rparr>)
      else (SCARD_S_SUCCESS, s))"

definition getReaderStates :: "nat \<Rightarrow> clnt \<Rightarrow> (LONG \<times> clnt) option" where
  "getReaderStates c s =
     (let fd = mapClientID (contextMaps s c) in
      Option.bind
        (if Protocol_version s \<le> 4005 then Some ((SCARD_S_SUCCESS, int PCSCLITE_MAX_READERS_CONTEXTS), s)
         else map_option (\<lambda>((rv, b), s). ((rv, sint (word32 b)), s)) (request CMD_GET_READERS_STATE_SIZE [] 4 fd s))
        (\<lambda>((rv, array_size), s).
           if rv \<noteq> SCARD_S_SUCCESS then Some (rv, s)
           else case grow_states array_size s of (rv, s) \<Rightarrow>
             if rv \<noteq> SCARD_S_SUCCESS then Some (rv, s)
             else if array_size \<noteq> maxStates s then Some (SCARD_E_UNSUPPORTED_FEATURE, s)
             else Option.bind
               (clnt_send (if Protocol_version s \<le> 4005 then CMD_GET_READERS_STATE else CMD_GET_READERS_STATE_ARRAY) [] fd s)
               (\<lambda>(rv, s). if rv \<noteq> SCARD_S_SUCCESS then Some (rv, s) else recv_states array_size fd s)))"

definition getReaderStatesAndRegisterForEvents :: "nat \<Rightarrow> clnt \<Rightarrow> (LONG \<times> clnt) option" where
  "getReaderStatesAndRegisterForEvents c s =
     (let fd = mapClientID (contextMaps s c) in
      Option.bind (clnt_send CMD_WAIT_READER_STATE_CHANGE [] fd s) (\<lambda>(rv, s).
        if rv \<noteq> SCARD_S_SUCCESS then Some (rv, s)
        else if Protocol_version s \<le> 4005 then
          (if maxStates s \<noteq> int PCSCLITE_MAX_READERS_CONTEXTS then Some (SCARD_E_NO_SERVICE, s)
           else recv_states (maxStates s) fd s)
        else getReaderStates c s))"

definition unregisterFromEvents :: "nat \<Rightarrow> clnt \<Rightarrow> (LONG \<times> clnt) option" where
  "unregisterFromEvents c s =
     map_option (\<lambda>((rv, b), s).
         (if rv \<noteq> SCARD_S_SUCCESS then rv else uint (wa_rv (wait_reader_state_change_at b)), s))
       (request CMD_STOP_WAITING_READER_STATE_CHANGE [] 8 (mapClientID (contextMaps s c)) s)"

section \<open>The status of a card\<close>

text \<open>What \<^verbatim>\<open>SCardStatus\<close> stores through its pointers; \<open>None\<close> is a pointer that is null or not used.\<close>

record card_status =
  csReaderLen :: "DWORD option"
  csState :: "DWORD option"
  csProtocol :: "DWORD option"
  csAtrLen :: "DWORD option"
  csName :: "bytes option"
  csAtr :: "bytes option"

text \<open>\<^verbatim>\<open>strncpy\<close> of a name writes exactly \<open>n\<close> bytes.\<close>

definition strncpy_bytes :: "string \<Rightarrow> nat \<Rightarrow> bytes" where
  "strncpy_bytes name n = take n (map (\<lambda>c. of_nat (of_char c)) name @ replicate n 0)"

text \<open>
  The copies at the end of \<^verbatim>\<open>SCardStatus\<close>: each is a buffer of the caller, or one allocated for it.
  \<open>want\<close> is the length the item has as the code reads it back; the result is a status to return at
  once (\<open>Inl\<close>), or the new status and what was written.
\<close>

definition copy_out ::
  "bool \<Rightarrow> bool \<Rightarrow> DWORD \<Rightarrow> DWORD \<Rightarrow> (nat \<Rightarrow> bytes) \<Rightarrow> LONG \<Rightarrow> LONG + LONG \<times> bytes option" where
  "copy_out mem buffer room want content rv =
     (if room = SCARD_AUTOALLOCATE then
        if \<not> buffer then Inl SCARD_E_INVALID_PARAMETER
        else if \<not> mem then Inl SCARD_E_NO_MEMORY
        else Inr (rv, Some (content (unat want)))
      else if buffer then Inr (if want > room then SCARD_E_INSUFFICIENT_BUFFER else rv, Some (content (unat room)))
      else Inr (rv, None))"

definition status_result ::
  "bool \<Rightarrow> bool \<Rightarrow> DWORD option \<Rightarrow> bool \<Rightarrow> bool \<Rightarrow> bool \<Rightarrow> DWORD option \<Rightarrow> string \<Rightarrow> READER_STATE \<Rightarrow> LONG \<Rightarrow>
    LONG \<times> card_status" where
  "status_result mem szReaderName pcchReaderLen pdwState pdwProtocol pbAtr pcbAtrLen name st rv =
     (let readerLen = of_nat (length name + 1); atrLen = ucast (cardAtrLength st);
          res = \<lparr>csReaderLen = map_option (\<lambda>_. readerLen) pcchReaderLen,
            csState = (if pdwState then Some (ucast (push_bit 16 (eventCounter st) + rsState st)) else None),
            csProtocol = (if pdwProtocol then Some (ucast (cardProtocol st)) else None),
            csAtrLen = map_option (\<lambda>_. atrLen) pcbAtrLen, csName = None, csAtr = None\<rparr>;
          readLen = (if pcchReaderLen = None \<and> pcbAtrLen = None then atrLen else readerLen)
      in case copy_out mem szReaderName (case pcchReaderLen of None \<Rightarrow> 0 | Some n \<Rightarrow> n) readLen (strncpy_bytes name) rv of
        Inl rv \<Rightarrow> (rv, res)
      | Inr (rv, out) \<Rightarrow>
          let res = res\<lparr>csName := out\<rparr> in
          (case copy_out mem pbAtr (case pcbAtrLen of None \<Rightarrow> 0 | Some n \<Rightarrow> n) atrLen
              (\<lambda>n. map (atr_memory st) [0..<min (unat atrLen) n]) rv of
             Inl rv \<Rightarrow> (rv, res)
           | Inr (rv, out) \<Rightarrow> (rv, res\<lparr>csAtr := out\<rparr>)))"

partial_function (option) SCardStatus_clnt ::
  "SCARDHANDLE \<Rightarrow> bool \<Rightarrow> DWORD option \<Rightarrow> bool \<Rightarrow> bool \<Rightarrow> bool \<Rightarrow> DWORD option \<Rightarrow> clnt \<Rightarrow>
    ((LONG \<times> card_status) \<times> clnt) option" where
  "SCardStatus_clnt h szReaderName pcchReaderLen pdwState pdwProtocol pbAtr pcbAtrLen s =
     (let none = \<lparr>csReaderLen = map_option (\<lambda>_. 0) pcchReaderLen, csState = (if pdwState then Some 0 else None),
            csProtocol = (if pdwProtocol then Some 0 else None), csAtrLen = map_option (\<lambda>_. 0) pcbAtrLen,
            csName = None, csAtr = None\<rparr>
      in case SCardGetContextChannelAndLockFromHandle h s of
        None \<Rightarrow> Some ((SCARD_E_INVALID_HANDLE, none), s)
      | Some (c, ch) \<Rightarrow>
          Option.bind (getReaderStates c s) (\<lambda>(rv, s).
            if rv \<noteq> SCARD_S_SUCCESS then Some ((rv, none), s)
            else case position (\<lambda>st. readerName st = chReaderName (channelMaps s ch)) (client_states s) of
              None \<Rightarrow> Some ((SCARD_E_READER_UNAVAILABLE, none), s)
            | Some i \<Rightarrow>
                Option.bind
                  (request SCARD_STATUS (status_struct_image \<lparr>st_hCard = word_of_int h, st_rv = 0\<rparr>) 8
                    (mapClientID (contextMaps s c)) s)
                  (\<lambda>((rv, b), s).
                     if rv \<noteq> SCARD_S_SUCCESS then Some ((rv, none), s)
                     else let rv = uint (st_rv (status_struct_at b)) in
                       if sharing_shall_block s \<and> rv = SCARD_E_SHARING_VIOLATION
                       then SCardStatus_clnt h szReaderName pcchReaderLen pdwState pdwProtocol pbAtr pcbAtrLen s
                       else if rv \<noteq> SCARD_S_SUCCESS \<and> rv \<noteq> SCARD_E_INSUFFICIENT_BUFFER then Some ((rv, none), s)
                       else Some (status_result (clientMem s) szReaderName pcchReaderLen pdwState pdwProtocol pbAtr
                              pcbAtrLen (chReaderName (channelMaps s ch)) (client_states s ! i) rv, s))))"

declare SCardStatus_clnt.simps [code]

section \<open>Control and attributes\<close>

text \<open>
  The bytes of the message are followed by those of the send buffer, and the answer by those of the
  receive buffer. The result has the bytes stored in the receive buffer and what is stored through
  \<^verbatim>\<open>lpBytesReturned\<close> (the last argument says whether it is there).
\<close>

definition SCardControl_clnt ::
  "SCARDHANDLE \<Rightarrow> DWORD \<Rightarrow> bytes \<Rightarrow> DWORD \<Rightarrow> bool \<Rightarrow> clnt \<Rightarrow> ((LONG \<times> bytes \<times> DWORD option) \<times> clnt) option" where
  "SCardControl_clnt h dwControlCode pbSendBuffer cbRecvLength lpBytesReturned s =
     (let returned = (\<lambda>n. if lpBytesReturned then Some n else None) in
      case SCardGetContextChannelAndLockFromHandle h s of
        None \<Rightarrow> Some ((SCARD_E_INVALID_HANDLE, [], returned 0), s)
      | Some (c, ch) \<Rightarrow>
          let fd = mapClientID (contextMaps s c) in
          if length pbSendBuffer > MAX_BUFFER_SIZE_EXTENDED then Some ((SCARD_E_INSUFFICIENT_BUFFER, [], returned 0), s)
          else Option.bind
            (clnt_send SCARD_CONTROL (control_struct_image \<lparr>ct_hCard = word_of_int h,
               ct_dwControlCode = ucast dwControlCode, ct_cbSendLength = of_nat (length pbSendBuffer),
               ct_cbRecvLength = ucast cbRecvLength, ct_dwBytesReturned = 0, ct_rv = 0\<rparr>) fd s)
            (\<lambda>(rv, s). if rv \<noteq> SCARD_S_SUCCESS then Some ((rv, [], returned 0), s)
             else Option.bind (clnt_send_data pbSendBuffer fd s) (\<lambda>(rv, s).
               if rv \<noteq> SCARD_S_SUCCESS then Some ((rv, [], returned 0), s)
               else Option.bind (clnt_recv 24 fd s) (\<lambda>((rv, b), s).
                 if rv \<noteq> SCARD_S_SUCCESS then Some ((rv, [], returned 0), s)
                 else let ctStr = control_struct_at b; n = ucast (ct_dwBytesReturned ctStr) in
                   if uint (ct_rv ctStr) = SCARD_S_SUCCESS then
                     if n > cbRecvLength then Some ((SCARD_E_INSUFFICIENT_BUFFER, [], returned n), s)
                     else map_option (\<lambda>((rv, data), s).
                         ((rv, data, returned (if rv \<noteq> SCARD_S_SUCCESS then 0 else n)), s)) (clnt_recv (unat n) fd s)
                   else Some ((uint (ct_rv ctStr), [], returned n), s)))))"

text \<open>
  \<open>data\<close> is the attribute to set; the length is what \<^verbatim>\<open>pcbAttrLen\<close> points to; \<open>buffer\<close> says whether
  there is a buffer for the attribute. The result has the new length and the bytes copied out.
\<close>

definition SCardGetSetAttrib ::
  "SCARDHANDLE \<Rightarrow> pcsc_msg_commands \<Rightarrow> DWORD \<Rightarrow> bytes \<Rightarrow> bool \<Rightarrow> DWORD \<Rightarrow> clnt \<Rightarrow> ((LONG \<times> DWORD \<times> bytes) \<times> clnt) option" where
  "SCardGetSetAttrib h command dwAttrId data buffer len s =
     (case SCardGetContextChannelAndLockFromHandle h s of
        None \<Rightarrow> Some ((SCARD_E_INVALID_HANDLE, len, []), s)
      | Some (c, ch) \<Rightarrow>
          if unat len > MAX_BUFFER_SIZE then Some ((SCARD_E_INSUFFICIENT_BUFFER, len, []), s)
          else map_option (\<lambda>((rv, b), s).
              if rv \<noteq> SCARD_S_SUCCESS then ((rv, len, []), s)
              else let gsStr = getset_struct_at b; n = ucast (gs_cbAttrLen gsStr) in
                if uint (gs_rv gsStr) = SCARD_S_SUCCESS \<and> command = SCARD_GET_ATTRIB then
                  ((if len < n then SCARD_E_INSUFFICIENT_BUFFER else uint (gs_rv gsStr), n,
                    if buffer then take (unat (min len n)) (gs_pbAttr gsStr) else []), s)
                else ((uint (gs_rv gsStr), len, []), s))
            (request command
              (getset_struct_image \<lparr>gs_hCard = word_of_int h, gs_dwAttrId = ucast dwAttrId,
                 gs_pbAttr = (if command = SCARD_SET_ATTRIB then overwrite (take (unat len) data) (replicate 264 0)
                              else replicate 264 0),
                 gs_cbAttrLen = (if command = SCARD_SET_ATTRIB then ucast len else of_nat MAX_BUFFER_SIZE),
                 gs_rv = word_of_int SCARD_E_NO_SERVICE\<rparr>) 280 (mapClientID (contextMaps s c)) s))"

definition SCardGetAttrib_clnt ::
  "SCARDHANDLE \<Rightarrow> DWORD \<Rightarrow> bool \<Rightarrow> DWORD option \<Rightarrow> clnt \<Rightarrow> ((LONG \<times> DWORD option \<times> bytes) \<times> clnt) option" where
  "SCardGetAttrib_clnt h dwAttrId pbAttr pcbAttrLen s =
     (case pcbAttrLen of
        None \<Rightarrow> Some ((SCARD_E_INVALID_PARAMETER, None, []), s)
      | Some len \<Rightarrow>
          if len = SCARD_AUTOALLOCATE \<and> \<not> pbAttr then Some ((SCARD_E_INVALID_PARAMETER, Some len, []), s)
          else if len = SCARD_AUTOALLOCATE \<and> \<not> clientMem s
          then Some ((SCARD_E_NO_MEMORY, Some (of_nat MAX_BUFFER_SIZE), []), s)
          else map_option (\<lambda>((rv, n, b), s). ((rv, Some n, b), s))
            (SCardGetSetAttrib h SCARD_GET_ATTRIB dwAttrId [] pbAttr
              (if len = SCARD_AUTOALLOCATE \<or> \<not> pbAttr then of_nat MAX_BUFFER_SIZE else len) s))"

definition SCardSetAttrib_clnt :: "SCARDHANDLE \<Rightarrow> DWORD \<Rightarrow> bytes option \<Rightarrow> clnt \<Rightarrow> (LONG \<times> clnt) option" where
  "SCardSetAttrib_clnt h dwAttrId pbAttr s =
     (case pbAttr of
        None \<Rightarrow> Some (SCARD_E_INVALID_PARAMETER, s)
      | Some data \<Rightarrow>
          if data = [] then Some (SCARD_E_INVALID_PARAMETER, s)
          else map_option (\<lambda>((rv, _), s). (rv, s))
            (SCardGetSetAttrib h SCARD_SET_ATTRIB dwAttrId data True (of_nat (length data)) s))"

section \<open>Transmission\<close>

text \<open>
  The result has the bytes stored in the receive buffer and what \<^verbatim>\<open>pcbRecvLength\<close> and \<^verbatim>\<open>pioRecvPci\<close>
  point to afterwards.
\<close>

partial_function (option) SCardTransmit_clnt ::
  "SCARDHANDLE \<Rightarrow> SCARD_IO_HEADER option \<Rightarrow> bytes option \<Rightarrow> SCARD_IO_HEADER option \<Rightarrow> bool \<Rightarrow> DWORD option \<Rightarrow> clnt \<Rightarrow>
    ((LONG \<times> bytes \<times> DWORD option \<times> SCARD_IO_HEADER option) \<times> clnt) option" where
  "SCardTransmit_clnt h pioSendPci pbSendBuffer pioRecvPci pbRecvBuffer pcbRecvLength s =
     (if pbSendBuffer = None \<or> \<not> pbRecvBuffer \<or> pcbRecvLength = None \<or> pioSendPci = None
      then Some ((SCARD_E_INVALID_PARAMETER, [], pcbRecvLength, pioRecvPci), s)
      else case SCardGetContextChannelAndLockFromHandle h s of
        None \<Rightarrow> Some ((SCARD_E_INVALID_HANDLE, [], Some 0, pioRecvPci), s)
      | Some (c, ch) \<Rightarrow>
          let fd = mapClientID (contextMaps s c); data = the pbSendBuffer; sendPci = the pioSendPci;
              room = the pcbRecvLength;
              recvPci = (case pioRecvPci of Some pci \<Rightarrow> pci | None \<Rightarrow> \<lparr>ioProtocol = SCARD_PROTOCOL_ANY, ioLength = 16\<rparr>)
          in
          if length data > MAX_BUFFER_SIZE_EXTENDED
          then Some ((SCARD_E_INSUFFICIENT_BUFFER, [], pcbRecvLength, pioRecvPci), s)
          else Option.bind
            (clnt_send SCARD_TRANSMIT (transmit_struct_image \<lparr>tr_hCard = word_of_int h,
               tr_ioSendPciProtocol = ucast (ioProtocol sendPci), tr_ioSendPciLength = ucast (ioLength sendPci),
               tr_cbSendLength = of_nat (length data), tr_ioRecvPciProtocol = ucast (ioProtocol recvPci),
               tr_ioRecvPciLength = ucast (ioLength recvPci), tr_pcbRecvLength = ucast room,
               tr_rv = word_of_int SCARD_S_SUCCESS\<rparr>) fd s)
            (\<lambda>(rv, s). if rv \<noteq> SCARD_S_SUCCESS then Some ((rv, [], pcbRecvLength, pioRecvPci), s)
             else Option.bind (clnt_send_data data fd s) (\<lambda>(rv, s).
               if rv \<noteq> SCARD_S_SUCCESS then Some ((rv, [], pcbRecvLength, pioRecvPci), s)
               else Option.bind (clnt_recv 32 fd s) (\<lambda>((rv, b), s).
                 if rv \<noteq> SCARD_S_SUCCESS then Some ((rv, [], pcbRecvLength, pioRecvPci), s)
                 else let trStr = transmit_struct_at b; n = ucast (tr_pcbRecvLength trStr) in
                   if uint (tr_rv trStr) = SCARD_S_SUCCESS then
                     if n > room then Some ((SCARD_E_INSUFFICIENT_BUFFER, [], Some n, pioRecvPci), s)
                     else map_option (\<lambda>((rv, answer), s).
                         if rv \<noteq> SCARD_S_SUCCESS then ((rv, answer, pcbRecvLength, pioRecvPci), s)
                         else ((SCARD_S_SUCCESS, answer, Some n, map_option (\<lambda>_. \<lparr>ioProtocol = ucast (tr_ioRecvPciProtocol trStr),
                           ioLength = ucast (tr_ioRecvPciLength trStr)\<rparr>) pioRecvPci), s)) (clnt_recv (unat n) fd s)
                   else if sharing_shall_block s \<and> uint (tr_rv trStr) = SCARD_E_SHARING_VIOLATION
                   then SCardTransmit_clnt h pioSendPci pbSendBuffer pioRecvPci pbRecvBuffer pcbRecvLength s
                   else Some ((uint (tr_rv trStr), [], Some n, pioRecvPci), s)))))"

declare SCardTransmit_clnt.simps [code]

section \<open>Lists of readers and groups\<close>

text \<open>A multi-string: each name with its NUL, and a NUL at the end.\<close>

definition reader_names :: "clnt \<Rightarrow> string list" where
  "reader_names s = filter (\<lambda>n. n \<noteq> []) (map readerName (client_states s))"

definition names_length :: "string list \<Rightarrow> DWORD" where
  "names_length names = fold (\<lambda>n len. len + (of_nat (length n) + 1)) names 0 + 1"

definition names_bytes :: "string list \<Rightarrow> bytes" where
  "names_bytes names = concat (map (\<lambda>n. map (\<lambda>c. of_nat (of_char c)) n @ [0]) names) @ [0]"

definition SCardListReaders_clnt ::
  "SCARDCONTEXT \<Rightarrow> bool \<Rightarrow> DWORD option \<Rightarrow> clnt \<Rightarrow> ((LONG \<times> bytes option \<times> DWORD option) \<times> clnt) option" where
  "SCardListReaders_clnt hCtx mszReaders pcchReaders s =
     (case pcchReaders of
        None \<Rightarrow> Some ((SCARD_E_INVALID_PARAMETER, None, None), s)
      | Some room \<Rightarrow>
          (case SCardGetAndLockContext hCtx s of
             None \<Rightarrow> Some ((SCARD_E_INVALID_HANDLE, None, Some room), s)
           | Some c \<Rightarrow>
               map_option (\<lambda>(rv, s).
                   let names = reader_names s; len = names_length names in
                   if rv \<noteq> SCARD_S_SUCCESS then ((rv, None, Some 0), s)
                   else if len = 1 then ((SCARD_E_NO_READERS_AVAILABLE, None, Some len), s)
                   else if room = SCARD_AUTOALLOCATE \<and> \<not> mszReaders then ((SCARD_E_INVALID_PARAMETER, None, Some len), s)
                   else if room = SCARD_AUTOALLOCATE \<and> \<not> clientMem s then ((SCARD_E_NO_MEMORY, None, Some len), s)
                   else if room \<noteq> SCARD_AUTOALLOCATE \<and> mszReaders \<and> room < len
                   then ((SCARD_E_INSUFFICIENT_BUFFER, None, Some len), s)
                   else ((rv, if mszReaders then Some (names_bytes names) else None, Some len), s))
                 (getReaderStates c s)))"

definition SCardListReaderGroups_clnt ::
  "SCARDCONTEXT \<Rightarrow> bool \<Rightarrow> DWORD \<Rightarrow> clnt \<Rightarrow> LONG \<times> bytes option \<times> DWORD" where
  "SCardListReaderGroups_clnt hCtx mszGroups pcchGroups s =
     (let group = map (\<lambda>c. of_nat (of_char c)) ''SCard$DefaultReaders'' @ [0, 0] in
      case SCardGetAndLockContext hCtx s of
        None \<Rightarrow> (SCARD_E_INVALID_HANDLE, None, pcchGroups)
      | Some c \<Rightarrow>
          if pcchGroups = SCARD_AUTOALLOCATE \<and> \<not> mszGroups then (SCARD_E_INVALID_PARAMETER, None, 22)
          else if pcchGroups = SCARD_AUTOALLOCATE \<and> \<not> clientMem s then (SCARD_E_NO_MEMORY, None, 22)
          else if pcchGroups \<noteq> SCARD_AUTOALLOCATE \<and> mszGroups \<and> pcchGroups < 22
          then (SCARD_E_INSUFFICIENT_BUFFER, None, 22)
          else (SCARD_S_SUCCESS, if mszGroups then Some group else None, 22))"

section \<open>Other functions\<close>

definition SCardFreeMemory_clnt :: "SCARDCONTEXT \<Rightarrow> clnt \<Rightarrow> LONG" where
  "SCardFreeMemory_clnt hCtx s = (if \<not> SCardGetContextValidity hCtx s then SCARD_E_INVALID_HANDLE else SCARD_S_SUCCESS)"

definition SCardIsValidContext_clnt :: "SCARDCONTEXT \<Rightarrow> clnt \<Rightarrow> LONG" where
  "SCardIsValidContext_clnt hCtx s = (if \<not> SCardGetContextValidity hCtx s then SCARD_E_INVALID_HANDLE else SCARD_S_SUCCESS)"

text \<open>The request to cancel travels over a session of its own.\<close>

definition SCardCancel_clnt :: "SCARDCONTEXT \<Rightarrow> clnt \<Rightarrow> (LONG \<times> clnt) option" where
  "SCardCancel_clnt hCtx s =
     (case SCardGetContextTH hCtx s of
        None \<Rightarrow> Some (SCARD_E_INVALID_HANDLE, s)
      | Some c \<Rightarrow>
          if \<not> cancellable (contextMaps s c) then Some (SCARD_S_SUCCESS, s)
          else case ClientSetupSession s of
            (None, s) \<Rightarrow> Some (SCARD_E_NO_SERVICE, s)
          | (Some fd, s) \<Rightarrow>
              map_option (\<lambda>((rv, b), s).
                  (if rv \<noteq> SCARD_S_SUCCESS then rv else uint (ca_rv (cancel_struct_at b)), ClientCloseSession fd s))
                (request SCARD_CANCEL
                  (cancel_struct_image \<lparr>ca_hContext = word_of_int hCtx, ca_rv = word_of_int SCARD_S_SUCCESS\<rparr>) 8 fd s))"

end
