(* ===== verification/Status_Change.thy ===== *)
theory Status_Change
  imports Winscard_Clnt
begin

text \<open>
  \<^verbatim>\<open>SCardGetStatusChange\<close> of \<^verbatim>\<open>src/src/winscard_clnt.c\<close>: what an application believes about its
  readers is compared with the states the daemon publishes, until a difference is found, the time
  is over or the call is cancelled.

  The \<^verbatim>\<open>do\<close> loop counts \<^verbatim>\<open>j\<close> round the array of readers; here one pass over the array is a function,
  and the loop takes from a list what happens in each of its waits. When the list ends the call
  is still waiting, which is \<open>None\<close>.
\<close>

section \<open>Data\<close>

abbreviation (input) SCARD_STATE_UNAWARE :: DWORD where "SCARD_STATE_UNAWARE \<equiv> 0x0000"
abbreviation (input) SCARD_STATE_IGNORE :: DWORD where "SCARD_STATE_IGNORE \<equiv> 0x0001"
abbreviation (input) SCARD_STATE_CHANGED :: DWORD where "SCARD_STATE_CHANGED \<equiv> 0x0002"
abbreviation (input) SCARD_STATE_UNKNOWN :: DWORD where "SCARD_STATE_UNKNOWN \<equiv> 0x0004"
abbreviation (input) SCARD_STATE_UNAVAILABLE :: DWORD where "SCARD_STATE_UNAVAILABLE \<equiv> 0x0008"
abbreviation (input) SCARD_STATE_EMPTY :: DWORD where "SCARD_STATE_EMPTY \<equiv> 0x0010"
abbreviation (input) SCARD_STATE_PRESENT :: DWORD where "SCARD_STATE_PRESENT \<equiv> 0x0020"
abbreviation (input) SCARD_STATE_ATRMATCH :: DWORD where "SCARD_STATE_ATRMATCH \<equiv> 0x0040"
abbreviation (input) SCARD_STATE_EXCLUSIVE :: DWORD where "SCARD_STATE_EXCLUSIVE \<equiv> 0x0080"
abbreviation (input) SCARD_STATE_INUSE :: DWORD where "SCARD_STATE_INUSE \<equiv> 0x0100"
abbreviation (input) SCARD_STATE_MUTE :: DWORD where "SCARD_STATE_MUTE \<equiv> 0x0200"
abbreviation (input) INFINITE :: DWORD where "INFINITE \<equiv> 0xFFFFFFFF"

record SCARD_READERSTATE =
  szReader :: "string option"
  dwCurrentState :: DWORD
  dwEventState :: DWORD
  cbAtr :: DWORD
  rgbAtr :: bytes

text \<open>
  One wait of the loop: the time before it, the time \<^verbatim>\<open>MessageReceiveTimeout\<close> starts at, what happens
  while it waits, and the time after it.
\<close>

record status_wait =
  swBefore :: timeval
  swStart :: timeval
  swEvents :: "timed_event list"
  swAfter :: timeval

definition to_lower :: "char \<Rightarrow> char" where
  "to_lower c = (if 65 \<le> (of_char c :: nat) \<and> (of_char c :: nat) \<le> 90 then char_of ((of_char c :: nat) + 32) else c)"

text \<open>\<^verbatim>\<open>strcasecmp\<close> with the name of the special reader.\<close>

definition is_pnp :: "string \<Rightarrow> bool" where
  "is_pnp name = (map to_lower name = CHR 0x5C # CHR 0x5C # ''?pnp?'' @ CHR 0x5C # ''notification'')"

section \<open>One reader\<close>

text \<open>
  The event state of a reader and \<^verbatim>\<open>dwBreakFlag\<close> are computed together; \<open>note_change\<close> is the pair of
  assignments that reports a change.
\<close>

definition note_change :: "bool \<Rightarrow> DWORD \<times> bool \<Rightarrow> DWORD \<times> bool" where
  "note_change p x = (if p then (fst x OR SCARD_STATE_CHANGED, True) else x)"

definition set_flags :: "DWORD \<Rightarrow> DWORD \<times> bool \<Rightarrow> DWORD \<times> bool" where
  "set_flags flags x = (fst x OR flags, snd x)"

definition clear_flags :: "DWORD \<Rightarrow> DWORD \<times> bool \<Rightarrow> DWORD \<times> bool" where
  "clear_flags flags x = (fst x AND NOT flags, snd x)"

definition change_known :: "DWORD \<Rightarrow> DWORD \<times> bool \<Rightarrow> DWORD \<times> bool" where
  "change_known cur x =
     (if cur AND SCARD_STATE_UNKNOWN \<noteq> 0 then clear_flags SCARD_STATE_UNKNOWN (note_change True x) else x)"

definition change_counter :: "DWORD \<Rightarrow> READER_STATE \<Rightarrow> DWORD \<times> bool \<Rightarrow> DWORD \<times> bool" where
  "change_counter cur st x =
     (let x = note_change (cur AND 0xFFFF0000 \<noteq> 0 \<and> eventCounter st \<noteq> ucast (drop_bit 16 cur AND 0xFFFF)) x
      in (fst x AND 0xFFFF OR ucast (push_bit 16 (eventCounter st)), snd x))"

definition change_available :: "DWORD \<Rightarrow> READER_STATE \<Rightarrow> DWORD \<times> bool \<Rightarrow> DWORD \<times> bool" where
  "change_available cur st x =
     (if rsState st AND SCARD_UNKNOWN \<noteq> 0
      then note_change (cur AND SCARD_STATE_UNAVAILABLE = 0) (SCARD_STATE_UNAVAILABLE, snd x)
      else if cur AND SCARD_STATE_UNAVAILABLE \<noteq> 0
      then note_change True (clear_flags SCARD_STATE_UNAVAILABLE x) else x)"

definition change_card :: "DWORD \<Rightarrow> READER_STATE \<Rightarrow> DWORD \<times> bool \<Rightarrow> DWORD \<times> bool" where
  "change_card cur st x =
     (if rsState st AND SCARD_ABSENT \<noteq> 0 then
        let x = clear_flags (SCARD_STATE_PRESENT OR SCARD_STATE_UNAWARE OR SCARD_STATE_IGNORE OR SCARD_STATE_UNKNOWN OR
              SCARD_STATE_UNAVAILABLE OR SCARD_STATE_ATRMATCH OR SCARD_STATE_MUTE OR SCARD_STATE_INUSE)
              (set_flags SCARD_STATE_EMPTY x)
        in note_change (cur AND SCARD_STATE_PRESENT \<noteq> 0) x
      else if rsState st AND SCARD_PRESENT \<noteq> 0 then
        let x = clear_flags (SCARD_STATE_EMPTY OR SCARD_STATE_UNAWARE OR SCARD_STATE_IGNORE OR SCARD_STATE_UNKNOWN OR
              SCARD_STATE_UNAVAILABLE OR SCARD_STATE_MUTE) (set_flags SCARD_STATE_PRESENT x);
            x = note_change (cur AND SCARD_STATE_EMPTY \<noteq> 0) x
        in if rsState st AND SCARD_SWALLOWED \<noteq> 0
           then note_change (cur AND SCARD_STATE_MUTE = 0) (set_flags SCARD_STATE_MUTE x)
           else note_change (cur AND SCARD_STATE_MUTE \<noteq> 0) x
      else x)"

definition change_sharing :: "DWORD \<Rightarrow> READER_STATE \<Rightarrow> DWORD \<times> bool \<Rightarrow> DWORD \<times> bool" where
  "change_sharing cur st x =
     (if readerSharing st = PCSCLITE_SHARING_EXCLUSIVE_CONTEXT then
        note_change (cur AND SCARD_STATE_INUSE \<noteq> 0) (clear_flags SCARD_STATE_INUSE (set_flags SCARD_STATE_EXCLUSIVE x))
      else if readerSharing st \<ge> PCSCLITE_SHARING_LAST_CONTEXT then
        (if rsState st AND SCARD_PRESENT \<noteq> 0
         then note_change (cur AND SCARD_STATE_EXCLUSIVE \<noteq> 0)
           (clear_flags SCARD_STATE_EXCLUSIVE (set_flags SCARD_STATE_INUSE x))
         else x)
      else if readerSharing st = PCSCLITE_SHARING_NO_CONTEXT then
        note_change (cur AND SCARD_STATE_INUSE \<noteq> 0 \<or> cur AND SCARD_STATE_EXCLUSIVE \<noteq> 0)
          (clear_flags (SCARD_STATE_INUSE OR SCARD_STATE_EXCLUSIVE) x)
      else x)"

definition change_atr :: "READER_STATE \<Rightarrow> SCARD_READERSTATE \<Rightarrow> SCARD_READERSTATE" where
  "change_atr st r =
     (if rsState st AND SCARD_PRESENT \<noteq> 0
      then r\<lparr>cbAtr := ucast (cardAtrLength st),
             rgbAtr := overwrite (map (atr_memory st) [0..<unat (cardAtrLength st)]) (rgbAtr r)\<rparr>
      else r\<lparr>cbAtr := 0\<rparr>)"

text \<open>A reader that the daemon knows, in the order of the source.\<close>

definition compare_reader :: "READER_STATE \<Rightarrow> SCARD_READERSTATE \<Rightarrow> bool \<Rightarrow> SCARD_READERSTATE \<times> bool" where
  "compare_reader st r dwBreakFlag =
     (let cur = dwCurrentState r;
          x = change_known cur (dwEventState r, dwBreakFlag);
          x = change_counter cur st x;
          x = change_available cur st x;
          x = change_card cur st x;
          x = change_sharing cur st x;
          x = note_change (cur = SCARD_STATE_UNAWARE) x
      in ((change_atr st r)\<lparr>dwEventState := fst x\<rparr>, snd x))"

text \<open>A reader that the daemon does not know.\<close>

definition missing_reader :: "SCARD_READERSTATE \<Rightarrow> bool \<Rightarrow> SCARD_READERSTATE \<times> bool" where
  "missing_reader r dwBreakFlag =
     (let x = note_change (dwCurrentState r AND SCARD_STATE_UNKNOWN = 0)
            (SCARD_STATE_UNKNOWN OR SCARD_STATE_UNAVAILABLE, dwBreakFlag)
      in (r\<lparr>dwEventState := fst x\<rparr>, snd x))"

text \<open>Storing the number of reader events in the high word, \<^verbatim>\<open>int\<close> arithmetic included.\<close>

definition store_events :: "int \<Rightarrow> DWORD \<Rightarrow> DWORD" where
  "store_events readerEvents ev = (ev AND 0xFFFF) + word_of_int (int32 (readerEvents * 65536))"

section \<open>One pass over the readers\<close>

definition find_reader :: "string \<Rightarrow> clnt \<Rightarrow> nat option" where
  "find_reader name s = position (\<lambda>st. readerName st = name) (client_states s)"

definition reader_count :: "clnt \<Rightarrow> int" where
  "reader_count s = int (length (reader_names s))"

text \<open>The special reader: a change of the number of readers; the daemon is asked for its count of events.\<close>

definition pnp_pass ::
  "nat \<Rightarrow> SCARD_READERSTATE \<Rightarrow> bool \<Rightarrow> int \<Rightarrow> clnt \<Rightarrow> ((SCARD_READERSTATE \<times> bool \<times> int) \<times> clnt) option" where
  "pnp_pass c r dwBreakFlag currentReaderCount s =
     (let newReaderCount = reader_count s in
      if newReaderCount \<noteq> currentReaderCount then
        map_option (\<lambda>((rv, readerEvents), s).
            let ev = (if rv = SCARD_S_SUCCESS then store_events readerEvents (dwEventState r) else dwEventState r)
            in ((r\<lparr>dwEventState := ev OR SCARD_STATE_CHANGED\<rparr>, True, newReaderCount), s))
          (getReaderEvents c s)
      else Some ((r, dwBreakFlag, currentReaderCount), s))"

definition reader_pass ::
  "nat \<Rightarrow> SCARD_READERSTATE \<Rightarrow> bool \<Rightarrow> int \<Rightarrow> clnt \<Rightarrow> ((SCARD_READERSTATE \<times> bool \<times> int) \<times> clnt) option" where
  "reader_pass c r dwBreakFlag currentReaderCount s =
     (if dwCurrentState r AND SCARD_STATE_IGNORE \<noteq> 0 then Some ((r, dwBreakFlag, currentReaderCount), s)
      else let name = (case szReader r of None \<Rightarrow> [] | Some n \<Rightarrow> n) in
        case find_reader name s of
          None \<Rightarrow>
            if is_pnp name then pnp_pass c r dwBreakFlag currentReaderCount s
            else (case missing_reader r dwBreakFlag of (r, dwBreakFlag) \<Rightarrow> Some ((r, dwBreakFlag, currentReaderCount), s))
        | Some i \<Rightarrow>
            (case compare_reader (client_states s ! i) r dwBreakFlag of (r, dwBreakFlag) \<Rightarrow>
               Some ((r, dwBreakFlag, currentReaderCount), s)))"

fun readers_pass ::
  "nat \<Rightarrow> SCARD_READERSTATE list \<Rightarrow> bool \<Rightarrow> int \<Rightarrow> clnt \<Rightarrow> ((SCARD_READERSTATE list \<times> bool \<times> int) \<times> clnt) option" where
  "readers_pass c [] dwBreakFlag currentReaderCount s = Some (([], dwBreakFlag, currentReaderCount), s)"
| "readers_pass c (r # rs) dwBreakFlag currentReaderCount s =
     Option.bind (reader_pass c r dwBreakFlag currentReaderCount s) (\<lambda>((r, dwBreakFlag, currentReaderCount), s).
       map_option (\<lambda>((rs, dwBreakFlag, currentReaderCount), s). ((r # rs, dwBreakFlag, currentReaderCount), s))
         (readers_pass c rs dwBreakFlag currentReaderCount s))"

section \<open>The loop\<close>

definition wait_for_message ::
  "nat \<Rightarrow> int \<Rightarrow> status_wait \<Rightarrow> clnt \<Rightarrow> ((LONG \<times> bytes) \<times> clnt) option" where
  "wait_for_message c dwTime w s =
     (let fd = mapClientID (contextMaps s c) in
      map_option (\<lambda>(r, k). (r, s\<lparr>links := (links s)(fd := k)\<rparr>))
        (MessageReceiveTimeout (swStart w) dwTime 8 (swEvents w) (links s fd)))"

text \<open>
  One wait: \<open>Inl\<close> is a jump to \<^verbatim>\<open>end\<close> with its status, \<open>Inr\<close> the time that is left. While the call
  waits the context is \<open>cancellable\<close>; nothing in this thread reads the flag then.
\<close>

definition status_wait_round :: "nat \<Rightarrow> DWORD \<Rightarrow> int \<Rightarrow> status_wait \<Rightarrow> clnt \<Rightarrow> ((LONG + int) \<times> clnt) option" where
  "status_wait_round c dwTimeout dwTime w s =
     Option.bind (wait_for_message c dwTime w (upd_map c (\<lambda>m. m\<lparr>cancellable := True\<rparr>) s)) (\<lambda>((rv, b), s).
       let s = upd_map c (\<lambda>m. m\<lparr>cancellable := False\<rparr>) s;
           waited = wait_reader_state_change_at (overwrite b (replicate 8 0)) in
       Option.bind (if rv = SCARD_E_TIMEOUT then unregisterFromEvents c s else Some (rv, s)) (\<lambda>(rv, s).
         if rv \<noteq> SCARD_S_SUCCESS then Some (Inl rv, s)
         else if uint (wa_rv waited) \<noteq> SCARD_S_SUCCESS then Some (Inl (uint (wa_rv waited)), s)
         else map_option (\<lambda>(rv, s).
             if rv \<noteq> SCARD_S_SUCCESS then (Inl rv, s)
             else if dwTimeout \<noteq> INFINITE then
               let dwTime = dwTime - time_sub (swAfter w) (swBefore w) sdiv 1000 in
               if dwTime \<le> 0 then (Inl SCARD_E_TIMEOUT, s) else (Inr dwTime, s)
             else (Inr dwTime, s))
           (getReaderStatesAndRegisterForEvents c s)))"

fun status_loop ::
  "status_wait list \<Rightarrow> nat \<Rightarrow> DWORD \<Rightarrow> int \<Rightarrow> SCARD_READERSTATE list \<Rightarrow> bool \<Rightarrow> int \<Rightarrow> clnt \<Rightarrow>
    ((LONG \<times> SCARD_READERSTATE list) \<times> clnt) option" where
  "status_loop [] c dwTimeout dwTime rs dwBreakFlag currentReaderCount s =
     Option.bind (readers_pass c rs dwBreakFlag currentReaderCount s) (\<lambda>((rs, dwBreakFlag, currentReaderCount), s).
       if dwBreakFlag then Some ((SCARD_S_SUCCESS, rs), s) else None)"
| "status_loop (w # ws) c dwTimeout dwTime rs dwBreakFlag currentReaderCount s =
     Option.bind (readers_pass c rs dwBreakFlag currentReaderCount s) (\<lambda>((rs, dwBreakFlag, currentReaderCount), s).
       if dwBreakFlag then Some ((SCARD_S_SUCCESS, rs), s)
       else Option.bind (status_wait_round c dwTimeout dwTime w s) (\<lambda>(q, s).
         case q of
           Inl rv \<Rightarrow> Some ((rv, rs), s)
         | Inr dwTime \<Rightarrow> status_loop ws c dwTimeout dwTime rs dwBreakFlag currentReaderCount s))"

text \<open>The label \<^verbatim>\<open>end\<close>: unless the call was cancelled the daemon is told to forget the client.\<close>

definition status_end ::
  "nat \<Rightarrow> LONG \<Rightarrow> SCARD_READERSTATE list \<Rightarrow> clnt \<Rightarrow> ((LONG \<times> SCARD_READERSTATE list) \<times> clnt) option" where
  "status_end c rv rs s =
     (if rv \<noteq> SCARD_E_CANCELLED then map_option (\<lambda>(_, s). ((rv, rs), s)) (unregisterFromEvents c s)
      else Some ((rv, rs), s))"

section \<open>The function\<close>

text \<open>The names are looked up: an unknown one is an error, the special reader is remembered.\<close>

fun check_readers :: "nat \<Rightarrow> SCARD_READERSTATE list \<Rightarrow> nat option \<Rightarrow> clnt \<Rightarrow> LONG + nat option" where
  "check_readers j [] pnp_reader s = Inr pnp_reader"
| "check_readers j (r # rs) pnp_reader s =
     (let name = (case szReader r of None \<Rightarrow> [] | Some n \<Rightarrow> n) in
      case find_reader name s of
        Some _ \<Rightarrow> check_readers (j + 1) rs pnp_reader s
      | None \<Rightarrow> if \<not> is_pnp name then Inl SCARD_E_UNKNOWN_READER else check_readers (j + 1) rs (Some j) s)"

text \<open>The special reader before the loop: have there been reader events since the last call?\<close>

definition pnp_start ::
  "nat \<Rightarrow> nat option \<Rightarrow> SCARD_READERSTATE list \<Rightarrow> clnt \<Rightarrow> ((SCARD_READERSTATE list \<times> bool) \<times> clnt) option" where
  "pnp_start c pnp_reader rs s =
     (case pnp_reader of
        None \<Rightarrow> Some ((rs, False), s)
      | Some j \<Rightarrow>
          map_option (\<lambda>((rv, readerEvents), s).
              if rv \<noteq> SCARD_S_SUCCESS then ((rs, False), s)
              else let r = rs ! j; previousReaderEvents = sint (ucast (drop_bit 16 (dwCurrentState r)) :: u32);
                       x = note_change (previousReaderEvents \<noteq> readerEvents \<and> previousReaderEvents \<noteq> 0)
                         (store_events readerEvents (dwEventState r), False)
                in ((rs[j := r\<lparr>dwEventState := fst x\<rparr>], snd x), s))
            (getReaderEvents c s))"

definition SCardGetStatusChange_body ::
  "status_wait list \<Rightarrow> nat \<Rightarrow> DWORD \<Rightarrow> SCARD_READERSTATE list \<Rightarrow> clnt \<Rightarrow>
    ((LONG \<times> SCARD_READERSTATE list) \<times> clnt) option" where
  "SCardGetStatusChange_body ws c dwTimeout rs s =
     Option.bind (getReaderStatesAndRegisterForEvents c s) (\<lambda>(rv, s).
       if rv \<noteq> SCARD_S_SUCCESS then Some ((rv, rs), s)
       else case check_readers 0 rs None s of
         Inl rv \<Rightarrow> Some ((rv, rs), s)
       | Inr pnp_reader \<Rightarrow>
           let rs = map (\<lambda>r. r\<lparr>dwEventState := 0\<rparr>) rs in
           Option.bind (pnp_start c pnp_reader rs s) (\<lambda>((rs, dwBreakFlag), s).
             let dwTimeout = (if dwTimeout = - 1 then INFINITE else dwTimeout);
                 dwTime = (if dwTimeout = INFINITE then 60 * 1000 else sint dwTimeout)
             in status_loop ws c dwTimeout dwTime rs dwBreakFlag (reader_count s) s))"

text \<open>\<^verbatim>\<open>rgReaderStates\<close> is \<open>None\<close> for a null pointer with a positive number of readers.\<close>

definition SCardGetStatusChange ::
  "status_wait list \<Rightarrow> SCARDCONTEXT \<Rightarrow> DWORD \<Rightarrow> SCARD_READERSTATE list option \<Rightarrow> clnt \<Rightarrow>
    ((LONG \<times> SCARD_READERSTATE list) \<times> clnt) option" where
  "SCardGetStatusChange ws hCtx dwTimeout rgReaderStates s =
     (case rgReaderStates of
        None \<Rightarrow> Some ((SCARD_E_INVALID_PARAMETER, []), s)
      | Some rs \<Rightarrow>
          if \<exists>r \<in> set rs. szReader r = None then Some ((SCARD_E_INVALID_VALUE, rs), s)
          else if \<forall>r \<in> set rs. dwCurrentState r AND SCARD_STATE_IGNORE \<noteq> 0 then Some ((SCARD_S_SUCCESS, rs), s)
          else case SCardGetAndLockContext hCtx s of
            None \<Rightarrow> Some ((SCARD_E_INVALID_HANDLE, rs), s)
          | Some c \<Rightarrow>
              Option.bind (SCardGetStatusChange_body ws c dwTimeout rs s) (\<lambda>((rv, rs), s). status_end c rv rs s))"

end
