(* ===== verification/Clnt_Exchange.thy ===== *)
theory Clnt_Exchange
  imports Winscard_Clnt
begin

text \<open>
  Exchanges of the client library over a socket that works: the messages arrive in pieces of any
  size and system calls may be interrupted, but nothing fails. Then a request puts its header and
  its body on the socket and gets the bytes that come back, and nothing else of the client changes.
\<close>

section \<open>Messages\<close>

definition set_link :: "int \<Rightarrow> sock \<Rightarrow> clnt \<Rightarrow> clnt" where
  "set_link fd k s = s\<lparr>links := (links s)(fd := k)\<rparr>"

lemma links_set_link [simp]: "links (set_link fd k s) = (links s)(fd := k)"
  by (simp add: set_link_def)

lemma set_link_set_link [simp]: "set_link fd k (set_link fd k' s) = set_link fd k s"
  by (simp add: set_link_def)

lemma set_link_frame [simp]:
  "initDone (set_link fd k s) = initDone s" "sharing_shall_block (set_link fd k s) = sharing_shall_block s" "Protocol_version (set_link fd k s) = Protocol_version s"
  "contextMapList (set_link fd k s) = contextMapList s" "contextMaps (set_link fd k s) = contextMaps s"
  "channelMaps (set_link fd k s) = channelMaps s" "readerStates (set_link fd k s) = readerStates s"
  "maxStates (set_link fd k s) = maxStates s" "clientMem (set_link fd k s) = clientMem s" "heap (set_link fd k s) = heap s"
  "freshMap (set_link fd k s) = freshMap s" "freshChannel (set_link fd k s) = freshChannel s"
  by (simp_all add: set_link_def)

lemma lookup_set_link [simp]:
  "SCardGetContextTH h (set_link fd k s) = SCardGetContextTH h s"
  "seek_channel c h (set_link fd k s) = seek_channel c h s"
  by (simp_all add: SCardGetContextTH_def seek_channel_def)

lemma search_set_link [simp]: "search_channel is h (set_link fd k s) = search_channel is h s"
  by (induction "is") (simp_all split: option.splits)

lemma handle_set_link [simp]:
  "SCardGetContextAndChannelFromHandleTH h (set_link fd k s) = SCardGetContextAndChannelFromHandleTH h s"
  "SCardGetContextChannelAndLockFromHandle h (set_link fd k s) = SCardGetContextChannelAndLockFromHandle h s"
  by (simp_all add: SCardGetContextAndChannelFromHandleTH_def SCardGetContextChannelAndLockFromHandle_def)

text \<open>A link that can move \<open>n\<close> bytes in and \<open>m\<close> bytes out.\<close>

definition link_ready :: "nat \<Rightarrow> nat \<Rightarrow> sock \<Rightarrow> bool" where
  "link_ready n m k \<longleftrightarrow> rx_ready n k \<and> tx_ready m k"

definition message :: "pcsc_msg_commands \<Rightarrow> bytes \<Rightarrow> bytes" where
  "message cmd data = rxHeader_image \<lparr>header_size = of_nat (length data), header_command = command_number cmd\<rparr> @ data"

lemma length_message [simp]: "length (message cmd data) = 8 + length data"
  by (simp add: message_def headerStr.size)

lemma ready_mono: "rx_ready n k \<Longrightarrow> n' \<le> n \<Longrightarrow> rx_ready n' k" "tx_ready n k \<Longrightarrow> n' \<le> n \<Longrightarrow> tx_ready n' k"
  by (auto simp: rx_ready_def tx_ready_def)

lemma MessageSendWithHeader_ready:
  assumes "tx_ready (length (message cmd data) + m) k"
  shows "\<exists>k'. MessageSendWithHeader (command_number cmd) data k = Some (SCARD_S_SUCCESS, k') \<and>
    tx k' = tx k @ message cmd data \<and> tx_ready m k' \<and> rx k' = rx k \<and> rxEvents k' = rxEvents k"
proof -
  let ?h = "rxHeader_image \<lparr>header_size = of_nat (length data), header_command = command_number cmd\<rparr>"
  have "tx_ready (length ?h + (length data + m)) k"
    using assms by (simp add: headerStr.size add.assoc)
  then obtain k1 where k1: "MessageSend ?h k = Some (SCARD_S_SUCCESS, k1)" "tx k1 = tx k @ ?h" "tx_ready (length data + m) k1"
    "rx k1 = rx k" "rxEvents k1 = rxEvents k"
    using MessageSend_ready by fastforce
  obtain k2 where k2: "MessageSend data k1 = Some (SCARD_S_SUCCESS, k2)" "tx k2 = tx k1 @ data" "tx_ready m k2"
    "rx k2 = rx k1" "rxEvents k2 = rxEvents k1"
    using MessageSend_ready [OF k1(3)] by fastforce
  show ?thesis
  proof (cases "data = []")
    case True
    with k1 show ?thesis by (simp add: MessageSendWithHeader_def message_def)
  next
    case False
    with k1 k2 show ?thesis by (simp add: MessageSendWithHeader_def message_def)
  qed
qed

lemma clnt_send_ready:
  assumes "link_ready n (length (message cmd data) + m) (links s fd)"
  obtains k where "clnt_send cmd data fd s = Some (SCARD_S_SUCCESS, set_link fd k s)"
    "tx k = tx (links s fd) @ message cmd data" "link_ready n m k" "rx k = rx (links s fd)"
proof -
  obtain k where k: "MessageSendWithHeader (command_number cmd) data (links s fd) = Some (SCARD_S_SUCCESS, k)"
    "tx k = tx (links s fd) @ message cmd data" "tx_ready m k" "rx k = rx (links s fd)" "rxEvents k = rxEvents (links s fd)"
    using MessageSendWithHeader_ready assms unfolding link_ready_def by blast
  show thesis
    by (rule that [of k]) (use k assms in \<open>simp_all add: clnt_send_def set_link_def link_ready_def rx_ready_def\<close>)
qed

lemma clnt_send_data_ready:
  assumes "link_ready n (length data + m) (links s fd)"
  obtains k where "clnt_send_data data fd s = Some (SCARD_S_SUCCESS, set_link fd k s)"
    "tx k = tx (links s fd) @ data" "link_ready n m k" "rx k = rx (links s fd)"
proof -
  obtain k where k: "MessageSend data (links s fd) = Some (SCARD_S_SUCCESS, k)"
    "tx k = tx (links s fd) @ data" "tx_ready m k" "rx k = rx (links s fd)" "rxEvents k = rxEvents (links s fd)"
    using MessageSend_ready [of data m "links s fd"] assms unfolding link_ready_def by fastforce
  show thesis
    by (rule that [of k]) (use k assms in \<open>simp_all add: clnt_send_data_def set_link_def link_ready_def rx_ready_def\<close>)
qed

lemma clnt_recv_ready:
  assumes "rx (links s fd) = b @ r" "link_ready (length b + n) m (links s fd)"
  obtains k where "clnt_recv (length b) fd s = Some ((SCARD_S_SUCCESS, b), set_link fd k s)"
    "rx k = r" "link_ready n m k" "tx k = tx (links s fd)"
proof -
  obtain k where k: "MessageReceive (length b) (links s fd) = Some ((SCARD_S_SUCCESS, b), k)"
    "rx k = r" "rx_ready n k" "tx k = tx (links s fd)" "txEvents k = txEvents (links s fd)"
    using MessageReceive_ready [of "length b" n "links s fd"] assms unfolding link_ready_def by fastforce
  show thesis
    by (rule that [of k]) (use k assms in \<open>simp_all add: clnt_recv_def set_link_def link_ready_def tx_ready_def\<close>)
qed

lemma request_ready:
  assumes "rx (links s fd) = b @ r" "link_ready (length b + n) (length (message cmd data) + m) (links s fd)"
  obtains k where "request cmd data (length b) fd s = Some ((SCARD_S_SUCCESS, b), set_link fd k s)"
    "rx k = r" "link_ready n m k" "tx k = tx (links s fd) @ message cmd data"
proof -
  obtain k1 where k1: "clnt_send cmd data fd s = Some (SCARD_S_SUCCESS, set_link fd k1 s)"
    "tx k1 = tx (links s fd) @ message cmd data" "link_ready (length b + n) m k1" "rx k1 = rx (links s fd)"
    by (rule clnt_send_ready [OF assms(2)])
  obtain k2 where "clnt_recv (length b) fd (set_link fd k1 s) = Some ((SCARD_S_SUCCESS, b), set_link fd k2 (set_link fd k1 s))"
    "rx k2 = r" "link_ready n m k2" "tx k2 = tx k1"
    by (rule clnt_recv_ready [of "set_link fd k1 s" fd b r n m]) (use k1 assms(1) in simp_all)
  with k1 that show thesis by (simp add: request_def)
qed

section \<open>Opening a context\<close>

lemma negotiate_ready:
  assumes "rx (links s fd) = version_struct_image v @ r" "link_ready (12 + n) (20 + m) (links s fd)" "ve_rv v = 0"
  obtains k where "negotiate fd ve s = Some (Inr v, set_link fd k s)" "rx k = r" "link_ready n m k"
proof -
  obtain k where "request CMD_VERSION (version_struct_image (ve\<lparr>ve_rv := word_of_int SCARD_S_SUCCESS\<rparr>)) (length (version_struct_image v)) fd s =
      Some ((SCARD_S_SUCCESS, version_struct_image v), set_link fd k s)" "rx k = r" "link_ready n m k"
    by (rule request_ready [OF assms(1), where cmd = CMD_VERSION and data = "version_struct_image (ve\<lparr>ve_rv := word_of_int SCARD_S_SUCCESS\<rparr>)"
          and n = n and m = m]) (use assms(2) in \<open>simp_all add: veStr.size\<close>)
  then show thesis
    using assms(3) by (intro that [of k]) (subst negotiate.simps, simp_all add: veStr.size veStr.dec_enc Let_def)
qed

lemma establish_again_ready:
  assumes "rx (links s fd) = establish_struct_image e @ r" "link_ready (12 + n) (20 + m) (links s fd)" "es_rv e = 0"
    and "SCardGetContextTH (uint (es_hContext e)) s = None"
  obtains k where "establish_again fd scope s = Some (Inr (uint (es_hContext e)), set_link fd k s)" "rx k = r" "link_ready n m k"
proof -
  let ?msg = "establish_struct_image \<lparr>es_dwScope = ucast scope, es_hContext = 0, es_rv = word_of_int SCARD_S_SUCCESS\<rparr>"
  obtain k where "request SCARD_ESTABLISH_CONTEXT ?msg (length (establish_struct_image e)) fd s =
      Some ((SCARD_S_SUCCESS, establish_struct_image e), set_link fd k s)" "rx k = r" "link_ready n m k"
    by (rule request_ready [OF assms(1), where cmd = SCARD_ESTABLISH_CONTEXT and data = ?msg and n = n and m = m])
      (use assms(2) in \<open>simp_all add: esStr.size\<close>)
  then show thesis
    using assms(3,4) by (intro that [of k]) (subst establish_again.simps, simp_all add: esStr.size esStr.dec_enc Let_def)
qed

end
