(* ===== verification/Clnt_States.thy ===== *)
theory Clnt_States
  imports Clnt_Exchange Svc_Props
begin

text \<open>
  The states of the readers travel from the daemon to a client: the memory image of a
  \<^verbatim>\<open>READER_STATE\<close> is read back as it was, and the two exchanges of \<^verbatim>\<open>getReaderStates\<close> fill the client's
  array with the states of all readers.
\<close>

section \<open>The image of a reader state\<close>

text \<open>A name that fits its array, and a sharing counter that fits its 32 bits.\<close>

definition state_fits :: "READER_STATE \<Rightarrow> bool" where
  "state_fits st \<longleftrightarrow> length (readerName st) < MAX_READERNAME \<and> CHR 0x00 \<notin> set (readerName st) \<and>
     - (2 ^ 31) \<le> readerSharing st \<and> readerSharing st < 2 ^ 31"

text \<open>What a client can read of a state; the ATR and what follows it are read through \<open>atr_memory\<close>.\<close>

definition state_view :: "READER_STATE \<Rightarrow> string \<times> u32 \<times> u32 \<times> int \<times> bytes \<times> u32 \<times> u32" where
  "state_view st = (readerName st, eventCounter st, rsState st, readerSharing st, map (atr_memory st) [0..<MAX_ATR_SIZE],
     cardAtrLength st, cardProtocol st)"

lemma length_name_array [simp]: "length (name_array n) = 128"
  by (simp add: name_array_def)

lemma unat_char [simp]: "unat (of_nat (of_char c) :: UCHAR) = of_char c"
  using nat_of_char_less_256 [of c] by (simp add: unat_of_nat)

lemma char_byte_0 [simp]: "(of_nat (of_char c) :: UCHAR) = 0 \<longleftrightarrow> c = CHR 0x00"
proof -
  have "(of_nat (of_char c) :: UCHAR) = 0 \<longleftrightarrow> (of_char c :: nat) = of_char (CHR 0x00)"
    by (simp add: word_unat_eq_iff del: of_nat_of_char)
  then show ?thesis by (simp only: of_char_eq_iff)
qed

lemma c_string_name_array:
  assumes "length n < 128" "CHR 0x00 \<notin> set n"
  shows "c_string (name_array n) = n"
proof -
  let ?b = "map (\<lambda>c. of_nat (of_char c) :: UCHAR) n"
  have "takeWhile (\<lambda>x. x \<noteq> 0) (?b @ replicate (128 - length n) 0) = ?b"
  proof (subst takeWhile_append2)
    show "x \<noteq> 0" if "x \<in> set ?b" for x using that assms(2) by auto
    show "?b @ takeWhile (\<lambda>x. x \<noteq> 0) (replicate (128 - length n) 0) = ?b" by (cases "128 - length n") auto
  qed
  moreover have "name_array n = ?b @ replicate (128 - length n) 0"
    using assms(1) by (simp add: name_array_def take_append)
  ultimately show ?thesis by (simp add: c_string_def comp_def)
qed

lemma length_reader_state_image [simp]: "length (reader_state_image st) = 184"
  by (simp add: reader_state_image_def)


lemma reader_state_at_image:
  assumes "state_fits st"
  shows "state_view (reader_state_at (reader_state_image st)) = state_view st"
proof -
  let ?b = "reader_state_image st" and ?r = "reader_state_at (reader_state_image st)"
  let ?m = "image [eventCounter st, rsState st, word_of_int (readerSharing st)]"
  let ?a = "map (atr_memory st) [0..<36]"
  have b: "?b = name_array (readerName st) @ ?m @ ?a @ image [cardAtrLength st, cardProtocol st]"
    by (simp add: reader_state_image_def)
  have "take 128 ?b = name_array (readerName st)" by (simp add: b)
  then have name: "readerName ?r = readerName st"
    using assms by (simp add: reader_state_at_def c_string_name_array state_fits_def)
  have words: "eventCounter ?r = eventCounter st" "rsState ?r = rsState st" "cardAtrLength ?r = cardAtrLength st"
    "cardProtocol ?r = cardProtocol st" "readerSharing ?r = sint (word_of_int (readerSharing st) :: u32)"
    by (simp_all add: reader_state_at_def b member_at_skip_bytes)
  have "readerSharing ?r = readerSharing st"
    using assms unfolding words state_fits_def by (simp add: int_word_sint)
  moreover have "drop 140 ?b = ?a @ image [cardAtrLength st, cardProtocol st]" by (simp add: b)
  then have "cardAtr ?r = map (atr_memory st) [0..<33]" by (simp add: reader_state_at_def take_map)
  then have "map (atr_memory ?r) [0..<33] = map (atr_memory st) [0..<33]"
    by (simp add: atr_memory_def [of ?r])
  ultimately show ?thesis using name words by (simp add: state_view_def)
qed


section \<open>The client's array\<close>

text \<open>The array is there and has room for its number of states.\<close>

definition array_ok :: "clnt \<Rightarrow> bool" where
  "array_ok s \<longleftrightarrow> 0 \<le> maxStates s \<and>
     (case readerStates s of None \<Rightarrow> maxStates s = 0 | Some b \<Rightarrow> length b = nat (maxStates s * 184))"

lemma array_ok_set_link [simp]: "array_ok (set_link fd k s) = array_ok s"
  by (simp add: array_ok_def split: option.splits)

lemma nth_image:
  assumes "i < length sts"
  shows "take 184 (drop (184 * i) (concat (map reader_state_image sts))) = reader_state_image (sts ! i)"
  using assms
proof (induction sts arbitrary: i)
  case (Cons st sts)
  then show ?case by (cases i) simp_all
qed simp

lemma client_states_received:
  assumes "readerStates s = Some (concat (map reader_state_image sts))" "maxStates s = int (length sts)"
  shows "client_states s = map (\<lambda>st. reader_state_at (reader_state_image st)) sts"
  using assms by (auto simp: client_states_def nth_image intro!: nth_equalityI)

lemma length_images [simp]: "length (concat (map reader_state_image sts)) = 184 * length sts"
  by (induction sts) simp_all

lemma grow_states_ok:
  assumes "array_ok s" "clientMem s" "maxStates s \<le> n"
  obtains s' where "grow_states n s = (SCARD_S_SUCCESS, s')" "array_ok s'" "maxStates s' = n"
    "\<exists>b. s' = s\<lparr>readerStates := b, maxStates := n\<rparr>"
proof (cases "n > maxStates s")
  case True
  let ?old = "case readerStates s of None \<Rightarrow> [] | Some b \<Rightarrow> b"
  have "length ?old \<le> nat (n * 184)"
    using assms True by (auto simp: array_ok_def split: option.splits)
  moreover define b where "b = ?old @ map (heap s) [length ?old..<nat (n * 184)]"
  ultimately have "length b = nat (n * 184)" by simp
  moreover have "grow_states n s = (SCARD_S_SUCCESS, s\<lparr>readerStates := Some b, maxStates := n\<rparr>)"
    using True assms(2) by (simp add: grow_states_def b_def Let_def)
  moreover have "0 \<le> n" using True assms(1) by (simp add: array_ok_def)
  ultimately show thesis by (intro that) (auto simp: array_ok_def)
next
  case False
  then have "n = maxStates s" using assms(3) by simp
  then have "s = s\<lparr>readerStates := readerStates s, maxStates := n\<rparr>" by simp
  with False assms(1) \<open>n = _\<close> that [of s] show thesis
    by (metis grow_states_def)
qed

lemma recv_states_ok:
  assumes "array_ok s" "maxStates s = int (length sts)" "rx (links s fd) = concat (map reader_state_image sts) @ rest"
    and "link_ready (184 * length sts + n) m (links s fd)"
  obtains k s' where "recv_states (int (length sts)) fd s = Some (SCARD_S_SUCCESS, s')" "array_ok s'"
    "client_states s' = map (\<lambda>st. reader_state_at (reader_state_image st)) sts"
    "\<exists>b. s' = (set_link fd k s)\<lparr>readerStates := b\<rparr>" "rx k = rest" "link_ready n m k" "tx k = tx (links s fd)"
proof (cases "readerStates s")
  case None
  then have "sts = []" using assms(1,2) by (simp add: array_ok_def)
  moreover have "s = (set_link fd (links s fd) s)\<lparr>readerStates := None\<rparr>" using None by (simp add: set_link_def)
  moreover have "recv_states 0 fd s = Some (SCARD_S_SUCCESS, s)" using None by (simp add: recv_states_def)
  moreover have "client_states s = []" using assms(2) \<open>sts = []\<close> by (simp add: client_states_def)
  ultimately show thesis using that [of s "links s fd"] assms by simp blast
next
  case (Some old)
  let ?b = "concat (map reader_state_image sts)"
  have len: "nat (int (length sts) * 184) = length ?b" by (simp add: nat_mult_distrib)
  then have old: "length old = length ?b" using assms(1,2) Some by (simp add: array_ok_def)
  obtain k where k: "clnt_recv (length ?b) fd s = Some ((SCARD_S_SUCCESS, ?b), set_link fd k s)" "rx k = rest"
    "link_ready n m k" "tx k = tx (links s fd)"
    by (rule clnt_recv_ready [of s fd ?b rest n m]) (use assms(3,4) in simp_all)
  let ?s = "(set_link fd k s)\<lparr>readerStates := Some ?b\<rparr>"
  have "recv_states (int (length sts)) fd s = Some (SCARD_S_SUCCESS, ?s)"
    using k(1) Some old unfolding recv_states_def len by (simp add: overwrite_def)
  moreover have "array_ok ?s" "client_states ?s = map (\<lambda>st. reader_state_at (reader_state_image st)) sts"
    using assms(2) len by (simp_all add: array_ok_def client_states_received)
  ultimately show thesis using that [of ?s k] k(2-4) by blast
qed


lemma getReaderStates_ready:
  assumes "array_ok s" "clientMem s" "Protocol_version s > 4005" "maxStates s \<le> int (length sts)" "length sts < 2 ^ 31"
    and fd: "fd = mapClientID (contextMaps s c)"
    and rx: "rx (links s fd) = le32 (of_nat (length sts)) @ concat (map reader_state_image sts) @ rest"
    and ready: "link_ready (4 + (184 * length sts + n)) (8 + (8 + m)) (links s fd)"
  obtains k s' where "getReaderStates c s = Some (SCARD_S_SUCCESS, s')" "array_ok s'"
    "client_states s' = map (\<lambda>st. reader_state_at (reader_state_image st)) sts"
    "\<exists>b. s' = (set_link fd k s)\<lparr>readerStates := b, maxStates := int (length sts)\<rparr>" "rx k = rest" "link_ready n m k"
proof -
  let ?n = "int (length sts)"
  obtain k1 where k1: "request CMD_GET_READERS_STATE_SIZE [] 4 fd s =
      Some ((SCARD_S_SUCCESS, le32 (of_nat (length sts))), set_link fd k1 s)"
    "rx k1 = concat (map reader_state_image sts) @ rest" "link_ready (184 * length sts + n) (8 + m) k1"
    by (rule request_ready [OF rx, where cmd = CMD_GET_READERS_STATE_SIZE and data = "[]" and n = "184 * length sts + n" and m = "8 + m"])
      (use ready in simp_all)
  have "sint (word_of_int ?n :: u32) = ?n" unfolding int_word_sint using assms(5) by simp
  then have size: "sint (word32 (le32 (of_nat (length sts)))) = ?n"
    using word32_le32 [of _ "[]"] by simp
  let ?s1 = "set_link fd k1 s"
  obtain s2 b where s2: "grow_states ?n ?s1 = (SCARD_S_SUCCESS, s2)" "array_ok s2" "s2 = ?s1\<lparr>readerStates := b, maxStates := ?n\<rparr>"
    by (rule grow_states_ok [of ?s1 ?n]) (use assms(1,2,4) in auto)
  have l2: "links s2 fd = k1" "contextMaps s2 = contextMaps s" "maxStates s2 = ?n" "Protocol_version s2 = Protocol_version s"
    by (simp_all add: s2(3))
  obtain k3 where k3: "clnt_send CMD_GET_READERS_STATE_ARRAY [] fd s2 = Some (SCARD_S_SUCCESS, set_link fd k3 s2)"
    "link_ready (184 * length sts + n) m k3" "rx k3 = rx k1"
    by (rule clnt_send_ready [of "184 * length sts + n" CMD_GET_READERS_STATE_ARRAY "[]" m s2 fd]) (use k1(3) l2 in simp_all)
  obtain k s' where r: "recv_states ?n fd (set_link fd k3 s2) = Some (SCARD_S_SUCCESS, s')" "array_ok s'"
    "client_states s' = map (\<lambda>st. reader_state_at (reader_state_image st)) sts"
    "\<exists>b. s' = (set_link fd k (set_link fd k3 s2))\<lparr>readerStates := b\<rparr>" "rx k = rest" "link_ready n m k"
    by (rule recv_states_ok [of "set_link fd k3 s2" sts fd rest n m]) (use k1(2) k3 s2(2) l2 in simp_all)
  have "getReaderStates c s = Some (SCARD_S_SUCCESS, s')"
    using assms(3) k1(1) s2(1) k3(1) r(1) l2 fd size by (simp add: getReaderStates_def Let_def)
  moreover have "\<exists>b. s' = (set_link fd k s)\<lparr>readerStates := b, maxStates := ?n\<rparr>"
  proof -
    from r(4) obtain b' where "s' = (set_link fd k (set_link fd k3 s2))\<lparr>readerStates := b'\<rparr>" by blast
    then have "s' = (set_link fd k s)\<lparr>readerStates := b', maxStates := ?n\<rparr>"
      by (intro clnt.equality) (simp_all add: s2(3) set_link_def)
    then show ?thesis by blast
  qed
  ultimately show thesis using that r by blast
qed


lemma register_ready:
  assumes "array_ok s" "clientMem s" "Protocol_version s > 4005" "maxStates s \<le> int (length sts)" "length sts < 2 ^ 31"
    and fd: "fd = mapClientID (contextMaps s c)"
    and rx: "rx (links s fd) = le32 (of_nat (length sts)) @ concat (map reader_state_image sts) @ rest"
    and ready: "link_ready (4 + (184 * length sts + n)) (8 + (8 + (8 + m))) (links s fd)"
  obtains k s' where "getReaderStatesAndRegisterForEvents c s = Some (SCARD_S_SUCCESS, s')" "array_ok s'"
    "client_states s' = map (\<lambda>st. reader_state_at (reader_state_image st)) sts"
    "\<exists>b. s' = (set_link fd k s)\<lparr>readerStates := b, maxStates := int (length sts)\<rparr>" "rx k = rest" "link_ready n m k"
proof -
  obtain k1 where k1: "clnt_send CMD_WAIT_READER_STATE_CHANGE [] fd s = Some (SCARD_S_SUCCESS, set_link fd k1 s)"
    "rx k1 = rx (links s fd)" "link_ready (4 + (184 * length sts + n)) (8 + (8 + m)) k1"
    by (rule clnt_send_ready [of "4 + (184 * length sts + n)" CMD_WAIT_READER_STATE_CHANGE "[]" "8 + (8 + m)" s fd])
      (use ready in simp_all)
  obtain k s' where "getReaderStates c (set_link fd k1 s) = Some (SCARD_S_SUCCESS, s')" "array_ok s'"
    "client_states s' = map (\<lambda>st. reader_state_at (reader_state_image st)) sts"
    "\<exists>b. s' = (set_link fd k (set_link fd k1 s))\<lparr>readerStates := b, maxStates := int (length sts)\<rparr>" "rx k = rest" "link_ready n m k"
    by (rule getReaderStates_ready [of "set_link fd k1 s" sts fd c rest n m]) (use assms(1-5) fd rx k1(2,3) in simp_all)
  with k1(1) assms(3) fd show thesis
    by (intro that [of s' k]) (simp_all add: getReaderStatesAndRegisterForEvents_def)
qed

lemma unregister_ready:
  assumes fd: "fd = mapClientID (contextMaps s c)"
    and rx: "rx (links s fd) = wait_reader_state_change_image w @ rest"
    and ready: "link_ready (8 + n) (8 + m) (links s fd)"
  obtains k where "unregisterFromEvents c s = Some (uint (wa_rv w), set_link fd k s)" "rx k = rest" "link_ready n m k"
proof -
  obtain k where "request CMD_STOP_WAITING_READER_STATE_CHANGE [] 8 fd s =
      Some ((SCARD_S_SUCCESS, wait_reader_state_change_image w), set_link fd k s)" "rx k = rest" "link_ready n m k"
    by (rule request_ready [OF rx, where cmd = CMD_STOP_WAITING_READER_STATE_CHANGE and data = "[]" and n = n and m = m])
      (use ready in \<open>simp_all add: waStr.size\<close>)
  then show thesis
    using fd waStr.dec_enc [of w] by (intro that [of k]) (simp_all add: unregisterFromEvents_def)
qed

section \<open>From the daemon to the client\<close>

lemma send_each_ready:
  assumes "tx_ready (length (concat bs) + m) (sockets s fd)"
  shows "\<exists>k. send_each fd bs SCARD_S_SUCCESS s = Some (SCARD_S_SUCCESS, s\<lparr>sockets := (sockets s)(fd := k)\<rparr>) \<and>
    tx k = tx (sockets s fd) @ concat bs"
  using assms
proof (induction bs arbitrary: s)
  case Nil
  then show ?case by (intro exI [where x = "sockets s fd"]) simp
next
  case (Cons b bs)
  obtain k where k: "send_msg fd b s = Some (SCARD_S_SUCCESS, s\<lparr>sockets := (sockets s)(fd := k)\<rparr>)"
    "tx k = tx (sockets s fd) @ b" "tx_ready (length (concat bs) + m) k"
    by (rule send_ready [of b "length (concat bs) + m" s fd]) (use Cons.prems in \<open>simp_all add: add.assoc\<close>)
  let ?s = "s\<lparr>sockets := (sockets s)(fd := k)\<rparr>"
  have "tx_ready (length (concat bs) + m) (sockets ?s fd)" using k(3) by simp
  from Cons.IH [OF this] obtain ka where
    "send_each fd bs SCARD_S_SUCCESS ?s = Some (SCARD_S_SUCCESS, ?s\<lparr>sockets := (sockets ?s)(fd := ka)\<rparr>)"
    "tx ka = tx (sockets ?s fd) @ concat bs" by blast
  moreover have "?s\<lparr>sockets := (sockets ?s)(fd := ka)\<rparr> = s\<lparr>sockets := (sockets s)(fd := ka)\<rparr>" by simp
  ultimately have "send_each fd (b # bs) SCARD_S_SUCCESS s = Some (SCARD_S_SUCCESS, s\<lparr>sockets := (sockets s)(fd := ka)\<rparr>)"
    "tx ka = tx (sockets s fd) @ concat (b # bs)" using k(1,2) by simp_all
  then show ?case by blast
qed

lemma readers_state_array_sent:
  assumes "\<not> need_to_wait (daemon s)" "tx_ready (184 * length (sReadersContexts (daemon s))) (sockets s fd)"
  obtains s' where
    "dispatch others c fd \<lparr>header_size = 0, header_command = command_number CMD_GET_READERS_STATE_ARRAY\<rparr> s = Some (True, s')"
    "daemon s' = daemon s" "tx (sockets s' fd) = tx (sockets s fd) @
      concat (map (\<lambda>r. reader_state_image (readerState r)) (sReadersContexts (daemon s)))"
proof -
  let ?bs = "map (\<lambda>r. reader_state_image (readerState r)) (sReadersContexts (daemon s))"
  have "length (concat ?bs) = 184 * length (sReadersContexts (daemon s))"
    using length_images [of "map readerState (sReadersContexts (daemon s))"] by (simp add: comp_def)
  with send_each_ready [of ?bs 0 s fd] assms(2) obtain k where
    k: "send_each fd ?bs SCARD_S_SUCCESS s = Some (SCARD_S_SUCCESS, s\<lparr>sockets := (sockets s)(fd := k)\<rparr>)"
    "tx k = tx (sockets s fd) @ concat ?bs" by auto
  have "RFWaitForReaderInit others (daemon s) = Some (daemon s)" using assms(1) by (cases others) simp_all
  with k show thesis
    by (intro that [of "s\<lparr>sockets := (sockets s)(fd := k)\<rparr>"])
      (simp_all add: dispatch_def cmd_get_readers_state_def wait_readers_def MSGSendReaderStates_def del: command_number.simps)
qed

lemma readers_state_size_sent:
  assumes "tx_ready (4 + m) (sockets s fd)"
  obtains s' where
    "dispatch others c fd \<lparr>header_size = 0, header_command = command_number CMD_GET_READERS_STATE_SIZE\<rparr> s = Some (True, s')"
    "daemon s' = daemon s" "tx_ready m (sockets s' fd)"
    "tx (sockets s' fd) = tx (sockets s fd) @ le32 (of_nat (length (sReadersContexts (daemon s))))"
proof -
  let ?b = "le32 (of_nat (length (sReadersContexts (daemon s))))"
  obtain k where "send_msg fd ?b s = Some (SCARD_S_SUCCESS, s\<lparr>sockets := (sockets s)(fd := k)\<rparr>)"
    "tx k = tx (sockets s fd) @ ?b" "tx_ready m k"
    by (rule send_ready [of ?b m s fd]) (use assms in simp_all)
  then show thesis
    by (intro that [of "s\<lparr>sockets := (sockets s)(fd := k)\<rparr>"])
      (simp_all add: dispatch_def cmd_get_readers_state_size_def del: command_number.simps)
qed

text \<open>A client that can receive the states of \<open>n\<close> readers on the link of its context \<open>m\<close>.\<close>

definition can_receive :: "nat \<Rightarrow> nat \<Rightarrow> clnt \<Rightarrow> bool" where
  "can_receive n m s \<longleftrightarrow> array_ok s \<and> clientMem s \<and> Protocol_version s > 4005 \<and> maxStates s \<le> int n \<and>
     link_ready (4 + 184 * n) 16 (links s (mapClientID (contextMaps s m)))"


text \<open>A client with one context, on descriptor 3, whose link delivers the given bytes.\<close>

definition ex_link :: "bytes \<Rightarrow> sock" where
  "ex_link b = \<lparr>rx = b, rxEvents = ex_events 500, tx = [], txEvents = ex_events 500\<rparr>"

definition ex_clnt :: "bytes \<Rightarrow> clnt" where
  "ex_clnt b = \<lparr>sharing_shall_block = True, Protocol_version = 4006, initDone = True,
     isExecuted = True, contextMapList = ex_list [0],
     contextMaps = (\<lambda>_. \<lparr>mapClientID = 3, mapContext = 5, channelMapList = list_init, cancellable = False\<rparr>),
     freshMap = 1, channelMaps = (\<lambda>_. \<lparr>chCard = 0, chReaderName = []\<rparr>), freshChannel = 0, readerStates = None,
     maxStates = 0, links = (\<lambda>_. ex_link b), attempts = [], closedSessions = [], fileThere = (\<lambda>_. True),
     clientEnv = (\<lambda>_. None), ipcName = ''/run/pcscd/pcscd.comm'', clientMem = True, heap = (\<lambda>_. 0)\<rparr>"

lemma ex_link_ready [simp]: "link_ready n m (ex_link b) \<longleftrightarrow> n \<le> 500 \<and> m \<le> 500"
  using ex_events_ready [of 500] by (auto simp: link_ready_def rx_ready_def tx_ready_def ex_link_def)

lemma ex_clnt_fields [simp]:
  "links (ex_clnt b) fd = ex_link b" "rx (ex_link b) = b" "mapClientID (contextMaps (ex_clnt b) 0) = 3"
  by (simp_all add: ex_clnt_def ex_link_def)

lemma ex_clnt_receives: "can_receive 1 0 (ex_clnt b)"
  by (simp add: can_receive_def array_ok_def) (simp add: ex_clnt_def)

lemma ex_context: "SCardGetAndLockContext 5 (ex_clnt b) = Some 0"
  by (simp add: SCardGetAndLockContext_def SCardGetContextTH_def ex_clnt_def ex_list_def list_seek_def SCONTEXTMAP_seeker_def
      list_init_def)

definition ex_server :: "unit svc" where
  "ex_server = (ex_svc 0 [])\<lparr>sockets := \<lambda>_. ex_link []\<rparr>"


end
