(* ===== verification/Status_Props.thy ===== *)
theory Status_Props
  imports Status_Change Clnt_States
begin

text \<open>
  What \<^verbatim>\<open>SCardGetStatusChange\<close> tells an application. A reader has a view (no state, no card, a mute
  card, a usable card), a usage and a counter of card movements; \<open>event_state\<close> is the word that
  reports them and \<open>differ\<close> says which differences count. The comparison of the source, flag by
  flag, is shown to be exactly this for a state that an earlier call reported.
\<close>

unbundle bit_operations_syntax

section \<open>What is reported\<close>

datatype card_view = Unavailable | Empty | Mute | Usable
datatype usage = Free | Shared | Exclusive | Hidden

text \<open>The specification: the view of a reader, its usage, and the word that reports them.\<close>

definition card_view :: "READER_STATE \<Rightarrow> card_view" where
  "card_view st =
     (if rsState st AND SCARD_UNKNOWN \<noteq> 0 then Unavailable
      else if rsState st AND SCARD_ABSENT \<noteq> 0 then Empty
      else if rsState st AND SCARD_SWALLOWED \<noteq> 0 then Mute else Usable)"

definition usage :: "READER_STATE \<Rightarrow> usage" where
  "usage st =
     (if readerSharing st = PCSCLITE_SHARING_EXCLUSIVE_CONTEXT then Exclusive
      else if readerSharing st = PCSCLITE_SHARING_NO_CONTEXT then Free
      else if readerSharing st \<ge> PCSCLITE_SHARING_LAST_CONTEXT \<and> rsState st AND SCARD_PRESENT \<noteq> 0 then Shared
      else Hidden)"

text \<open>The states the daemon publishes: one of three, with a counter of 16 bits.\<close>

definition published :: "READER_STATE \<Rightarrow> bool" where
  "published st \<longleftrightarrow> rsState st AND 7 \<in> {SCARD_UNKNOWN, SCARD_ABSENT, SCARD_PRESENT} \<and> eventCounter st < 0x10000"

fun view_flags :: "card_view \<Rightarrow> DWORD" where
  "view_flags Unavailable = SCARD_STATE_UNAVAILABLE"
| "view_flags Empty = SCARD_STATE_EMPTY"
| "view_flags Mute = 0x220"
| "view_flags Usable = SCARD_STATE_PRESENT"

fun usage_flags :: "usage \<Rightarrow> DWORD" where
  "usage_flags Shared = SCARD_STATE_INUSE"
| "usage_flags Exclusive = SCARD_STATE_EXCLUSIVE"
| "usage_flags _ = 0"

definition high_word :: "u32 \<Rightarrow> DWORD" where
  "high_word n = ucast (push_bit 16 n)"

definition event_state :: "READER_STATE \<Rightarrow> DWORD" where
  "event_state st =
     (if card_view st = Unavailable then 0 else high_word (eventCounter st)) OR
     (view_flags (card_view st) OR usage_flags (usage st))"

text \<open>
  What counts as a change of a reader: its view, its counter (unless it was 0 or not reported), or
  that it is no longer used the way it was; that a free reader comes into use does not count.
\<close>

definition differ :: "READER_STATE \<Rightarrow> READER_STATE \<Rightarrow> bool" where
  "differ st0 st \<longleftrightarrow>
     card_view st0 \<noteq> card_view st \<or>
     card_view st0 \<noteq> Unavailable \<and> eventCounter st0 \<noteq> 0 \<and> eventCounter st0 \<noteq> eventCounter st \<or>
     usage st0 \<in> {Shared, Exclusive} \<and> usage st \<noteq> Hidden \<and> usage st0 \<noteq> usage st"

section \<open>High and low words\<close>

lemma low_mask: "(0xFFFF :: DWORD) = mask 16"
  by (simp add: mask_eq_exp_minus_1)

lemma bit_high_word: "bit (high_word n) k = (16 \<le> k \<and> k < 32 \<and> bit n (k - 16))"
  by (auto simp: high_word_def bit_simps)

lemma high_word_0 [simp]: "high_word 0 = 0"
  by (simp add: high_word_def)

lemma high_or [simp]: "(high_word c OR n) OR m = high_word c OR (n OR m)"
  by (simp add: or.assoc)

lemma high_and_low:
  assumes "m AND 0xFFFF = (m :: DWORD)"
  shows "(high_word c OR n) AND NOT m = high_word c OR (n AND NOT m)" "(high_word c OR n) AND m = n AND m"
proof -
  have low: "bit m k \<Longrightarrow> k < 16" for k
    by (subst (asm) assms [symmetric]) (simp add: bit_simps low_mask)
  show "(high_word c OR n) AND NOT m = high_word c OR (n AND NOT m)"
    by (rule bit_word_eqI) (auto simp: bit_simps bit_high_word dest: low)
  show "(high_word c OR n) AND m = n AND m"
    by (rule bit_word_eqI) (auto simp: bit_simps bit_high_word dest: low)
qed

lemma high_mask: "(0xFFFF0000 :: DWORD) = push_bit 16 (mask 16)"
  by (simp add: push_bit_eq_mult mask_eq_exp_minus_1)

lemma high_and_high:
  assumes "n AND 0xFFFF = (n :: DWORD)" "c < 0x10000"
  shows "((high_word c OR n) AND 0xFFFF0000 = 0) = (c = 0)"
    and "(drop_bit 16 (high_word c OR n) AND 0xFFFF :: DWORD) = ucast c"
proof -
  have low: "bit n k \<Longrightarrow> k < 16" for k
    by (subst (asm) assms(1) [symmetric]) (simp add: bit_simps low_mask)
  have "take_bit 16 c = c" using assms(2) by (simp add: take_bit_eq_mod word_less_nat_alt unat_mod_distrib word_unat_eq_iff)
  then have c: "bit c k \<Longrightarrow> k < 16" for k
    by (metis bit_take_bit_iff)
  show "drop_bit 16 (high_word c OR n) AND 0xFFFF = (ucast c :: DWORD)"
    by (rule bit_word_eqI) (auto simp: bit_simps bit_high_word low_mask dest: low c)
  have "(high_word c OR n) AND 0xFFFF0000 = high_word c"
    unfolding high_mask by (rule bit_word_eqI) (auto simp: bit_simps bit_high_word dest: low c)
  moreover have "high_word c = 0 \<Longrightarrow> c = 0"
  proof (rule bit_word_eqI)
    fix k
    assume "high_word c = 0"
    then have "\<not> bit (high_word c) (k + 16)" by simp
    then show "bit c k = bit 0 k" using c [of k] by (auto simp: bit_high_word)
  qed
  ultimately show "((high_word c OR n) AND 0xFFFF0000 = 0) = (c = 0)"
    by auto
qed

lemma published_cases:
  assumes "published st"
  obtains (unknown) "rsState st AND 1 \<noteq> 0" "rsState st AND 2 = 0" "rsState st AND 4 = 0"
  | (absent) "rsState st AND 1 = 0" "rsState st AND 2 \<noteq> 0" "rsState st AND 4 = 0"
  | (present) "rsState st AND 1 = 0" "rsState st AND 2 = 0" "rsState st AND 4 \<noteq> 0"
proof -
  have *: "rsState st AND 1 = (rsState st AND 7) AND 1" "rsState st AND 2 = (rsState st AND 7) AND 2"
    "rsState st AND 4 = (rsState st AND 7) AND 4"
    by (simp_all add: and.assoc)
  from assms consider "rsState st AND 7 = 1" | "rsState st AND 7 = 2" | "rsState st AND 7 = 4"
    by (auto simp: published_def)
  then show thesis
  proof cases
    case 1 show thesis by (rule unknown) (simp_all add: * 1)
  next
    case 2 show thesis by (rule absent) (simp_all add: * 2)
  next
    case 3 show thesis by (rule present) (simp_all add: * 3)
  qed
qed

section \<open>A reported state is given back\<close>

text \<open>The current state an application passes: what was reported, with or without the mark of a change.\<close>

definition fed_back :: "READER_STATE \<Rightarrow> bool \<Rightarrow> DWORD" where
  "fed_back st changed = event_state st OR (if changed then SCARD_STATE_CHANGED else 0)"

lemma fed_back_eq:
  "fed_back st b = high_word (if card_view st = Unavailable then 0 else eventCounter st) OR
     (view_flags (card_view st) OR usage_flags (usage st) OR (if b then 2 else 0))"
  by (simp add: fed_back_def event_state_def or.assoc)

lemma fed_back_tests:
  shows "fed_back st b AND 4 = 0"
    and "fed_back st b AND 8 = 0 \<longleftrightarrow> card_view st \<noteq> Unavailable"
    and "fed_back st b AND 16 = 0 \<longleftrightarrow> card_view st \<noteq> Empty"
    and "fed_back st b AND 32 = 0 \<longleftrightarrow> card_view st \<notin> {Mute, Usable}"
    and "fed_back st b AND 0x200 = 0 \<longleftrightarrow> card_view st \<noteq> Mute"
    and "fed_back st b AND 0x80 = 0 \<longleftrightarrow> usage st \<noteq> Exclusive"
    and "fed_back st b AND 0x100 = 0 \<longleftrightarrow> usage st \<noteq> Shared"
  unfolding fed_back_eq
  by (cases "card_view st"; cases "usage st"; simp add: high_and_low)+

lemma fed_back_not_0: "fed_back st b \<noteq> 0"
proof
  assume "fed_back st b = 0"
  then have "card_view st \<noteq> Unavailable \<and> card_view st \<noteq> Empty \<and> card_view st \<notin> {Mute, Usable}"
    using fed_back_tests(2,3,4) [of st b] by simp
  then show False by (cases "card_view st") auto
qed

lemma fed_back_counter:
  assumes "published st"
  shows "fed_back st b AND 0xFFFF0000 = 0 \<longleftrightarrow> card_view st = Unavailable \<or> eventCounter st = 0"
    and "drop_bit 16 (fed_back st b) AND 0xFFFF = ucast (if card_view st = Unavailable then 0 else eventCounter st)"
proof -
  let ?n = "view_flags (card_view st) OR usage_flags (usage st) OR (if b then 2 else 0 :: DWORD)"
  have n: "?n AND 0xFFFF = ?n"
    by (cases "card_view st"; cases "usage st"; simp)
  have c: "(if card_view st = Unavailable then 0 else eventCounter st) < 0x10000"
    using assms by (simp add: published_def)
  show "fed_back st b AND 0xFFFF0000 = 0 \<longleftrightarrow> card_view st = Unavailable \<or> eventCounter st = 0"
    using high_and_high(1) [OF n c] by (simp add: fed_back_eq)
  show "drop_bit 16 (fed_back st b) AND 0xFFFF = ucast (if card_view st = Unavailable then 0 else eventCounter st)"
    using high_and_high(2) [OF n c] by (simp only: fed_back_eq)
qed


text \<open>The steps on an event state that is a high word and flags.\<close>

definition state_of :: "u32 \<Rightarrow> DWORD \<Rightarrow> bool \<Rightarrow> DWORD \<times> bool" where
  "state_of c n p = (high_word c OR (n OR (if p then 2 else 0)), p)"

lemma note_state [simp]: "note_change q (state_of c n p) = state_of c n (q \<or> p)"
  by (auto simp: note_change_def state_of_def or.assoc)

lemma set_state [simp]: "set_flags m (state_of c n p) = state_of c (n OR m) p"
  by (simp add: set_flags_def state_of_def or.assoc or.left_commute or.commute)

lemma clear_state [simp]:
  assumes "m AND 0xFFFF = m" "m AND 2 = 0"
  shows "clear_flags m (state_of c n p) = state_of c (n AND NOT m) p"
proof -
  have "2 AND NOT m = (2 :: DWORD)"
    using assms(2) and_exp_eq_0_iff_not_bit [of m 1] by (auto intro!: bit_word_eqI simp: bit_simps)
  then have "(n OR (if p then 2 else 0)) AND NOT m = n AND NOT m OR (if p then 2 else 0)"
    by (simp add: bit.conj_disj_distrib2)
  then show ?thesis
    by (simp add: clear_flags_def state_of_def high_and_low assms(1))
qed

lemma compare_counter:
  assumes "published st0"
  shows "change_counter (fed_back st0 b) st (change_known (fed_back st0 b) (0, False)) =
    state_of (eventCounter st) 0
      (card_view st0 \<noteq> Unavailable \<and> eventCounter st0 \<noteq> 0 \<and> eventCounter st0 \<noteq> eventCounter st)"
proof -
  have "change_known (fed_back st0 b) (0, False) = (0, False)"
    by (simp add: change_known_def fed_back_tests)
  moreover have "ucast (ucast x :: DWORD) = (x :: u32)" for x
    by (rule bit_word_eqI) (auto simp: bit_simps)
  ultimately show ?thesis
    using fed_back_counter [OF assms, of b]
    by (auto simp: change_counter_def Let_def note_change_def state_of_def high_word_def or.commute)
qed

lemma change_available_step:
  assumes "p \<longrightarrow> card_view st0 \<noteq> Unavailable"
  shows "change_available (fed_back st0 b) st (state_of c 0 p) =
    (if card_view st = Unavailable then state_of 0 8 (card_view st0 \<noteq> Unavailable)
     else state_of c 0 (p \<or> card_view st0 = Unavailable))"
proof (cases "rsState st AND 1 = 0")
  case True
  then have "card_view st \<noteq> Unavailable" by (simp add: card_view_def)
  with True assms show ?thesis
    by (auto simp: change_available_def fed_back_tests)
next
  case False
  then have "card_view st = Unavailable" by (simp add: card_view_def)
  with False assms show ?thesis
    by (auto simp: change_available_def fed_back_tests note_change_def state_of_def)
qed

lemma change_card_step:
  assumes "published st" "card_view st \<noteq> Unavailable \<and> card_view st0 = Unavailable \<longrightarrow> p"
  shows "change_card (fed_back st0 b) st (state_of c (if card_view st = Unavailable then 8 else 0) p) =
    state_of c (view_flags (card_view st))
      (p \<or> card_view st \<noteq> Unavailable \<and> card_view st0 \<noteq> Unavailable \<and> card_view st \<noteq> card_view st0)"
  using assms(1)
proof (cases rule: published_cases)
  case unknown
  then show ?thesis by (simp add: change_card_def card_view_def)
next
  case absent
  then have "card_view st = Empty" by (simp add: card_view_def)
  with absent show ?thesis
    by (cases "card_view st0") (simp_all add: change_card_def Let_def fed_back_tests)
next
  case present
  then have "card_view st = (if rsState st AND 8 = 0 then Usable else Mute)" by (simp add: card_view_def)
  with present show ?thesis
    using assms(2) by (cases "card_view st0") (simp_all add: change_card_def Let_def fed_back_tests)
qed

lemma change_sharing_step:
  "change_sharing (fed_back st0 b) st (state_of c (view_flags v) p) =
    state_of c (view_flags v OR usage_flags (usage st))
      (p \<or> usage st0 \<in> {Shared, Exclusive} \<and> usage st \<noteq> Hidden \<and> usage st0 \<noteq> usage st)"
proof -
  have n: "(view_flags v OR 0x80) AND NOT 0x100 = view_flags v OR 0x80"
    "(view_flags v OR 0x100) AND NOT 0x80 = view_flags v OR 0x100"
    "view_flags v AND NOT (0x100 OR 0x80) = view_flags v"
    by (cases v; simp)+
  note n = n [simplified]
  show ?thesis
  proof (cases "usage st")
    case Exclusive
    then have "readerSharing st = - 1" by (simp add: usage_def split: if_splits)
    with Exclusive show ?thesis
      by (cases "usage st0") (simp_all add: change_sharing_def fed_back_tests n)
  next
    case Free
    then have "readerSharing st = 0" by (simp add: usage_def split: if_splits)
    with Free show ?thesis
      by (cases "usage st0") (simp_all add: change_sharing_def fed_back_tests n)
  next
    case Shared
    then have "readerSharing st \<ge> 1" "rsState st AND 4 \<noteq> 0" by (simp_all add: usage_def split: if_splits)
    with Shared show ?thesis
      by (cases "usage st0") (simp_all add: change_sharing_def fed_back_tests n)
  next
    case Hidden
    then have "readerSharing st \<noteq> - 1" "readerSharing st \<noteq> 0" "readerSharing st \<ge> 1 \<longrightarrow> rsState st AND 4 = 0"
      by (auto simp: usage_def split: if_splits)
    with Hidden show ?thesis by (simp add: change_sharing_def)
  qed
qed

lemma compare_exact:
  assumes "published st0" "published st" "dwCurrentState r = fed_back st0 b" "dwEventState r = 0"
    and "compare_reader st r False = (r', changed)"
  shows "changed = differ st0 st \<and> dwEventState r' = fed_back st (differ st0 st)"
proof -
  let ?cur = "fed_back st0 b"
  let ?c = "if card_view st = Unavailable then 0 else eventCounter st"
  let ?p = "card_view st0 \<noteq> Unavailable \<and> eventCounter st0 \<noteq> 0 \<and> eventCounter st0 \<noteq> eventCounter st"
  let ?q = "?p \<and> card_view st \<noteq> Unavailable \<or> (card_view st = Unavailable) \<noteq> (card_view st0 = Unavailable)"
  let ?q' = "?q \<or> card_view st \<noteq> Unavailable \<and> card_view st0 \<noteq> Unavailable \<and> card_view st \<noteq> card_view st0"
  have 1: "change_available ?cur st (change_counter ?cur st (change_known ?cur (0, False))) =
      state_of ?c (if card_view st = Unavailable then 8 else 0) ?q"
    unfolding compare_counter [OF assms(1)] using change_available_step [of ?p st0 b st] by auto
  have 2: "change_card ?cur st (state_of ?c (if card_view st = Unavailable then 8 else 0) ?q) =
      state_of ?c (view_flags (card_view st)) ?q'"
    by (rule change_card_step [OF assms(2)]) auto
  have 3: "(?q' \<or> usage st0 \<in> {Shared, Exclusive} \<and> usage st \<noteq> Hidden \<and> usage st0 \<noteq> usage st) = differ st0 st"
    by (auto simp: differ_def)
  have "compare_reader st r False = ((change_atr st r)\<lparr>dwEventState := fst (state_of ?c
      (view_flags (card_view st) OR usage_flags (usage st)) (differ st0 st))\<rparr>, differ st0 st)"
    unfolding compare_reader_def Let_def assms(3,4) 1 2 change_sharing_step 3
    using fed_back_not_0 [of st0 b] by (simp add: note_change_def state_of_def)
  with assms(5) show ?thesis
    by (auto simp: state_of_def fed_back_eq or.assoc)
qed

text \<open>The flag that ends the loop never goes back, and does not influence the rest.\<close>

definition flagwise :: "(DWORD \<times> bool \<Rightarrow> DWORD \<times> bool) \<Rightarrow> bool" where
  "flagwise f \<longleftrightarrow> (\<forall>e b. f (e, b) = (fst (f (e, False)), b \<or> snd (f (e, False))))"

lemma flagwise_comp: "flagwise f \<Longrightarrow> flagwise g \<Longrightarrow> flagwise (\<lambda>x. g (f x))"
  unfolding flagwise_def
proof (intro allI)
  fix e b
  assume f: "\<forall>e b. f (e, b) = (fst (f (e, False)), b \<or> snd (f (e, False)))"
    and g: "\<forall>e b. g (e, b) = (fst (g (e, False)), b \<or> snd (g (e, False)))"
  define a s where "a = fst (f (e, False))" and "s = snd (f (e, False))"
  have 1: "f (e, False) = (a, s)" by (simp add: a_def s_def)
  have 2: "f (e, b) = (a, b \<or> s)" using f unfolding a_def s_def by blast
  have 3: "g (a, b \<or> s) = (fst (g (a, False)), (b \<or> s) \<or> snd (g (a, False)))"
    and 4: "g (a, s) = (fst (g (a, False)), s \<or> snd (g (a, False)))" using g by blast+
  show "g (f (e, b)) = (fst (g (f (e, False))), b \<or> snd (g (f (e, False))))"
    by (simp only: 1 2 3 4 fst_conv snd_conv disj_assoc)
qed

lemma flagwise_steps:
  "flagwise (note_change q)" "flagwise (change_known cur)" "flagwise (change_counter cur st)"
  "flagwise (change_available cur st)" "flagwise (change_card cur st)" "flagwise (change_sharing cur st)"
  by (simp_all add: flagwise_def note_change_def set_flags_def clear_flags_def change_known_def change_counter_def
      change_available_def change_card_def change_sharing_def Let_def)

lemma compare_reader_flag:
  "compare_reader st r b = (fst (compare_reader st r False), b \<or> snd (compare_reader st r False))"
proof -
  have "flagwise (\<lambda>x. note_change (dwCurrentState r = 0) (change_sharing (dwCurrentState r) st
      (change_card (dwCurrentState r) st (change_available (dwCurrentState r) st
        (change_counter (dwCurrentState r) st (change_known (dwCurrentState r) x))))))"
    by (rule flagwise_comp [OF flagwise_comp [OF flagwise_comp [OF flagwise_comp [OF flagwise_comp
          [OF flagwise_steps(2,3)] flagwise_steps(4)] flagwise_steps(5)] flagwise_steps(6)] flagwise_steps(1)])
  from this [unfolded flagwise_def, rule_format, of "dwEventState r" b] show ?thesis
    unfolding compare_reader_def Let_def by (simp only: fst_conv snd_conv)
qed

section \<open>The call\<close>

text \<open>
  The state the daemon gave for a reader of the application, and readers whose current state is one
  an earlier call reported when the reader was \<open>known\<close> to be in some published state.
\<close>

definition state_of_reader :: "clnt \<Rightarrow> SCARD_READERSTATE \<Rightarrow> READER_STATE" where
  "state_of_reader s r = client_states s ! the (find_reader (the (szReader r)) s)"

definition believed :: "clnt \<Rightarrow> (SCARD_READERSTATE \<Rightarrow> READER_STATE) \<Rightarrow> SCARD_READERSTATE \<Rightarrow> bool" where
  "believed s known r \<longleftrightarrow> (\<exists>name b. szReader r = Some name \<and> find_reader name s \<noteq> None \<and> published (known r) \<and>
     published (state_of_reader s r) \<and> dwCurrentState r = fed_back (known r) b)"

lemma fed_back_not_ignored: "fed_back st b AND 1 = 0"
  unfolding fed_back_eq by (cases "card_view st"; cases "usage st"; simp add: high_and_low)

lemma reader_pass_believed:
  assumes "believed s known r" and r0: "r0 = r\<lparr>dwEventState := 0\<rparr>"
  shows "\<exists>r'. reader_pass c r0 brk n s = Some ((r', brk \<or> differ (known r) (state_of_reader s r), n), s) \<and>
    dwEventState r' = fed_back (state_of_reader s r) (differ (known r) (state_of_reader s r))"
proof -
  from assms obtain name i b where r: "szReader r = Some name" "find_reader name s = Some i" "published (known r)"
    "published (state_of_reader s r)" "dwCurrentState r = fed_back (known r) b"
    by (auto simp: believed_def)
  then have st: "client_states s ! i = state_of_reader s r" by (simp add: state_of_reader_def)
  obtain r' changed where c: "compare_reader (state_of_reader s r) r0 False = (r', changed)" by fastforce
  have "changed = differ (known r) (state_of_reader s r) \<and>
      dwEventState r' = fed_back (state_of_reader s r) (differ (known r) (state_of_reader s r))"
    by (rule compare_exact [OF r(3,4) _ _ c, where b = b]) (simp_all add: r0 r(5))
  moreover have "reader_pass c r0 brk n s = Some ((r', brk \<or> changed, n), s)"
    using r fed_back_not_ignored [of "known r" b] compare_reader_flag [of "state_of_reader s r" r0 brk]
    by (simp add: reader_pass_def r0 c [unfolded r0] st)
  ultimately show ?thesis by auto
qed

lemma readers_pass_believed:
  assumes "\<forall>r \<in> set rs. believed s known r"
  shows "\<exists>rs'. readers_pass c (map (\<lambda>r. r\<lparr>dwEventState := 0\<rparr>) rs) brk n s =
      Some ((rs', brk \<or> (\<exists>r \<in> set rs. differ (known r) (state_of_reader s r)), n), s) \<and>
    list_all2 (\<lambda>r r'. dwEventState r' =
      fed_back (state_of_reader s r) (differ (known r) (state_of_reader s r))) rs rs'"
  using assms
proof (induction rs arbitrary: brk)
  case Nil
  then show ?case by simp
next
  case (Cons r rs)
  let ?d = "differ (known r) (state_of_reader s r)"
  obtain r' where "reader_pass c (r\<lparr>dwEventState := 0\<rparr>) brk n s = Some ((r', brk \<or> ?d, n), s)"
    "dwEventState r' = fed_back (state_of_reader s r) ?d"
    using reader_pass_believed [of s known r _ c brk n] Cons.prems by auto
  with Cons.IH [of "brk \<or> ?d"] Cons.prems show ?case by (auto simp: disj_assoc)
qed

lemma check_readers_believed:
  "\<forall>r \<in> set rs. believed s known r \<Longrightarrow> check_readers j rs p s = Inr p"
  by (induction rs arbitrary: j p) (auto simp: believed_def)

lemma status_change_pass:
  assumes "SCardGetAndLockContext hCtx s = Some c" "rs \<noteq> []"
    and "getReaderStatesAndRegisterForEvents c s = Some (SCARD_S_SUCCESS, s1)"
    and "\<forall>r \<in> set rs. believed s1 known r"
  obtains rs' where "list_all2 (\<lambda>r r'. dwEventState r' =
        fed_back (state_of_reader s1 r) (differ (known r) (state_of_reader s1 r))) rs rs'"
    and "readers_pass c (map (\<lambda>r. r\<lparr>dwEventState := 0\<rparr>) rs) False (reader_count s1) s1 =
      Some ((rs', \<exists>r \<in> set rs. differ (known r) (state_of_reader s1 r), reader_count s1), s1)"
    and "\<And>ws. SCardGetStatusChange ws hCtx dwTimeout (Some rs) s =
      Option.bind (status_loop ws c (if dwTimeout = - 1 then INFINITE else dwTimeout)
          (if dwTimeout = - 1 \<or> dwTimeout = INFINITE then 60000 else sint dwTimeout)
          (map (\<lambda>r. r\<lparr>dwEventState := 0\<rparr>) rs) False (reader_count s1) s1)
        (\<lambda>((rv, rs), s). status_end c rv rs s)"
proof -
  have names: "\<not> (\<exists>r \<in> set rs. szReader r = None)" and "\<forall>r \<in> set rs. dwCurrentState r AND 1 = 0"
    using assms(4) by (auto simp: believed_def fed_back_not_ignored)
  then have ign: "\<not> (\<forall>r \<in> set rs. dwCurrentState r AND 1 \<noteq> 0)" using assms(2) by (cases rs) auto
  have call: "SCardGetStatusChange ws hCtx dwTimeout (Some rs) s =
      Option.bind (SCardGetStatusChange_body ws c dwTimeout rs s) (\<lambda>((rv, rs), s). status_end c rv rs s)" for ws
    unfolding SCardGetStatusChange_def option.case if_not_P [OF names] if_not_P [OF ign] assms(1) ..
  have "SCardGetStatusChange_body ws c dwTimeout rs s =
      status_loop ws c (if dwTimeout = - 1 then INFINITE else dwTimeout)
        (if dwTimeout = - 1 \<or> dwTimeout = INFINITE then 60000 else sint dwTimeout)
        (map (\<lambda>r. r\<lparr>dwEventState := 0\<rparr>) rs) False (reader_count s1) s1" for ws
    using assms(3) check_readers_believed [OF assms(4), of 0 None]
    by (simp add: SCardGetStatusChange_body_def pnp_start_def Let_def)
  with call readers_pass_believed [OF assms(4), of c False "reader_count s1"] that show thesis
    by (metis (no_types, lifting))
qed

section \<open>Time\<close>

definition microseconds :: "timeval \<Rightarrow> int" where
  "microseconds t = fst t * 1000000 + snd t"

lemma time_sub_microseconds: "time_sub a b = microseconds a - microseconds b"
  by (simp add: time_sub_def microseconds_def Let_def algebra_simps)

lemma receive_timeout_loop_late:
  assumes "receive_timeout_loop start timeOut n buf ts avail = Some (SCARD_E_TIMEOUT, b, rest)"
  shows "\<exists>t \<in> set ts. time_sub (now t) start sdiv 1000 > timeOut"
  using assms
proof (induction ts arbitrary: n buf avail)
  case Nil
  then show ?case by (auto split: if_splits)
next
  case (Cons t ts)
  have "timed_round t n avail \<noteq> Inl SCARD_E_TIMEOUT"
    by (cases "event t") (auto simp: timed_round_def SCardCheckDaemonAvailability_def Let_def
        split: if_splits transfer.splits)
  with Cons show ?case
    by (fastforce split: if_splits sum.splits)
qed

lemma sdiv_1000: "0 \<le> a \<Longrightarrow> a sdiv 1000 = a div (1000 :: int)"
  by (cases "a = 0") (simp_all add: signed_divide_int_def)

lemma sdiv_1000_mono: "0 \<le> a \<Longrightarrow> a \<le> b \<Longrightarrow> a sdiv 1000 \<le> b sdiv (1000 :: int)"
  by (simp add: sdiv_1000 zdiv_mono1)

lemma late_wait_over:
  assumes "wait_for_message c dwTime w s = Some ((SCARD_E_TIMEOUT, b), s')" "0 \<le> dwTime"
    and "microseconds (swBefore w) \<le> microseconds (swStart w)"
    and "\<forall>t \<in> set (swEvents w). microseconds (now t) \<le> microseconds (swAfter w)"
  shows "dwTime - time_sub (swAfter w) (swBefore w) sdiv 1000 \<le> 0"
proof -
  obtain t where t: "t \<in> set (swEvents w)" "time_sub (now t) (swStart w) sdiv 1000 > dwTime"
    using assms(1) receive_timeout_loop_late
    by (fastforce simp: wait_for_message_def MessageReceiveTimeout_def Let_def)
  have "0 \<le> time_sub (now t) (swStart w)"
    using t(2) assms(2) by (rule_tac ccontr) (simp add: signed_divide_int_def not_le)
  moreover have "time_sub (now t) (swStart w) \<le> time_sub (swAfter w) (swBefore w)"
    using assms(3) assms(4) [rule_format, OF t(1)] by (simp add: time_sub_microseconds)
  ultimately have "time_sub (now t) (swStart w) sdiv 1000 \<le> time_sub (swAfter w) (swBefore w) sdiv 1000"
    by (rule sdiv_1000_mono)
  with t(2) show ?thesis by simp
qed

section \<open>Claims\<close>


text \<open>
  C29. A time limit ends the call: when nothing differs and the wait for the daemon ran into its time
  limit, on a clock that does not go back, the call returns \<^verbatim>\<open>SCARD_E_TIMEOUT\<close> after this wait,
  whatever might happen in further waits.
\<close>

theorem status_change_timeout:
  assumes "SCardGetAndLockContext hCtx s = Some c" "rs \<noteq> []" "0 \<le> sint dwTimeout" "dwTimeout \<noteq> INFINITE"
    and "getReaderStatesAndRegisterForEvents c s = Some (SCARD_S_SUCCESS, s1)"
    and "\<forall>r \<in> set rs. believed s1 known r \<and> \<not> differ (known r) (state_of_reader s1 r)"
    and "wait_for_message c (sint dwTimeout) w (upd_map c (\<lambda>m. m\<lparr>cancellable := True\<rparr>) s1) =
      Some ((SCARD_E_TIMEOUT, []), s2)"
    and "microseconds (swBefore w) \<le> microseconds (swStart w)"
    and "\<forall>t \<in> set (swEvents w). microseconds (now t) \<le> microseconds (swAfter w)"
    and "unregisterFromEvents c (upd_map c (\<lambda>m. m\<lparr>cancellable := False\<rparr>) s2) = Some (SCARD_S_SUCCESS, s3)"
    and "getReaderStatesAndRegisterForEvents c s3 = Some (SCARD_S_SUCCESS, s4)" "unregisterFromEvents c s4 = Some (rv, s5)"
  shows "\<exists>rs'. SCardGetStatusChange (w # ws) hCtx dwTimeout (Some rs) s = Some ((SCARD_E_TIMEOUT, rs'), s5)"
proof -
  have bel: "\<forall>r \<in> set rs. believed s1 known r" using assms(6) by blast
  have same: "(\<exists>r \<in> set rs. differ (known r) (state_of_reader s1 r)) = False" using assms(6) by blast
  have "dwTimeout \<noteq> - 1" using assms(3) by auto
  moreover have "status_wait_round c dwTimeout (sint dwTimeout) w s1 = Some (Inl SCARD_E_TIMEOUT, s4)"
    using assms(4,7,10,11) late_wait_over [OF assms(7,3,8,9)]
    by (simp add: status_wait_round_def Let_def struct_defs overwrite_def member_at_def numeral_eq_Suc)
  moreover obtain rs' where
    "readers_pass c (map (\<lambda>r. r\<lparr>dwEventState := 0\<rparr>) rs) False (reader_count s1) s1 = Some ((rs', False, reader_count s1), s1)"
    and "\<And>ws. SCardGetStatusChange ws hCtx dwTimeout (Some rs) s =
      Option.bind (status_loop ws c (if dwTimeout = - 1 then INFINITE else dwTimeout)
          (if dwTimeout = - 1 \<or> dwTimeout = INFINITE then 60000 else sint dwTimeout)
          (map (\<lambda>r. r\<lparr>dwEventState := 0\<rparr>) rs) False (reader_count s1) s1)
        (\<lambda>((rv, rs), s). status_end c rv rs s)"
    by (rule status_change_pass [OF assms(1,2,5) bel, of dwTimeout, unfolded same]) blast
  ultimately show ?thesis
    using assms(4,12) by (simp add: status_end_def)
qed

section \<open>An example\<close>

text \<open>
  One reader \<^verbatim>\<open>R\<close>: the application was told of no card after three movements. Its client receives
  the state twice, each time followed by the answer to the end of the registration.
\<close>

definition ex_seen :: "u32 \<Rightarrow> u32 \<Rightarrow> READER_STATE" where
  "ex_seen counter state = \<lparr>readerName = ''R'', eventCounter = counter, rsState = state, readerSharing = 0,
     cardAtr = replicate 33 0, pastAtr = (\<lambda>_. 0), cardAtrLength = 0, cardProtocol = 0\<rparr>"

definition ex_answers :: "READER_STATE \<Rightarrow> bytes \<Rightarrow> bytes" where
  "ex_answers st rest = le32 (of_nat (length [st])) @ concat (map reader_state_image [st]) @
     wait_reader_state_change_image \<lparr>wa_timeOut = 0, wa_rv = 0\<rparr> @ rest"

definition ex_question :: SCARD_READERSTATE where
  "ex_question = \<lparr>szReader = Some ''R'', dwCurrentState = 0x30012, dwEventState = 0, cbAtr = 0, rgbAtr = replicate 33 0\<rparr>"

lemma ex_known: "fed_back (ex_seen 3 2) True = 0x30012" "published (ex_seen 3 2)" "published (ex_seen 4 0x34)"
  "\<not> differ (ex_seen 3 2) (ex_seen 3 2)" "differ (ex_seen 3 2) (ex_seen 4 0x34)"
  by code_simp+

lemma view_published: "state_view st = state_view st' \<Longrightarrow> published st = published st'"
  and view_differ: "state_view st = state_view st' \<Longrightarrow> differ st0 st = differ st0 st'"
  and view_event: "state_view st = state_view st' \<Longrightarrow> event_state st = event_state st'"
  by (simp_all add: state_view_def published_def differ_def event_state_def card_view_def usage_def)

lemma ex_believed:
  assumes "client_states s = [reader_state_at (reader_state_image (ex_seen n state))]" "published (ex_seen n state)"
  shows "believed s (\<lambda>_. ex_seen 3 2) ex_question"
    and "state_view (state_of_reader s ex_question) = state_view (ex_seen n state)"
proof -
  have "state_fits (ex_seen n state)" by (simp add: state_fits_def ex_seen_def)
  then have v: "state_view (reader_state_at (reader_state_image (ex_seen n state))) = state_view (ex_seen n state)"
    by (rule reader_state_at_image)
  then have "readerName (reader_state_at (reader_state_image (ex_seen n state))) = ''R''"
    by (simp add: state_view_def ex_seen_def)
  then have f: "find_reader ''R'' s = Some 0" using assms(1) by (simp add: find_reader_def)
  with v assms(1) show "state_view (state_of_reader s ex_question) = state_view (ex_seen n state)"
    by (simp add: state_of_reader_def ex_question_def)
  then show "believed s (\<lambda>_. ex_seen 3 2) ex_question"
    using f assms(2) ex_known view_published [of "state_of_reader s ex_question" "ex_seen n state"]
    unfolding believed_def by (intro exI [where x = "''R''"] exI [where x = True]) (simp add: ex_question_def)
qed


text \<open>Nothing happens for a second and a bit.\<close>

definition ex_wait :: status_wait where
  "ex_wait = \<lparr>swBefore = (100, 0), swStart = (100, 0), swEvents = [\<lparr>now = (100, 900000), event = Poll_zero EINTR, daemonThere = True\<rparr>,
     \<lparr>now = (101, 1000), event = Poll_zero EINTR, daemonThere = True\<rparr>], swAfter = (101, 2000)\<rparr>"

lemma ex_waited:
  assumes "mapClientID (contextMaps s 0) = 3"
  shows "wait_for_message 0 (sint (1000 :: DWORD)) ex_wait s = Some ((SCARD_E_TIMEOUT, []), s)"
proof -
  have "receive_timeout_loop (100, 0) (sint (1000 :: DWORD)) 8 [] (swEvents ex_wait) b = Some (SCARD_E_TIMEOUT, [], b)" for b
    by (simp add: ex_wait_def time_sub_def timed_round_def SCardCheckDaemonAvailability_def signed_divide_int_def)
  moreover have "swStart ex_wait = (100, 0)" by (simp add: ex_wait_def)
  ultimately show ?thesis using assms by (simp add: wait_for_message_def MessageReceiveTimeout_def Let_def)
qed

theorem status_change_timeout_witness:
  "\<exists>rs s'. SCardGetStatusChange [ex_wait] 5 1000 (Some [ex_question])
     (ex_clnt (ex_answers (ex_seen 3 2) (ex_answers (ex_seen 3 2) []))) = Some ((SCARD_E_TIMEOUT, rs), s')"
proof -
  let ?st = "ex_seen 3 2" and ?w = "\<lparr>wa_timeOut = 0, wa_rv = 0\<rparr>"
  let ?s = "ex_clnt (ex_answers ?st (ex_answers ?st []))" and ?wait = "\<lambda>b s. upd_map 0 (\<lambda>m. m\<lparr>cancellable := b\<rparr>) s"
  obtain k s1 where s1: "getReaderStatesAndRegisterForEvents 0 ?s = Some (SCARD_S_SUCCESS, s1)" "array_ok s1"
    "client_states s1 = map (\<lambda>st. reader_state_at (reader_state_image st)) [?st]"
    "\<exists>b. s1 = (set_link 3 k ?s)\<lparr>readerStates := b, maxStates := int (length [?st])\<rparr>"
    "rx k = wait_reader_state_change_image ?w @ ex_answers ?st []" "link_ready (8 + 196) (8 + 32) k"
    by (rule register_ready [of ?s "[?st]" 3 0 "wait_reader_state_change_image ?w @ ex_answers ?st []" 204 40])
      (use ex_clnt_receives in \<open>simp_all add: can_receive_def ex_answers_def\<close>)
  have m: "mapClientID (contextMaps (?wait b s) 0) = mapClientID (contextMaps s 0)" "links (?wait b s) = links s"
    "array_ok (?wait b s) = array_ok s" "clientMem (?wait b s) = clientMem s" "Protocol_version (?wait b s) = Protocol_version s"
    "maxStates (?wait b s) = maxStates s" for b s
    by (simp_all add: upd_map_def array_ok_def split: option.splits)
  have f: "links s1 3 = k" "mapClientID (contextMaps s1 0) = 3" "clientMem s1" "Protocol_version s1 > 4005" "maxStates s1 = 1"
    using s1(4) ex_clnt_receives by (auto simp: can_receive_def)
  let ?s2 = "?wait True s1"
  have w: "wait_for_message 0 (sint (1000 :: DWORD)) ex_wait ?s2 = Some ((SCARD_E_TIMEOUT, []), ?s2)"
    by (rule ex_waited) (simp add: m f)
  obtain k3 where k3: "unregisterFromEvents 0 (?wait False ?s2) = Some (uint (wa_rv ?w), set_link 3 k3 (?wait False ?s2))"
    "rx k3 = ex_answers ?st []" "link_ready 196 32 k3"
    by (rule unregister_ready [of 3 "?wait False ?s2" 0 ?w "ex_answers ?st []" 196 32]) (use f s1(5,6) in \<open>simp_all add: m\<close>)
  let ?s3 = "set_link 3 k3 (?wait False ?s2)"
  obtain k4 s4 where s4: "getReaderStatesAndRegisterForEvents 0 ?s3 = Some (SCARD_S_SUCCESS, s4)"
    "\<exists>b. s4 = (set_link 3 k4 ?s3)\<lparr>readerStates := b, maxStates := int (length [?st])\<rparr>"
    "rx k4 = wait_reader_state_change_image ?w @ []" "link_ready (8 + 0) (8 + 0) k4"
    by (rule register_ready [of ?s3 "[?st]" 3 0 "wait_reader_state_change_image ?w @ []" 8 8])
      (use f s1(2) k3 in \<open>simp_all add: m ex_answers_def\<close>)
  then have "links s4 3 = k4" "mapClientID (contextMaps s4 0) = 3" using f by (auto simp: m)
  with s4 obtain s5 where s5: "unregisterFromEvents 0 s4 = Some (uint (wa_rv ?w), s5)"
    using unregister_ready [of 3 s4 0 ?w "[]" 0 0] by metis
  have v: "state_view (state_of_reader s1 ex_question) = state_view ?st" and b: "believed s1 (\<lambda>_. ?st) ex_question"
    using ex_believed [of s1 3 2] s1(3) ex_known by simp_all
  have b: "\<forall>r \<in> set [ex_question]. believed s1 (\<lambda>_. ?st) r \<and> \<not> differ ?st (state_of_reader s1 r)"
    using b ex_known(4) view_differ [OF v] by simp
  have u: "unregisterFromEvents 0 (?wait False ?s2) = Some (SCARD_S_SUCCESS, ?s3)" using k3(1) by simp
  have "\<exists>rs. SCardGetStatusChange [ex_wait] 5 1000 (Some [ex_question]) ?s = Some ((SCARD_E_TIMEOUT, rs), s5)"
    by (rule status_change_timeout [OF ex_context _ _ _ s1(1) b w _ _ u s4(1) s5])
      (simp_all add: ex_wait_def microseconds_def)
  then show ?thesis by blast
qed

end
