(* ===== verification/Clnt_Transmit.thy ===== *)
theory Clnt_Transmit
  imports Clnt_States
begin

text \<open>
  A command for a card on its way through client library, socket, dispatcher and server: what
  \<^verbatim>\<open>SCardTransmit\<close> of the client library returns is what \<^verbatim>\<open>SCardTransmit\<close> of the server returned for
  the same arguments. The client repeats requests that are refused because of another client's lock.
\<close>

section \<open>Arguments that survive the wire\<close>

text \<open>The structures on the wire have 32 bits where the interface has words of 64 bits.\<close>

definition narrow :: "SCARD_IO_HEADER \<Rightarrow> bool" where
  "narrow pci \<longleftrightarrow> ioProtocol pci < 2 ^ 32 \<and> ioLength pci < 2 ^ 32"

definition transmit_request ::
  "SCARDHANDLE \<Rightarrow> SCARD_IO_HEADER \<Rightarrow> bytes \<Rightarrow> SCARD_IO_HEADER \<Rightarrow> DWORD \<Rightarrow> transmit_struct" where
  "transmit_request h sendPci data recvPci room = \<lparr>tr_hCard = word_of_int h,
     tr_ioSendPciProtocol = ucast (ioProtocol sendPci), tr_ioSendPciLength = ucast (ioLength sendPci),
     tr_cbSendLength = of_nat (length data), tr_ioRecvPciProtocol = ucast (ioProtocol recvPci),
     tr_ioRecvPciLength = ucast (ioLength recvPci), tr_pcbRecvLength = ucast room, tr_rv = word_of_int SCARD_S_SUCCESS\<rparr>"

lemma narrow_word:
  assumes "x < 2 ^ 32"
  shows "(ucast (ucast (x :: DWORD) :: u32) :: DWORD) = x"
proof -
  have "uint x < 2 ^ 32" using assms by (simp add: word_less_def)
  then show ?thesis by (simp add: word_uint_eq_iff unsigned_ucast_eq unsigned_take_bit_eq take_bit_int_eq_self)
qed

lemma narrow_header:
  "narrow pci \<Longrightarrow> \<lparr>ioProtocol = ucast (ucast (ioProtocol pci) :: u32), ioLength = ucast (ucast (ioLength pci) :: u32)\<rparr> = pci"
  by (simp add: narrow_def narrow_word)

lemma sint_handle: "- (2 ^ 31) \<le> h \<Longrightarrow> h < 2 ^ 31 \<Longrightarrow> sint (word_of_int h :: u32) = h"
  by (simp add: int_word_sint)

lemma uint_status: "0 \<le> rv \<Longrightarrow> rv < 2 ^ 32 \<Longrightarrow> uint (word_of_int rv :: u32) = rv"
  by (simp add: uint_word_of_int)

section \<open>The client's side\<close>

text \<open>What the application gets for the answer of the server.\<close>

definition transmit_outcome ::
  "LONG \<Rightarrow> bytes \<Rightarrow> DWORD \<Rightarrow> SCARD_IO_HEADER \<Rightarrow> DWORD \<Rightarrow> SCARD_IO_HEADER \<Rightarrow> LONG \<times> bytes \<times> DWORD option \<times> SCARD_IO_HEADER option" where
  "transmit_outcome rv answer len pci room recvPci =
     (if len > room then (SCARD_E_INSUFFICIENT_BUFFER, [], Some len, Some recvPci)
      else if rv = SCARD_S_SUCCESS then (SCARD_S_SUCCESS, answer, Some len, Some pci)
      else (rv, [], Some len, Some recvPci))"

lemma transmit_received:
  assumes h: "SCardGetContextChannelAndLockFromHandle h s = Some (m, ch)" and fd: "fd = mapClientID (contextMaps s m)"
    and data: "length data \<le> MAX_BUFFER_SIZE_EXTENDED"
    and ready: "link_ready (32 + MAX_BUFFER_SIZE_EXTENDED) (40 + length data) (links s fd)"
    and len: "unat len \<le> MAX_BUFFER_SIZE_EXTENDED" "length answer = unat len" and room: "room < 2 ^ 32" and pci: "narrow pci"
    and rv: "0 \<le> rv" "rv < 2 ^ 32" "rv = SCARD_E_SHARING_VIOLATION \<longrightarrow> \<not> sharing_shall_block s"
    and tr: "tr = transmit_request h sendPci data recvPci room"
    and rx: "rx (links s fd) = transmit_struct_image (transmit_answer tr rv len pci) @
      (if tr_rv (transmit_answer tr rv len pci) = 0 then answer else []) @ rest"
  shows "\<exists>k. SCardTransmit_clnt h (Some sendPci) (Some data) (Some recvPci) True (Some room) s =
      Some (transmit_outcome rv answer len pci room recvPci, set_link fd k s) \<and> rx k = rest \<and>
    tx k = tx (links s fd) @ message SCARD_TRANSMIT (transmit_struct_image tr) @ data"
proof -
  define t where "t = transmit_answer tr rv len pci"
  let ?n = "32 + MAX_BUFFER_SIZE_EXTENDED"
  have l32: "len < 2 ^ 32" using len(1) by (simp add: word_less_nat_alt)
  have ans: "ucast (tr_pcbRecvLength t) = len" "ucast (tr_pcbRecvLength tr) = room"
    "\<lparr>ioProtocol = ucast (tr_ioRecvPciProtocol t), ioLength = ucast (tr_ioRecvPciLength t)\<rparr> = pci"
    using narrow_word [OF l32] narrow_word [OF room] narrow_header [OF pci]
    by (simp_all add: t_def transmit_answer_def tr transmit_request_def)
  have status: "uint (tr_rv t) = (if len > room then SCARD_E_INSUFFICIENT_BUFFER else rv)"
    using ans(2) rv uint_status by (simp add: t_def transmit_answer_def)
  have "tr_rv t = 0 \<longleftrightarrow> uint (tr_rv t) = 0" by (simp add: uint_0_iff)
  then have z: "tr_rv t = 0 \<longleftrightarrow> \<not> len > room \<and> rv = SCARD_S_SUCCESS" using status by auto
  obtain k1 where k1: "clnt_send SCARD_TRANSMIT (transmit_struct_image tr) fd s = Some (SCARD_S_SUCCESS, set_link fd k1 s)"
    "tx k1 = tx (links s fd) @ message SCARD_TRANSMIT (transmit_struct_image tr)" "link_ready ?n (length data) k1" "rx k1 = rx (links s fd)"
    by (rule clnt_send_ready [of ?n SCARD_TRANSMIT "transmit_struct_image tr" "length data" s fd])
      (use ready in \<open>simp_all add: trStr.size\<close>)
  obtain k2 where k2: "clnt_send_data data fd (set_link fd k1 s) = Some (SCARD_S_SUCCESS, set_link fd k2 (set_link fd k1 s))"
    "tx k2 = tx k1 @ data" "link_ready ?n 0 k2" "rx k2 = rx k1"
    by (rule clnt_send_data_ready [of ?n data 0 "set_link fd k1 s" fd]) (use k1 in simp_all)
  obtain k3 where k3: "clnt_recv 32 fd (set_link fd k2 s) = Some ((SCARD_S_SUCCESS, transmit_struct_image t), set_link fd k3 (set_link fd k2 s))"
    "rx k3 = (if tr_rv t = 0 then answer else []) @ rest" "link_ready MAX_BUFFER_SIZE_EXTENDED 0 k3" "tx k3 = tx k2"
    by (rule clnt_recv_ready [of "set_link fd k2 s" fd "transmit_struct_image t" "(if tr_rv t = 0 then answer else []) @ rest" MAX_BUFFER_SIZE_EXTENDED 0])
      (use k1 k2 rx [folded t_def] in \<open>simp_all add: trStr.size\<close>)
  have step: "SCardTransmit_clnt h (Some sendPci) (Some data) (Some recvPci) True (Some room) s =
      (if uint (tr_rv t) = SCARD_S_SUCCESS then
         map_option (\<lambda>((rv, answer), s). if rv \<noteq> SCARD_S_SUCCESS then ((rv, answer, Some room, Some recvPci), s)
             else ((SCARD_S_SUCCESS, answer, Some len, Some pci), s)) (clnt_recv (unat len) fd (set_link fd k3 s))
       else Some ((uint (tr_rv t), [], Some len, Some recvPci), set_link fd k3 s))"
    using h fd data k1(1) [unfolded tr transmit_request_def] k2(1) k3(1) status ans rv(3)
    by (subst SCardTransmit_clnt.simps) (auto simp: Let_def trStr.dec_enc cong: if_cong)
  show ?thesis
  proof (cases "tr_rv t = 0")
    case True
    with k3 have "rx (links (set_link fd k3 s) fd) = answer @ rest" "link_ready (length answer + 0) 0 (links (set_link fd k3 s) fd)"
      using len by (auto simp: link_ready_def intro: ready_mono)
    then obtain k4 where "clnt_recv (length answer) fd (set_link fd k3 s) = Some ((SCARD_S_SUCCESS, answer), set_link fd k4 (set_link fd k3 s))"
      "rx k4 = rest" "tx k4 = tx k3"
      by (rule clnt_recv_ready) simp
    with step True z status k1(2) k2(2) k3(4) len(2) show ?thesis by (auto simp: transmit_outcome_def)
  next
    case False
    with step z status k1(2) k2(2) k3(2,4) show ?thesis by (auto simp: transmit_outcome_def uint_0_iff)
  qed
qed

section \<open>From end to end\<close>

text \<open>A client with the handle \<open>h\<close> on the context \<open>m\<close>, and the server's thread for it with the same handle.\<close>

definition client_talks :: "SCARDHANDLE \<Rightarrow> bytes \<Rightarrow> nat \<Rightarrow> clnt \<Rightarrow> bool" where
  "client_talks h data m s \<longleftrightarrow>
     (\<exists>ch. SCardGetContextChannelAndLockFromHandle h s = Some (m, ch)) \<and>
     link_ready (32 + MAX_BUFFER_SIZE_EXTENDED) (40 + length data) (links s (mapClientID (contextMaps s m)))"

definition server_talks :: "SCARDHANDLE \<Rightarrow> bytes \<Rightarrow> nat \<Rightarrow> 'd svc \<Rightarrow> bool" where
  "server_talks h data c sv \<longleftrightarrow>
     svc_ok sv \<and> c \<in> set (entries (contextsList sv)) \<and> hContext (ctxMem sv c) \<noteq> 0 \<and> h \<in> set (entries (cardsList (ctxMem sv c))) \<and>
     rx_ready (40 + length data) (sockets sv (dwClientID (ctxMem sv c))) \<and>
     tx_ready (32 + MAX_BUFFER_SIZE_EXTENDED) (sockets sv (dwClientID (ctxMem sv c)))"

text \<open>
  C6. A command reaches the card and its answer the application: the bytes that \<^verbatim>\<open>SCardTransmit\<close> of
  the client library puts on its socket make the thread of this client call \<^verbatim>\<open>SCardTransmit\<close> of the
  server once, with exactly the arguments of the application, and when the bytes the thread writes
  reach the client its call returns what the server's call returned: the status, the length, the
  protocol and the bytes of the answer, or \<^verbatim>\<open>SCARD_E_INSUFFICIENT_BUFFER\<close> with the length that is
  needed when the application has less room. The messages may be cut and interrupted in any way.
\<close>

theorem transmit_end_to_end:
  assumes "client_talks h data m s" "server_talks h data c sv"
    and "fd = mapClientID (contextMaps s m)" "sfd = dwClientID (ctxMem sv c)" "tx (sockets sv sfd) = []"
    and "length data \<le> MAX_BUFFER_SIZE_EXTENDED" "narrow sendPci" "narrow recvPci" "narrow pci" "room < 2 ^ 32"
    and "- (2 ^ 31) \<le> h" "h < 2 ^ 31" "0 \<le> rv" "rv < 2 ^ 32" "rv = SCARD_E_SHARING_VIOLATION \<longrightarrow> \<not> sharing_shall_block s"
    and "rx (sockets sv sfd) = message SCARD_TRANSMIT (transmit_struct_image (transmit_request h sendPci data recvPci room)) @ data"
    and "SCardTransmit h sendPci data recvPci (of_nat MAX_BUFFER_SIZE_EXTENDED) (daemon sv) = ((rv, answer, len, pci), w)"
  shows "\<exists>sv'. ContextThread_step [] c sv = Some (True, sv') \<and> daemon sv' = w \<and> rx (sockets sv' sfd) = [] \<and>
    (rx (links s fd) = tx (sockets sv' sfd) \<longrightarrow>
      (\<exists>k. SCardTransmit_clnt h (Some sendPci) (Some data) (Some recvPci) True (Some room) s =
          Some (transmit_outcome rv (buffer_bytes sv answer (unat len)) len pci room recvPci, set_link fd k s) \<and>
        rx k = [] \<and> tx k = tx (links s fd) @ rx (sockets sv sfd)))"
proof -
  let ?tr = "transmit_request h sendPci data recvPci room"
  have n: "length data = unat (tr_cbSendLength ?tr)"
    using assms(6) by (simp add: transmit_request_def unat_of_nat)
  have call: "transmit_call ?tr data (daemon sv) = ((rv, answer, len, pci), w)"
    using assms(17) narrow_header [OF assms(7)] narrow_header [OF assms(8)] sint_handle [OF assms(11,12)]
    by (simp add: transmit_call_def transmit_request_def)
  have rx: "rx (sockets sv sfd) = rxHeader_image \<lparr>header_size = 32, header_command = command_number SCARD_TRANSMIT\<rparr> @
      transmit_struct_image ?tr @ data @ []"
    using assms(16) by (simp add: message_def trStr.size)
  have own: "svc_ok sv" "c \<in> set (entries (contextsList sv))" "hContext (ctxMem sv c) \<noteq> 0"
    "sint (tr_hCard ?tr) \<in> set (entries (cardsList (ctxMem sv c)))" "rx_ready (8 + (32 + length data)) (sockets sv sfd)"
    "tx_ready (32 + MAX_BUFFER_SIZE_EXTENDED) (sockets sv sfd)"
    using assms(2,4) sint_handle [OF assms(11,12)] by (simp_all add: server_talks_def transmit_request_def)
  from transmit_served [OF own(1,2) assms(4) own(3,4) rx n assms(6) own(5,6) call]
  obtain sv' where sv': "ContextThread_step [] c sv = Some (True, sv')" "daemon sv' = w" "rx (sockets sv' sfd) = []"
    "unat len \<le> MAX_BUFFER_SIZE_EXTENDED"
    "tx (sockets sv' sfd) = tx (sockets sv sfd) @ transmit_struct_image (transmit_answer ?tr rv len pci) @
      (if tr_rv (transmit_answer ?tr rv len pci) = 0 then buffer_bytes sv answer (unat len) else [])"
    by blast
  have "\<exists>k. SCardTransmit_clnt h (Some sendPci) (Some data) (Some recvPci) True (Some room) s =
        Some (transmit_outcome rv (buffer_bytes sv answer (unat len)) len pci room recvPci, set_link fd k s) \<and> rx k = [] \<and>
      tx k = tx (links s fd) @ message SCARD_TRANSMIT (transmit_struct_image ?tr) @ data" if "rx (links s fd) = tx (sockets sv' sfd)"
  proof -
    obtain ch where "SCardGetContextChannelAndLockFromHandle h s = Some (m, ch)"
      and "link_ready (32 + MAX_BUFFER_SIZE_EXTENDED) (40 + length data) (links s fd)"
      using assms(1,3) by (auto simp: client_talks_def)
    with that show ?thesis
      by (intro transmit_received [OF _ assms(3,6) _ sv'(4) _ assms(10,9,13-15) refl]) (simp_all add: sv'(5) assms(5) buffer_bytes_def)
  qed
  with sv'(1-3) assms(16) show ?thesis by auto
qed

text \<open>The handle 7 of the first client of the example server, and a SELECT command for it.\<close>

definition ex_pci :: "DWORD \<Rightarrow> SCARD_IO_HEADER" where
  "ex_pci protocol = \<lparr>ioProtocol = protocol, ioLength = 16\<rparr>"

definition ex_talker :: "bytes \<Rightarrow> clnt" where
  "ex_talker b = (ex_clnt b)\<lparr>
     contextMaps := (\<lambda>_. \<lparr>mapClientID = 3, mapContext = 5, channelMapList = ex_list [0], cancellable = False\<rparr>),
     channelMaps := (\<lambda>_. \<lparr>chCard = 7, chReaderName = ''R 00 00''\<rparr>),
     links := (\<lambda>_. \<lparr>rx = b, rxEvents = ex_events 70000, tx = [], txEvents = ex_events 100\<rparr>)\<rparr>"

definition ex_listener :: "unit svc" where
  "ex_listener = (ex_svc 0 [])\<lparr>sockets := (\<lambda>_. \<lparr>rx = message SCARD_TRANSMIT
     (transmit_struct_image (transmit_request 7 (ex_pci 1) [0x00, 0xA4] (ex_pci 0) 258)) @ [0x00, 0xA4],
     rxEvents = ex_events 100, tx = [], txEvents = ex_events 70000\<rparr>)\<rparr>"

lemma ex_talks:
  "client_talks 7 [0x00, 0xA4] 0 (ex_talker b)" "server_talks 7 [0x00, 0xA4] 0 ex_listener"
proof -
  have "SCardGetContextChannelAndLockFromHandle 7 (ex_talker b) = Some (0, 0)"
    by (simp add: SCardGetContextChannelAndLockFromHandle_def SCardGetContextAndChannelFromHandleTH_def seek_channel_def
        ex_talker_def ex_clnt_def list_seek_def CHANNEL_MAP_seeker_def list_size_def upt_rec list_get_at_repOk list_repOk_def
        ex_list_def list_init_def)
  then show "client_talks 7 [0x00, 0xA4] 0 (ex_talker b)"
    using ex_events_ready [of 70000] ex_events_ready [of 100]
    by (simp add: client_talks_def ex_talker_def link_ready_def rx_ready_def tx_ready_def)
  have "svc_ok ex_listener" using ex_svc_ok [of 0 "[]"] by (simp add: ex_listener_def svc_ok_def client_ok_def)
  then show "server_talks 7 [0x00, 0xA4] 0 ex_listener"
    using ex_events_ready [of 70000] ex_events_ready [of 100]
    by (simp add: server_talks_def ex_listener_def rx_ready_def tx_ready_def)
qed

theorem transmit_end_to_end_witness:
  "\<exists>b s'. SCardTransmit_clnt 7 (Some (ex_pci 1)) (Some [0x00, 0xA4]) (Some (ex_pci 0)) True (Some 258) (ex_talker b) =
     Some ((SCARD_S_SUCCESS, [0x90, 0x00], Some 2, Some (ex_pci 0)), s')"
proof -
  let ?call = "SCardTransmit 7 (ex_pci 1) [0x00, 0xA4] (ex_pci 0) (of_nat MAX_BUFFER_SIZE_EXTENDED) (daemon ex_listener)"
  have "fst ?call = (SCARD_S_SUCCESS, [0x90, 0x00], 2, ex_pci 0)"
    using ex_transmit_call by (simp add: transmit_call_def ex_transmit_def ex_pci_def ex_listener_def)
  then have call: "?call = ((SCARD_S_SUCCESS, [0x90, 0x00], 2, ex_pci 0), snd ?call)" by (simp add: prod_eq_iff)
  have n: "narrow (ex_pci 1)" "narrow (ex_pci 0)" by (simp_all add: narrow_def ex_pci_def)
  have f: "rx (sockets ex_listener 5) = message SCARD_TRANSMIT
      (transmit_struct_image (transmit_request 7 (ex_pci 1) [0x00, 0xA4] (ex_pci 0) 258)) @ [0x00, 0xA4]"
    "tx (sockets ex_listener 5) = []" "5 = dwClientID (ctxMem ex_listener 0)" "3 = mapClientID (contextMaps (ex_talker b) 0)"
    "rx (links (ex_talker b) 3) = b" for b
    by (simp_all add: ex_listener_def ex_talker_def)
  have *: "\<exists>sv'. ContextThread_step [] 0 ex_listener = Some (True, sv') \<and> daemon sv' = snd ?call \<and> rx (sockets sv' 5) = [] \<and>
    (rx (links (ex_talker b) 3) = tx (sockets sv' 5) \<longrightarrow>
      (\<exists>k. SCardTransmit_clnt 7 (Some (ex_pci 1)) (Some [0x00, 0xA4]) (Some (ex_pci 0)) True (Some 258) (ex_talker b) =
        Some (transmit_outcome SCARD_S_SUCCESS (buffer_bytes ex_listener [0x90, 0x00] (unat (2 :: DWORD))) 2 (ex_pci 0) 258 (ex_pci 0),
          set_link 3 k (ex_talker b)) \<and>
        rx k = [] \<and> tx k = tx (links (ex_talker b) 3) @ rx (sockets ex_listener 5)))" for b
    by (rule transmit_end_to_end [OF ex_talks f(4,3,2) _ n n(2) _ _ _ _ _ _ f(1) call]) simp_all
  from * [of "[]"] obtain sv' where sv': "ContextThread_step [] 0 ex_listener = Some (True, sv')" by blast
  from * [of "tx (sockets sv' 5)"] obtain k where
    "SCardTransmit_clnt 7 (Some (ex_pci 1)) (Some [0x00, 0xA4]) (Some (ex_pci 0)) True (Some 258) (ex_talker (tx (sockets sv' 5))) =
      Some (transmit_outcome SCARD_S_SUCCESS (buffer_bytes ex_listener [0x90, 0x00] (unat (2 :: DWORD))) 2 (ex_pci 0) 258 (ex_pci 0),
        set_link 3 k (ex_talker (tx (sockets sv' 5))))"
    unfolding f(5) sv' by auto
  moreover have "transmit_outcome SCARD_S_SUCCESS (buffer_bytes ex_listener [0x90, 0x00] (unat (2 :: DWORD))) 2 (ex_pci 0) 258 (ex_pci 0) =
      (SCARD_S_SUCCESS, [0x90, 0x00], Some 2, Some (ex_pci 0))"
    by (simp add: transmit_outcome_def buffer_bytes_def upt_rec)
  ultimately show ?thesis by metis
qed

end
