(* ===== verification/Clnt_Inv.thy ===== *)
theory Clnt_Inv
  imports Status_Change
begin

text \<open>
  The books of the client library: which contexts an application has, the session of each and the
  cards connected in it. They are kept in linked lists of pointers; here they are shown to behave as
  a plain list of contexts with their handles, whatever the daemon answers.
\<close>

section \<open>Calls that do not touch the books\<close>

text \<open>The part of the memory the books live in.\<close>

definition memory :: "clnt \<Rightarrow> bool \<times> nat list_t \<times> (nat \<Rightarrow> CHANNEL_MAP) \<times> nat \<times> nat \<times> (nat \<Rightarrow> int \<times> SCARDCONTEXT \<times> nat list_t)" where
  "memory s = (initDone s, contextMapList s, channelMaps s, freshMap s, freshChannel s,
     \<lambda>c. (mapClientID (contextMaps s c), mapContext (contextMaps s c), channelMapList (contextMaps s c)))"

text \<open>A call that is still waiting, or that ended with the books as they were in \<open>s0\<close>.\<close>

definition quiet :: "clnt \<Rightarrow> ('a \<times> clnt) option \<Rightarrow> bool" where
  "quiet s0 m \<longleftrightarrow> (\<forall>y. m = Some y \<longrightarrow> memory (snd y) = memory s0)"

lemma quietD: "quiet s0 m \<Longrightarrow> m = Some y \<Longrightarrow> memory (snd y) = memory s0"
  by (simp add: quiet_def)

named_theorems quiet

lemma quiet_Some [quiet]: "memory s = memory s0 \<Longrightarrow> quiet s0 (Some (x, s))"
  by (simp add: quiet_def)

lemma quiet_None [quiet]: "quiet s0 None"
  by (simp add: quiet_def)

lemma quiet_bind [quiet]:
  assumes "quiet s0 m" "\<And>x s. memory s = memory s0 \<Longrightarrow> quiet s0 (f (x, s))"
  shows "quiet s0 (Option.bind m f)"
proof (cases m)
  case (Some y)
  from quietD [OF assms(1) this] assms(2) [of "snd y" "fst y"] show ?thesis by (simp add: Some)
qed (simp add: quiet_None)

lemma quiet_map [quiet]:
  assumes "quiet s0 m" "\<And>x s. memory s = memory s0 \<Longrightarrow> memory (snd (f (x, s))) = memory s0"
  shows "quiet s0 (map_option f m)"
  using assms(1) assms(2) [of "snd (the m)" "fst (the m)"] by (auto simp: quiet_def)

lemma quiet_if [quiet]: "(b \<Longrightarrow> quiet s0 m) \<Longrightarrow> (\<not> b \<Longrightarrow> quiet s0 n) \<Longrightarrow> quiet s0 (if b then m else n)"
  by simp

lemma quiet_option [quiet]:
  "quiet s0 m \<Longrightarrow> (\<And>x. quiet s0 (f x)) \<Longrightarrow> quiet s0 (case p of None \<Rightarrow> m | Some x \<Rightarrow> f x)"
  by (cases p) simp_all

lemma quiet_let [quiet]: "quiet s0 (f a) \<Longrightarrow> quiet s0 (let x = a in f x)"
  by simp

lemma quiet_prod [quiet]: "(\<And>a b. p = (a, b) \<Longrightarrow> quiet s0 (f a b)) \<Longrightarrow> quiet s0 (case p of (a, b) \<Rightarrow> f a b)"
  by (cases p) simp

lemma quiet_prod_state [quiet]:
  "(\<And>a b. p = (a, b) \<Longrightarrow> quiet s0 (f a b s)) \<Longrightarrow> quiet s0 ((case p of (a, b) \<Rightarrow> f a b) s)"
  by (cases p) simp

lemma quiet_sum [quiet]:
  "(\<And>x. quiet s0 (f x)) \<Longrightarrow> (\<And>x. quiet s0 (g x)) \<Longrightarrow> quiet s0 (case p of Inl x \<Rightarrow> f x | Inr x \<Rightarrow> g x)"
  by (cases p) simp_all

lemma quiet_again: "(\<And>y. m = Some y \<Longrightarrow> memory (snd y) = memory s) \<Longrightarrow> memory s = memory s0 \<Longrightarrow> quiet s0 m"
  by (fastforce simp: quiet_def)

lemma memory_update [simp]:
  "memory (s\<lparr>links := l\<rparr>) = memory s" "memory (s\<lparr>readerStates := r\<rparr>) = memory s" "memory (s\<lparr>maxStates := n\<rparr>) = memory s"
  "memory (s\<lparr>attempts := a\<rparr>) = memory s" "memory (s\<lparr>closedSessions := cs\<rparr>) = memory s"
  "memory (s\<lparr>Protocol_version := v\<rparr>) = memory s"
  by (simp_all add: memory_def)

lemma memory_cancellable [simp]: "memory (upd_map c (\<lambda>m. m\<lparr>cancellable := b\<rparr>) s) = memory s"
  by (auto simp: memory_def upd_map_def)

lemma memory_close [simp]: "memory (ClientCloseSession fd s) = memory s"
  by (simp add: ClientCloseSession_def)

lemma send_quiet [quiet]: "memory s = memory s0 \<Longrightarrow> quiet s0 (clnt_send cmd data fd s)"
  and send_data_quiet [quiet]: "memory s = memory s0 \<Longrightarrow> quiet s0 (clnt_send_data data fd s)"
  and recv_quiet [quiet]: "memory s = memory s0 \<Longrightarrow> quiet s0 (clnt_recv n fd s)"
  by (auto simp: quiet_def clnt_send_def clnt_send_data_def clnt_recv_def)

lemma request_quiet [quiet]: "memory s = memory s0 \<Longrightarrow> quiet s0 (request cmd data n fd s)"
  unfolding request_def by (intro quiet) auto

lemma session_memory: "ClientSetupSession s = (r, s') \<Longrightarrow> memory s' = memory s"
  by (auto simp: ClientSetupSession_def Let_def split: list.splits if_splits)

lemma grow_states_memory: "grow_states n s = (rv, s') \<Longrightarrow> memory s' = memory s"
  by (auto simp: grow_states_def Let_def split: if_splits)

lemma getReaderEvents_quiet [quiet]: "memory s = memory s0 \<Longrightarrow> quiet s0 (getReaderEvents c s)"
  unfolding getReaderEvents_def by (intro quiet) auto

lemma recv_states_quiet [quiet]: "memory s = memory s0 \<Longrightarrow> quiet s0 (recv_states n fd s)"
  unfolding recv_states_def by (intro quiet) auto

lemma getReaderStates_quiet [quiet]: "memory s = memory s0 \<Longrightarrow> quiet s0 (getReaderStates c s)"
  unfolding getReaderStates_def Let_def
  by (intro quiet) (auto dest!: grow_states_memory)

lemma register_quiet [quiet]: "memory s = memory s0 \<Longrightarrow> quiet s0 (getReaderStatesAndRegisterForEvents c s)"
  unfolding getReaderStatesAndRegisterForEvents_def Let_def by (intro quiet) auto

lemma unregister_quiet [quiet]: "memory s = memory s0 \<Longrightarrow> quiet s0 (unregisterFromEvents c s)"
  unfolding unregisterFromEvents_def by (intro quiet) auto

text \<open>The functions that repeat a request, by induction over the repetitions.\<close>

lemma negotiate_quiet [quiet]:
  assumes "memory s = memory s0"
  shows "quiet s0 (negotiate fd ve s)"
proof (rule quiet_again [OF negotiate.raw_induct [where P = "\<lambda>fd ve s y. memory (snd y) = memory s"] assms], goal_cases)
  case (1 y f fd ve s y')
  have "quiet s (f fd ve s1)" if "memory s1 = memory s" for fd ve s1
    using 1(2) that by (rule quiet_again)
  note [quiet] = this
  show ?case
    using 1(3) by (rule quietD [rotated]) (intro quiet; auto)
qed

lemma establish_again_quiet [quiet]:
  assumes "memory s = memory s0"
  shows "quiet s0 (establish_again fd scope s)"
proof (rule quiet_again [OF establish_again.raw_induct [where P = "\<lambda>fd scope s y. memory (snd y) = memory s"] assms], goal_cases)
  case (1 y f fd scope s y')
  have "quiet s (f fd scope s1)" if "memory s1 = memory s" for fd scope s1
    using 1(2) that by (rule quiet_again)
  note [quiet] = this
  show ?case
    using 1(3) by (rule quietD [rotated]) (intro quiet; auto)
qed

lemma reconnect_quiet [quiet]:
  assumes "memory s = memory s0"
  shows "quiet s0 (SCardReconnect_clnt h mode pref init proto s)"
proof (rule quiet_again [OF SCardReconnect_clnt.raw_induct [where P = "\<lambda>h mode pref init proto s y. memory (snd y) = memory s"] assms], goal_cases)
  case (1 y f h mode pref init proto s y')
  have "quiet s (f h mode pref init proto s1)" if "memory s1 = memory s" for h mode pref init proto s1
    using 1(2) that by (rule quiet_again)
  note [quiet] = this
  show ?case
    using 1(3) by (rule quietD [rotated]) (intro quiet; auto)
qed

lemma begin_quiet [quiet]:
  assumes "memory s = memory s0"
  shows "quiet s0 (SCardBeginTransaction_clnt h s)"
proof (rule quiet_again [OF SCardBeginTransaction_clnt.raw_induct [where P = "\<lambda>h s y. memory (snd y) = memory s"] assms], goal_cases)
  case (1 y f h s y')
  have "quiet s (f h s1)" if "memory s1 = memory s" for h s1
    using 1(2) that by (rule quiet_again)
  note [quiet] = this
  show ?case
    using 1(3) by (rule quietD [rotated]) (intro quiet; auto)
qed

lemma status_quiet [quiet]:
  assumes "memory s = memory s0"
  shows "quiet s0 (SCardStatus_clnt h name len state proto atr atrLen s)"
proof (rule quiet_again [OF SCardStatus_clnt.raw_induct [where P = "\<lambda>h name len state proto atr atrLen s y. memory (snd y) = memory s"] assms], goal_cases)
  case (1 y f h name len state proto atr atrLen s y')
  have "quiet s (f h name len state proto atr atrLen s1)" if "memory s1 = memory s" for h name len state proto atr atrLen s1
    using 1(2) that by (rule quiet_again)
  note [quiet] = this
  show ?case
    using 1(3) by (rule quietD [rotated]) (intro quiet; auto)
qed

lemma transmit_quiet [quiet]:
  assumes "memory s = memory s0"
  shows "quiet s0 (SCardTransmit_clnt h pci data rpci buf len s)"
proof (rule quiet_again [OF SCardTransmit_clnt.raw_induct [where P = "\<lambda>h pci data rpci buf len s y. memory (snd y) = memory s"] assms], goal_cases)
  case (1 y f h pci data rpci buf len s y')
  have "quiet s (f h pci data rpci buf len s1)" if "memory s1 = memory s" for h pci data rpci buf len s1
    using 1(2) that by (rule quiet_again)
  note [quiet] = this
  show ?case
    using 1(3) by (rule quietD [rotated]) (intro quiet; auto)
qed

lemma end_quiet [quiet]: "memory s = memory s0 \<Longrightarrow> quiet s0 (SCardEndTransaction_clnt h d s)"
  unfolding SCardEndTransaction_clnt_def by (intro quiet) auto

lemma control_quiet [quiet]: "memory s = memory s0 \<Longrightarrow> quiet s0 (SCardControl_clnt h code data n b s)"
  unfolding SCardControl_clnt_def by (intro quiet) auto

lemma getset_quiet [quiet]: "memory s = memory s0 \<Longrightarrow> quiet s0 (SCardGetSetAttrib h cmd i data b n s)"
  unfolding SCardGetSetAttrib_def by (intro quiet) (auto simp: Let_def)

lemma attrib_quiet [quiet]:
  "memory s = memory s0 \<Longrightarrow> quiet s0 (SCardGetAttrib_clnt h i b n s)"
  "memory s = memory s0 \<Longrightarrow> quiet s0 (SCardSetAttrib_clnt h i v s)"
  unfolding SCardGetAttrib_clnt_def SCardSetAttrib_clnt_def by (intro quiet; auto)+

lemma list_readers_quiet [quiet]: "memory s = memory s0 \<Longrightarrow> quiet s0 (SCardListReaders_clnt hCtx b n s)"
  unfolding SCardListReaders_clnt_def by (intro quiet) (auto simp: Let_def)

lemma cancel_quiet [quiet]: "memory s = memory s0 \<Longrightarrow> quiet s0 (SCardCancel_clnt hCtx s)"
  unfolding SCardCancel_clnt_def by (intro quiet) (auto dest!: session_memory)

lemma readers_pass_quiet [quiet]: "memory s = memory s0 \<Longrightarrow> quiet s0 (readers_pass c rs brk n s)"
proof (induction rs arbitrary: brk n s)
  case Nil
  then show ?case by (simp add: quiet_Some)
next
  case (Cons r rs)
  have "quiet s0 (reader_pass c r brk n s)"
    unfolding reader_pass_def pnp_pass_def by (intro quiet) (auto simp: Let_def Cons.prems)
  then show ?case
    unfolding readers_pass.simps by (intro quiet Cons.IH) auto
qed

lemma wait_round_quiet [quiet]: "memory s = memory s0 \<Longrightarrow> quiet s0 (status_wait_round c t time w s)"
  unfolding status_wait_round_def wait_for_message_def by (intro quiet) (auto simp: quiet_def Let_def)

lemma status_loop_quiet [quiet]: "memory s = memory s0 \<Longrightarrow> quiet s0 (status_loop ws c t time rs brk n s)"
proof (induction ws arbitrary: time rs brk n s)
  case Nil
  then show ?case unfolding status_loop.simps by (intro quiet) auto
next
  case (Cons w ws)
  then show ?case unfolding status_loop.simps by (intro quiet Cons.IH) auto
qed

lemma status_change_quiet [quiet]: "memory s = memory s0 \<Longrightarrow> quiet s0 (SCardGetStatusChange ws hCtx t rs s)"
  unfolding SCardGetStatusChange_def SCardGetStatusChange_body_def pnp_start_def status_end_def
  by (intro quiet) (auto simp: Let_def)

section \<open>The books\<close>

text \<open>A context: its number, its session, and its cards with the names of their readers.\<close>

type_synonym card = "SCARDHANDLE \<times> string"
type_synonym book = "SCARDCONTEXT \<times> int \<times> card list"

definition cards_in :: "clnt \<Rightarrow> nat \<Rightarrow> card list" where
  "cards_in s c = map (\<lambda>ch. (chCard (channelMaps s ch), chReaderName (channelMaps s ch))) (entries (channelMapList (contextMaps s c)))"

definition books :: "clnt \<Rightarrow> book list" where
  "books s = map (\<lambda>c. (mapContext (contextMaps s c), mapClientID (contextMaps s c), cards_in s c)) (entries (contextMapList s))"

text \<open>The lists are intact and the pointers in them are to different, allocated objects.\<close>

definition clnt_ok :: "clnt \<Rightarrow> bool" where
  "clnt_ok s \<longleftrightarrow> list_ok (contextMapList s) \<and> distinct (entries (contextMapList s)) \<and>
     (\<forall>c \<in> set (entries (contextMapList s)). c < freshMap s \<and> list_ok (channelMapList (contextMaps s c)) \<and>
       distinct (entries (channelMapList (contextMaps s c))) \<and>
       (\<forall>ch \<in> set (entries (channelMapList (contextMaps s c))). ch < freshChannel s)) \<and>
     (\<forall>c \<in> set (entries (contextMapList s)). \<forall>d \<in> set (entries (contextMapList s)). c \<noteq> d \<longrightarrow>
       set (entries (channelMapList (contextMaps s c))) \<inter> set (entries (channelMapList (contextMaps s d))) = {}) \<and>
     distinct (map fst (books s)) \<and> (initDone s \<or> entries (contextMapList s) = [])"

lemma memory_books: "memory s' = memory s \<Longrightarrow> books s' = books s"
  and memory_ok: "memory s' = memory s \<Longrightarrow> clnt_ok s' = clnt_ok s"
  by (simp_all add: memory_def books_def cards_in_def clnt_ok_def fun_eq_iff cong: ball_cong_simp)

section \<open>Looking up\<close>

lemma SCardGetContextTH_find:
  "SCardGetContextTH hCtx s = find (\<lambda>c. mapContext (contextMaps s c) = hCtx) (entries (contextMapList s))"
  by (simp add: SCardGetContextTH_def list_seek_def SCONTEXTMAP_seeker_def)

lemma seek_channel_find:
  "seek_channel c h s = find (\<lambda>ch. chCard (channelMaps s ch) = h) (entries (channelMapList (contextMaps s c)))"
  by (simp add: seek_channel_def list_seek_def CHANNEL_MAP_seeker_def)

lemma find_Some_in: "find P xs = Some x \<Longrightarrow> x \<in> set xs \<and> P x"
  by (auto simp: find_Some_iff)

lemma SCardGetContextTH_Some:
  "SCardGetContextTH hCtx s = Some c \<Longrightarrow> c \<in> set (entries (contextMapList s)) \<and> mapContext (contextMaps s c) = hCtx"
  unfolding SCardGetContextTH_find by (rule find_Some_in)

lemma SCardGetContextTH_None: "SCardGetContextTH hCtx s = None \<longleftrightarrow> hCtx \<notin> fst ` set (books s)"
  by (auto simp: SCardGetContextTH_find find_None_iff books_def image_image)

text \<open>The search for a card, on the books and on the pointers.\<close>

fun find_card :: "SCARDHANDLE \<Rightarrow> book list \<Rightarrow> (SCARDCONTEXT \<times> int \<times> string) option" where
  "find_card h [] = None"
| "find_card h ((x, fd, ks) # b) = (case find (\<lambda>k. fst k = h) ks of Some k \<Rightarrow> Some (x, fd, snd k) | None \<Rightarrow> find_card h b)"

fun find_pointers :: "SCARDHANDLE \<Rightarrow> clnt \<Rightarrow> nat list \<Rightarrow> (nat \<times> nat) option" where
  "find_pointers h s [] = None"
| "find_pointers h s (c # cs) = (case seek_channel c h s of Some ch \<Rightarrow> Some (c, ch) | None \<Rightarrow> find_pointers h s cs)"

lemma search_channel_pointers:
  assumes "list_ok (contextMapList s)"
  shows "search_channel [k..<length (entries (contextMapList s))] h s = find_pointers h s (drop k (entries (contextMapList s)))"
proof (induction "length (entries (contextMapList s)) - k" arbitrary: k)
  case (Suc n)
  then have "k < length (entries (contextMapList s))" by simp
  moreover from this Suc have "search_channel [Suc k..<length (entries (contextMapList s))] h s =
      find_pointers h s (drop (Suc k) (entries (contextMapList s)))" by simp
  ultimately show ?case
    by (simp add: upt_conv_Cons simclist.get_at [OF assms] flip: Cons_nth_drop_Suc split: option.splits)
qed simp

lemma lookup_pointers:
  "clnt_ok s \<Longrightarrow> SCardGetContextAndChannelFromHandleTH h s = find_pointers h s (entries (contextMapList s))"
  by (simp add: SCardGetContextAndChannelFromHandleTH_def clnt_ok_def simclist.size_of search_channel_pointers [of s 0, simplified])

lemma find_map_card:
  "find (\<lambda>k. fst k = h) (map (\<lambda>ch. (f ch, g ch)) xs) = map_option (\<lambda>ch. (f ch, g ch)) (find (\<lambda>ch. f ch = h) xs)"
  by (induction xs) simp_all

lemma find_pointers_card:
  "map_option (\<lambda>(c, ch). (mapContext (contextMaps s c), mapClientID (contextMaps s c), chReaderName (channelMaps s ch)))
     (find_pointers h s cs) =
   find_card h (map (\<lambda>c. (mapContext (contextMaps s c), mapClientID (contextMaps s c), cards_in s c)) cs)"
  by (induction cs) (auto simp: cards_in_def find_map_card seek_channel_find split: option.splits)

lemma lookup_card:
  assumes "clnt_ok s"
  shows "map_option (\<lambda>(c, ch). (mapContext (contextMaps s c), mapClientID (contextMaps s c), chReaderName (channelMaps s ch)))
     (SCardGetContextAndChannelFromHandleTH h s) = find_card h (books s)"
  by (simp add: lookup_pointers [OF assms] find_pointers_card books_def)

lemma find_pointers_Some:
  assumes "find_pointers h s cs = Some (c, ch)"
  shows "c \<in> set cs \<and> ch \<in> set (entries (channelMapList (contextMaps s c))) \<and> chCard (channelMaps s ch) = h"
  using assms by (induction cs) (auto simp: seek_channel_find split: option.splits dest: find_Some_in)

section \<open>Changing the books\<close>

fun add_card :: "SCARDCONTEXT \<Rightarrow> card \<Rightarrow> book list \<Rightarrow> book list" where
  "add_card hCtx k [] = []"
| "add_card hCtx k ((x, fd, ks) # b) = (if x = hCtx then (x, fd, ks @ [k]) # b else (x, fd, ks) # add_card hCtx k b)"

definition drop_key :: "SCARDHANDLE \<Rightarrow> card list \<Rightarrow> card list" where
  "drop_key h ks = takeWhile (\<lambda>k. fst k \<noteq> h) ks @ tl (dropWhile (\<lambda>k. fst k \<noteq> h) ks)"

fun drop_card :: "SCARDHANDLE \<Rightarrow> book list \<Rightarrow> book list" where
  "drop_card h [] = []"
| "drop_card h ((x, fd, ks) # b) = (if h \<in> fst ` set ks then (x, fd, drop_key h ks) # b else (x, fd, ks) # drop_card h b)"

definition drop_context :: "SCARDCONTEXT \<Rightarrow> book list \<Rightarrow> book list" where
  "drop_context hCtx b = filter (\<lambda>e. fst e \<noteq> hCtx) b"

text \<open>Contexts that a change of the memory does not touch.\<close>

lemma books_cong:
  assumes "entries (contextMapList s') = entries (contextMapList s)"
    and "\<And>c. c \<in> set (entries (contextMapList s)) \<Longrightarrow> mapContext (contextMaps s' c) = mapContext (contextMaps s c) \<and>
      mapClientID (contextMaps s' c) = mapClientID (contextMaps s c) \<and> cards_in s' c = cards_in s c"
  shows "books s' = books s"
  using assms by (simp add: books_def)

lemma cards_in_cong:
  assumes "entries (channelMapList (contextMaps s' c)) = entries (channelMapList (contextMaps s c))"
    and "\<And>ch. ch \<in> set (entries (channelMapList (contextMaps s c))) \<Longrightarrow> channelMaps s' ch = channelMaps s ch"
  shows "cards_in s' c = cards_in s c"
  using assms by (simp add: cards_in_def)

lemma map_fst_add_card [simp]: "map fst (add_card hCtx k b) = map fst b"
  by (induction hCtx k b rule: add_card.induct) auto

lemma map_fst_drop_card [simp]: "map fst (drop_card h b) = map fst b"
  by (induction h b rule: drop_card.induct) auto

lemma list_init_ok [simp]: "list_ok list_init" "entries list_init = []"
  by (simp_all add: list_ok_def list_repOk_def list_init_def)

lemma SCardAddContext_books:
  assumes "clnt_ok s" "hCtx \<notin> fst ` set (books s)" "initDone s" "SCardAddContext hCtx fd s = (rv, s')"
  shows "clnt_ok s' \<and> books s' = (if rv = SCARD_S_SUCCESS then books s @ [(hCtx, fd, [])] else books s)"
proof (cases "clientMem s")
  case False
  with assms show ?thesis by (auto simp: SCardAddContext_def)
next
  case True
  let ?c = "freshMap s" and ?l = "snd (list_append True (contextMapList s) (freshMap s))"
  let ?t = "s\<lparr>freshMap := ?c + 1, contextMapList := ?l, contextMaps := (contextMaps s)(?c := \<lparr>mapClientID = fd, mapContext = hCtx,
                  channelMapList = list_init, cancellable = False\<rparr>)\<rparr>"
  have l: "list_ok (contextMapList s)" using assms(1) by (simp add: clnt_ok_def)
  have "?c \<notin> set (entries (contextMapList s))" using assms(1) by (auto simp: clnt_ok_def)
  then have other: "c \<noteq> ?c" if "c \<in> set (entries (contextMapList s))" for c using that by auto
  have "fst (list_append True (contextMapList s) ?c) = 1" using list_append_repOk [OF l] by simp
  then have s': "rv = SCARD_S_SUCCESS" "s' = ?t"
    using True assms(4) by (auto simp: SCardAddContext_def Let_def case_prod_beta intro: clnt.equality)
  have e: "entries ?l = entries (contextMapList s) @ [?c]" "list_ok ?l" using list_append_repOk [OF l] by simp_all
  have b: "books ?t = books s @ [(hCtx, fd, [])]"
    using other by (simp add: books_def e cards_in_def)
  moreover have "clnt_ok ?t"
    using assms(1-3) other b e unfolding clnt_ok_def by (auto simp: less_Suc_eq)
  ultimately show ?thesis using s' by simp
qed

lemma SCardAddContext_succeeds:
  assumes "clientMem s" "list_ok (contextMapList s)"
  shows "fst (SCardAddContext hCtx fd s) = SCARD_S_SUCCESS"
  using assms list_append_repOk(1) [OF assms(2)] by (simp add: SCardAddContext_def Let_def case_prod_beta)

lemma remove1_key:
  assumes "distinct (map f xs)" "x \<in> set xs"
  shows "remove1 x xs = filter (\<lambda>y. f y \<noteq> f x) xs"
  using assms
proof (induction xs)
  case (Cons a xs)
  show ?case
  proof (cases "a = x")
    case True
    then have "f x \<notin> f ` set xs" using Cons.prems by simp
    then have "filter (\<lambda>y. f y \<noteq> f x) xs = xs" by (intro filter_True) (metis imageI)
    then show ?thesis using True by simp
  qed (use Cons in auto)
qed simp

lemma clnt_ok_fewer:
  assumes "clnt_ok s" "list_ok (contextMapList s')" "distinct (entries (contextMapList s'))"
    and "\<And>d. d \<in> set (entries (contextMapList s')) \<Longrightarrow> d \<in> set (entries (contextMapList s)) \<and> contextMaps s' d = contextMaps s d"
    and "freshMap s' = freshMap s" "freshChannel s' = freshChannel s" "distinct (map fst (books s'))"
    and "initDone s' \<or> entries (contextMapList s') = []"
  shows "clnt_ok s'"
  unfolding clnt_ok_def using assms(1) assms(2-3) assms(5-8)
  by (intro conjI ballI impI) (use assms(4) in \<open>auto simp: clnt_ok_def\<close>)

lemma SCardRemoveContext_books:
  assumes "clnt_ok s"
  shows "clnt_ok (SCardRemoveContext hCtx s) \<and> books (SCardRemoveContext hCtx s) = drop_context hCtx (books s)"
proof (cases "SCardGetContextTH hCtx s")
  case None
  then have "drop_context hCtx (books s) = books s"
    unfolding SCardGetContextTH_None drop_context_def by (intro filter_True) auto
  with None assms show ?thesis by (simp add: SCardRemoveContext_def)
next
  case (Some c)
  let ?cs = "entries (contextMapList s)" and ?s = "SCardRemoveContext hCtx s"
  note c = SCardGetContextTH_Some [OF Some]
  have l: "list_ok (contextMapList s)" using assms by (simp add: clnt_ok_def)
  have "distinct (map (\<lambda>c. mapContext (contextMaps s c)) ?cs)" using assms by (simp add: clnt_ok_def books_def comp_def)
  from remove1_key [OF this] c have r: "remove1 c ?cs = filter (\<lambda>d. mapContext (contextMaps s d) \<noteq> hCtx) ?cs" by simp
  have e: "entries (contextMapList ?s) = remove1 c ?cs" "list_ok (contextMapList ?s)"
    using Some simclist.delete_ok [OF l] simclist.inv_delete [OF l]
    by (simp_all add: SCardRemoveContext_def SCardCleanContext_def Let_def upd_map_def ClientCloseSession_def)
  have m: "contextMaps ?s d = contextMaps s d" if "d \<noteq> c" for d
    using Some that by (simp add: SCardRemoveContext_def SCardCleanContext_def Let_def upd_map_def ClientCloseSession_def)
  have f: "freshMap ?s = freshMap s" "freshChannel ?s = freshChannel s" "channelMaps ?s = channelMaps s" "initDone ?s = initDone s"
    using Some by (simp_all add: SCardRemoveContext_def SCardCleanContext_def Let_def upd_map_def ClientCloseSession_def)
  have sub: "d \<in> set ?cs \<and> d \<noteq> c" if "d \<in> set (remove1 c ?cs)" for d
    using that assms c unfolding clnt_ok_def by auto
  have k: "contextMaps ?s d = contextMaps s d" if "d \<in> set (remove1 c ?cs)" for d
    using sub [OF that] m by blast
  have "books ?s = map (\<lambda>d. (mapContext (contextMaps s d), mapClientID (contextMaps s d), cards_in s d)) (remove1 c ?cs)"
    unfolding books_def e(1) cards_in_def f(3) by (rule map_cong [OF refl]) (simp only: k)
  then have b: "books ?s = drop_context hCtx (books s)"
    by (simp add: r drop_context_def books_def filter_map comp_def)
  have d: "distinct (map fst (books ?s))"
    using assms unfolding b drop_context_def clnt_ok_def by (simp add: distinct_map_filter)
  have "distinct ?cs" "initDone s \<or> ?cs = []" using assms by (simp_all add: clnt_ok_def)
  then have d1: "distinct (entries (contextMapList ?s))" "initDone ?s \<or> entries (contextMapList ?s) = []"
    using e(1) f(4) by auto
  have "clnt_ok ?s"
    by (rule clnt_ok_fewer [OF assms e(2) d1(1) _ f(1,2) d d1(2)]) (use sub k e(1) in \<open>simp only: simp_thms\<close>)
  with b show ?thesis by simp
qed

text \<open>One context gets another list of cards.\<close>

definition with_cards :: "nat \<Rightarrow> nat list_t \<Rightarrow> clnt \<Rightarrow> clnt" where
  "with_cards c l s = upd_map c (\<lambda>m. m\<lparr>channelMapList := l\<rparr>) s"

lemma with_cards_books:
  assumes "clnt_ok s" "c \<in> set (entries (contextMapList s))" "list_ok l" "distinct (entries l)"
    and "\<And>ch. ch \<in> set (entries l) \<Longrightarrow> ch < freshChannel s"
    and "\<And>d. d \<in> set (entries (contextMapList s)) \<Longrightarrow> d \<noteq> c \<Longrightarrow> set (entries l) \<inter> set (entries (channelMapList (contextMaps s d))) = {}"
  shows "clnt_ok (with_cards c l s)"
    and "books (with_cards c l s) = map (\<lambda>d. (mapContext (contextMaps s d), mapClientID (contextMaps s d),
      if d = c then map (\<lambda>ch. (chCard (channelMaps s ch), chReaderName (channelMaps s ch))) (entries l) else cards_in s d))
      (entries (contextMapList s))"
proof -
  let ?t = "with_cards c l s"
  have m: "contextMaps ?t d = (if d = c then (contextMaps s c)\<lparr>channelMapList := l\<rparr> else contextMaps s d)" for d
    by (simp add: with_cards_def upd_map_def)
  have f: "contextMapList ?t = contextMapList s" "freshMap ?t = freshMap s" "freshChannel ?t = freshChannel s"
    "channelMaps ?t = channelMaps s" "initDone ?t = initDone s"
    by (simp_all add: with_cards_def upd_map_def)
  show b: "books ?t = map (\<lambda>d. (mapContext (contextMaps s d), mapClientID (contextMaps s d),
      if d = c then map (\<lambda>ch. (chCard (channelMaps s ch), chReaderName (channelMaps s ch))) (entries l) else cards_in s d))
      (entries (contextMapList s))"
    unfolding books_def cards_in_def f by (rule map_cong [OF refl]) (simp add: m)
  have "map fst (books ?t) = map fst (books s)" unfolding b by (simp add: books_def comp_def)
  then have d: "distinct (map fst (books ?t))" using assms(1) by (simp add: clnt_ok_def)
  have sep: "set (entries (channelMapList (contextMaps ?t d))) \<inter> set (entries (channelMapList (contextMaps ?t e))) = {}"
    if "d \<in> set (entries (contextMapList s))" "e \<in> set (entries (contextMapList s))" "d \<noteq> e" for d e
    using assms(1) assms(6) [of d] assms(6) [of e] that by (auto simp: m clnt_ok_def)
  have "d < freshMap s \<and> list_ok (channelMapList (contextMaps ?t d)) \<and> distinct (entries (channelMapList (contextMaps ?t d))) \<and>
      (\<forall>ch \<in> set (entries (channelMapList (contextMaps ?t d))). ch < freshChannel s)" if "d \<in> set (entries (contextMapList s))" for d
    using assms(1,3-5) that by (simp add: m clnt_ok_def)
  with d sep assms(1) show "clnt_ok ?t" unfolding clnt_ok_def f by blast
qed

lemma add_card_map:
  assumes "distinct (map f cs)" "c \<in> set cs"
  shows "add_card (f c) k (map (\<lambda>d. (f d, g d, ks d)) cs) = map (\<lambda>d. (f d, g d, if d = c then ks d @ [k] else ks d)) cs"
  using assms
proof (induction cs)
  case (Cons a cs)
  show ?case
  proof (cases "a = c")
    case True
    then have "d \<noteq> c" if "d \<in> set cs" for d using Cons.prems that by auto
    with True show ?thesis by simp
  next
    case False
    then have "f a \<noteq> f c" using Cons.prems by auto
    with False Cons show ?thesis by simp
  qed
qed simp

lemma SCardAddHandle_books:
  assumes "clnt_ok s" "c \<in> set (entries (contextMapList s))" "SCardAddHandle h c name s = (rv, s')"
  shows "clnt_ok s' \<and> books s' =
    (if rv = SCARD_S_SUCCESS then add_card (mapContext (contextMaps s c)) (h, name) (books s) else books s)"
proof (cases "clientMem s")
  case False
  with assms show ?thesis by (auto simp: SCardAddHandle_def)
next
  case True
  let ?ch = "freshChannel s" and ?l = "snd (list_append True (channelMapList (contextMaps s c)) (freshChannel s))"
  let ?t = "s\<lparr>freshChannel := ?ch + 1, channelMaps := (channelMaps s)(?ch := \<lparr>chCard = h, chReaderName = name\<rparr>)\<rparr>"
  have l: "list_ok (channelMapList (contextMaps s c))" using assms(1,2) by (simp add: clnt_ok_def)
  have "fst (list_append True (channelMapList (contextMaps s c)) ?ch) = 1" using list_append_repOk [OF l] by simp
  then have s': "rv = SCARD_S_SUCCESS" "s' = with_cards c ?l ?t"
    using True assms(3) by (auto simp: SCardAddHandle_def with_cards_def Let_def case_prod_beta)
  have e: "entries ?l = entries (channelMapList (contextMaps s c)) @ [?ch]" "list_ok ?l" using list_append_repOk [OF l] by simp_all
  have old: "ch < ?ch" if "d \<in> set (entries (contextMapList s))" "ch \<in> set (entries (channelMapList (contextMaps s d)))" for d ch
    using assms(1) that by (auto simp: clnt_ok_def)
  have cards_in: "cards_in ?t d = cards_in s d" if "d \<in> set (entries (contextMapList s))" for d
    using old [OF that] by (intro cards_in_cong) auto
  then have bt: "books ?t = books s" by (intro books_cong) auto
  then have ok: "clnt_ok ?t" using assms(1) unfolding clnt_ok_def by (auto simp: less_Suc_eq)
  have "distinct (entries ?l)" "\<And>ch. ch \<in> set (entries ?l) \<Longrightarrow> ch < freshChannel ?t"
    "\<And>d. d \<in> set (entries (contextMapList ?t)) \<Longrightarrow> d \<noteq> c \<Longrightarrow> set (entries ?l) \<inter> set (entries (channelMapList (contextMaps ?t d))) = {}"
    using assms(1,2) old [OF assms(2)] old unfolding e by (auto simp: clnt_ok_def less_Suc_eq)
  note t = with_cards_books [OF ok _ e(2) this, of c]
  have "distinct (map (\<lambda>d. mapContext (contextMaps s d)) (entries (contextMapList s)))"
    using assms(1) by (simp add: clnt_ok_def books_def comp_def)
  note a = add_card_map [OF this assms(2), of "(h, name)" "\<lambda>d. mapClientID (contextMaps s d)" "cards_in s"]
  have "map (\<lambda>ch. (chCard (channelMaps ?t ch), chReaderName (channelMaps ?t ch))) (entries ?l) = cards_in s c @ [(h, name)]"
    using old [OF assms(2)] by (auto simp: e cards_in_def)
  then have "books (with_cards c ?l ?t) = add_card (mapContext (contextMaps s c)) (h, name) (books s)"
    using t(2) assms(2) a cards_in by (simp add: books_def [of s] if_distrib cong: if_cong)
  with s' t(1) assms(2) show ?thesis by simp
qed

lemma SCardAddHandle_succeeds:
  assumes "clientMem s" "list_ok (channelMapList (contextMaps s c))"
  shows "fst (SCardAddHandle h c name s) = SCARD_S_SUCCESS"
  using assms list_append_repOk(1) [OF assms(2)] by (simp add: SCardAddHandle_def Let_def case_prod_beta)

lemma drop_key_map:
  "find (\<lambda>ch. f ch = h) chs = Some ch \<Longrightarrow> map (\<lambda>ch. (f ch, g ch)) (remove1 ch chs) = drop_key h (map (\<lambda>ch. (f ch, g ch)) chs)"
  by (induction chs) (auto simp: drop_key_def split: if_splits dest: find_Some_in)

lemma drop_card_map:
  assumes "find_pointers h s cs = Some (c, ch)" "distinct cs"
  shows "drop_card h (map (\<lambda>d. (f d, g d, cards_in s d)) cs) = map (\<lambda>d. (f d, g d, if d = c then drop_key h (cards_in s d) else cards_in s d)) cs"
  using assms
proof (induction cs)
  case (Cons a cs)
  have in_cards: "h \<in> fst ` set (cards_in s a) \<longleftrightarrow> seek_channel a h s \<noteq> None"
    by (auto simp: cards_in_def seek_channel_find find_None_iff image_iff)
  show ?case
  proof (cases "seek_channel a h s")
    case None
    then have "c \<noteq> a" using Cons.prems find_pointers_Some [of h s cs c ch] by auto
    with None in_cards Cons show ?thesis by simp
  next
    case (Some x)
    then have "c = a" using Cons.prems by simp
    then have "d \<noteq> c" if "d \<in> set cs" for d using Cons.prems(2) that by auto
    with Some in_cards \<open>c = a\<close> show ?thesis by simp
  qed
qed simp

lemma find_pointers_seek: "find_pointers h s cs = Some (c, ch) \<Longrightarrow> seek_channel c h s = Some ch"
  by (induction cs) (auto split: option.splits)

lemma SCardRemoveHandle_books:
  assumes "clnt_ok s"
  shows "clnt_ok (SCardRemoveHandle h s) \<and> books (SCardRemoveHandle h s) =
    (if find_card h (books s) = None then books s else drop_card h (books s))"
proof (cases "find_pointers h s (entries (contextMapList s))")
  case None
  then have "find_card h (books s) = None" using lookup_card [OF assms, of h] by (simp add: lookup_pointers [OF assms])
  with None assms show ?thesis by (simp add: SCardRemoveHandle_def lookup_pointers [OF assms])
next
  case (Some p)
  obtain c ch where p: "p = (c, ch)" by fastforce
  note f = find_pointers_Some [OF Some [unfolded p]]
  let ?k = "channelMapList (contextMaps s c)"
  let ?l = "snd (list_delete ?k ch)"
  have some: "find_card h (books s) \<noteq> None"
    using lookup_card [OF assms, of h] Some by (simp add: lookup_pointers [OF assms] p) (metis option.distinct(1))
  have s': "SCardRemoveHandle h s = with_cards c ?l s"
    using Some p by (simp add: SCardRemoveHandle_def lookup_pointers [OF assms] with_cards_def upd_map_def)
  have k: "list_ok ?k" "distinct (entries ?k)" using assms f by (simp_all add: clnt_ok_def)
  have e: "entries ?l = remove1 ch (entries ?k)" "list_ok ?l"
    using simclist.delete_ok [OF k(1)] simclist.inv_delete [OF k(1)] by simp_all
  have sub: "x \<in> set (entries ?l) \<Longrightarrow> x \<in> set (entries ?k)" for x using e(1) notin_set_remove1 by fastforce
  have "distinct (entries ?l)" using k(2) e(1) by (simp add: distinct_remove1)
  moreover have "x \<in> set (entries ?l) \<Longrightarrow> x < freshChannel s" for x using sub assms f by (auto simp: clnt_ok_def)
  moreover have "set (entries ?l) \<inter> set (entries (channelMapList (contextMaps s d))) = {}"
    if "d \<in> set (entries (contextMapList s))" "d \<noteq> c" for d
  proof -
    have "set (entries ?k) \<inter> set (entries (channelMapList (contextMaps s d))) = {}"
      using assms f that unfolding clnt_ok_def by metis
    then show ?thesis using sub by blast
  qed
  ultimately have t: "clnt_ok (with_cards c ?l s)"
    "books (with_cards c ?l s) = map (\<lambda>d. (mapContext (contextMaps s d), mapClientID (contextMaps s d),
      if d = c then map (\<lambda>ch. (chCard (channelMaps s ch), chReaderName (channelMaps s ch))) (entries ?l) else cards_in s d))
      (entries (contextMapList s))"
    using with_cards_books [OF assms conjunct1 [OF f] e(2)] by blast+
  have "find (\<lambda>ch. chCard (channelMaps s ch) = h) (entries ?k) = Some ch"
    using find_pointers_seek [OF Some [unfolded p]] by (simp add: seek_channel_find)
  from drop_key_map [OF this, of "\<lambda>ch. chReaderName (channelMaps s ch)"]
  have "map (\<lambda>ch. (chCard (channelMaps s ch), chReaderName (channelMaps s ch))) (entries ?l) = drop_key h (cards_in s c)"
    by (simp add: e(1) cards_in_def)
  moreover have "distinct (entries (contextMapList s))" using assms by (simp add: clnt_ok_def)
  note drop_card_map [OF Some [unfolded p] this, of "\<lambda>d. mapContext (contextMaps s d)" "\<lambda>d. mapClientID (contextMaps s d)"]
  ultimately have "books (with_cards c ?l s) = drop_card h (books s)"
    unfolding t(2) books_def [of s] by (simp cong: if_cong)
  with t(1) s' some show ?thesis by auto
qed

end
