(* ===== verification/Clnt_Books.thy ===== *)
theory Clnt_Books
  imports Clnt_Inv Clnt_States
begin

text \<open>
  The functions of the API on the books of the client library: an application that calls them in any
  order, whatever the daemon answers, keeps its books in order, and they change as the calls say.
\<close>

section \<open>The calls that change the books\<close>

text \<open>A pointer found before an exchange is the one found after it.\<close>

lemma memory_lookup:
  assumes "memory s' = memory s"
  shows "SCardGetContextTH hCtx s' = SCardGetContextTH hCtx s"
    and "mapContext (contextMaps s' c) = mapContext (contextMaps s c)" "contextMapList s' = contextMapList s"
  using assms by (simp_all add: memory_def SCardGetContextTH_find fun_eq_iff)

lemma establish_again_fresh:
  assumes "establish_again fd scope s = Some (Inr hCtx, s')"
  shows "hCtx \<notin> fst ` set (books s)"
proof -
  have "\<forall>x. fst (Inr hCtx :: LONG + SCARDCONTEXT, s') = Inr x \<longrightarrow> x \<notin> fst ` set (books s)"
  proof (rule establish_again.raw_induct [OF _ assms, where P = "\<lambda>fd scope s y. \<forall>hCtx. fst y = Inr hCtx \<longrightarrow> hCtx \<notin> fst ` set (books s)"], goal_cases)
    case (1 f fd scope s y)
    from 1(2) obtain rv b t where r: "request SCARD_ESTABLISH_CONTEXT
        (establish_struct_image \<lparr>es_dwScope = ucast scope, es_hContext = 0, es_rv = word_of_int SCARD_S_SUCCESS\<rparr>) 12 fd s = Some ((rv, b), t)"
      by (auto simp: bind_eq_Some_conv)
    have m: "memory t = memory s" using quietD [OF request_quiet [OF refl] r] by simp
    have ctx: "SCardGetContextTH x t \<noteq> None \<longleftrightarrow> x \<in> fst ` set (books s)" for x
      unfolding SCardGetContextTH_None memory_books [OF m] by simp
    have again: "x \<notin> fst ` set (books s)" if "f fd scope t = Some y" "fst y = Inr x" for x
      using 1(1) [OF that(1)] that(2) unfolding memory_books [OF m] by blast
    have *: "f fd scope t = Some y \<or> (\<exists>x. fst y = Inl x) \<or> (\<exists>x. fst y = Inr x \<and> SCardGetContextTH x t = None)"
      using 1(2) r by (auto simp: Let_def split: if_splits)
    show ?case
    proof (intro allI impI)
      fix x
      assume "fst y = Inr x"
      with * consider "f fd scope t = Some y" | "SCardGetContextTH x t = None" by auto
      then show "x \<notin> fst ` set (books s)"
        by cases (use again [of x] \<open>fst y = Inr x\<close> ctx [of x] in simp_all)
    qed
  qed
  then show ?thesis by simp
qed

lemma init_lib_once_books:
  assumes "clnt_ok s"
  shows "clnt_ok (init_lib_once s) \<and> books (init_lib_once s) = books s \<and> initDone (init_lib_once s)"
proof (cases "initDone s")
  case False
  then have "entries (contextMapList s) = []" using assms by (simp add: clnt_ok_def)
  with False show ?thesis
    by (auto simp: init_lib_once_def init_lib_def Let_def clnt_ok_def books_def)
qed (use assms in \<open>simp add: init_lib_once_def\<close>)

lemma SCardEstablishContextTH_cases:
  assumes "SCardEstablishContextTH scope b s = Some ((rv, ctx), s')"
  obtains "s' = s" | "memory s' = memory (init_lib_once s)"
    | hCtx fd t where "hCtx \<notin> fst ` set (books t)" "memory t = memory (init_lib_once s)" "SCardAddContext hCtx fd t = (rv, s')" "ctx = Some hCtx"
proof -
  let ?i = "init_lib_once s" and ?ve = "\<lparr>ve_major = word_of_int PROTOCOL_VERSION_MAJOR, ve_minor = word_of_int PROTOCOL_VERSION_MINOR, ve_rv = 0\<rparr>"
  obtain r t where t: "ClientSetupSession ?i = (r, t)" by fastforce
  note mt = session_memory [OF t]
  show thesis
  proof (cases "b \<and> isExecuted ?i \<and> r \<noteq> None")
    case False
    then have "s' = s \<or> s' = ?i \<or> s' = t"
      using assms t by (auto simp: SCardEstablishContextTH_def Let_def split: if_splits option.splits)
    with that(1,2) mt show thesis by blast
  next
    case True
    then obtain fd where r: "r = Some fd" by blast
    let ?v = "\<lambda>v u. u\<lparr>Protocol_version := sint (ve_major v) * 1000 + sint (ve_minor v)\<rparr>"
    from True assms t r obtain v u where n: "negotiate fd ?ve t = Some (v, u)"
      and rest: "(case v of Inl rv \<Rightarrow> Some ((rv, Some 0), ClientCloseSession fd u)
        | Inr v \<Rightarrow> let s = ?v v u in map_option (\<lambda>(r, s). case r of Inl rv \<Rightarrow> ((rv, Some 0), ClientCloseSession fd s)
            | Inr hCtx \<Rightarrow> (case SCardAddContext hCtx fd s of (rv, s) \<Rightarrow> ((rv, Some hCtx), s))) (establish_again fd scope s)) =
          Some ((rv, ctx), s')"
      by (auto simp: SCardEstablishContextTH_def Let_def bind_eq_Some_conv)
    have mu: "memory u = memory ?i" using quietD [OF negotiate_quiet [OF refl] n] mt by simp
    show thesis
    proof (cases v)
      case (Inl e)
      with rest mu that(2) show thesis by auto
    next
      case (Inr v')
      from rest Inr obtain e w where e: "establish_again fd scope (?v v' u) = Some (e, w)"
        and w: "(case e of Inl rv \<Rightarrow> ((rv, Some 0), ClientCloseSession fd w)
          | Inr hCtx \<Rightarrow> (case SCardAddContext hCtx fd w of (rv, s) \<Rightarrow> ((rv, Some hCtx), s))) = ((rv, ctx), s')"
        by (auto simp: Let_def)
      have mw: "memory w = memory ?i" using quietD [OF establish_again_quiet [OF refl] e] mu by simp
      show thesis
      proof (cases e)
        case (Inl rv')
        with w mw that(2) show thesis by auto
      next
        case (Inr hCtx)
        with e have "hCtx \<notin> fst ` set (books (?v v' u))" by (intro establish_again_fresh) simp
        moreover have "books w = books (?v v' u)" using mw mu by (intro memory_books) simp
        ultimately show thesis using that(3) [of hCtx w fd] mw w Inr by (auto split: prod.splits)
      qed
    qed
  qed
qed

lemma establish_books:
  assumes "clnt_ok s" "SCardEstablishContext_clnt scope b s = Some ((rv, ctx), s')"
  shows "clnt_ok s' \<and> (books s' = books s \<or>
    (\<exists>hCtx fd. rv = SCARD_S_SUCCESS \<and> ctx = Some hCtx \<and> hCtx \<notin> fst ` set (books s) \<and> books s' = books s @ [(hCtx, fd, [])]))"
proof -
  let ?i = "init_lib_once s"
  note i = init_lib_once_books [OF assms(1)]
  have same: "clnt_ok t \<and> books t = books s" if "memory t = memory ?i" for t
    using i memory_ok [OF that] memory_books [OF that] by simp
  have "s' = s \<or> SCardEstablishContextTH scope b s = Some ((rv, ctx), s')"
    using assms(2) by (auto simp: SCardEstablishContext_clnt_def Let_def split: if_splits)
  then consider "s' = s" | "memory s' = memory ?i"
    | hCtx fd t where "hCtx \<notin> fst ` set (books t)" "memory t = memory ?i" "SCardAddContext hCtx fd t = (rv, s')" "ctx = Some hCtx"
  proof (elim disjE)
    assume "SCardEstablishContextTH scope b s = Some ((rv, ctx), s')"
    from SCardEstablishContextTH_cases [OF this, of ?thesis] that show ?thesis by metis
  qed (rule that)
  then show ?thesis
  proof cases
    case 1
    with assms(1) show ?thesis by simp
  next
    case 2
    with same show ?thesis by simp
  next
    case 3
    then have "initDone t" using i by (simp add: memory_def)
    with 3 SCardAddContext_books [of t hCtx fd rv s'] same [OF 3(2)] show ?thesis by auto
  qed
qed

lemma release_books:
  assumes "clnt_ok s" "SCardReleaseContext_clnt hCtx s = Some (rv, s')"
  shows "clnt_ok s' \<and> books s' = (if hCtx \<in> fst ` set (books s) then drop_context hCtx (books s) else books s)"
proof (cases "SCardGetContextTH hCtx s")
  case None
  moreover from this have "hCtx \<notin> fst ` set (books s)" by (simp add: SCardGetContextTH_None)
  ultimately show ?thesis using assms by (simp add: SCardReleaseContext_clnt_def SCardGetAndLockContext_def)
next
  case (Some c)
  then obtain x t where r: "request SCARD_RELEASE_CONTEXT (release_struct_image
      \<lparr>re_hContext = word_of_int hCtx, re_rv = word_of_int SCARD_S_SUCCESS\<rparr>) 8 (mapClientID (contextMaps s c)) s = Some (x, t)"
    and s': "s' = SCardRemoveContext hCtx t"
    using assms(2) by (auto simp: SCardReleaseContext_clnt_def SCardGetAndLockContext_def)
  have m: "memory t = memory s" using quietD [OF request_quiet [OF refl] r] by simp
  have "hCtx \<in> fst ` set (books s)" using Some SCardGetContextTH_None [of hCtx s] by (metis option.distinct(1))
  with SCardRemoveContext_books [of t hCtx] s' assms(1) memory_ok [OF m] memory_books [OF m] show ?thesis by simp
qed

lemma connect_books:
  assumes "clnt_ok s" "SCardConnect_clnt a b hCtx reader mode pref s = Some ((rv, handle, proto), s')"
  shows "clnt_ok s' \<and> (if rv = SCARD_S_SUCCESS
    then \<exists>h name. handle = Some h \<and> reader = Some name \<and> hCtx \<in> fst ` set (books s) \<and> books s' = add_card hCtx (h, name) (books s)
    else books s' = books s)"
proof (cases "a \<and> b \<and> (\<exists>name. reader = Some name \<and> length name \<le> MAX_READERNAME) \<and> SCardGetContextTH hCtx s \<noteq> None")
  case False
  with assms show ?thesis
    by (auto simp: SCardConnect_clnt_def SCardGetAndLockContext_def split: if_splits option.splits)
next
  case True
  then obtain name c where nc: "reader = Some name" "SCardGetContextTH hCtx s = Some c" "length name \<le> MAX_READERNAME" by auto
  note c = SCardGetContextTH_Some [OF nc(2)]
  let ?msg = "connect_struct_image \<lparr>co_hContext = word_of_int hCtx, co_szReader = connect_name name,
    co_dwShareMode = ucast mode, co_dwPreferredProtocols = ucast pref,
    co_hCard = 0, co_dwActiveProtocol = 0, co_rv = word_of_int SCARD_S_SUCCESS\<rparr>"
  obtain r w t where q: "request SCARD_CONNECT ?msg 152 (mapClientID (contextMaps s c)) s = Some ((r, w), t)"
    and res: "rv \<noteq> SCARD_S_SUCCESS \<and> s' = t \<or> (\<exists>h. handle = Some h \<and> SCardAddHandle h c name t = (rv, s'))"
    using True nc assms(2)
    by (auto simp: SCardConnect_clnt_def SCardGetAndLockContext_def Let_def split: if_splits prod.splits)
  have m: "memory t = memory s" using quietD [OF request_quiet [OF refl] q] by simp
  have t: "clnt_ok t" "books t = books s" using assms(1) memory_ok [OF m] memory_books [OF m] by simp_all
  have ct: "c \<in> set (entries (contextMapList t))" "mapContext (contextMaps t c) = hCtx"
    using c memory_lookup [OF m] by simp_all
  have "hCtx \<in> fst ` set (books s)" using nc(2) SCardGetContextTH_None [of hCtx s] by (metis option.distinct(1))
  with res t SCardAddHandle_books [OF t(1) ct(1), of _ name rv s'] ct(2) nc(1) show ?thesis by auto
qed

lemma disconnect_books:
  assumes "clnt_ok s" "SCardDisconnect_clnt h d s = Some (rv, s')"
  shows "clnt_ok s' \<and> books s' = (if rv = SCARD_S_SUCCESS then drop_card h (books s) else books s)"
proof (cases "SCardGetContextChannelAndLockFromHandle h s")
  case None
  with assms show ?thesis by (simp add: SCardDisconnect_clnt_def)
next
  case (Some p)
  obtain c ch where p: "p = (c, ch)" by fastforce
  have l: "SCardGetContextAndChannelFromHandleTH h s = Some (c, ch)"
    using Some p by (simp add: SCardGetContextChannelAndLockFromHandle_def split: if_splits)
  then have found: "find_card h (books s) \<noteq> None"
    using lookup_card [OF assms(1), of h] by (cases "find_card h (books s)") simp_all
  obtain r b t where q: "request SCARD_DISCONNECT (disconnect_struct_image \<lparr>di_hCard = word_of_int h, di_dwDisposition = ucast d,
      di_rv = word_of_int SCARD_S_SUCCESS\<rparr>) 12 (mapClientID (contextMaps s c)) s = Some ((r, b), t)"
    and s': "s' = (if rv = SCARD_S_SUCCESS then SCardRemoveHandle h t else t)"
    using assms(2) Some p by (auto simp: SCardDisconnect_clnt_def Let_def split: if_splits)
  have m: "memory t = memory s" using quietD [OF request_quiet [OF refl] q] by simp
  from SCardRemoveHandle_books [of t h] s' assms(1) memory_ok [OF m] memory_books [OF m] found show ?thesis by auto
qed

section \<open>The books as a specification\<close>

text \<open>What may happen to the books of an application.\<close>

inductive book_step :: "book list \<Rightarrow> book list \<Rightarrow> bool" where
  open_context: "hCtx \<notin> fst ` set b \<Longrightarrow> book_step b (b @ [(hCtx, fd, [])])"
| close_context: "hCtx \<in> fst ` set b \<Longrightarrow> book_step b (drop_context hCtx b)"
| add: "hCtx \<in> fst ` set b \<Longrightarrow> book_step b (add_card hCtx (h, name) b)"
| drop: "book_step b (drop_card h b)"

text \<open>
  The calls of an application, in any order, and between them whatever the daemon, the operating
  system and the clock do to the links, the sessions to come and the memory that is left.
\<close>

inductive client_step :: "clnt \<Rightarrow> clnt \<Rightarrow> bool" where
  establish: "SCardEstablishContext_clnt scope p s = Some (x, s') \<Longrightarrow> client_step s s'"
| release: "SCardReleaseContext_clnt hCtx s = Some (rv, s') \<Longrightarrow> client_step s s'"
| connect: "SCardConnect_clnt a b hCtx reader mode pref s = Some (y, s') \<Longrightarrow> client_step s s'"
| reconnect: "SCardReconnect_clnt h mode pref ini p s = Some (z, s') \<Longrightarrow> client_step s s'"
| disconnect: "SCardDisconnect_clnt h d s = Some (rv, s') \<Longrightarrow> client_step s s'"
| begin_transaction: "SCardBeginTransaction_clnt h s = Some (rv, s') \<Longrightarrow> client_step s s'"
| end_transaction: "SCardEndTransaction_clnt h d s = Some (rv, s') \<Longrightarrow> client_step s s'"
| status: "SCardStatus_clnt h n nl st pr at al s = Some (v, s') \<Longrightarrow> client_step s s'"
| status_change: "SCardGetStatusChange ws hCtx t rs s = Some (u, s') \<Longrightarrow> client_step s s'"
| control: "SCardControl_clnt h code data n r s = Some (q, s') \<Longrightarrow> client_step s s'"
| get_attrib: "SCardGetAttrib_clnt h i p' n' s = Some (o', s') \<Longrightarrow> client_step s s'"
| set_attrib: "SCardSetAttrib_clnt h i val s = Some (rv, s') \<Longrightarrow> client_step s s'"
| transmit: "SCardTransmit_clnt h pci dat rpci buf len s = Some (l', s') \<Longrightarrow> client_step s s'"
| list_readers: "SCardListReaders_clnt hCtx m room s = Some (k, s') \<Longrightarrow> client_step s s'"
| cancel: "SCardCancel_clnt hCtx s = Some (rv, s') \<Longrightarrow> client_step s s'"
| world: "client_step s (s\<lparr>links := lk, attempts := as, fileThere := ft, clientMem := cm\<rparr>)"

lemma quiet_step:
  assumes "quiet s m" "m = Some (x, s')" "clnt_ok s"
  shows "clnt_ok s' \<and> books s' = books s"
  using quietD [OF assms(1,2)] assms(3) memory_ok [of s' s] memory_books [of s' s] by simp

lemma client_step_books:
  assumes "client_step s s'" "clnt_ok s"
  shows "clnt_ok s' \<and> (books s' = books s \<or> book_step (books s) (books s'))"
  using assms
proof cases
  case (establish scope p x)
  obtain rv ctx where "x = (rv, ctx)" by fastforce
  with establish_books [OF assms(2)] establish show ?thesis by (metis open_context)
next
  case (release hCtx rv)
  from release_books [OF assms(2) this] close_context show ?thesis by (metis)
next
  case (connect a b hCtx reader mode pref y)
  obtain rv handle proto where "y = (rv, handle, proto)" using prod_cases3 by blast
  with connect_books [OF assms(2)] connect show ?thesis by (metis add)
next
  case (disconnect h d rv)
  from disconnect_books [OF assms(2) this] drop show ?thesis by metis
next
  case (world lk as ft cm)
  then have "memory s' = memory s" by (simp add: memory_def)
  with assms(2) memory_ok memory_books show ?thesis by metis
qed (blast dest: quiet_step [OF reconnect_quiet [OF refl] _ assms(2)] quiet_step [OF begin_quiet [OF refl] _ assms(2)]
    quiet_step [OF end_quiet [OF refl] _ assms(2)] quiet_step [OF status_quiet [OF refl] _ assms(2)]
    quiet_step [OF status_change_quiet [OF refl] _ assms(2)] quiet_step [OF control_quiet [OF refl] _ assms(2)]
    quiet_step [OF attrib_quiet(1) [OF refl] _ assms(2)] quiet_step [OF attrib_quiet(2) [OF refl] _ assms(2)]
    quiet_step [OF transmit_quiet [OF refl] _ assms(2)] quiet_step [OF list_readers_quiet [OF refl] _ assms(2)]
    quiet_step [OF cancel_quiet [OF refl] _ assms(2)])+

lemma client_run_books:
  assumes "client_step\<^sup>*\<^sup>* s s'" "clnt_ok s"
  shows "clnt_ok s' \<and> book_step\<^sup>*\<^sup>* (books s) (books s')"
  using assms
proof (induction rule: rtranclp_induct)
  case (step t u)
  with client_step_books [of t u] show ?case by (metis rtranclp.rtrancl_into_rtrancl)
qed simp

section \<open>Cards in the books\<close>

lemma find_card_Cons_None: "find_card h ((x, fd, ks) # b) = None \<longleftrightarrow> h \<notin> fst ` set ks \<and> find_card h b = None"
  using find_key_None_iff [of fst h ks] by (cases "find (\<lambda>k. fst k = h) ks") auto

lemma find_card_add_same:
  "find_card h b = None \<Longrightarrow> hCtx \<in> fst ` set b \<Longrightarrow> \<exists>fd. find_card h (add_card hCtx (h, name) b) = Some (hCtx, fd, name)"
proof (induction b)
  case (Cons e b)
  then show ?case by (cases e) (auto simp: find_append split: option.splits)
qed simp

lemma find_card_add_other: "h' \<noteq> h \<Longrightarrow> find_card h' (add_card hCtx (h, name) b) = find_card h' b"
proof (induction b)
  case (Cons e b)
  then show ?case by (cases e) (auto simp: find_append split: option.splits)
qed simp

lemma drop_key_append: "h \<notin> fst ` set ks \<Longrightarrow> drop_key h (ks @ [(h, name)]) = ks"
  by (induction ks) (auto simp: drop_key_def)

lemma drop_card_add:
  "find_card h b = None \<Longrightarrow> hCtx \<in> fst ` set b \<Longrightarrow> drop_card h (add_card hCtx (h, name) b) = b"
proof (induction b)
  case (Cons e b)
  obtain x fd ks where e: "e = (x, fd, ks)" using prod_cases3 by blast
  from Cons.prems(1) have "h \<notin> fst ` set ks" "find_card h b = None" unfolding e find_card_Cons_None by simp_all
  with Cons show ?case by (auto simp: e drop_key_append)
qed simp

section \<open>Claims\<close>

text \<open>The library before its first call, and what a search by handle finds.\<close>

definition clnt_start :: "clnt \<Rightarrow> bool" where
  "clnt_start s \<longleftrightarrow> \<not> initDone s \<and> list_ok (contextMapList s) \<and> entries (contextMapList s) = []"

definition card_of :: "clnt \<Rightarrow> SCARDHANDLE \<Rightarrow> (SCARDCONTEXT \<times> int \<times> string) option" where
  "card_of s h = map_option (\<lambda>(c, ch). (mapContext (contextMaps s c), mapClientID (contextMaps s c), chReaderName (channelMaps s ch)))
     (SCardGetContextAndChannelFromHandleTH h s)"


text \<open>
  C30. A connection is in the books until it is closed: after a successful \<^verbatim>\<open>SCardConnect\<close> with a
  handle the application does not have yet, the handle is found with its context and the name of its
  reader and every other handle as before; a successful \<^verbatim>\<open>SCardDisconnect\<close> restores the books and the
  handle is not found any more.
\<close>

theorem client_connect_disconnect:
  assumes "clnt_ok s" "SCardConnect_clnt True True hCtx (Some name) mode pref s = Some ((SCARD_S_SUCCESS, Some h, proto), s1)"
    and "card_of s h = None"
  shows "(\<exists>fd. card_of s1 h = Some (hCtx, fd, name)) \<and> (\<forall>h'. h' \<noteq> h \<longrightarrow> card_of s1 h' = card_of s h') \<and>
    (\<forall>d s2. SCardDisconnect_clnt h d s1 = Some (SCARD_S_SUCCESS, s2) \<longrightarrow> books s2 = books s \<and> card_of s2 h = None)"
proof -
  have find: "card_of t x = find_card x (books t)" if "clnt_ok t" for t x
    using lookup_card [OF that] by (simp add: card_of_def)
  have s1: "clnt_ok s1" "hCtx \<in> fst ` set (books s)" "books s1 = add_card hCtx (h, name) (books s)"
    using connect_books [OF assms(1,2)] by auto
  have none: "find_card h (books s) = None" using assms(3) find [OF assms(1)] by simp
  moreover have "books s2 = books s \<and> card_of s2 h = None" if "SCardDisconnect_clnt h d s1 = Some (SCARD_S_SUCCESS, s2)" for d s2
    using disconnect_books [OF s1(1) that] drop_card_add [OF none s1(2)] s1(3) none find [of s2] by simp
  ultimately show ?thesis
    using find [OF assms(1)] find [OF s1(1)] s1(2,3) find_card_add_same find_card_add_other by simp
qed

section \<open>An example\<close>

text \<open>An application opens its first context; the daemon gives it the number 9.\<close>

definition ex_fresh :: "bytes \<Rightarrow> clnt" where
  "ex_fresh b = (ex_clnt b)\<lparr>initDone := False, isExecuted := False, contextMapList := list_init, freshMap := 0,
     attempts := [\<lparr>sockFd = 3, connectOk = True, getFlagsOk = True, setFlagsOk = True\<rparr>]\<rparr>"

definition ex_hello :: bytes where
  "ex_hello = version_struct_image \<lparr>ve_major = 4, ve_minor = 6, ve_rv = 0\<rparr> @
     establish_struct_image \<lparr>es_dwScope = 2, es_hContext = 9, es_rv = 0\<rparr>"

lemma ex_established:
  "\<exists>s. SCardEstablishContext_clnt 2 True (ex_fresh ex_hello) = Some ((SCARD_S_SUCCESS, Some 9), s) \<and> books s = [(9, 3, [])]"
proof -
  let ?v = "\<lparr>ve_major = 4, ve_minor = 6, ve_rv = 0\<rparr>" and ?e = "\<lparr>es_dwScope = 2, es_hContext = 9, es_rv = 0\<rparr>"
  define t where "t = (init_lib_once (ex_fresh ex_hello))\<lparr>attempts := []\<rparr>"
  have t: "ClientSetupSession (init_lib_once (ex_fresh ex_hello)) = (Some 3, t)" "isExecuted (init_lib_once (ex_fresh ex_hello))"
    "links t fd = ex_link ex_hello" "contextMapList t = list_init" "clientMem t" "initDone t" for fd
    by (simp_all add: t_def ClientSetupSession_def init_lib_once_def init_lib_def ex_fresh_def ex_clnt_def)
  obtain k1 where k1: "negotiate 3 \<lparr>ve_major = word_of_int PROTOCOL_VERSION_MAJOR, ve_minor = word_of_int PROTOCOL_VERSION_MINOR, ve_rv = 0\<rparr> t =
      Some (Inr ?v, set_link 3 k1 t)" "rx k1 = establish_struct_image ?e" "link_ready 12 20 k1"
    by (rule negotiate_ready [of t 3 ?v "establish_struct_image ?e" 12 20]) (simp_all add: t(3), simp add: ex_hello_def)
  let ?u = "(set_link 3 k1 t)\<lparr>Protocol_version := 4006\<rparr>"
  have c: "SCardGetContextTH (uint (es_hContext ?e)) ?u = None" using t(4) by (simp add: SCardGetContextTH_find)
  obtain k2 where k2: "establish_again 3 2 ?u = Some (Inr 9, set_link 3 k2 ?u)"
    by (rule establish_again_ready [of ?u 3 ?e "[]" 0 0 2]) (use k1 c in simp_all)
  obtain rv s where s: "SCardAddContext 9 3 (set_link 3 k2 ?u) = (rv, s)" by fastforce
  have "rv = SCARD_S_SUCCESS \<and> books s = [(9, 3, [])]"
    using s t(4-6) SCardAddContext_succeeds [of "set_link 3 k2 ?u" 9 3] SCardAddContext_books [of "set_link 3 k2 ?u" 9 3 rv s]
    by (simp add: clnt_ok_def books_def)
  moreover have "SCardEstablishContext_clnt 2 True (ex_fresh ex_hello) = Some ((rv, Some 9), s)"
    using t(1,2) k1(1) k2 s
    by (simp add: SCardEstablishContext_clnt_def SCardEstablishContextTH_def daemon_available_def SCardCheckDaemonAvailability_def)
      (simp add: ex_fresh_def ex_clnt_def)
  ultimately show ?thesis by blast
qed


text \<open>The card in the reader \<^verbatim>\<open>R\<close> is connected in the context 5, with the handle 7.\<close>

definition ex_granted :: connect_struct where
  "ex_granted = \<lparr>co_hContext = 5, co_szReader = replicate 128 0, co_dwShareMode = 2, co_dwPreferredProtocols = 3,
     co_hCard = 7, co_dwActiveProtocol = 1, co_rv = 0\<rparr>"

theorem client_connect_disconnect_witness:
  "\<exists>s1. SCardConnect_clnt True True 5 (Some ''R'') 2 3 (ex_clnt (connect_struct_image ex_granted)) =
     Some ((SCARD_S_SUCCESS, Some 7, Some 1), s1) \<and> (\<exists>fd. card_of s1 7 = Some (5, fd, ''R''))"
proof -
  let ?s = "ex_clnt (connect_struct_image ex_granted)"
  have f: "entries (contextMapList ?s) = [0]" "mapContext (contextMaps ?s c) = 5" "channelMapList (contextMaps ?s c) = list_init"
    "list_ok (contextMapList ?s)" "freshMap ?s = 1" "initDone ?s" "clientMem ?s" for c
    by (simp_all add: ex_clnt_def)
  have ok: "clnt_ok ?s" by (simp add: clnt_ok_def f books_def)
  have g: "length (co_szReader ex_granted) = 128" "co_rv ex_granted = 0" "co_hCard ex_granted = 7" "co_dwActiveProtocol ex_granted = 1"
    by (simp_all add: ex_granted_def)
  let ?msg = "connect_struct_image \<lparr>co_hContext = word_of_int 5, co_szReader = connect_name ''R'', co_dwShareMode = ucast (2 :: DWORD),
    co_dwPreferredProtocols = ucast (3 :: DWORD), co_hCard = 0, co_dwActiveProtocol = 0, co_rv = word_of_int SCARD_S_SUCCESS\<rparr>"
  have "length ?msg = 152" by (subst coStr.size) (simp_all add: connect_name_def)
  then obtain k where k: "request SCARD_CONNECT ?msg 152 3 ?s = Some ((SCARD_S_SUCCESS, connect_struct_image ex_granted), set_link 3 k ?s)"
    using request_ready [of ?s 3 "connect_struct_image ex_granted" "[]" 0 SCARD_CONNECT ?msg 0] coStr.size [of ex_granted] g(1) by auto
  obtain rv s1 where s1: "SCardAddHandle 7 0 ''R'' (set_link 3 k ?s) = (rv, s1)" by fastforce
  have "rv = SCARD_S_SUCCESS"
    using s1 SCardAddHandle_succeeds [of "set_link 3 k ?s" 0 7 "''R''"] f(3,7) by simp
  with s1 have c: "SCardConnect_clnt True True 5 (Some ''R'') 2 3 ?s = Some ((SCARD_S_SUCCESS, Some 7, Some 1), s1)"
    using ex_context [of "connect_struct_image ex_granted"] k g coStr.dec_enc [of ex_granted]
    by (simp add: SCardConnect_clnt_def Let_def)
  moreover have "card_of ?s 7 = None"
    using lookup_card [OF ok, of 7] by (simp add: card_of_def books_def f cards_in_def)
  ultimately show ?thesis using client_connect_disconnect [OF ok c] by blast
qed

end
