(* ===== verification/Clnt_Props.thy ===== *)
theory Clnt_Props
  imports Clnt_Transmit Clnt_Books
begin

text \<open>
  Further calls of the client library: a transaction that waits for the transaction of another
  client, and the list of readers an application gets.
\<close>

section \<open>Waiting for a transaction\<close>

definition begin_answer :: "SCARDHANDLE \<Rightarrow> LONG \<Rightarrow> bytes" where
  "begin_answer h rv = begin_struct_image \<lparr>be_hCard = word_of_int h, be_rv = word_of_int rv\<rparr>"

abbreviation begin_message :: "SCARDHANDLE \<Rightarrow> bytes" where
  "begin_message h \<equiv> message SCARD_BEGIN_TRANSACTION (begin_answer h SCARD_S_SUCCESS)"

lemma begin_answered:
  assumes h: "SCardGetContextChannelAndLockFromHandle h s = Some (m, ch)" and fd: "fd = mapClientID (contextMaps s m)"
    and "rx (links s fd) = begin_answer h rv @ rest" "link_ready (8 + n) (16 + n') (links s fd)" "0 \<le> rv" "rv < 2 ^ 32"
  obtains k where "SCardBeginTransaction_clnt h s =
      (if rv = SCARD_E_SHARING_VIOLATION then SCardBeginTransaction_clnt h (set_link fd k s) else Some (rv, set_link fd k s))"
    "rx k = rest" "link_ready n n' k" "tx k = tx (links s fd) @ begin_message h"
proof -
  have len: "length (begin_answer h v) = 8" for v by (simp add: begin_answer_def beStr.size)
  obtain k where "request SCARD_BEGIN_TRANSACTION (begin_answer h SCARD_S_SUCCESS) 8 fd s =
      Some ((SCARD_S_SUCCESS, begin_answer h rv), set_link fd k s)" "rx k = rest" "link_ready n n' k"
    "tx k = tx (links s fd) @ begin_message h"
    by (rule request_ready [OF assms(3), where cmd = SCARD_BEGIN_TRANSACTION and data = "begin_answer h SCARD_S_SUCCESS" and n = n and m = n'])
      (use assms(4) len in simp_all)
  then show thesis
    using h fd uint_status [OF assms(5,6)] by (intro that [of k])
      (subst SCardBeginTransaction_clnt.simps, simp_all add: begin_answer_def beStr.dec_enc Let_def)
qed

text \<open>
  C31. A transaction waits for its turn: as long as the daemon answers that another client holds the
  reader, \<^verbatim>\<open>SCardBeginTransaction\<close> of the client library asks again, and it returns the first
  other answer, whatever it is; it has then sent one request for every answer and changed nothing
  else in the client.
\<close>

theorem begin_transaction_waits:
  assumes "SCardGetContextChannelAndLockFromHandle h s = Some (m, ch)" "fd = mapClientID (contextMaps s m)"
    and "rx (links s fd) = concat (map (begin_answer h) (replicate n SCARD_E_SHARING_VIOLATION @ [rv])) @ rest"
    and "rv \<noteq> SCARD_E_SHARING_VIOLATION" "0 \<le> rv" "rv < 2 ^ 32"
    and "link_ready (8 * Suc n) (16 * Suc n) (links s fd)"
  shows "\<exists>k. SCardBeginTransaction_clnt h s = Some (rv, set_link fd k s) \<and> rx k = rest \<and>
    tx k = tx (links s fd) @ concat (replicate (Suc n) (begin_message h))"
  using assms
proof (induction n arbitrary: s)
  case 0
  obtain k where "SCardBeginTransaction_clnt h s =
      (if rv = SCARD_E_SHARING_VIOLATION then SCardBeginTransaction_clnt h (set_link fd k s) else Some (rv, set_link fd k s))"
    "rx k = rest" "tx k = tx (links s fd) @ begin_message h"
    by (rule begin_answered [of h s m ch fd rv rest 0 0]) (use 0 in simp_all)
  with 0 show ?case by auto
next
  case (Suc n)
  obtain k where k: "SCardBeginTransaction_clnt h s = SCardBeginTransaction_clnt h (set_link fd k s)"
    "rx k = concat (map (begin_answer h) (replicate n SCARD_E_SHARING_VIOLATION @ [rv])) @ rest"
    "link_ready (8 * Suc n) (16 * Suc n) k" "tx k = tx (links s fd) @ begin_message h"
    by (rule begin_answered [of h s m ch fd SCARD_E_SHARING_VIOLATION
          "concat (map (begin_answer h) (replicate n SCARD_E_SHARING_VIOLATION @ [rv])) @ rest" "8 * Suc n" "16 * Suc n"])
      (use Suc.prems in simp_all)
  have "\<exists>k'. SCardBeginTransaction_clnt h (set_link fd k s) = Some (rv, set_link fd k' (set_link fd k s)) \<and> rx k' = rest \<and>
      tx k' = tx (links (set_link fd k s) fd) @ concat (replicate (Suc n) (begin_message h))"
    by (rule Suc.IH) (use Suc.prems k in simp_all)
  with k(1,4) show ?case by auto
qed

theorem begin_transaction_waits_witness:
  "\<exists>s'. SCardBeginTransaction_clnt 7 (ex_talker (concat (map (begin_answer 7) [SCARD_E_SHARING_VIOLATION, SCARD_E_SHARING_VIOLATION, SCARD_S_SUCCESS]))) =
    Some (SCARD_S_SUCCESS, s')"
proof -
  let ?s = "ex_talker (concat (map (begin_answer 7) [SCARD_E_SHARING_VIOLATION, SCARD_E_SHARING_VIOLATION, SCARD_S_SUCCESS]))"
  obtain ch where c: "SCardGetContextChannelAndLockFromHandle 7 ?s = Some (0, ch)" using ex_talks(1) by (auto simp: client_talks_def)
  have "3 = mapClientID (contextMaps ?s 0)"
    "rx (links ?s 3) = concat (map (begin_answer 7) (replicate 2 SCARD_E_SHARING_VIOLATION @ [SCARD_S_SUCCESS])) @ []"
    by (simp_all add: ex_talker_def numeral_2_eq_2)
  moreover have "link_ready (8 * Suc 2) (16 * Suc 2) (links ?s 3)"
    using ex_events_ready [of 70000] ex_events_ready [of 100]
    by (simp add: ex_talker_def link_ready_def rx_ready_def tx_ready_def)
  ultimately show ?thesis using begin_transaction_waits [OF c, of 3 2 SCARD_S_SUCCESS "[]"] by auto
qed

section \<open>The list of readers\<close>

text \<open>How an application reads a multi-string: names end with a NUL, an empty name ends the list.\<close>

function read_multi :: "bytes \<Rightarrow> string list" where
  "read_multi b = (let n = takeWhile (\<lambda>x. x \<noteq> 0) b in
     if n = [] then [] else map (\<lambda>x. char_of (unat x)) n # read_multi (drop (Suc (length n)) b))"
  by pat_completeness auto
termination
  by (relation "measure length") (auto simp: takeWhile_eq_Nil_iff)

declare read_multi.simps [simp del]

definition plain_name :: "string \<Rightarrow> bool" where
  "plain_name n \<longleftrightarrow> n \<noteq> [] \<and> CHR 0x00 \<notin> set n"

lemma read_multi_names: "\<forall>n \<in> set names. plain_name n \<Longrightarrow> read_multi (names_bytes names) = names"
proof (induction names)
  case Nil
  then show ?case by (subst read_multi.simps) (simp add: names_bytes_def)
next
  case (Cons n names)
  let ?b = "map (\<lambda>c. of_nat (of_char c) :: UCHAR) n"
  have b: "names_bytes (n # names) = ?b @ 0 # names_bytes names" by (simp add: names_bytes_def)
  have "x \<noteq> 0" if "x \<in> set ?b" for x using that Cons.prems by (auto simp: plain_name_def)
  then have t: "takeWhile (\<lambda>x. x \<noteq> 0) (?b @ 0 # names_bytes names) = ?b" by (subst takeWhile_append2) auto
  have c: "map (\<lambda>x. char_of (unat x)) ?b = n" by (simp add: comp_def)
  have n: "?b \<noteq> []" using Cons.prems by (simp add: plain_name_def)
  have "read_multi (?b @ 0 # names_bytes names) = n # read_multi (names_bytes names)"
    unfolding read_multi.simps [of "?b @ 0 # names_bytes names"] Let_def t c if_not_P [OF n] by simp
  with Cons show ?case unfolding b by simp
qed

lemma names_fold: "fold (\<lambda>n len. len + (of_nat (length n) + 1)) names (of_nat k) = (of_nat (k + length (names_bytes names) - 1) :: DWORD)"
proof (induction names arbitrary: k)
  case (Cons n names)
  from Cons [of "k + length n + 1"] show ?case by (simp add: names_bytes_def algebra_simps)
qed (simp add: names_bytes_def)

lemma names_length_bytes: "names_length names = of_nat (length (names_bytes names))"
proof -
  obtain n where n: "length (names_bytes names) = Suc n" by (simp add: names_bytes_def)
  have "names_length names = of_nat n + 1" using names_fold [of names 0] by (simp add: names_length_def n)
  then show ?thesis unfolding n by (simp add: add.commute)
qed

text \<open>
  C40. An application gets the names of the readers: when the daemon's states have arrived and there
  are readers, asking without a buffer gives the length that is needed, a buffer that is too small is
  answered with \<^verbatim>\<open>SCARD_E_INSUFFICIENT_BUFFER\<close> and that length, and a buffer that is large enough is
  filled with exactly that many bytes, from which an application reads the names of all readers in
  their order.
\<close>

theorem readers_listed:
  assumes "SCardGetAndLockContext hCtx s = Some c" "getReaderStates c s = Some (SCARD_S_SUCCESS, s1)"
    and "reader_names s1 = names" "names \<noteq> []" "\<forall>n \<in> set names. CHR 0x00 \<notin> set n"
    and "length (names_bytes names) < 2 ^ 64" "room \<noteq> SCARD_AUTOALLOCATE"
  shows "SCardListReaders_clnt hCtx False (Some room) s =
      Some ((SCARD_S_SUCCESS, None, Some (of_nat (length (names_bytes names)))), s1) \<and>
    (unat room < length (names_bytes names) \<longrightarrow> SCardListReaders_clnt hCtx True (Some room) s =
      Some ((SCARD_E_INSUFFICIENT_BUFFER, None, Some (of_nat (length (names_bytes names)))), s1)) \<and>
    (length (names_bytes names) \<le> unat room \<longrightarrow> SCardListReaders_clnt hCtx True (Some room) s =
      Some ((SCARD_S_SUCCESS, Some (names_bytes names), Some (of_nat (length (names_bytes names)))), s1)) \<and>
    read_multi (names_bytes names) = names"
proof -
  have "read_multi (names_bytes names) = names"
    using assms(3,5) by (intro read_multi_names) (auto simp: plain_name_def reader_names_def)
  moreover have u: "unat (names_length names) = length (names_bytes names)"
    using assms(6) unfolding names_length_bytes by (simp add: unat_of_nat)
  have "length (names_bytes names) \<noteq> 1" using assms(4) by (cases names) (auto simp: names_bytes_def)
  then have "names_length names \<noteq> 1" using u by (metis unat_1)
  moreover have "room < names_length names \<longleftrightarrow> unat room < length (names_bytes names)"
    using u by (simp add: word_less_nat_alt)
  ultimately show ?thesis
    using assms(1-3,7) by (auto simp: SCardListReaders_clnt_def Let_def names_length_bytes)
qed

theorem readers_listed_witness:
  "\<exists>s1. SCardListReaders_clnt 5 True (Some 100) (ex_clnt (le32 (of_nat (length [Examples.ex_state])) @
      concat (map reader_state_image [Examples.ex_state]) @ [])) =
    Some ((SCARD_S_SUCCESS, Some [82, 32, 48, 48, 32, 48, 48, 0, 0], Some 9), s1)"
proof -
  let ?s = "ex_clnt (le32 (of_nat (length [Examples.ex_state])) @ concat (map reader_state_image [Examples.ex_state]) @ [])"
  obtain k s1 where s1: "getReaderStates 0 ?s = Some (SCARD_S_SUCCESS, s1)"
    "client_states s1 = map (\<lambda>st. reader_state_at (reader_state_image st)) [Examples.ex_state]"
    by (rule getReaderStates_ready [of ?s "[Examples.ex_state]" 3 0 "[]" 0 0])
      (use ex_clnt_receives in \<open>simp_all add: can_receive_def\<close>)
  have "state_fits Examples.ex_state" by (simp add: state_fits_def Examples.ex_state_def)
  from reader_state_at_image [OF this] have "readerName (reader_state_at (reader_state_image Examples.ex_state)) = ''R 00 00''"
    by (simp add: state_view_def Examples.ex_state_def)
  then have n: "reader_names s1 = [''R 00 00'']" by (simp add: reader_names_def s1(2))
  have b: "names_bytes [''R 00 00''] = [82, 32, 48, 48, 32, 48, 48, 0, 0]" by (simp add: names_bytes_def)
  have "SCardListReaders_clnt 5 True (Some 100) ?s =
      Some ((SCARD_S_SUCCESS, Some (names_bytes [''R 00 00'']), Some (of_nat (length (names_bytes [''R 00 00''])))), s1)"
    using readers_listed [OF ex_context s1(1) n, of 100] by (simp add: b)
  then show ?thesis by (simp add: b)
qed

end
