(* ===== verification/Hotplug_Libudev.thy ===== *)
theory Hotplug_Libudev
  imports Reader_Registry
begin

text \<open>
  The hotplug back end \<^verbatim>\<open>src/src/hotplug_libudev.c\<close>: the table of drivers that is read from the
  bundles, the devices that come and go, and the tracker that remembers under which port a device
  was given to the reader registry.

  What udev reports of a device, the content of the directory of drivers and the scanner of the
  \<^verbatim>\<open>Info.plist\<close> files are arguments. \<^verbatim>\<open>strdup\<close> and \<^verbatim>\<open>realloc\<close> of the tracker do not fail here; \<^verbatim>\<open>asprintf\<close>
  and the table of drivers fail when the daemon is out of memory.
\<close>

section \<open>Data\<close>

record driverTracker =
  manuID :: u32
  productID :: u32
  bundleName :: "string option"
  libraryPath :: "string option"
  dtReaderName :: "string option"
  CFBundleName :: "string option"

record readerTracker =
  devpath :: "string option"
  fullName :: "string option"
  sysname :: "string option"

text \<open>What udev tells of a USB device and of one of its interfaces.\<close>

record usb_device =
  devnode :: "string option"
  devAttr :: "string \<Rightarrow> string option"
  devProperty :: "string \<Rightarrow> string option"

record usb_interface =
  ifSysname :: "string option"
  ifAttr :: "string \<Rightarrow> string option"
  ifParent :: "usb_device option"
  ifAction :: "string option"

text \<open>\<open>Udev\<close> says whether the udev object exists, \<open>notifyThread\<close> whether the thread was started.\<close>

record 'd hotplug =
  driverSize :: int
  drivers :: "driverTracker list"
  readers :: "readerTracker list"
  Add_Interface_In_Name :: bool
  Add_Serial_In_Name :: bool
  Udev :: bool
  notifyThread :: bool
  pcscArch :: string
  registry :: "'d pcscd"

definition empty_driver :: driverTracker where
  "empty_driver = \<lparr>manuID = 0, productID = 0, bundleName = None, libraryPath = None, dtReaderName = None, CFBundleName = None\<rparr>"

definition empty_tracker :: readerTracker where
  "empty_tracker = \<lparr>devpath = None, fullName = None, sysname = None\<rparr>"

abbreviation (input) DRIVER_TRACKER_INITIAL_SIZE :: nat where "DRIVER_TRACKER_INITIAL_SIZE \<equiv> 200"
abbreviation (input) DRIVER_TRACKER_SIZE_STEP :: nat where "DRIVER_TRACKER_SIZE_STEP \<equiv> 10"

section \<open>The drivers\<close>

text \<open>A parsed bundle is a list of keys with their values. The last of equal keys is the one found.\<close>

type_synonym plist = "(string \<times> string list) list"

definition LTPBundleFindValueWithKey :: "plist \<Rightarrow> string \<Rightarrow> string list option" where
  "LTPBundleFindValueWithKey l key = map_of (rev l) key"

text \<open>The entries of one bundle. \<open>Inl False\<close>: the bundle is left out; \<open>Inl True\<close>: the reading is given up.\<close>

definition bundle_entries :: "string \<Rightarrow> string \<Rightarrow> string \<Rightarrow> plist \<Rightarrow> bool + driverTracker list" where
  "bundle_entries arch hpDirPath d_name plist =
     (let key = LTPBundleFindValueWithKey plist in
      case (key ''CFBundleExecutable'', key ''ifdVendorID'', key ''ifdProductID'', key ''ifdFriendlyName'') of
        (Some values, Some manuIDs, Some productIDs, Some readerNames) \<Rightarrow>
          let lib = (case values of [] \<Rightarrow> ''(null)'' | v # _ \<Rightarrow> v);
              fullLibPath = take 4095 (hpDirPath @ ''/'' @ d_name @ ''/Contents/'' @ arch @ ''/'' @ lib);
              cfname = (case key ''CFBundleName'' of None \<Rightarrow> None | Some [] \<Rightarrow> None | Some (v # _) \<Rightarrow> Some v)
          in if length manuIDs \<noteq> length productIDs \<or> length manuIDs \<noteq> length readerNames then Inl True
             else Inr (map (\<lambda>(m, p, r). \<lparr>manuID = word_of_int (strtol16 m), productID = word_of_int (strtol16 p),
                 bundleName = Some d_name, libraryPath = Some fullLibPath, dtReaderName = Some r, CFBundleName = cfname\<rparr>)
               (zip manuIDs (zip productIDs readerNames)))
      | _ \<Rightarrow> Inl False)"

text \<open>
  Storing an entry at \<open>listCount\<close>, and the array larger by \<open>step\<close> cleared elements when the last element has been
  used; \<open>None\<close> when there is no memory for it. A store outside the array is \<open>Inl\<close>. The other USB back end has the
  same loop over entries of its own.
\<close>

fun store_entries ::
  "bool \<Rightarrow> nat \<Rightarrow> 'e \<Rightarrow> 'e list \<Rightarrow> 'e list \<times> nat \<Rightarrow> unit + ('e list \<times> nat) option" where
  "store_entries mem step cleared [] (table, listCount) = Inr (Some (table, listCount))"
| "store_entries mem step cleared (e # es) (table, listCount) =
     (if listCount \<ge> length table then Inl ()
      else
        let table = table[listCount := e]; listCount = listCount + 1 in
        if listCount \<ge> length table then
          if \<not> mem then Inr None
          else store_entries mem step cleared es (table @ replicate step cleared, listCount)
        else store_entries mem step cleared es (table, listCount))"

text \<open>
  The loop over the directory. The result is what the function returns and the new size and table;
  \<open>Inl\<close> is a store outside the table.
\<close>

fun read_bundles ::
  "bool \<Rightarrow> (string \<Rightarrow> plist option) \<Rightarrow> string \<Rightarrow> string \<Rightarrow> string list \<Rightarrow> driverTracker list \<times> nat \<Rightarrow>
    unit + LONG \<times> int \<times> driverTracker list" where
  "read_bundles mem parse arch dir [] (table, listCount) = Inr (0, int listCount, table)"
| "read_bundles mem parse arch dir (d_name # names) (table, listCount) =
     (if \<not> strstr d_name ''.bundle'' then read_bundles mem parse arch dir names (table, listCount)
      else case parse (take 4095 (dir @ ''/'' @ d_name @ ''/Contents/Info.plist'')) of
          None \<Rightarrow> read_bundles mem parse arch dir names (table, listCount)
        | Some plist \<Rightarrow>
            (case bundle_entries arch dir d_name plist of
               Inl False \<Rightarrow> read_bundles mem parse arch dir names (table, listCount)
             | Inl True \<Rightarrow> Inr (- 1, int (length table), table)
             | Inr es \<Rightarrow>
                 (case store_entries mem DRIVER_TRACKER_SIZE_STEP empty_driver es (table, listCount) of
                    Inl u \<Rightarrow> Inl u
                  | Inr None \<Rightarrow> Inr (- 1, - 1, [])
                  | Inr (Some t) \<Rightarrow> read_bundles mem parse arch dir names t)))"

text \<open>\<open>dir\<close> is what \<^verbatim>\<open>readdir\<close> gives, \<open>None\<close> when the directory can not be opened.\<close>

definition HPReadBundleValues ::
  "(string \<Rightarrow> plist option) \<Rightarrow> string list option \<Rightarrow> string \<Rightarrow> 'd hotplug \<Rightarrow> unit + LONG \<times> 'd hotplug" where
  "HPReadBundleValues parse dir hpDirPath s =
     (case dir of
        None \<Rightarrow> Inr (0, s)
      | Some names \<Rightarrow>
          let mem = memOk (registry s) in
          if \<not> mem then Inr (- 1, s\<lparr>driverSize := int DRIVER_TRACKER_INITIAL_SIZE, drivers := []\<rparr>)
          else map_sum id (\<lambda>(rv, n, table). (rv, s\<lparr>driverSize := n, drivers := table\<rparr>))
            (read_bundles mem parse (pcscArch s) hpDirPath names (replicate DRIVER_TRACKER_INITIAL_SIZE empty_driver, 0)))"

text \<open>
  The search for a driver: the indices of the specific driver and of the class driver. Each
  is the last one that fits.
\<close>

fun search_driver ::
  "u32 \<Rightarrow> u32 \<Rightarrow> 'e driverTracker_scheme list \<Rightarrow> nat list \<Rightarrow> nat option \<Rightarrow> nat option \<Rightarrow> nat option \<times> nat option" where
  "search_driver idVendor idProduct table [] drv classdriver = (drv, classdriver)"
| "search_driver idVendor idProduct table (i # is) drv classdriver =
     (let d = table ! i in
      if libraryPath d \<noteq> None \<and> idVendor = manuID d \<and> idProduct = productID d then
        if CFBundleName d = Some ''CCIDCLASSDRIVER'' then search_driver idVendor idProduct table is drv (Some i)
        else search_driver idVendor idProduct table is (Some i) classdriver
      else search_driver idVendor idProduct table is drv classdriver)"

definition get_driver :: "usb_device \<Rightarrow> 'd hotplug \<Rightarrow> nat option \<times> nat option" where
  "get_driver dev s =
     (case (devAttr dev ''idVendor'', devAttr dev ''idProduct'') of
        (Some v, Some p) \<Rightarrow>
          (case search_driver (word_of_int (strtol16 v)) (word_of_int (strtol16 p)) (drivers s) [0..<nat (driverSize s)] None None of
             (drv, classdriver) \<Rightarrow> (if drv \<noteq> None then drv else classdriver, classdriver))
      | _ \<Rightarrow> (None, None))"

section \<open>Devices\<close>

definition tracked :: "string \<Rightarrow> readerTracker \<Rightarrow> bool" where
  "tracked name t = (fullName t \<noteq> None \<and> sysname t = Some name)"

definition HPRemoveDevice :: "usb_interface \<Rightarrow> 'd hotplug \<Rightarrow> 'd hotplug" where
  "HPRemoveDevice dev s =
     (case ifSysname dev of
        None \<Rightarrow> s
      | Some name \<Rightarrow>
          (case position (tracked name) (readers s) of
             None \<Rightarrow> s
           | Some i \<Rightarrow>
               s\<lparr>registry := snd (RFRemoveReader (fullName (readers s ! i)) (PCSCLITE_HP_BASE_PORT + int i)
                   REMOVE_READER_FLAG_REMOVED (registry s)),
                 readers := (readers s)[i := empty_tracker]\<rparr>))"

text \<open>\<^verbatim>\<open>%04x\<close>, \<^verbatim>\<open>%d\<close> and \<^verbatim>\<open>atoi\<close>.\<close>

definition lower_char :: "nat \<Rightarrow> char" where
  "lower_char d = (if d < 10 then char_of (48 + d) else char_of (87 + d))"

fun lower_hex :: "nat \<Rightarrow> string" where
  "lower_hex n = (if n < 16 then [lower_char n] else lower_hex (n div 16) @ [lower_char (n mod 16)])"

declare lower_hex.simps [simp del]

definition hex4 :: "u32 \<Rightarrow> string" where
  "hex4 n = (let digits = lower_hex (unat n) in replicate (4 - length digits) (CHR ''0'') @ digits)"

fun decimal :: "nat \<Rightarrow> string" where
  "decimal n = (if n < 10 then [char_of (48 + n)] else decimal (n div 10) @ [char_of (48 + n mod 10)])"

declare decimal.simps [simp del]

lemma length_decimal: "n < 10 ^ k \<Longrightarrow> 0 < k \<Longrightarrow> length (decimal n) \<le> k"
proof (induction n arbitrary: k rule: decimal.induct)
  case (1 n)
  show ?case
  proof (cases "n < 10")
    case False
    then obtain j where j: "k = Suc j" "0 < j" using "1.prems" by (cases k; cases "k - 1") auto
    then have "n div 10 < 10 ^ j" using "1.prems"(1) by (simp add: less_mult_imp_div_less mult.commute)
    with 1(1) [OF False, of j] j False show ?thesis by (simp add: decimal.simps [of n])
  qed (use "1.prems" in \<open>simp add: decimal.simps [of n]\<close>)
qed

definition show_int :: "int \<Rightarrow> string" where
  "show_int n = (if n < 0 then CHR ''-'' # decimal (nat (- n)) else decimal (nat n))"

fun decimal_prefix :: "string \<Rightarrow> int \<Rightarrow> int" where
  "decimal_prefix [] n = n"
| "decimal_prefix (c # cs) n =
     (let d = of_char c :: nat in if 48 \<le> d \<and> d \<le> 57 then decimal_prefix cs (10 * n + int (d - 48)) else n)"

definition atoi :: "string \<Rightarrow> int" where
  "atoi s = (case dropWhile (\<lambda>c. c \<in> {CHR '' '', CHR 0x09, CHR 0x0A, CHR 0x0B, CHR 0x0C, CHR 0x0D}) s of
     [] \<Rightarrow> 0
   | c # cs \<Rightarrow> if c = CHR ''-'' then - decimal_prefix cs 0
       else if c = CHR ''+'' then decimal_prefix cs 0 else decimal_prefix (c # cs) 0)"

text \<open>The name of a device for its driver, and the name of its reader.\<close>

definition device_name :: "driverTracker \<Rightarrow> usb_interface \<Rightarrow> string \<Rightarrow> string" where
  "device_name drv dev path =
     ''usb:'' @ hex4 (manuID drv) @ ''/'' @ hex4 (productID drv) @ '':libudev:'' @
     show_int (case ifAttr dev ''bInterfaceNumber'' of Some n \<Rightarrow> atoi n | None \<Rightarrow> 0) @ '':'' @ path"

definition ascii_name :: "string \<Rightarrow> string" where
  "ascii_name n = map (\<lambda>c. if (of_char c :: nat) < 128 then c else CHR ''.'') n"

definition reader_full_name :: "driverTracker \<Rightarrow> string option \<Rightarrow> string option \<Rightarrow> string" where
  "reader_full_name drv sInterfaceName sSerialNumber =
     (let fullname = the (dtReaderName drv);
          fullname = (case sInterfaceName of None \<Rightarrow> fullname | Some i \<Rightarrow> fullname @ '' ['' @ ascii_name i @ '']'')
      in case sSerialNumber of
           None \<Rightarrow> fullname
         | Some n \<Rightarrow> if (case sInterfaceName of None \<Rightarrow> True | Some i \<Rightarrow> \<not> strstr i n) then fullname @ '' ('' @ n @ '')'' else fullname)"

text \<open>A free entry of the tracker; two more when it is full.\<close>

definition free_entry :: "readerTracker list \<Rightarrow> nat \<times> readerTracker list" where
  "free_entry ts =
     (case position (\<lambda>t. fullName t = None) ts of
        Some i \<Rightarrow> (i, ts)
      | None \<Rightarrow> (length ts, ts @ [empty_tracker, empty_tracker]))"

text \<open>The reader is given to the registry, with the class driver when the specific driver fails.\<close>

definition add_with_drivers ::
  "'d READER_CONTEXT \<Rightarrow> string \<Rightarrow> int \<Rightarrow> string \<Rightarrow> nat \<Rightarrow> nat option \<Rightarrow> 'e driverTracker_scheme list \<Rightarrow> 'd pcscd \<Rightarrow> LONG \<times> 'd pcscd" where
  "add_with_drivers junk fullname port' deviceName drv classdriver table w =
     (case RFAddReader junk (Some fullname) port' (libraryPath (table ! drv)) (Some deviceName) w of
        (ret, w) \<Rightarrow>
          if ret \<noteq> SCARD_S_SUCCESS \<and> ret \<noteq> SCARD_E_UNKNOWN_READER \<and> classdriver \<noteq> None \<and> classdriver \<noteq> Some drv
          then RFAddReader junk (Some fullname) port' (libraryPath (table ! the classdriver)) (Some deviceName) w
          else (ret, w))"

definition HPAddDevice :: "'d READER_CONTEXT \<Rightarrow> usb_interface \<Rightarrow> 'd hotplug \<Rightarrow> 'd hotplug" where
  "HPAddDevice junk dev s =
     (case ifParent dev of
        None \<Rightarrow> s
      | Some usb \<Rightarrow>
          (case devnode usb of
             None \<Rightarrow> s
           | Some path \<Rightarrow>
               (case get_driver usb s of
                  (None, _) \<Rightarrow> s
                | (Some d, classdriver) \<Rightarrow>
                    (case ifSysname dev of
                       None \<Rightarrow> s
                     | Some name \<Rightarrow>
                         if devProperty usb ''PCSCLITE_IGNORE'' = Some ''1'' then s
                         else if list_ex (tracked name) (readers s) then s
                         else if \<not> memOk (registry s) then s
                         else
                           let drv = drivers s ! d;
                               deviceName = device_name drv dev path;
                               (index, ts) = free_entry (readers s);
                               fullname = reader_full_name drv
                                 (if Add_Interface_In_Name s then ifAttr dev ''interface'' else None)
                                 (if Add_Serial_In_Name s then devAttr usb ''serial'' else None);
                               ts = ts[index := \<lparr>devpath = Some path, fullName = Some fullname, sysname = Some name\<rparr>];
                               (ret, w) = add_with_drivers junk fullname (PCSCLITE_HP_BASE_PORT + int index) deviceName
                                 d classdriver (drivers s) (registry s)
                           in s\<lparr>registry := w, readers := (if ret \<noteq> SCARD_S_SUCCESS then ts[index := empty_tracker] else ts)\<rparr>))))"

section \<open>Notifications\<close>

text \<open>The devices of the bus; a device that udev can not open is \<open>None\<close> and has no parent.\<close>

fun HPScanUSB :: "'d READER_CONTEXT \<Rightarrow> usb_interface option list \<Rightarrow> 'd hotplug \<Rightarrow> 'd hotplug" where
  "HPScanUSB junk [] s = s"
| "HPScanUSB junk (None # devs) s = HPScanUSB junk devs s"
| "HPScanUSB junk (Some dev # devs) s = HPScanUSB junk devs (HPAddDevice junk dev s)"

text \<open>One round of the thread that waits for udev: the wait fails, or a device may have come or gone.\<close>

datatype monitor_event = Wait_failed | Monitor "usb_interface option"

definition notification :: "'d READER_CONTEXT \<Rightarrow> usb_interface option \<Rightarrow> 'd hotplug \<Rightarrow> 'd hotplug" where
  "notification junk dev s =
     (case dev of
        None \<Rightarrow> s
      | Some dev \<Rightarrow>
          if ifAction dev = Some ''remove'' then HPRemoveDevice dev s
          else if ifAction dev = Some ''add'' then HPAddDevice junk dev s
          else s)"

fun HPEstablishUSBNotifications :: "'d READER_CONTEXT \<Rightarrow> monitor_event list \<Rightarrow> 'd hotplug \<Rightarrow> 'd hotplug" where
  "HPEstablishUSBNotifications junk [] s = s"
| "HPEstablishUSBNotifications junk (Wait_failed # evs) s = s"
| "HPEstablishUSBNotifications junk (Monitor dev # evs) s = HPEstablishUSBNotifications junk evs (notification junk dev s)"

section \<open>Start and stop\<close>

definition HPSearchHotPluggables ::
  "(string \<Rightarrow> plist option) \<Rightarrow> string list option \<Rightarrow> string \<Rightarrow> 'd hotplug \<Rightarrow> unit + LONG \<times> 'd hotplug" where
  "HPSearchHotPluggables parse dir hpDirPath s =
     HPReadBundleValues parse dir hpDirPath (s\<lparr>readers := replicate 2 empty_tracker\<rparr>)"

definition HPStopHotPluggables :: "'d hotplug \<Rightarrow> LONG \<times> 'd hotplug" where
  "HPStopHotPluggables s =
     (if driverSize s \<le> 0 \<or> \<not> Udev s then (0, s)
      else (0, s\<lparr>drivers := [], Udev := False, notifyThread := False, driverSize := - 1\<rparr>))"

text \<open>What the calls of udev and the creation of the thread do. \<open>Inl\<close>: the calling thread exits.\<close>

record udev_start =
  udevNew :: bool
  monitorNew :: bool
  filterOk :: bool
  receivingOk :: bool
  threadCreated :: bool

definition HPRegisterForHotplugEvents ::
  "'d READER_CONTEXT \<Rightarrow> udev_start \<Rightarrow> usb_interface option list \<Rightarrow> 'd hotplug \<Rightarrow> (unit + LONG) \<times> 'd hotplug" where
  "HPRegisterForHotplugEvents junk u devs s =
     (if driverSize s \<le> 0 then (Inr 0, s)
      else if \<not> udevNew u then (Inr SCARD_F_INTERNAL_ERROR, s\<lparr>Udev := False\<rparr>)
      else
        let s = s\<lparr>Udev := True\<rparr> in
        if \<not> monitorNew u \<or> \<not> filterOk u \<or> \<not> receivingOk u then (Inl (), s)
        else
          let s = HPScanUSB junk devs s in
          if \<not> threadCreated u then (Inr SCARD_F_INTERNAL_ERROR, s)
          else (Inr 0, s\<lparr>notifyThread := True\<rparr>))"

definition HPReCheckSerialReaders :: "'d READER_CONTEXT \<Rightarrow> usb_interface option list \<Rightarrow> 'd hotplug \<Rightarrow> 'd hotplug" where
  "HPReCheckSerialReaders junk devs s = HPScanUSB junk devs s"

end
