(* ===== verification/Hotplug_Props.thy ===== *)
theory Hotplug_Props
  imports Hotplug_Libudev Registry_Props
begin

text \<open>
  The hotplug back end: the table of drivers holds what the bundles say, the driver of a device is the
  one the rules prefer, and the tracker knows exactly one entry for every device it was told of, so
  that the removal of a device removes the readers of that device.
\<close>

section \<open>The table of drivers\<close>

lemma store_entries_ok:
  assumes "n < length table" "table = es0 @ rest" "length es0 = n" "0 < step"
  obtains rest' where "store_entries True step cleared es (table, n) = Inr (Some (es0 @ es @ rest', n + length es))" "rest' \<noteq> []"
  using assms
proof (induction es arbitrary: table n es0 rest thesis)
  case Nil
  then show ?case by auto
next
  case (Cons e es)
  obtain r rs where r: "rest = r # rs" using Cons.prems by (cases rest) auto
  let ?t = "if Suc n \<ge> length table then (es0 @ [e]) @ rs @ replicate step cleared else (es0 @ [e]) @ rs"
  have step: "store_entries True step cleared (e # es) (table, n) = store_entries True step cleared es (?t, Suc n)"
    using Cons.prems(2-5) r by (auto simp: list_update_append)
  obtain q where q: "?t = (es0 @ [e]) @ q" "Suc n < length ?t"
    using Cons.prems(2-5) r by (cases "Suc n \<ge> length table") auto
  obtain rest' where "store_entries True step cleared es (?t, Suc n) = Inr (Some ((es0 @ [e]) @ es @ rest', Suc n + length es))" "rest' \<noteq> []"
    by (rule Cons.IH [OF _ q(2,1)]) (use Cons.prems(4,5) in auto)
  with step Cons.prems(1) show ?case by auto
qed

text \<open>The specification: the entries of all bundles in the order of the directory.\<close>

definition bundle_of :: "(string \<Rightarrow> plist option) \<Rightarrow> string \<Rightarrow> string \<Rightarrow> string \<Rightarrow> bool + driverTracker list" where
  "bundle_of parse arch dir name =
     (if strstr name ''.bundle'' then
        (case parse (take 4095 (dir @ ''/'' @ name @ ''/Contents/Info.plist'')) of
           None \<Rightarrow> Inl False
         | Some plist \<Rightarrow> bundle_entries arch dir name plist)
      else Inl False)"

definition all_entries :: "(string \<Rightarrow> plist option) \<Rightarrow> string \<Rightarrow> string \<Rightarrow> string list \<Rightarrow> driverTracker list" where
  "all_entries parse arch dir names =
     concat (map (\<lambda>name. case bundle_of parse arch dir name of Inl _ \<Rightarrow> [] | Inr es \<Rightarrow> es) names)"

lemma read_bundles_ok:
  assumes "\<forall>name \<in> set names. bundle_of parse arch dir name \<noteq> Inl True" "rest \<noteq> []"
  shows "\<exists>rest'. read_bundles True parse arch dir names (es0 @ rest, length es0) =
    Inr (0, int (length (es0 @ all_entries parse arch dir names)), (es0 @ all_entries parse arch dir names) @ rest')"
  using assms
proof (induction names arbitrary: es0 rest)
  case Nil
  then show ?case by (simp add: all_entries_def)
next
  case (Cons name names)
  note IH = Cons.IH [OF _ Cons.prems(2), of es0]
  show ?case
  proof (cases "bundle_of parse arch dir name")
    case (Inl b)
    then have "\<not> b" using Cons.prems(1) by auto
    with Inl have "read_bundles True parse arch dir (name # names) (es0 @ rest, length es0) =
        read_bundles True parse arch dir names (es0 @ rest, length es0)"
      by (auto simp: bundle_of_def split: if_splits option.splits)
    with IH Inl Cons.prems(1) show ?thesis by (simp add: all_entries_def)
  next
    case (Inr es)
    obtain rest' where r: "store_entries True DRIVER_TRACKER_SIZE_STEP empty_driver es (es0 @ rest, length es0) = Inr (Some (es0 @ es @ rest', length es0 + length es))" "rest' \<noteq> []"
      by (rule store_entries_ok [of "length es0" "es0 @ rest" es0 rest DRIVER_TRACKER_SIZE_STEP empty_driver es]) (use Cons.prems(2) in auto)
    from Inr r have "read_bundles True parse arch dir (name # names) (es0 @ rest, length es0) =
        read_bundles True parse arch dir names ((es0 @ es) @ rest', length (es0 @ es))"
      by (auto simp: bundle_of_def split: if_splits option.splits)
    with Cons.IH [OF _ r(2), of "es0 @ es"] Inr Cons.prems(1) show ?thesis by (simp add: all_entries_def)
  qed
qed

section \<open>The driver of a device\<close>

definition fits :: "u32 \<Rightarrow> u32 \<Rightarrow> 'e driverTracker_scheme \<Rightarrow> bool" where
  "fits v p d \<longleftrightarrow> libraryPath d \<noteq> None \<and> v = manuID d \<and> p = productID d"

definition class_driver :: "'e driverTracker_scheme \<Rightarrow> bool" where
  "class_driver d \<longleftrightarrow> CFBundleName d = Some ''CCIDCLASSDRIVER''"

definition last_index :: "('a \<Rightarrow> bool) \<Rightarrow> 'a list \<Rightarrow> nat option" where
  "last_index P xs = (let is = filter (\<lambda>i. P (xs ! i)) [0..<length xs] in if is = [] then None else Some (last is))"

lemma search_driver_last:
  "search_driver v p table is a b =
    ((let js = filter (\<lambda>i. fits v p (table ! i) \<and> \<not> class_driver (table ! i)) is in if js = [] then a else Some (last js)),
     (let js = filter (\<lambda>i. fits v p (table ! i) \<and> class_driver (table ! i)) is in if js = [] then b else Some (last js)))"
  by (induction v p table "is" a b rule: search_driver.induct) (auto simp: Let_def fits_def class_driver_def)

lemma search_driver_append:
  "\<forall>i \<in> set is. i < length es \<Longrightarrow> search_driver v p (es @ rest) is a b = search_driver v p es is a b"
  by (induction "is" arbitrary: a b) (auto simp: nth_append Let_def)

text \<open>
  C33. The back end finds the driver of a device: reading a directory whose bundles are well formed
  stores the vendors, products and libraries of all bundles, in the order of the directory and never
  outside the table; the driver of a device is then the last entry for its vendor and product that
  is not the generic class driver, and the last entry of the class driver only when there is no other.
\<close>

theorem driver_found:
  assumes "memOk (registry s)" "\<forall>name \<in> set names. bundle_of parse (pcscArch s) dir name \<noteq> Inl True"
    and "devAttr dev ''idVendor'' = Some v" "devAttr dev ''idProduct'' = Some p"
    and "es = all_entries parse (pcscArch s) dir names"
    and "specific = last_index (\<lambda>d. fits (word_of_int (strtol16 v)) (word_of_int (strtol16 p)) d \<and> \<not> class_driver d) es"
    and "generic = last_index (\<lambda>d. fits (word_of_int (strtol16 v)) (word_of_int (strtol16 p)) d \<and> class_driver d) es"
  shows "\<exists>s'. HPSearchHotPluggables parse (Some names) dir s = Inr (0, s') \<and>
    driverSize s' = int (length es) \<and> take (length es) (drivers s') = es \<and>
    get_driver dev s' = (if specific \<noteq> None then specific else generic, generic)"
proof -
  obtain rest where r: "read_bundles True parse (pcscArch s) dir names (replicate DRIVER_TRACKER_INITIAL_SIZE empty_driver, 0) =
      Inr (0, int (length es), es @ rest)"
    using read_bundles_ok [OF assms(2), of "replicate DRIVER_TRACKER_INITIAL_SIZE empty_driver" "[]"] assms(5) by auto
  let ?s = "s\<lparr>readers := replicate 2 empty_tracker, driverSize := int (length es), drivers := es @ rest\<rparr>"
  have "HPSearchHotPluggables parse (Some names) dir s = Inr (0, ?s)"
    using assms(1) r by (simp add: HPSearchHotPluggables_def HPReadBundleValues_def)
  moreover have "get_driver dev ?s = (if specific \<noteq> None then specific else generic, generic)"
  proof -
    have "search_driver v' p' (es @ rest) [0..<length es] None None = search_driver v' p' es [0..<length es] None None" for v' p'
      by (rule search_driver_append) simp
    then show ?thesis
      using assms(3,4) unfolding assms(6,7) last_index_def by (simp only: get_driver_def) (simp add: search_driver_last [of _ _ es] Let_def)
  qed
  ultimately show ?thesis by (intro exI [where x = ?s]) simp
qed

section \<open>The tracker\<close>

text \<open>An entry is complete or empty, and no two entries are for the same device.\<close>

definition tracker_ok :: "readerTracker list \<Rightarrow> bool" where
  "tracker_ok ts \<longleftrightarrow> (\<forall>t \<in> set ts. t = empty_tracker \<or> devpath t \<noteq> None \<and> fullName t \<noteq> None \<and> sysname t \<noteq> None) \<and>
     (\<forall>n i j. i < length ts \<and> j < length ts \<and> sysname (ts ! i) = Some n \<and> sysname (ts ! j) = Some n \<longrightarrow> i = j)"

definition hotplug_ok :: "'d hotplug \<Rightarrow> bool" where
  "hotplug_ok s \<longleftrightarrow> tracker_ok (readers s) \<and> registry_ok (registry s)"

lemma tracker_ok_clear:
  assumes "tracker_ok ts"
  shows "tracker_ok (ts[i := empty_tracker])"
proof (cases "i < length ts")
  case True
  have "sysname empty_tracker = None" by (simp add: empty_tracker_def)
  with True assms show ?thesis
    using set_update_subset_insert [of ts i empty_tracker] unfolding tracker_ok_def by (auto simp: nth_list_update split: if_splits)
qed (use assms in \<open>simp add: list_update_beyond\<close>)

lemma tracker_ok_set:
  assumes "tracker_ok ts" "i < length ts" "\<not> list_ex (tracked name) ts"
  shows "tracker_ok (ts[i := \<lparr>devpath = Some path, fullName = Some full, sysname = Some name\<rparr>])"
proof -
  have "sysname (ts ! j) \<noteq> Some name" if "j < length ts" for j
  proof
    assume "sysname (ts ! j) = Some name"
    moreover have "ts ! j \<in> set ts" using that by simp
    ultimately have "tracked name (ts ! j)" using assms(1) by (auto simp: tracker_ok_def tracked_def empty_tracker_def)
    with \<open>ts ! j \<in> set ts\<close> assms(3) show False by (auto simp: list_ex_iff)
  qed
  with assms(1,2) show ?thesis
    using set_update_subset_insert [of ts i "\<lparr>devpath = Some path, fullName = Some full, sysname = Some name\<rparr>"]
    unfolding tracker_ok_def by (auto simp: nth_list_update split: if_splits)
qed

lemma HPRemoveDevice_ok: "hotplug_ok s \<Longrightarrow> hotplug_ok (HPRemoveDevice dev s)"
  by (auto simp: HPRemoveDevice_def hotplug_ok_def tracker_ok_clear RFRemoveReader_registry_ok split: option.splits)

lemma free_entry_ok:
  assumes "tracker_ok ts" "free_entry ts = (i, ts')"
  shows "tracker_ok ts' \<and> i < length ts' \<and> ts' ! i = empty_tracker \<and> (\<forall>name. list_ex (tracked name) ts' = list_ex (tracked name) ts)"
proof (cases "position (\<lambda>t. fullName t = None) ts")
  case (Some k)
  then have "k < length ts" "fullName (ts ! k) = None" using position_SomeD [OF Some] by simp_all
  then have "ts ! k = empty_tracker" using assms(1) by (auto simp: tracker_ok_def)
  with Some assms \<open>k < _\<close> show ?thesis by (auto simp: free_entry_def)
next
  case None
  have "sysname empty_tracker = None" "\<not> tracked name empty_tracker" for name by (simp_all add: empty_tracker_def tracked_def)
  with None assms show ?thesis by (auto simp: free_entry_def tracker_ok_def nth_append nth_Cons' less_Suc_eq)
qed

lemma add_with_drivers_ok: "registry_ok w \<Longrightarrow> registry_ok (snd (add_with_drivers junk n p dev d c table w))"
  by (simp add: add_with_drivers_def RFAddReader_registry_ok split: prod.split) (metis RFAddReader_registry_ok snd_conv)

text \<open>The tracker after a device was added: as before, larger perhaps, or with the device in a free entry.\<close>

lemma HPAddDevice_cases:
  obtains "HPAddDevice junk dev s = s"
  | i ts name path full ret w where "free_entry (readers s) = (i, ts)" "ifSysname dev = Some name" "\<not> list_ex (tracked name) (readers s)"
      "registry_ok (registry s) \<Longrightarrow> registry_ok w"
      "HPAddDevice junk dev s = s\<lparr>registry := w, readers :=
         (if ret \<noteq> SCARD_S_SUCCESS then (ts[i := \<lparr>devpath = Some path, fullName = Some full, sysname = Some name\<rparr>])[i := empty_tracker]
          else ts[i := \<lparr>devpath = Some path, fullName = Some full, sysname = Some name\<rparr>])\<rparr>"
proof (cases "HPAddDevice junk dev s = s")
  case False
  then obtain usb path d c name i ts where h: "ifParent dev = Some usb" "devnode usb = Some path" "get_driver usb s = (Some d, c)"
    "ifSysname dev = Some name" "devProperty usb ''PCSCLITE_IGNORE'' \<noteq> Some ''1''" "\<not> list_ex (tracked name) (readers s)" "memOk (registry s)"
    "free_entry (readers s) = (i, ts)"
    by (cases "free_entry (readers s)") (auto simp: HPAddDevice_def split: option.splits prod.splits if_splits)
  define full where "full = reader_full_name (drivers s ! d) (if Add_Interface_In_Name s then ifAttr dev ''interface'' else None)
    (if Add_Serial_In_Name s then devAttr usb ''serial'' else None)"
  obtain ret w where a: "add_with_drivers junk full (PCSCLITE_HP_BASE_PORT + int i) (device_name (drivers s ! d) dev path) d c
      (drivers s) (registry s) = (ret, w)" by fastforce
  have "registry_ok w" if "registry_ok (registry s)" using add_with_drivers_ok [OF that] a by (metis snd_conv)
  moreover have "HPAddDevice junk dev s = s\<lparr>registry := w, readers :=
      (if ret \<noteq> SCARD_S_SUCCESS then (ts[i := \<lparr>devpath = Some path, fullName = Some full, sysname = Some name\<rparr>])[i := empty_tracker]
       else ts[i := \<lparr>devpath = Some path, fullName = Some full, sysname = Some name\<rparr>])\<rparr>"
    unfolding full_def using h by (simp add: HPAddDevice_def Let_def a [unfolded full_def] split del: if_split)
  ultimately show thesis using that(2) h(4,6,8) by blast
qed (rule that(1))

lemma HPAddDevice_ok:
  assumes "hotplug_ok s"
  shows "hotplug_ok (HPAddDevice junk dev s)"
proof (cases rule: HPAddDevice_cases [of junk dev s])
  case (2 i ts name path full ret w)
  have f: "tracker_ok ts" "i < length ts" "\<not> list_ex (tracked name) ts"
    using free_entry_ok [OF _ 2(1)] assms 2(3) by (auto simp: hotplug_ok_def)
  note t = tracker_ok_set [OF f, of path full]
  from 2(4) assms t tracker_ok_clear [OF t, of i] show ?thesis by (simp add: 2(5) hotplug_ok_def)
qed (use assms in simp)

lemma notifications_ok: "hotplug_ok s \<Longrightarrow> hotplug_ok (HPEstablishUSBNotifications junk evs s)"
proof (induction junk evs s rule: HPEstablishUSBNotifications.induct)
  case (3 junk dev evs s)
  then show ?case by (auto simp: notification_def HPAddDevice_ok HPRemoveDevice_ok split: option.splits)
qed simp_all

lemma scan_ok: "hotplug_ok s \<Longrightarrow> hotplug_ok (HPScanUSB junk devs s)"
  by (induction junk devs s rule: HPScanUSB.induct) (simp_all add: HPAddDevice_ok)

lemma tracked_unique:
  assumes "tracker_ok ts" "k < length ts" "tracked name (ts ! k)"
  shows "position (tracked name) ts = Some k"
proof -
  obtain j where j: "position (tracked name) ts = Some j" using position_SomeI [of "ts ! k" ts "tracked name"] assms by auto
  have "j = k" using position_SomeD [OF j] assms unfolding tracker_ok_def tracked_def by metis
  with j show ?thesis by simp
qed


section \<open>An example\<close>

text \<open>One bundle with two readers, and a device of the second.\<close>

definition ex_parse :: "string \<Rightarrow> plist option" where
  "ex_parse file = Some [(''CFBundleExecutable'', [''lib'']), (''ifdVendorID'', [''0x08E6'', ''0x1234'']),
     (''ifdProductID'', [''0x3437'', ''0x5678'']), (''ifdFriendlyName'', [''Foo'', ''Bar''])]"

definition ex_usb :: usb_device where
  "ex_usb = \<lparr>devnode = Some ''/dev/bus/usb/001/002'',
     devAttr = (\<lambda>a. if a = ''idVendor'' then Some ''1234'' else if a = ''idProduct'' then Some ''5678'' else None),
     devProperty = (\<lambda>_. None)\<rparr>"

definition ex_interface :: usb_interface where
  "ex_interface = \<lparr>ifSysname = Some ''1-1:1.0'', ifAttr = (\<lambda>_. None), ifParent = Some ex_usb, ifAction = Some ''add''\<rparr>"

definition ex_hotplug :: "unit hotplug" where
  "ex_hotplug = \<lparr>driverSize = 2, drivers = all_entries ex_parse ''Linux'' ''/drivers'' [''foo.bundle''], readers = replicate 2 empty_tracker,
     Add_Interface_In_Name = True, Add_Serial_In_Name = True, Udev = True, notifyThread = True, pcscArch = ''Linux'',
     registry = ex_empty\<lparr>dynlib := (\<lambda>_. Some (ex_library True))\<rparr>\<rparr>"

definition ex_drivers :: "driverTracker list" where
  "ex_drivers = map (\<lambda>(v, p, n). \<lparr>manuID = v, productID = p, bundleName = Some ''foo.bundle'',
     libraryPath = Some ''/drivers/foo.bundle/Contents/Linux/lib'', dtReaderName = Some n, CFBundleName = None\<rparr>)
     [(0x08E6, 0x3437, ''Foo''), (0x1234, 0x5678, ''Bar'')]"

lemma ex_bundle_read: "all_entries ex_parse ''Linux'' ''/drivers'' [''foo.bundle''] = ex_drivers"
  by code_simp

lemma ex_bundle_ids:
  "bundle_of ex_parse ''Linux'' ''/drivers'' ''foo.bundle'' \<noteq> Inl True"
  "last_index (\<lambda>d. fits (word_of_int (strtol16 ''1234'')) (word_of_int (strtol16 ''5678'')) d \<and> \<not> class_driver d) ex_drivers = Some 1"
  "memOk ex_empty"
  by code_simp+

lemma ex_bundle:
  "\<forall>name \<in> set [''foo.bundle'']. bundle_of ex_parse (pcscArch ex_hotplug) ''/drivers'' name \<noteq> Inl True"
  "last_index (\<lambda>d. fits (word_of_int (strtol16 ''1234'')) (word_of_int (strtol16 ''5678'')) d \<and> \<not> class_driver d)
     (all_entries ex_parse (pcscArch ex_hotplug) ''/drivers'' [''foo.bundle'']) = Some 1"
  "memOk (registry ex_hotplug)"
  using ex_bundle_ids by (simp_all add: ex_hotplug_def ex_bundle_read)

theorem driver_found_witness:
  "\<exists>s'. HPSearchHotPluggables ex_parse (Some [''foo.bundle'']) ''/drivers'' ex_hotplug = Inr (0, s') \<and> fst (get_driver ex_usb s') = Some 1"
proof -
  have "devAttr ex_usb ''idVendor'' = Some ''1234''" "devAttr ex_usb ''idProduct'' = Some ''5678''" by (simp_all add: ex_usb_def)
  from driver_found [OF ex_bundle(3,1) this refl ex_bundle(2) [symmetric] refl] show ?thesis by auto
qed

definition ex_bus :: "unit hotplug" where
  "ex_bus = HPEstablishUSBNotifications ex_junk [] (HPScanUSB ex_junk [Some ex_interface] ex_hotplug)"

definition ex_added :: "LONG \<times> unit pcscd" where
  "ex_added = RFAddReader ex_junk (Some ''Bar'') 0x200000 (Some ''/drivers/foo.bundle/Contents/Linux/lib'')
     (Some ''usb:1234/5678:libudev:0:/dev/bus/usb/001/002'') (ex_empty\<lparr>dynlib := (\<lambda>_. Some (ex_library True))\<rparr>)"

definition holds_bar :: "LONG \<times> unit pcscd \<Rightarrow> bool" where
  "holds_bar r \<longleftrightarrow> fst r = SCARD_S_SUCCESS \<and> 0 < length (sReadersContexts (snd r)) \<and>
     matches ''Bar'' PCSCLITE_HP_BASE_PORT 0 (snd r) \<and> reference (rdr (snd r) 0) = 1"

lemma ex_added_reader: "holds_bar ex_added"
  by code_simp

lemma ex_bus_search:
  "search_driver (word_of_int (strtol16 ''1234'')) (word_of_int (strtol16 ''5678'')) ex_drivers [0..<2] None None = (Some (Suc 0), None)"
  "device_name (ex_drivers ! Suc 0) ex_interface ''/dev/bus/usb/001/002'' = ''usb:1234/5678:libudev:0:/dev/bus/usb/001/002''"
   apply code_simp
  by (simp add: device_name_def ex_drivers_def hex4_def lower_hex.simps lower_char_def show_int_def decimal.simps char_of_def bit_Suc_0_iff ex_interface_def)

lemma ex_bus_driver:
  "get_driver ex_usb ex_hotplug = (Some (Suc 0), None)" "drivers ex_hotplug = ex_drivers"
  "reader_full_name (ex_drivers ! Suc 0) None None = ''Bar''"
  "libraryPath (ex_drivers ! Suc 0) = Some ''/drivers/foo.bundle/Contents/Linux/lib''"
  using ex_bus_search(1)
  by (simp_all add: ex_hotplug_def ex_bundle_read get_driver_def ex_usb_def reader_full_name_def ex_drivers_def)

lemma ex_fields:
  "ifParent ex_interface = Some ex_usb" "ifSysname ex_interface = Some ''1-1:1.0''" "ifAttr ex_interface a = None"
  "devnode ex_usb = Some ''/dev/bus/usb/001/002''" "devProperty ex_usb a = None" "devAttr ex_usb ''serial'' = None"
  "readers ex_hotplug = [empty_tracker, empty_tracker]" "registry ex_hotplug = ex_empty\<lparr>dynlib := (\<lambda>_. Some (ex_library True))\<rparr>"
  "memOk ex_empty" "\<not> tracked ''1-1:1.0'' empty_tracker" "fullName empty_tracker = None"
  using ex_bundle_ids(3) by (simp_all add: ex_interface_def ex_usb_def ex_hotplug_def tracked_def empty_tracker_def numeral_2_eq_2)

lemma ex_bus_device:
  "readers ex_bus = [\<lparr>devpath = Some ''/dev/bus/usb/001/002'', fullName = Some ''Bar'', sysname = Some ''1-1:1.0''\<rparr>, empty_tracker]"
  "registry ex_bus = snd ex_added"
proof -
  obtain rv w where r: "ex_added = (rv, w)" by force
  have "HPAddDevice ex_junk ex_interface ex_hotplug = ex_hotplug\<lparr>registry := snd ex_added,
      readers := [\<lparr>devpath = Some ''/dev/bus/usb/001/002'', fullName = Some ''Bar'', sysname = Some ''1-1:1.0''\<rparr>, empty_tracker]\<rparr>"
    using ex_added_reader r
    by (simp add: HPAddDevice_def ex_fields ex_bus_driver ex_bus_search(2) holds_bar_def ex_added_def add_with_drivers_def free_entry_def)
  then show "readers ex_bus = [\<lparr>devpath = Some ''/dev/bus/usb/001/002'', fullName = Some ''Bar'', sysname = Some ''1-1:1.0''\<rparr>, empty_tracker]"
    "registry ex_bus = snd ex_added"
    by (simp_all add: ex_bus_def)
qed


end
