(* ===== verification/Hotplug_Libusb.thy ===== *)
theory Hotplug_Libusb
  imports Hotplug_Libudev
begin

text \<open>
  The hotplug back end \<^verbatim>\<open>src/src/hotplug_libusb.c\<close>: the table of drivers, the roll call of the USB bus, and the
  thread that repeats it. A name of the source that the other back end has too carries the suffix
  \<open>_libusb\<close>, and what the two files have in common (the growing table, the search for a driver, the attempt
  with the class driver) is taken from there.

  What libusb reports of the bus is an argument. \<^verbatim>\<open>usbNotifierMutex\<close> is held during one definition and has no
  state of its own here. \<open>nameMem\<close> says whether \<^verbatim>\<open>asprintf\<close> and the allocations of the tables succeed.
\<close>

section \<open>Data\<close>

record usbDriver = driverTracker +
  ifdCapabilities :: int

datatype reader_status = READER_ABSENT | READER_PRESENT | READER_FAILED

record usbTracker =
  utStatus :: reader_status
  bus_device :: string
  utFullName :: "string option"

text \<open>
  What libusb tells of a device. \<open>descriptor\<close> holds the vendor, the product and the index of the serial
  number; \<open>interfaces\<close> the index of the name of every interface, \<open>None\<close> for an interface without settings.
  A descriptor that can not be read is \<open>None\<close>.
\<close>

record libusb_device =
  bus_number :: UCHAR
  device_address :: UCHAR
  descriptor :: "(16 word \<times> 16 word \<times> UCHAR) option"
  interfaces :: "UCHAR option list option"
  openOk :: bool
  string_ascii :: "UCHAR \<Rightarrow> string option"

record 'd usb_bus =
  usbDriverSize :: int
  usbDrivers :: "usbDriver list"
  usbReaders :: "usbTracker list"
  usbInterfaceInName :: bool
  usbSerialInName :: bool
  ExitHotPlug :: bool
  rescanRead :: bool
  rescanWrite :: bool
  HPForceReaderPolling :: int
  usbArch :: string
  nameMem :: bool
  usbCRC :: int
  usbRegistry :: "'d pcscd"

definition absent_entry :: usbTracker where
  "absent_entry = \<lparr>utStatus = READER_ABSENT, bus_device = '''', utFullName = None\<rparr>"

definition empty_usb_driver :: usbDriver where
  "empty_usb_driver = \<lparr>manuID = 0, productID = 0, bundleName = None, libraryPath = None, dtReaderName = None,
     CFBundleName = None, ifdCapabilities = 0\<rparr>"

abbreviation (input) USB_DRIVER_STEP :: nat where "USB_DRIVER_STEP \<equiv> 8"
abbreviation (input) BUS_DEVICE_STRSIZE :: nat where "BUS_DEVICE_STRSIZE \<equiv> 33"
abbreviation (input) IFD_GENERATE_HOTPLUG :: int where "IFD_GENERATE_HOTPLUG \<equiv> 1"

section \<open>The drivers\<close>

text \<open>
  The entries of a bundle. A bundle without one of the keys is left out (\<open>None\<close>). The lengths of the lists
  are not compared here: \<open>Inl\<close> is a null pointer given to \<^verbatim>\<open>strtol\<close> or \<^verbatim>\<open>strdup\<close>.
\<close>

definition bundle_entries_libusb :: "string \<Rightarrow> string \<Rightarrow> string \<Rightarrow> plist \<Rightarrow> (unit + usbDriver list) option" where
  "bundle_entries_libusb arch hpDirPath d_name plist =
     (let key = LTPBundleFindValueWithKey plist in
      case (key ''CFBundleExecutable'', key ''ifdCapabilities'', key ''ifdVendorID'', key ''ifdProductID'', key ''ifdFriendlyName'') of
        (Some values, Some capabilities, Some manuIDs, Some productIDs, Some readerNames) \<Rightarrow>
          let lib = (case values of [] \<Rightarrow> ''(null)'' | v # _ \<Rightarrow> v);
              fullLibPath = take 4095 (hpDirPath @ ''/'' @ d_name @ ''/Contents/'' @ arch @ ''/'' @ lib);
              cfname = (case key ''CFBundleName'' of None \<Rightarrow> None | Some [] \<Rightarrow> None | Some (v # _) \<Rightarrow> Some v)
          in Some (case capabilities of
               [] \<Rightarrow> Inl ()
             | c # _ \<Rightarrow>
                 if length productIDs < length manuIDs \<or> length readerNames < length manuIDs then Inl ()
                 else Inr (map (\<lambda>(m, p, r). \<lparr>manuID = word_of_int (strtol16 m), productID = word_of_int (strtol16 p),
                     bundleName = Some d_name, libraryPath = Some fullLibPath, dtReaderName = Some r, CFBundleName = cfname,
                     ifdCapabilities = int32 (strtol16 c)\<rparr>)
                   (zip manuIDs (zip productIDs readerNames))))
      | _ \<Rightarrow> None)"

fun read_bundles_libusb ::
  "bool \<Rightarrow> (string \<Rightarrow> plist option) \<Rightarrow> string \<Rightarrow> string \<Rightarrow> string list \<Rightarrow> usbDriver list \<times> nat \<Rightarrow>
    unit + LONG \<times> int \<times> usbDriver list" where
  "read_bundles_libusb mem parse arch dir [] (table, listCount) = Inr (int listCount, int listCount, table)"
| "read_bundles_libusb mem parse arch dir (d_name # names) (table, listCount) =
     (if \<not> strstr d_name ''.bundle'' then read_bundles_libusb mem parse arch dir names (table, listCount)
      else case parse (take 4095 (dir @ ''/'' @ d_name @ ''/Contents/Info.plist'')) of
          None \<Rightarrow> read_bundles_libusb mem parse arch dir names (table, listCount)
        | Some plist \<Rightarrow>
            (case bundle_entries_libusb arch dir d_name plist of
               None \<Rightarrow> read_bundles_libusb mem parse arch dir names (table, listCount)
             | Some (Inl u) \<Rightarrow> Inl u
             | Some (Inr es) \<Rightarrow>
                 (case store_entries mem USB_DRIVER_STEP empty_usb_driver es (table, listCount) of
                    Inl u \<Rightarrow> Inl u
                  | Inr None \<Rightarrow> Inr (- 1, - 1, [])
                  | Inr (Some t) \<Rightarrow> read_bundles_libusb mem parse arch dir names t)))"

definition HPReadBundleValues_libusb ::
  "(string \<Rightarrow> plist option) \<Rightarrow> string list option \<Rightarrow> string \<Rightarrow> 'd usb_bus \<Rightarrow> unit + LONG \<times> 'd usb_bus" where
  "HPReadBundleValues_libusb parse dir hpDirPath s =
     (case dir of
        None \<Rightarrow> Inr (0, s)
      | Some names \<Rightarrow>
          if \<not> nameMem s then Inr (- 1, s\<lparr>usbDrivers := []\<rparr>)
          else map_sum id (\<lambda>(rv, n, table). (rv, s\<lparr>usbDriverSize := n, usbDrivers := table\<rparr>))
            (read_bundles_libusb (nameMem s) parse (usbArch s) hpDirPath names (replicate USB_DRIVER_STEP empty_usb_driver, 0)))"

definition get_driver_libusb :: "u32 \<Rightarrow> u32 \<Rightarrow> 'd usb_bus \<Rightarrow> nat option \<times> nat option" where
  "get_driver_libusb idVendor idProduct s =
     (case search_driver idVendor idProduct (usbDrivers s) [0..<nat (usbDriverSize s)] None None of
        (drv, classdriver) \<Rightarrow> (if drv \<noteq> None then drv else classdriver, classdriver))"

section \<open>Readers\<close>

definition bus_name :: "libusb_device \<Rightarrow> nat \<Rightarrow> string" where
  "bus_name dev interface = take (BUS_DEVICE_STRSIZE - 1)
     (decimal (unat (bus_number dev)) @ '':'' @ decimal (unat (device_address dev)) @ '':'' @ decimal interface)"

definition HPCleanupHotPluggable :: "nat \<Rightarrow> 'd usb_bus \<Rightarrow> 'd usb_bus" where
  "HPCleanupHotPluggable i s = s\<lparr>usbReaders := (usbReaders s)[i := absent_entry]\<rparr>"

definition HPRemoveHotPluggable :: "nat \<Rightarrow> 'd usb_bus \<Rightarrow> 'd usb_bus" where
  "HPRemoveHotPluggable i s =
     HPCleanupHotPluggable i (s\<lparr>usbRegistry := snd (RFRemoveReader (utFullName (usbReaders s ! i))
       (PCSCLITE_HP_BASE_PORT + int i) REMOVE_READER_FLAG_REMOVED (usbRegistry s))\<rparr>)"

text \<open>
  The name of a reader. An index 0 stands for no string; a string that is empty or can not be read is left out.
\<close>

definition usb_full_name :: "usbDriver \<Rightarrow> libusb_device \<Rightarrow> UCHAR \<Rightarrow> UCHAR \<Rightarrow> string" where
  "usb_full_name drv dev iInterface iSerialNumber =
     (let name = the (dtReaderName drv);
          get = (\<lambda>i. if i = 0 then '''' else case string_ascii dev i of None \<Rightarrow> '''' | Some str \<Rightarrow> str)
      in if iSerialNumber = 0 \<and> iInterface = 0 \<or> \<not> openOk dev then name
         else
           let interfaceName = get iInterface; serialNumber = get iSerialNumber in
           if interfaceName \<noteq> '''' \<and> serialNumber \<noteq> ''''
           then take (3 * MAX_READERNAME - 1) (name @ '' ['' @ interfaceName @ ''] ('' @ serialNumber @ '')'')
           else if interfaceName \<noteq> '''' then take (3 * MAX_READERNAME - 1) (name @ '' ['' @ interfaceName @ '']'')
           else if serialNumber \<noteq> '''' then take (3 * MAX_READERNAME - 1) (name @ '' ('' @ serialNumber @ '')'')
           else name)"

definition free_usb_entry :: "usbTracker list \<Rightarrow> nat \<times> usbTracker list" where
  "free_usb_entry ts =
     (case position (\<lambda>t. utFullName t = None) ts of
        Some i \<Rightarrow> (i, ts)
      | None \<Rightarrow> (length ts, ts @ [absent_entry, absent_entry]))"

definition HPAddHotPluggable ::
  "'d READER_CONTEXT \<Rightarrow> libusb_device \<Rightarrow> 16 word \<times> 16 word \<times> UCHAR \<Rightarrow> string \<Rightarrow> UCHAR option \<Rightarrow> nat \<Rightarrow> nat option \<Rightarrow>
    'd usb_bus \<Rightarrow> LONG \<times> 'd usb_bus" where
  "HPAddHotPluggable junk dev desc name idesc d classdriver s =
     (case desc of (idVendor, idProduct, serial) \<Rightarrow>
        if \<not> nameMem s then (0, s)
        else
          let deviceName = ''usb:'' @ hex4 (ucast idVendor) @ ''/'' @ hex4 (ucast idProduct) @ '':libusb-1.0:'' @ name;
              (i, ts) = free_usb_entry (usbReaders s);
              iInterface = (if usbInterfaceInName s then case idesc of None \<Rightarrow> 0 | Some n \<Rightarrow> n else 0);
              iSerialNumber = (if usbSerialInName s then serial else 0);
              fullname = usb_full_name (usbDrivers s ! d) dev iInterface iSerialNumber;
              (ret, w) = add_with_drivers junk fullname (PCSCLITE_HP_BASE_PORT + int i) deviceName d classdriver
                (usbDrivers s) (usbRegistry s);
              st = (if ret \<noteq> SCARD_S_SUCCESS \<and> ret \<noteq> SCARD_E_UNKNOWN_READER then READER_FAILED else READER_PRESENT)
          in (1, s\<lparr>usbRegistry := w,
                usbReaders := ts[i := \<lparr>utStatus = st, bus_device = take (BUS_DEVICE_STRSIZE - 1) name, utFullName = Some fullname\<rparr>]\<rparr>))"

section \<open>The roll call\<close>

text \<open>One interface: a known one is present, a new one is added.\<close>

definition scan_interface ::
  "'d READER_CONTEXT \<Rightarrow> libusb_device \<Rightarrow> 16 word \<times> 16 word \<times> UCHAR \<Rightarrow> nat \<Rightarrow> nat option \<Rightarrow> nat \<times> UCHAR option \<Rightarrow> 'd usb_bus \<Rightarrow> 'd usb_bus" where
  "scan_interface junk dev desc d classdriver x s =
     (case x of (interface, idesc) \<Rightarrow>
        let name = bus_name dev interface in
        case position (\<lambda>t. bus_device t = name) (usbReaders s) of
          Some j \<Rightarrow> s\<lparr>usbReaders := (usbReaders s)[j := (usbReaders s ! j)\<lparr>utStatus := READER_PRESENT\<rparr>]\<rparr>
        | None \<Rightarrow> snd (HPAddHotPluggable junk dev desc name idesc d classdriver s))"

definition scan_device :: "'d READER_CONTEXT \<Rightarrow> libusb_device \<Rightarrow> 'd usb_bus \<Rightarrow> 'd usb_bus" where
  "scan_device junk dev s =
     (case descriptor dev of
        None \<Rightarrow> s
      | Some (idVendor, idProduct, serial) \<Rightarrow>
          (case interfaces dev of
             None \<Rightarrow> s
           | Some ifs \<Rightarrow>
               (case get_driver_libusb (ucast idVendor) (ucast idProduct) s of
                  (None, _) \<Rightarrow> s
                | (Some d, classdriver) \<Rightarrow>
                    fold (scan_interface junk dev (idVendor, idProduct, serial) d classdriver) (enumerate 0 ifs) s)))"

definition remove_absent :: "nat \<Rightarrow> 'd usb_bus \<Rightarrow> 'd usb_bus" where
  "remove_absent i s =
     (if utStatus (usbReaders s ! i) = READER_ABSENT \<and> utFullName (usbReaders s ! i) \<noteq> None
      then HPRemoveHotPluggable i s else s)"

text \<open>\<open>devs\<close> is \<open>None\<close> when libusb can not list the devices.\<close>

definition HPRescanUsbBus :: "'d READER_CONTEXT \<Rightarrow> libusb_device list option \<Rightarrow> 'd usb_bus \<Rightarrow> 'd usb_bus" where
  "HPRescanUsbBus junk devs s =
     (let s = s\<lparr>usbReaders := map (\<lambda>t. t\<lparr>utStatus := READER_ABSENT\<rparr>) (usbReaders s)\<rparr> in
      case devs of
        None \<Rightarrow> s
      | Some devs \<Rightarrow>
          let s = fold (scan_device junk) devs s in fold remove_absent [0..<length (usbReaders s)] s)"

section \<open>The thread\<close>

definition needs_polling :: "'d usb_bus \<Rightarrow> bool" where
  "needs_polling s = list_ex (\<lambda>d. libraryPath d \<noteq> None \<and> ifdCapabilities d AND IFD_GENERATE_HOTPLUG = 0)
     (take (nat (usbDriverSize s)) (usbDrivers s))"

text \<open>
  The loops. In each round of polling the value of \<^verbatim>\<open>ExitHotPlug\<close> that is seen and the devices on the bus;
  for the pipe, whether a byte was read, then the same, and the configuration of serial readers. The first result says
  whether the loop was left.
\<close>

fun polling_loop :: "'d READER_CONTEXT \<Rightarrow> (bool \<times> libusb_device list option) list \<Rightarrow> 'd usb_bus \<Rightarrow> bool \<times> 'd usb_bus" where
  "polling_loop junk [] s = (False, s)"
| "polling_loop junk ((stop, devs) # rounds) s =
     (if stop then (True, s) else polling_loop junk rounds (HPRescanUsbBus junk devs s))"

fun pipe_loop ::
  "'d READER_CONTEXT \<Rightarrow> (bool \<times> libusb_device list option \<times> SerialReader list option) option list \<Rightarrow> 'd usb_bus \<Rightarrow> bool \<times> 'd usb_bus" where
  "pipe_loop junk [] s = (False, s)"
| "pipe_loop junk (None # rounds) s = (True, s)"
| "pipe_loop junk (Some (stop, devs, conf) # rounds) s =
     (if stop then (True, s)
      else
        let s = HPRescanUsbBus junk devs s in
        pipe_loop junk rounds (s\<lparr>usbRegistry := RFReCheckReaderConf junk conf (usbCRC s) (usbRegistry s)\<rparr>))"

text \<open>The part of the thread before its loop, up to the byte for the waiting main thread; \<open>None\<close>: the thread gave up.\<close>

definition usb_thread_start :: "'d READER_CONTEXT \<Rightarrow> bool \<Rightarrow> libusb_device list option \<Rightarrow> bool \<Rightarrow> 'd usb_bus \<Rightarrow> 'd usb_bus option" where
  "usb_thread_start junk initOk devs writeOk s =
     (if \<not> initOk then None
      else let s = HPRescanUsbBus junk devs s in if \<not> writeOk then None else Some s)"

definition usb_thread_end :: "'d usb_bus \<Rightarrow> 'd usb_bus" where
  "usb_thread_end s =
     (let s = fold (\<lambda>i s. if utFullName (usbReaders s ! i) \<noteq> None then HPCleanupHotPluggable i s else s)
            [0..<length (usbReaders s)] s
      in s\<lparr>usbDrivers := [], rescanRead := False\<rparr>)"

definition HPEstablishUSBNotifications_libusb ::
  "'d READER_CONTEXT \<Rightarrow> (bool \<times> libusb_device list option) list \<Rightarrow>
    (bool \<times> libusb_device list option \<times> SerialReader list option) option list \<Rightarrow> 'd usb_bus \<Rightarrow> bool \<times> 'd usb_bus" where
  "HPEstablishUSBNotifications_libusb junk polls bytes s =
     (let s = (if needs_polling s \<and> HPForceReaderPolling s < 1 then s\<lparr>HPForceReaderPolling := 1\<rparr> else s);
          (left, s) = (if HPForceReaderPolling s \<noteq> 0 then polling_loop junk polls s else pipe_loop junk bytes s)
      in if left then (True, usb_thread_end s) else (False, s))"

section \<open>Start and stop\<close>

text \<open>\<open>Inl\<close>: the null pointer of a bundle. \<open>None\<close>: the main thread waits for a thread that gave up.\<close>

definition HPSearchHotPluggables_libusb ::
  "'d READER_CONTEXT \<Rightarrow> (string \<Rightarrow> plist option) \<Rightarrow> string list option \<Rightarrow> string \<Rightarrow> bool \<Rightarrow> bool \<Rightarrow> bool \<Rightarrow>
    libusb_device list option \<Rightarrow> bool \<Rightarrow> bool \<Rightarrow> 'd usb_bus \<Rightarrow> (unit + LONG \<times> 'd usb_bus) option" where
  "HPSearchHotPluggables_libusb junk parse dir hpDirPath pipeOk rescanOk initOk devs writeOk readOk s =
     (case HPReadBundleValues_libusb parse dir hpDirPath (s\<lparr>ExitHotPlug := False, usbReaders := replicate 2 absent_entry\<rparr>) of
        Inl u \<Rightarrow> Some (Inl u)
      | Inr (rv, s) \<Rightarrow>
          if rv < 0 then Some (Inr (0, s))
          else if \<not> pipeOk \<or> \<not> rescanOk then Some (Inr (- 1, s))
          else
            let s = s\<lparr>rescanRead := True, rescanWrite := True\<rparr> in
            if \<not> readOk then Some (Inr (- 1, s))
            else map_option (\<lambda>s. Inr (0, s)) (usb_thread_start junk initOk devs writeOk s))"

definition HPReCheckSerialReaders_libusb :: "'d usb_bus \<Rightarrow> bool" where
  "HPReCheckSerialReaders_libusb s = rescanWrite s"

definition HPStopHotPluggables_libusb ::
  "'d READER_CONTEXT \<Rightarrow> 'd usb_bus \<Rightarrow> (LONG \<times> 'd usb_bus) option" where
  "HPStopHotPluggables_libusb junk s =
     (let s = s\<lparr>ExitHotPlug := True\<rparr>; bytes = (if HPReCheckSerialReaders_libusb s then [Some (True, None, None), None] else []) in
      case HPEstablishUSBNotifications_libusb junk [(True, None)] bytes (s\<lparr>rescanWrite := False\<rparr>) of
        (left, s) \<Rightarrow> if left then Some (0, s) else None)"

definition HPRegisterForHotplugEvents_libusb :: "'d usb_bus \<Rightarrow> LONG \<times> 'd usb_bus" where
  "HPRegisterForHotplugEvents_libusb s = (0, s)"

end
