(* ===== verification/Libusb_Props.thy ===== *)
theory Libusb_Props
  imports Hotplug_Libusb Hotplug_Props
begin

text \<open>
  The roll call of the USB bus: after a scan the tracker holds exactly the supported interfaces that are
  on the bus, each under the port it got when it was seen first, and the readers of the interfaces that
  have gone are removed.
\<close>

section \<open>The tracker\<close>

text \<open>An entry has a name exactly when it has a device, and no two entries are for the same device.\<close>

definition usb_tracker_ok :: "usbTracker list \<Rightarrow> bool" where
  "usb_tracker_ok ts \<longleftrightarrow> (\<forall>t \<in> set ts. (utFullName t = None) = (bus_device t = '''')) \<and>
     distinct (filter (\<lambda>n. n \<noteq> '''') (map bus_device ts))"

definition usb_ok :: "'d usb_bus \<Rightarrow> bool" where
  "usb_ok s \<longleftrightarrow> usb_tracker_ok (usbReaders s) \<and> registry_ok (usbRegistry s)"

lemma absent_entry_simps [simp]:
  "utStatus absent_entry = READER_ABSENT" "bus_device absent_entry = ''''" "utFullName absent_entry = None"
  by (simp_all add: absent_entry_def)

lemma bus_name_simps [simp]: "bus_name dev i \<noteq> ''''" "take 32 (bus_name dev i) = bus_name dev i"
   apply (simp add: bus_name_def)
  by (simp add: bus_name_def del: take_append)

lemma distinct_filter_nth:
  assumes "distinct (filter P xs)" "i < length xs" "j < length xs" "P (xs ! i)" "xs ! i = xs ! j"
  shows "i = j"
proof (rule ccontr)
  assume "i \<noteq> j"
  have False if "distinct (filter P xs)" "k < l" "l < length xs" "P (xs ! k)" "xs ! k = xs ! l" for k l
  proof -
    have xs: "xs = take k xs @ xs ! k # drop (Suc k) xs" using that by (intro id_take_nth_drop) simp
    have "distinct (filter P (take k xs @ xs ! k # drop (Suc k) xs))" using that(1) by (simp flip: xs)
    moreover have "drop (Suc k) xs ! (l - Suc k) = xs ! l" "l - Suc k < length (drop (Suc k) xs)" using that by auto
    then have "xs ! l \<in> set (drop (Suc k) xs)" by (metis nth_mem)
    ultimately show False using that(4,5) by simp
  qed
  then show False using assms \<open>i \<noteq> j\<close> by (metis linorder_neqE_nat)
qed

lemma usb_unique:
  assumes "usb_tracker_ok ts" "i < length ts" "j < length ts" "bus_device (ts ! i) = bus_device (ts ! j)" "bus_device (ts ! i) \<noteq> ''''"
  shows "i = j"
  using distinct_filter_nth [of "\<lambda>n. n \<noteq> ''''" "map bus_device ts" i j] assms by (simp add: usb_tracker_ok_def)

lemma usb_tracker_set:
  assumes "usb_tracker_ok ts" "i < length ts" "bus_device (ts ! i) = ''''" "name \<noteq> ''''" "\<forall>t \<in> set ts. bus_device t \<noteq> name"
  shows "usb_tracker_ok (ts[i := \<lparr>utStatus = st, bus_device = name, utFullName = Some full\<rparr>])"
proof -
  let ?t = "\<lparr>utStatus = st, bus_device = name, utFullName = Some full\<rparr>"
  define a b where "a = take i ts" and "b = drop (Suc i) ts"
  have ts: "ts = a @ ts ! i # b" "ts[i := ?t] = a @ ?t # b"
    using assms(2) by (simp_all add: a_def b_def id_take_nth_drop upd_conv_take_nth_drop)
  have "distinct (filter (\<lambda>n. n \<noteq> '''') (map bus_device (a @ ts ! i # b)))"
    using assms(1) by (simp add: usb_tracker_ok_def flip: ts(1))
  moreover have "set (a @ b) \<subseteq> set ts" unfolding a_def b_def using set_take_subset set_drop_subset by fastforce
  then have "name \<notin> bus_device ` set (a @ b)" using assms(5) by blast
  ultimately have "distinct (filter (\<lambda>n. n \<noteq> '''') (map bus_device (a @ ?t # b)))"
    using assms(3,4) by auto
  moreover have "\<forall>t \<in> set (a @ ?t # b). (utFullName t = None) = (bus_device t = '''')"
  proof -
    have "set (a @ ?t # b) \<subseteq> insert ?t (set ts)" unfolding a_def b_def using set_take_subset set_drop_subset by fastforce
    then show ?thesis using assms(1,4) by (auto simp: usb_tracker_ok_def)
  qed
  ultimately show ?thesis by (simp add: usb_tracker_ok_def ts(2))
qed

lemma free_usb_entry_ok:
  assumes "usb_tracker_ok ts" "free_usb_entry ts = (i, ts')"
  shows "usb_tracker_ok ts'" "i < length ts'" "bus_device (ts' ! i) = ''''"
    and "ts' = ts \<or> ts' = ts @ [absent_entry, absent_entry]"
proof -
  consider k where "position (\<lambda>t. utFullName t = None) ts = Some k" | "position (\<lambda>t. utFullName t = None) ts = None" by fastforce
  then have "usb_tracker_ok ts' \<and> i < length ts' \<and> bus_device (ts' ! i) = '''' \<and> (ts' = ts \<or> ts' = ts @ [absent_entry, absent_entry])"
  proof cases
    case 1
    then show ?thesis using assms position_SomeD [OF 1] by (auto simp: free_usb_entry_def usb_tracker_ok_def)
  next
    case 2
    then show ?thesis using assms by (auto simp: free_usb_entry_def usb_tracker_ok_def nth_append)
  qed
  then show "usb_tracker_ok ts'" "i < length ts'" "bus_device (ts' ! i) = ''''" "ts' = ts \<or> ts' = ts @ [absent_entry, absent_entry]"
    by blast+
qed

section \<open>Scanning\<close>

text \<open>
  The interfaces \<open>N\<close> were called: they are in the tracker and marked, everything else in the tracker was there before
  and is not marked, and what was there has kept its place and its name.
\<close>

definition called :: "string list \<Rightarrow> 'd usb_bus \<Rightarrow> 'd usb_bus \<Rightarrow> bool" where
  "called N s0 s \<longleftrightarrow> usb_ok s \<and> usbDrivers s = usbDrivers s0 \<and> usbDriverSize s = usbDriverSize s0 \<and> nameMem s = nameMem s0 \<and>
     '''' \<notin> set N \<and> set N \<subseteq> bus_device ` set (usbReaders s) \<and>
     (\<forall>t \<in> set (usbReaders s). (utStatus t \<noteq> READER_ABSENT) = (bus_device t \<in> set N)) \<and>
     (\<forall>t \<in> set (usbReaders s). bus_device t \<in> insert '''' (set N \<union> bus_device ` set (usbReaders s0))) \<and>
     length (usbReaders s0) \<le> length (usbReaders s) \<and>
     (\<forall>k < length (usbReaders s0). bus_device (usbReaders s0 ! k) \<noteq> '''' \<longrightarrow>
       bus_device (usbReaders s ! k) = bus_device (usbReaders s0 ! k) \<and> utFullName (usbReaders s ! k) = utFullName (usbReaders s0 ! k))"

lemma called_start:
  assumes "usb_ok s"
  shows "called [] s (s\<lparr>usbReaders := map (\<lambda>t. t\<lparr>utStatus := READER_ABSENT\<rparr>) (usbReaders s)\<rparr>)"
proof -
  have "map bus_device (map (\<lambda>t. t\<lparr>utStatus := READER_ABSENT\<rparr>) (usbReaders s)) = map bus_device (usbReaders s)" by simp
  with assms have "usb_ok (s\<lparr>usbReaders := map (\<lambda>t. t\<lparr>utStatus := READER_ABSENT\<rparr>) (usbReaders s)\<rparr>)"
    unfolding usb_ok_def usb_tracker_ok_def by (simp del: map_map)
  then show ?thesis by (auto simp: called_def)
qed

text \<open>What remains to show when only the tracker and the registry change.\<close>

lemma calledI:
  assumes "called N s0 s" "usb_tracker_ok ts" "registry_ok w" "name \<noteq> ''''" "set (N @ [name]) \<subseteq> bus_device ` set ts"
    and "\<And>t. t \<in> set ts \<Longrightarrow> (utStatus t \<noteq> READER_ABSENT) = (bus_device t \<in> set (N @ [name]))"
    and "\<And>t. t \<in> set ts \<Longrightarrow> bus_device t = name \<or> bus_device t = '''' \<or> bus_device t \<in> bus_device ` set (usbReaders s)"
    and "length (usbReaders s) \<le> length ts"
    and "\<And>k. k < length (usbReaders s) \<Longrightarrow> bus_device (usbReaders s ! k) \<noteq> '''' \<Longrightarrow>
      bus_device (ts ! k) = bus_device (usbReaders s ! k) \<and> utFullName (ts ! k) = utFullName (usbReaders s ! k)"
  shows "called (N @ [name]) s0 (s\<lparr>usbRegistry := w, usbReaders := ts\<rparr>)"
proof -
  have "bus_device t \<in> insert '''' (set (N @ [name]) \<union> bus_device ` set (usbReaders s0))" if "t \<in> set ts" for t
    using assms(1) assms(7) [OF that] by (auto simp: called_def)
  moreover have "bus_device (ts ! k) = bus_device (usbReaders s0 ! k) \<and> utFullName (ts ! k) = utFullName (usbReaders s0 ! k)"
    if "k < length (usbReaders s0)" "bus_device (usbReaders s0 ! k) \<noteq> ''''" for k
    using assms(1) assms(9) [of k] that by (auto simp: called_def)
  ultimately show ?thesis
    using assms(1-6,8) unfolding called_def usb_ok_def by (intro conjI) auto
qed

lemma called_known:
  assumes "called N s0 s" "j < length (usbReaders s)" "bus_device (usbReaders s ! j) = name" "name \<noteq> ''''"
  shows "called (N @ [name]) s0 (s\<lparr>usbReaders := (usbReaders s)[j := (usbReaders s ! j)\<lparr>utStatus := READER_PRESENT\<rparr>]\<rparr>)"
proof -
  let ?t = "(usbReaders s ! j)\<lparr>utStatus := READER_PRESENT\<rparr>"
  have m: "usbReaders s ! j \<in> set (usbReaders s)" using assms(2) by simp
  have u: "usb_tracker_ok (usbReaders s)" and r: "registry_ok (usbRegistry s)" using assms(1) by (auto simp: called_def usb_ok_def)
  have others: "bus_device (usbReaders s ! k) \<noteq> name" if "k < length (usbReaders s)" "k \<noteq> j" for k
    using usb_unique [OF u, of k j] that assms(2-4) by auto
  have same: "map bus_device ((usbReaders s)[j := ?t]) = map bus_device (usbReaders s)"
    using assms(2) by (auto intro!: nth_equalityI simp: nth_list_update)
  then have "usb_tracker_ok ((usbReaders s)[j := ?t])"
    using u m set_update_subset_insert [of "usbReaders s" j ?t] unfolding usb_tracker_ok_def by auto
  moreover from same have "bus_device ` set ((usbReaders s)[j := ?t]) = bus_device ` set (usbReaders s)"
    by (metis list.set_map)
  moreover have "(utStatus t \<noteq> READER_ABSENT) = (bus_device t \<in> set (N @ [name]))" if "t \<in> set ((usbReaders s)[j := ?t])" for t
  proof -
    obtain k where k: "k < length (usbReaders s)" "t = (usbReaders s)[j := ?t] ! k" using \<open>t \<in> _\<close> by (auto simp: in_set_conv_nth)
    show ?thesis
    proof (cases "k = j")
      case False
      then have "t \<in> set (usbReaders s)" "bus_device t \<noteq> name" using k others by auto
      then show ?thesis using assms(1) by (auto simp: called_def)
    qed (use k assms(3) in simp)
  qed
  ultimately have "called (N @ [name]) s0 (s\<lparr>usbRegistry := usbRegistry s, usbReaders := (usbReaders s)[j := ?t]\<rparr>)"
    using assms(1-4) m r by (intro calledI [OF assms(1)]) (auto simp: called_def nth_list_update)
  then show ?thesis by simp
qed

lemma called_new:
  assumes "called N s0 s" "position (\<lambda>t. bus_device t = name) (usbReaders s) = None" "name \<noteq> ''''"
    and "free_usb_entry (usbReaders s) = (i, ts)" "registry_ok w" "st \<noteq> READER_ABSENT"
  shows "called (N @ [name]) s0 (s\<lparr>usbRegistry := w,
    usbReaders := ts[i := \<lparr>utStatus = st, bus_device = name, utFullName = Some full\<rparr>]\<rparr>)"
proof -
  let ?t = "\<lparr>utStatus = st, bus_device = name, utFullName = Some full\<rparr>"
  have u: "usb_tracker_ok (usbReaders s)" using assms(1) by (simp add: called_def usb_ok_def)
  note f = free_usb_entry_ok [OF u assms(4)]
  have sub: "set ts \<subseteq> insert absent_entry (set (usbReaders s))" "set (usbReaders s) \<subseteq> set ts" "length (usbReaders s) \<le> length ts"
    using f(4) by auto
  have pre: "ts ! k = usbReaders s ! k" if "k < length (usbReaders s)" for k
    using f(4) that by (auto simp: nth_append)
  have new: "bus_device t \<noteq> name" if "t \<in> set ts" for t
    using assms(2,3) sub(1) that by (auto simp: position_None_iff)
  have "usb_tracker_ok (ts[i := ?t])"
    using usb_tracker_set [OF f(1-3) assms(3)] new by simp
  moreover have "(utStatus t \<noteq> READER_ABSENT) = (bus_device t \<in> set (N @ [name]))" if "t \<in> set (ts[i := ?t])" for t
  proof -
    have "t = ?t \<or> t \<in> set ts" using that set_update_subset_insert [of ts i ?t] by auto
    then show ?thesis using assms(1,6) sub(1) new by (auto simp: called_def)
  qed
  moreover have "bus_device t = name \<or> bus_device t = '''' \<or> bus_device t \<in> bus_device ` set (usbReaders s)" if "t \<in> set (ts[i := ?t])" for t
  proof -
    have "t = ?t \<or> t \<in> set ts" using that set_update_subset_insert [of ts i ?t] by auto
    then show ?thesis using sub(1) by auto
  qed
  moreover have "set (N @ [name]) \<subseteq> bus_device ` set (ts[i := ?t])"
  proof
    fix n assume "n \<in> set (N @ [name])"
    then consider "n = name" | "n \<in> set N" by auto
    then show "n \<in> bus_device ` set (ts[i := ?t])"
    proof cases
      case 1
      then show ?thesis using set_update_memI [OF f(2), of ?t] by (auto intro: image_eqI [where x = ?t])
    next
      case 2
      have "set N \<subseteq> bus_device ` set (usbReaders s)" "'''' \<notin> set N" using assms(1) by (simp_all add: called_def)
      then have n: "n \<in> bus_device ` set (usbReaders s)" "n \<noteq> ''''" using 2 by auto
      then obtain t where "t \<in> set (usbReaders s)" "n = bus_device t" by (elim imageE)
      then have t: "t \<in> set ts" "bus_device t = n" "n \<noteq> ''''" using sub(2) n(2) by auto
      then obtain k where "k < length ts" "ts ! k = t" by (auto simp: in_set_conv_nth)
      moreover from this have "k \<noteq> i" using t(2,3) f(3) by metis
      ultimately have "t \<in> set (ts[i := ?t])" by (metis length_list_update nth_list_update_neq nth_mem)
      then show ?thesis using t(2) by blast
    qed
  qed
  moreover have "ts[i := ?t] ! k = usbReaders s ! k" if "k < length (usbReaders s)" "bus_device (usbReaders s ! k) \<noteq> ''''" for k
    using pre that f(3) by (cases "k = i") auto
  ultimately show ?thesis
    using assms(1,3,5) sub(3) by (intro calledI [OF assms(1)]) simp_all
qed

lemma scan_interface_called:
  assumes "called N s0 s" "nameMem s0"
  shows "called (N @ [bus_name dev i]) s0 (scan_interface junk dev desc d c (i, idesc) s)"
proof (cases "position (\<lambda>t. bus_device t = bus_name dev i) (usbReaders s)")
  case (Some j)
  with called_known [OF assms(1), of j "bus_name dev i"] position_SomeD [OF Some] show ?thesis
    by (simp add: scan_interface_def)
next
  case None
  obtain v p n where desc: "desc = (v, p, n)" by (cases desc) auto
  obtain k ts where f: "free_usb_entry (usbReaders s) = (k, ts)" by fastforce
  have "nameMem s" "registry_ok (usbRegistry s)" using assms by (simp_all add: called_def usb_ok_def)
  then show ?thesis
    using None
    by (simp add: scan_interface_def HPAddHotPluggable_def desc f Let_def split_beta split del: if_split)
      (rule called_new [OF assms(1) None bus_name_simps(1) f]; simp add: add_with_drivers_ok)
qed

text \<open>The names of the interfaces of a device that has a driver.\<close>

definition supported_names :: "'d usb_bus \<Rightarrow> libusb_device \<Rightarrow> string list" where
  "supported_names s dev =
     (case (descriptor dev, interfaces dev) of
        (Some (v, p, _), Some ifs) \<Rightarrow>
          if fst (get_driver_libusb (ucast v) (ucast p) s) = None then [] else map (bus_name dev) [0..<length ifs]
      | _ \<Rightarrow> [])"

lemma interfaces_called:
  assumes "called N s0 s" "nameMem s0"
  shows "called (N @ map (bus_name dev) [n..<n + length ifs]) s0 (fold (scan_interface junk dev desc d c) (enumerate n ifs) s)"
  using assms
proof (induction ifs arbitrary: N n s)
  case (Cons x ifs)
  from Cons.IH [OF scan_interface_called [OF Cons.prems, of dev n junk desc d c x] Cons.prems(2), of "Suc n"] show ?case
    by (simp add: upt_conv_Cons del: upt_Suc)
qed simp

lemma scan_device_called:
  assumes "called N s0 s" "nameMem s0"
  shows "called (N @ supported_names s0 dev) s0 (scan_device junk dev s)"
proof -
  have "get_driver_libusb v p s = get_driver_libusb v p s0" for v p
    using assms(1) by (simp add: get_driver_libusb_def called_def)
  with interfaces_called [OF assms, of dev 0] show ?thesis
    using assms(1) by (auto simp: scan_device_def supported_names_def split: option.splits prod.splits)
qed

lemma scan_bus_called:
  assumes "called N s0 s" "nameMem s0"
  shows "called (N @ concat (map (supported_names s0) devs)) s0 (fold (scan_device junk) devs s)"
  using assms
proof (induction devs arbitrary: N s)
  case (Cons dev devs)
  from Cons.IH [OF scan_device_called [OF Cons.prems, of dev junk] Cons.prems(2)] show ?case by simp
qed simp

section \<open>The removal of what has gone\<close>

definition gone :: "'d usb_bus \<Rightarrow> nat \<Rightarrow> bool" where
  "gone s k \<longleftrightarrow> utStatus (usbReaders s ! k) = READER_ABSENT \<and> utFullName (usbReaders s ! k) \<noteq> None"

definition swept :: "usbTracker \<Rightarrow> usbTracker" where
  "swept t = (if utStatus t = READER_ABSENT \<and> utFullName t \<noteq> None then absent_entry else t)"

lemma remove_absent_readers:
  assumes "k \<le> length (usbReaders s)"
  shows "usbReaders (fold remove_absent [0..<k] s) = map swept (take k (usbReaders s)) @ drop k (usbReaders s)"
  using assms
proof (induction k)
  case (Suc k)
  define a b where "a = map swept (take k (usbReaders s))" and "b = drop (Suc k) (usbReaders s)"
  have k: "k = length a" using Suc.prems by (simp add: a_def)
  have r: "usbReaders (fold remove_absent [0..<k] s) = a @ usbReaders s ! k # b"
    using Suc by (simp add: a_def b_def Cons_nth_drop_Suc)
  then have "usbReaders (remove_absent k (fold remove_absent [0..<k] s)) = a @ swept (usbReaders s ! k) # b"
    by (auto simp: remove_absent_def HPRemoveHotPluggable_def HPCleanupHotPluggable_def swept_def k)
  then show ?case using Suc.prems by (simp add: take_Suc_conv_app_nth a_def b_def)
qed simp

lemma getenv_remove_readers: "getenv (remove_readers name p flags is w) = getenv w"
  by (induction "is" arbitrary: w) simp_all

lemma getenv_RFRemoveReader: "getenv (snd (RFRemoveReader name p flags w)) = getenv w"
  by (simp add: RFRemoveReader_def getenv_remove_readers bump_reader_events_def Let_def split: option.split)

lemma RFRemoveReader_effect:
  assumes "registry_ok w" "i < length (sReadersContexts w)"
  shows "matches name p i w \<Longrightarrow> reference (rdr w i) = 1 \<Longrightarrow> \<not> active (rdr (snd (RFRemoveReader (Some name) p flags w)) i)"
    and "\<not> matches name p i w \<Longrightarrow> rdr (snd (RFRemoveReader (Some name) p flags w)) i = rdr w i"
  using remove_readers_match [OF assms(1), of "[0..<length (sReadersContexts w)]" i name p flags] assms(2)
  by (auto simp: RFRemoveReader_def)

text \<open>
  The removals one after the other: a reader of an entry that has gone is not active any more when no call was
  using it, and a reader of no such entry is as it was. The ports keep the removals apart.
\<close>

definition reader_of :: "'d usb_bus \<Rightarrow> nat \<Rightarrow> nat \<Rightarrow> bool" where
  "reader_of s k i \<longleftrightarrow> matches (the (utFullName (usbReaders s ! k))) (PCSCLITE_HP_BASE_PORT + int k) i (usbRegistry s)"

lemma remove_absent_registry:
  assumes "k \<le> length (usbReaders s)" "registry_ok (usbRegistry s)"
  defines "w \<equiv> usbRegistry (fold remove_absent [0..<k] s)"
  shows "registry_ok w \<and> getenv w = getenv (usbRegistry s) \<and> length (sReadersContexts w) = length (sReadersContexts (usbRegistry s)) \<and>
    (\<forall>i < length (sReadersContexts w).
      ((\<forall>j < k. gone s j \<longrightarrow> \<not> reader_of s j i) \<longrightarrow> rdr w i = rdr (usbRegistry s) i) \<and>
      (\<forall>j < k. gone s j \<and> reader_of s j i \<and> reference (rdr (usbRegistry s) i) = 1 \<longrightarrow> \<not> active (rdr w i)))"
  using assms(1) unfolding w_def
proof (induction k)
  case 0
  then show ?case using assms(2) by simp
next
  case (Suc k)
  let ?v = "fold remove_absent [0..<k] s" and ?p = "PCSCLITE_HP_BASE_PORT + int k"
  have at: "usbReaders ?v ! k = usbReaders s ! k"
    using Suc.prems by (simp add: remove_absent_readers nth_append)
  show ?case
  proof (cases "gone s k")
    case True
    then obtain full where full: "utFullName (usbReaders s ! k) = Some full" by (auto simp: gone_def)
    let ?w' = "snd (RFRemoveReader (Some full) ?p REMOVE_READER_FLAG_REMOVED (usbRegistry ?v))"
    have w': "usbRegistry (fold remove_absent [0..<Suc k] s) = ?w'"
      using True at full by (simp add: gone_def remove_absent_def HPRemoveHotPluggable_def HPCleanupHotPluggable_def)
    have IH: "registry_ok (usbRegistry ?v)" "getenv (usbRegistry ?v) = getenv (usbRegistry s)"
      "length (sReadersContexts (usbRegistry ?v)) = length (sReadersContexts (usbRegistry s))"
      "\<And>i. i < length (sReadersContexts (usbRegistry s)) \<Longrightarrow> (\<And>j. j < k \<Longrightarrow> gone s j \<Longrightarrow> \<not> reader_of s j i) \<Longrightarrow>
        rdr (usbRegistry ?v) i = rdr (usbRegistry s) i"
      "\<And>i j. i < length (sReadersContexts (usbRegistry s)) \<Longrightarrow> j < k \<Longrightarrow> gone s j \<Longrightarrow> reader_of s j i \<Longrightarrow>
        reference (rdr (usbRegistry s) i) = 1 \<Longrightarrow> \<not> active (rdr (usbRegistry ?v) i)"
      using Suc by auto
    have ro: "reader_of s k i = matches full ?p i (usbRegistry s)" for i by (simp add: reader_of_def full)
    have only: "\<not> reader_of s j i" if "reader_of s k i" "j < k" for i j
      using that by (auto simp: reader_of_def matches_def)
    note e = RFRemoveReader_effect [OF IH(1), where name = full and p = ?p and flags = REMOVE_READER_FLAG_REMOVED]
    have keep: "rdr ?w' i = rdr (usbRegistry s) i"
      if i: "i < length (sReadersContexts (usbRegistry s))" and none: "\<And>j. j < Suc k \<Longrightarrow> gone s j \<Longrightarrow> \<not> reader_of s j i" for i
    proof -
      have same: "rdr (usbRegistry ?v) i = rdr (usbRegistry s) i" using IH(4) [OF i] none by simp
      then have "\<not> matches full ?p i (usbRegistry ?v)"
        using none [of k] True matches_cong [OF same IH(2)] by (simp add: ro)
      with e(2) i IH(3) same show ?thesis by simp
    qed
    have dead: "\<not> active (rdr ?w' i)"
      if i: "i < length (sReadersContexts (usbRegistry s))" and j: "j < Suc k" "gone s j" "reader_of s j i" "reference (rdr (usbRegistry s) i) = 1" for i j
    proof (cases "j = k")
      case True
      have same: "rdr (usbRegistry ?v) i = rdr (usbRegistry s) i" using IH(4) [OF i] only j(3) True by blast
      then have "matches full ?p i (usbRegistry ?v)" using j(3) True matches_cong [OF same IH(2)] by (simp add: ro)
      with e(1) i IH(3) j(4) same show ?thesis by simp
    next
      case False
      then have a: "\<not> active (rdr (usbRegistry ?v) i)" using IH(5) [OF i, of j] j by simp
      then have "\<not> matches full ?p i (usbRegistry ?v)" by (simp add: matches_def)
      with e(2) i IH(3) a show ?thesis by simp
    qed
    have "registry_ok ?w'" "length (sReadersContexts ?w') = length (sReadersContexts (usbRegistry s))" "getenv ?w' = getenv (usbRegistry s)"
      using RFRemoveReader_registry_ok [OF IH(1)] IH(2,3) by (simp_all add: getenv_RFRemoveReader)
    with keep dead show ?thesis unfolding w' by auto
  next
    case False
    then have "remove_absent k ?v = ?v" using at by (auto simp: gone_def remove_absent_def)
    with Suc False show ?thesis by (auto simp: less_Suc_eq)
  qed
qed

lemma distinct_filter_sweep:
  assumes "\<And>t. f (g t) \<noteq> e \<Longrightarrow> f (g t) = f t" "distinct (filter (\<lambda>n. n \<noteq> e) (map f ts))"
  shows "distinct (filter (\<lambda>n. n \<noteq> e) (map (\<lambda>t. f (g t)) ts))"
  using assms(2)
proof (induction ts)
  case (Cons a ts)
  then have IH: "distinct (filter (\<lambda>n. n \<noteq> e) (map (\<lambda>t. f (g t)) ts))" by (simp split: if_splits)
  have "f (g a) \<notin> f ` g ` set ts" if "f (g a) \<noteq> e"
  proof
    assume "f (g a) \<in> f ` g ` set ts"
    then obtain x where x: "x \<in> set ts" "f (g x) = f (g a)" by auto
    then have "f x = f a" "f a \<noteq> e" using assms(1) that by (metis, metis)
    with Cons.prems x(1) show False by (auto simp: rev_image_eqI)
  qed
  with IH show ?case by (auto simp: image_image)
qed simp

lemma swept_ok:
  assumes "usb_tracker_ok ts"
  shows "usb_tracker_ok (map swept ts)"
proof -
  have "bus_device (swept t) \<noteq> '''' \<Longrightarrow> bus_device (swept t) = bus_device t" for t by (simp add: swept_def split: if_splits)
  then have "distinct (filter (\<lambda>n. n \<noteq> '''') (map (\<lambda>t. bus_device (swept t)) ts))"
    using conjunct2 [OF assms [unfolded usb_tracker_ok_def]] by (rule distinct_filter_sweep)
  moreover have "(utFullName (swept t) = None) = (bus_device (swept t) = '''')" if "t \<in> set ts" for t
    using assms that by (simp add: usb_tracker_ok_def swept_def)
  ultimately show ?thesis by (simp add: usb_tracker_ok_def comp_def)
qed


section \<open>An example\<close>

text \<open>The two drivers of the bundle of the other example; one of their readers is plugged, then unplugged.\<close>

definition ex_libusb :: "unit usb_bus" where
  "ex_libusb = \<lparr>usbDriverSize = 2, usbDrivers = map (\<lambda>d. driverTracker.extend d \<lparr>ifdCapabilities = 1\<rparr>) ex_drivers,
     usbReaders = replicate 2 absent_entry, usbInterfaceInName = True, usbSerialInName = True, ExitHotPlug = False,
     rescanRead = True, rescanWrite = True, HPForceReaderPolling = 0, usbArch = ''Linux'', nameMem = True, usbCRC = 0,
     usbRegistry = ex_empty\<lparr>dynlib := (\<lambda>_. Some (ex_library True))\<rparr>\<rparr>"

definition ex_plug :: libusb_device where
  "ex_plug = \<lparr>bus_number = 1, device_address = 2, descriptor = Some (0x1234, 0x5678, 0), interfaces = Some [None],
     openOk = True, string_ascii = (\<lambda>_. None)\<rparr>"

lemma ex_libusb_names:
  "get_driver_libusb 0x1234 0x5678 ex_libusb = (Some 1, None)" "supported_names ex_libusb ex_plug = [''1:2:0'']"
proof -
  show d: "get_driver_libusb 0x1234 0x5678 ex_libusb = (Some 1, None)"
    by (simp add: get_driver_libusb_def ex_libusb_def ex_drivers_def numeral_2_eq_2 driverTracker.defs Let_def)
  then show "supported_names ex_libusb ex_plug = [''1:2:0'']"
    by (simp add: supported_names_def ex_plug_def bus_name_def decimal.simps char_of_def bit_Suc_0_iff)
qed


end
