(* ===== verification/Pcscdaemon.thy ===== *)
theory Pcscdaemon
  imports Winscard_Svc Hotplug_Libudev
begin

text \<open>
  The process of the daemon: \<^verbatim>\<open>src/src/pcscdaemon.c\<close> with its options, its start, its signals and its main loop, the
  socket of \<^verbatim>\<open>src/src/winscard_msg_srv.c\<close>, and the process number of \<^verbatim>\<open>src/src/utils.c\<close>.

  The state is what the process keeps in static variables, the two files other processes see, the byte for the father
  process, the service of \<open>Winscard_Svc\<close> and the hotplug back end of \<open>Hotplug_Libudev\<close>, which share the readers. What
  the system calls answer is a record of arguments. The output of the logs, of the version and of the usage is left
  out, and so is the comparison of two constants of the build at the start.
\<close>

section \<open>Data\<close>

text \<open>
  \<open>socketFile\<close> says whether \<^verbatim>\<open>pcscd.comm\<close> exists, \<open>pidFile\<close> is the content of \<^verbatim>\<open>pcscd.pid\<close>. \<open>fatherPipe\<close>: the write end of the
  pipe to the father process is open; \<open>toFather\<close>: the bytes written to it.
\<close>

record 'd process =
  MustExit :: bool
  Init :: bool
  SocketActivated :: bool
  ExitValue :: int
  lives :: int
  socketFile :: bool
  pidFile :: "string option"
  fatherPipe :: bool
  toFather :: "int list"
  commonSocket :: int
  pollingSeconds :: int
  service :: "'d svc"
  hp :: "'d hotplug"

abbreviation (input) EXIT_SUCCESS :: int where "EXIT_SUCCESS \<equiv> 0"
abbreviation (input) EXIT_FAILURE :: int where "EXIT_FAILURE \<equiv> 1"
abbreviation (input) PID_ASCII_SIZE :: nat where "PID_ASCII_SIZE \<equiv> 11"

text \<open>
  How a run of the program stands: it has returned from \<^verbatim>\<open>main\<close>, it has called \<^verbatim>\<open>exit\<close>, it goes on, or its main
  thread has ended or waits for ever.
\<close>

datatype 'd run = Returned int "'d process" | Exited int "'d process" | Running "'d process" | Blocked "'d process"

text \<open>The readers belong to the service; the hotplug back end works on them.\<close>

definition set_daemon :: "'d pcscd \<Rightarrow> 'd process \<Rightarrow> 'd process" where
  "set_daemon w p = p\<lparr>service := (service p)\<lparr>daemon := w\<rparr>\<rparr>"

definition hp_state :: "'d process \<Rightarrow> 'd hotplug" where
  "hp_state p = (hp p)\<lparr>registry := daemon (service p)\<rparr>"

definition set_hp :: "'d hotplug \<Rightarrow> 'd process \<Rightarrow> 'd process" where
  "set_hp h p = set_daemon (registry h) (p\<lparr>hp := h\<rparr>)"

section \<open>The files and the end of the process\<close>

definition clean_temp_files :: "'d process \<Rightarrow> 'd process" where
  "clean_temp_files p = p\<lparr>socketFile := (if SocketActivated p then socketFile p else False), pidFile := None\<rparr>"

definition tell_father :: "int \<Rightarrow> 'd process \<Rightarrow> 'd process" where
  "tell_father buf p = (if fatherPipe p then p\<lparr>toFather := toFather p @ [buf], fatherPipe := False\<rparr> else p)"

definition at_exit :: "'d process \<Rightarrow> 'd run" where
  "at_exit p = Exited (ExitValue p) (tell_father (ExitValue p) (clean_temp_files p))"

text \<open>
  A process file that can not be opened or read counts as no file (\<^verbatim>\<open>-1\<close>).
  The process number: \<^verbatim>\<open>snprintf\<close> into \<^verbatim>\<open>PID_ASCII_SIZE\<close> characters, written with its NUL over what the file had. Reading takes
  as many characters; \<open>junk\<close> are the characters behind them on the stack.
\<close>

definition pid_text :: "nat \<Rightarrow> string" where
  "pid_text n = take (PID_ASCII_SIZE - 1) (decimal n @ [CHR 0x0A]) @ [CHR 0x00]"

definition record_pid :: "nat \<Rightarrow> bool \<Rightarrow> bool \<Rightarrow> 'd process \<Rightarrow> 'd process" where
  "record_pid n openOk' writeOk p =
     (if \<not> openOk' then p
      else
        let old = (case pidFile p of None \<Rightarrow> '''' | Some old \<Rightarrow> old); text = pid_text n
        in p\<lparr>pidFile := Some (if writeOk then text @ drop (length text) old else old)\<rparr>)"

definition GetDaemonPid :: "string \<Rightarrow> 'd process \<Rightarrow> int" where
  "GetDaemonPid junk p =
     (case pidFile p of
        None \<Rightarrow> - 1
      | Some content \<Rightarrow> int32 (atoi (take PID_ASCII_SIZE content @ junk)))"

definition send_hotplug_signal :: "string \<Rightarrow> bool \<Rightarrow> 'd process \<Rightarrow> int" where
  "send_hotplug_signal junk killOk p =
     (if GetDaemonPid junk p \<noteq> - 1 \<and> \<not> killOk then EXIT_FAILURE else EXIT_SUCCESS)"

section \<open>Signals\<close>

datatype signal = SIGUSR1 | SIGTERM | SIGALRM | SIGINT | SIGQUIT

text \<open>One round of \<^verbatim>\<open>signal_thread\<close>. \<open>devs\<close> is what is on the USB bus.\<close>

definition signal_thread :: "'d READER_CONTEXT \<Rightarrow> usb_interface option list \<Rightarrow> signal \<Rightarrow> 'd process \<Rightarrow> 'd run" where
  "signal_thread junk devs sig p =
     (if sig = SIGUSR1 then
        Running (if \<not> MustExit p then set_hp (HPReCheckSerialReaders junk devs (hp_state p)) p else p)
      else if sig = SIGTERM then at_exit (p\<lparr>ExitValue := EXIT_SUCCESS\<rparr>)
      else
        let p = (if sig = SIGALRM then p\<lparr>ExitValue := EXIT_SUCCESS\<rparr> else p) in
        if \<not> MustExit p then
          let p = p\<lparr>MustExit := True\<rparr> in if Init p then at_exit p else Running p
        else
          let p = p\<lparr>lives := lives p - 1\<rparr> in if lives p = 0 then at_exit p else Running p)"

section \<open>The socket of the service\<close>

text \<open>What \<^verbatim>\<open>select\<close> and \<^verbatim>\<open>accept\<close> do; \<open>Ready\<close> carries whether the socket is in the set and what \<^verbatim>\<open>accept\<close> returns.\<close>

datatype select_event = Select_failed bool | Select_timeout | Ready bool int

definition ProcessCommonChannelRequest :: "int \<Rightarrow> int \<times> int option" where
  "ProcessCommonChannelRequest new_sock = (if new_sock < 0 then (- 1, None) else (0, Some new_sock))"

definition ProcessEventsServer :: "select_event \<Rightarrow> int \<times> int option" where
  "ProcessEventsServer ev =
     (case ev of
        Select_failed interrupted \<Rightarrow> (if interrupted then - 2 else - 1, None)
      | Select_timeout \<Rightarrow> (2, None)
      | Ready isset new_sock \<Rightarrow>
          if \<not> isset then (- 1, None)
          else case ProcessCommonChannelRequest new_sock of (rv, client) \<Rightarrow> if rv = - 1 then (- 1, None) else (0, client))"

definition InitializeSocket :: "int \<Rightarrow> bool \<Rightarrow> bool \<Rightarrow> 'd process \<Rightarrow> int \<times> 'd process" where
  "InitializeSocket fd bindOk listenOk p =
     (let p = p\<lparr>commonSocket := fd\<rparr> in
      if fd < 0 then (- 1, p)
      else
        let p = p\<lparr>socketFile := False\<rparr> in
        if \<not> bindOk then (- 1, p)
        else let p = p\<lparr>socketFile := True\<rparr> in if \<not> listenOk then (- 1, p) else (0, p))"

definition ListenExistingSocket :: "int \<Rightarrow> bool \<Rightarrow> 'd process \<Rightarrow> int \<times> 'd process" where
  "ListenExistingSocket fd isSocket p = (if \<not> isSocket then (- 1, p) else (0, p\<lparr>commonSocket := fd\<rparr>))"

section \<open>The main loop\<close>

definition stop_service :: "'d process \<Rightarrow> 'd process" where
  "stop_service p =
     (let p = set_hp (snd (HPStopHotPluggables (hp_state p))) p;
          s = ContextsDeinitialize (service p);
          w = RFCleanupReaders (daemon s);
          w = snd (EHDeinitializeEventStructures w)
      in p\<lparr>service := s\<lparr>daemon := w\<rparr>\<rparr>)"

text \<open>One turn of the loop; \<open>ev\<close> is what the wait for clients ends with.\<close>

definition SVCServiceRunLoop :: "select_event \<Rightarrow> 'd process \<Rightarrow> 'd run" where
  "SVCServiceRunLoop ev p =
     (if MustExit p then at_exit (stop_service p)
      else case ProcessEventsServer ev of
          (rsp, client) \<Rightarrow>
            if rsp = 0 then Running (p\<lparr>service := snd (CreateContextThread (the client) (service p))\<rparr>)
            else Running p)"

section \<open>Options\<close>

text \<open>What \<^verbatim>\<open>getopt_long\<close> delivers: an option with its letter, or one of the two options without a letter.\<close>

datatype opt = Opt char "string option" | Force_reader_polling "string option" | Disable_polkit

record config =
  setToForeground :: bool
  HotPlug :: bool
  newReaderConfig :: "string option"
  customMaxThreadCounter :: int
  customMaxReaderHandles :: int
  customMaxThreadCardHandles :: int

definition opt_number :: "string option \<Rightarrow> int" where
  "opt_number optarg = (case optarg of None \<Rightarrow> 0 | Some a \<Rightarrow> int32 (atoi a))"

text \<open>\<open>Inl\<close> is the value \<^verbatim>\<open>main\<close> returns.\<close>

definition handle_option :: "opt \<Rightarrow> config \<times> 'd process \<Rightarrow> int + config \<times> 'd process" where
  "handle_option opt cp =
     (case cp of (c, p) \<Rightarrow>
        case opt of
          Force_reader_polling a \<Rightarrow> Inr (c, p\<lparr>pollingSeconds := (case a of None \<Rightarrow> 1 | Some n \<Rightarrow> \<bar>int32 (atoi n)\<bar>)\<rparr>)
        | Disable_polkit \<Rightarrow> Inr (c, p\<lparr>service := (service p)\<lparr>disable_polkit := True\<rparr>\<rparr>)
        | Opt l a \<Rightarrow>
            if l = CHR ''c'' then Inr (c\<lparr>newReaderConfig := a\<rparr>, p)
            else if l = CHR ''f'' then Inr (c\<lparr>setToForeground := True\<rparr>, p)
            else if l \<in> set ''TdieCa'' then Inr (c, p)
            else if l = CHR ''h'' \<or> l = CHR ''v'' then Inl EXIT_SUCCESS
            else if l = CHR ''H'' then Inr (c\<lparr>HotPlug := True\<rparr>, p)
            else if l = CHR ''t'' then Inr (c\<lparr>customMaxThreadCounter := opt_number a\<rparr>, p)
            else if l = CHR ''r'' then Inr (c\<lparr>customMaxReaderHandles := opt_number a\<rparr>, p)
            else if l = CHR ''s'' then Inr (c\<lparr>customMaxThreadCardHandles := opt_number a\<rparr>, p)
            else if l = CHR ''x'' then Inr (c, p\<lparr>service := (service p)\<lparr>AutoExit := True\<rparr>\<rparr>)
            else if l = CHR ''S'' then Inr (c, p\<lparr>hp := (hp p)\<lparr>Add_Serial_In_Name := False\<rparr>\<rparr>)
            else if l = CHR ''I'' then Inr (c, p\<lparr>hp := (hp p)\<lparr>Add_Interface_In_Name := False\<rparr>\<rparr>)
            else Inl EXIT_FAILURE)"

fun handle_options :: "opt list \<Rightarrow> config \<times> 'd process \<Rightarrow> int + config \<times> 'd process" where
  "handle_options [] cp = Inr cp"
| "handle_options (opt # opts) cp =
     (case handle_option opt cp of Inl code \<Rightarrow> Inl code | Inr cp \<Rightarrow> handle_options opts cp)"

section \<open>The start\<close>

datatype kill_result = Kill_ok | Kill_esrch | Kill_failed

text \<open>What the operating system answers, in the order of the calls.\<close>

record 'd os =
  extraArgument :: bool
  listenFds :: int
  statSocket :: bool
  stackJunk :: string
  killHotplug :: bool
  killOld :: kill_result
  chdirOk :: bool
  pipeOk :: bool
  forkOk :: bool
  signalPipeOk :: bool
  signalThreadOk :: bool
  ipcDirOk :: bool
  serialReaders :: "int \<times> SerialReader list option"
  pidOpenOk :: bool
  pidWriteOk :: bool
  getpid :: nat
  isUnixSocket :: bool
  socketFd :: int
  bindOk :: bool
  listenOk :: bool
  dropDir :: string
  bundleParse :: "string \<Rightarrow> plist option"
  bundleNames :: "string list option"
  udevStart :: udev_start
  usbDevices :: "usb_interface option list"
  otherThreads :: "('d pcscd \<Rightarrow> 'd pcscd) list"

text \<open>
  Another daemon. \<open>Inl\<close> is the value \<^verbatim>\<open>main\<close> returns: a request of \<^verbatim>\<open>--hotplug\<close> has been passed on or has failed, or
  another daemon is running.
\<close>

definition main_check :: "'d os \<Rightarrow> config \<Rightarrow> 'd process \<Rightarrow> int + 'd process" where
  "main_check os c p =
     (if extraArgument os then Inl EXIT_FAILURE
      else if listenFds os > 1 then Inl EXIT_FAILURE
      else
        let p = p\<lparr>SocketActivated := (listenFds os = 1)\<rparr> in
        if statSocket os \<and> \<not> SocketActivated p then
          (if GetDaemonPid (stackJunk os) p \<noteq> - 1 then
             (if HotPlug c then Inl (send_hotplug_signal (stackJunk os) (killHotplug os) p)
              else case killOld os of
                  Kill_ok \<Rightarrow> Inl EXIT_FAILURE
                | Kill_esrch \<Rightarrow> Inr (clean_temp_files p)
                | Kill_failed \<Rightarrow> Inl EXIT_FAILURE)
           else if HotPlug c then Inl EXIT_FAILURE else Inr p)
        else if HotPlug c then Inl EXIT_FAILURE else Inr p)"

text \<open>Into the background: the rest of \<^verbatim>\<open>main\<close> is that of the son, which has the pipe to its father.\<close>

definition main_fork :: "'d os \<Rightarrow> config \<Rightarrow> 'd process \<Rightarrow> int + 'd process" where
  "main_fork os c p =
     (if \<not> chdirOk os then Inl EXIT_FAILURE
      else if setToForeground c then Inr p
      else if \<not> pipeOk os \<or> \<not> forkOk os then Inl EXIT_FAILURE
      else Inr (p\<lparr>fatherPipe := True\<rparr>))"

text \<open>The hotplug back end, the wait for the readers, the byte for the father, and the main loop.\<close>

definition main_hotplug :: "'d READER_CONTEXT \<Rightarrow> 'd os \<Rightarrow> 'd process \<Rightarrow> 'd run" where
  "main_hotplug junk os p =
     (case HPSearchHotPluggables (bundleParse os) (bundleNames os) (dropDir os) (hp_state p) of
        Inl u \<Rightarrow> Blocked p
      | Inr (rv, h) \<Rightarrow>
          let p = set_hp h p in
          if rv \<noteq> 0 then at_exit p
          else case HPRegisterForHotplugEvents junk (udevStart os) (usbDevices os) (hp_state p) of
              (Inl u, h) \<Rightarrow> Blocked (set_hp h p)
            | (Inr rv, h) \<Rightarrow>
                let p = set_hp h p in
                if rv \<noteq> 0 then at_exit p
                else case RFWaitForReaderInit (otherThreads os) (daemon (service p)) of
                    None \<Rightarrow> Blocked p
                  | Some w \<Rightarrow>
                      let p = tell_father EXIT_SUCCESS (set_daemon w p)
                      in Running (if AutoExit (service p)
                           then p\<lparr>service := (service p)\<lparr>alarmClock := Some TIME_BEFORE_SUICIDE\<rparr>\<rparr> else p))"

definition main_service :: "'d READER_CONTEXT \<Rightarrow> 'd os \<Rightarrow> config \<Rightarrow> 'd process \<Rightarrow> 'd run" where
  "main_service junk os c p =
     (let p = (record_pid (getpid os) (pidOpenOk os) (pidWriteOk os) p)\<lparr>Init := False\<rparr>;
          (rv, p) = (if SocketActivated p then ListenExistingSocket 3 (isUnixSocket os) p
                     else InitializeSocket (socketFd os) (bindOk os) (listenOk os) p)
      in if rv \<noteq> 0 then at_exit p
         else case ContextsInitialize (customMaxThreadCounter c) (customMaxThreadCardHandles c) (service p) of
             (rv, s) \<Rightarrow>
               let p = p\<lparr>service := s\<rparr> in if rv = - 1 then at_exit p else main_hotplug junk os p)"

definition main_init :: "'d READER_CONTEXT \<Rightarrow> 'd os \<Rightarrow> config \<Rightarrow> 'd process \<Rightarrow> 'd run" where
  "main_init junk os c p =
     (if \<not> signalPipeOk os \<or> \<not> signalThreadOk os \<or> \<not> ipcDirOk os then Returned EXIT_FAILURE p
      else case RFAllocateReaderSpace junk (nat (customMaxReaderHandles c mod 2 ^ 32)) (daemon (service p)) of
          (rv, w) \<Rightarrow>
            let p = set_daemon w p in
            if rv \<noteq> SCARD_S_SUCCESS then at_exit p
            else case RFStartSerialReaders junk (serialReaders os) 0 w of
                (rv, crc, w) \<Rightarrow>
                  let p = set_daemon w p in
                  if (if newReaderConfig c \<noteq> None then rv \<noteq> 0 else rv = - 1) then at_exit p
                  else main_service junk os c p)"

definition no_options :: config where
  "no_options = \<lparr>setToForeground = False, HotPlug = False, newReaderConfig = None,
     customMaxThreadCounter = 0, customMaxReaderHandles = 0, customMaxThreadCardHandles = 0\<rparr>"

definition pcscd_main :: "'d READER_CONTEXT \<Rightarrow> 'd os \<Rightarrow> opt list \<Rightarrow> 'd process \<Rightarrow> 'd run" where
  "pcscd_main junk os opts p =
     (case handle_options opts (no_options, p) of
        Inl code \<Rightarrow> Returned code p
      | Inr (c, p) \<Rightarrow>
          (case main_check os c p of
             Inl code \<Rightarrow> Returned code p
           | Inr p \<Rightarrow>
               (case main_fork os c p of
                  Inl code \<Rightarrow> Returned code p
                | Inr p \<Rightarrow> main_init junk os c p)))"

text \<open>
  The exit code of the father: the byte of the son, 2 when the son has ended without one; \<open>None\<close> while the
  father waits.
\<close>

definition father_code :: "'d run \<Rightarrow> int option" where
  "father_code r =
     (case r of
        Running p \<Rightarrow> (case toFather p of [] \<Rightarrow> None | b # _ \<Rightarrow> Some b)
      | Blocked p \<Rightarrow> (case toFather p of [] \<Rightarrow> None | b # _ \<Rightarrow> Some b)
      | Returned code p \<Rightarrow> Some (case toFather p of [] \<Rightarrow> 2 | b # _ \<Rightarrow> b)
      | Exited code p \<Rightarrow> Some (case toFather p of [] \<Rightarrow> 2 | b # _ \<Rightarrow> b))"

end
