(* ===== verification/Pcscdaemon_Props.thy ===== *)
theory Pcscdaemon_Props
  imports Pcscdaemon Svc_Props Hotplug_Props
begin

text \<open>
  The process of the daemon: what the father process is told of the start, how signals end the daemon whatever its
  main loop does, and what is left behind.
\<close>

section \<open>Frames\<close>

lemma process_frame [simp]:
  "MustExit (set_daemon w p) = MustExit p" "Init (set_daemon w p) = Init p" "SocketActivated (set_daemon w p) = SocketActivated p"
  "ExitValue (set_daemon w p) = ExitValue p" "lives (set_daemon w p) = lives p" "socketFile (set_daemon w p) = socketFile p"
  "pidFile (set_daemon w p) = pidFile p" "fatherPipe (set_daemon w p) = fatherPipe p" "toFather (set_daemon w p) = toFather p"
  "MustExit (set_hp h p) = MustExit p" "Init (set_hp h p) = Init p" "SocketActivated (set_hp h p) = SocketActivated p"
  "ExitValue (set_hp h p) = ExitValue p" "lives (set_hp h p) = lives p" "socketFile (set_hp h p) = socketFile p"
  "pidFile (set_hp h p) = pidFile p" "fatherPipe (set_hp h p) = fatherPipe p" "toFather (set_hp h p) = toFather p"
  by (simp_all add: set_daemon_def set_hp_def)

lemma tell_father_frame [simp]:
  "MustExit (tell_father b p) = MustExit p" "Init (tell_father b p) = Init p" "SocketActivated (tell_father b p) = SocketActivated p"
  "socketFile (tell_father b p) = socketFile p" "pidFile (tell_father b p) = pidFile p"
  by (simp_all add: tell_father_def)

section \<open>The process number\<close>

definition digit :: "char \<Rightarrow> bool" where
  "digit c \<longleftrightarrow> (let d = of_char c :: nat in 48 \<le> d \<and> d \<le> 57)"

definition digits_value :: "string \<Rightarrow> int \<Rightarrow> int" where
  "digits_value = fold (\<lambda>c n. 10 * n + int (of_char c - 48))"

lemma decimal_prefix_append:
  assumes "\<forall>c \<in> set xs. digit c" "ys = [] \<or> \<not> digit (hd ys)"
  shows "decimal_prefix (xs @ ys) n = digits_value xs n"
  using assms(1)
proof (induction xs arbitrary: n)
  case Nil
  then show ?case using assms(2) by (cases ys) (auto simp: digits_value_def digit_def Let_def)
qed (auto simp: digits_value_def digit_def Let_def)

lemma of_char_digit [simp]: "d < 10 \<Longrightarrow> of_char (char_of (48 + d) :: char) = 48 + (d :: nat)"
  by (simp add: of_char_of)

lemma decimal_digits: "(\<forall>c \<in> set (decimal n). digit c) \<and> digits_value (decimal n) m = m * 10 ^ length (decimal n) + int n \<and> decimal n \<noteq> []"
proof (induction n arbitrary: m rule: decimal.induct)
  case (1 n)
  show ?case
  proof (cases "n < 10")
    case True
    then show ?thesis by (simp add: decimal.simps [of n] digits_value_def digit_def Let_def)
  next
    case False
    have "int n = 10 * int (n div 10) + int (n mod 10)" by presburger
    moreover have "decimal n = decimal (n div 10) @ [char_of (48 + n mod 10)]" using False by (simp add: decimal.simps [of n])
    ultimately show ?thesis
      using 1 [OF False] by (simp add: digits_value_def digit_def Let_def algebra_simps)
  qed
qed

lemma digit_head: "digit c \<Longrightarrow> c \<notin> {CHR '' '', CHR 0x09, CHR 0x0A, CHR 0x0B, CHR 0x0C, CHR 0x0D, CHR ''-'', CHR ''+''}"
  by (auto simp: digit_def Let_def)

lemma atoi_decimal:
  assumes "rest = [] \<or> \<not> digit (hd rest)"
  shows "atoi (decimal n @ rest) = int n"
proof -
  obtain c cs where c: "decimal n = c # cs" using decimal_digits [of n 0] by (cases "decimal n") auto
  then have "digit c" using decimal_digits [of n 0] by auto
  then have "atoi (decimal n @ rest) = decimal_prefix (decimal n @ rest) 0"
    using digit_head [of c] by (simp add: atoi_def c)
  also have "\<dots> = int n" using decimal_prefix_append [of "decimal n" rest 0] assms decimal_digits [of n 0] by simp
  finally show ?thesis .
qed

text \<open>The recorded number is read back, whatever the file had before and whatever lies behind the buffer.\<close>

lemma pid_round_trip:
  assumes "n < 2 ^ 31"
  shows "GetDaemonPid junk (record_pid n True True p) = int n"
proof -
  have l: "length (decimal n) \<le> 10" using length_decimal [of n 10] assms by simp
  have t: "\<exists>c rest. pid_text n = decimal n @ c # rest \<and> \<not> digit c \<and> length (pid_text n) \<le> 11"
  proof (cases "length (decimal n) = 10")
    case True
    then show ?thesis by (auto simp: pid_text_def digit_def Let_def)
  next
    case False
    then have "length (decimal n @ [CHR 0x0A]) \<le> 10" using l by simp
    then have "pid_text n = decimal n @ CHR 0x0A # [CHR 0x00]" by (simp add: pid_text_def)
    then show ?thesis using l False by (auto simp: digit_def Let_def)
  qed
  then obtain c rest where t: "pid_text n = decimal n @ c # rest" "\<not> digit c" "length (pid_text n) \<le> 11" by blast
  from t(3) have "take 11 (pid_text n @ old) = pid_text n @ take (11 - length (pid_text n)) old" for old by simp
  then have "take 11 (pid_text n @ old) @ junk = decimal n @ c # (rest @ take (11 - length (pid_text n)) old @ junk)" for old
    by (simp add: t(1))
  moreover have "int32 (int n) = int n" using assms by (intro int32_id) simp_all
  ultimately show ?thesis using t(2) by (simp add: GetDaemonPid_def record_pid_def Let_def atoi_decimal)
qed

section \<open>Signals\<close>

text \<open>
  A run of the daemon after its start: a signal that the signal thread takes, a turn of the main loop, or a step of the
  service (a client, an event thread), which touches nothing of the process itself.
\<close>

datatype 'd daemon_event = Signal signal "usb_interface option list" | Turn select_event | Service "'d svc \<Rightarrow> 'd svc"

fun process_event :: "'d READER_CONTEXT \<Rightarrow> 'd daemon_event \<Rightarrow> 'd process \<Rightarrow> 'd run" where
  "process_event junk (Signal sig devs) p = signal_thread junk devs sig p"
| "process_event junk (Turn ev) p = SVCServiceRunLoop ev p"
| "process_event junk (Service f) p = Running (p\<lparr>service := f (service p)\<rparr>)"

fun daemon_run :: "'d READER_CONTEXT \<Rightarrow> 'd daemon_event list \<Rightarrow> 'd process \<Rightarrow> 'd run" where
  "daemon_run junk [] p = Running p"
| "daemon_run junk (e # es) p = (case process_event junk e p of Running p' \<Rightarrow> daemon_run junk es p' | r \<Rightarrow> r)"

definition deadly :: "'d daemon_event \<Rightarrow> bool" where
  "deadly e = (case e of Signal sig devs \<Rightarrow> sig \<noteq> SIGUSR1 | _ \<Rightarrow> False)"

text \<open>A process after its start, and the number of deadly signals it can still survive and one.\<close>

definition alive :: "bool \<Rightarrow> 'd process \<Rightarrow> bool" where
  "alive activated p \<longleftrightarrow> \<not> Init p \<and> 0 < lives p \<and> SocketActivated p = activated"

definition patience :: "'d process \<Rightarrow> int" where
  "patience p = (if MustExit p then lives p else lives p + 1)"

definition buried :: "bool \<Rightarrow> 'd run \<Rightarrow> bool" where
  "buried activated r \<longleftrightarrow> (\<exists>code p. r = Exited code p \<and> pidFile p = None \<and> (activated \<or> \<not> socketFile p))"

lemma buried_at_exit [simp]: "buried a (at_exit p) \<longleftrightarrow> a \<or> \<not> (SocketActivated p \<and> socketFile p)"
  by (simp add: buried_def at_exit_def clean_temp_files_def)

lemma stop_service_frame [simp]: "SocketActivated (stop_service p) = SocketActivated p"
  by (simp add: stop_service_def Let_def)

lemma process_event_cases:
  assumes "alive a p"
  shows "buried a (process_event junk e p) \<or> (\<exists>p'. process_event junk e p = Running p' \<and> alive a p' \<and>
    (MustExit p \<longrightarrow> MustExit p' \<and> (\<forall>ev. e \<noteq> Turn ev)) \<and>
    (if deadly e then MustExit p' \<and> patience p' = patience p - 1 else patience p' = patience p))"
proof (cases e)
  case (Signal sig devs)
  then show ?thesis
    using assms by (cases sig) (auto simp: alive_def signal_thread_def Let_def deadly_def patience_def)
next
  case (Turn ev)
  show ?thesis
  proof (cases "MustExit p")
    case True
    then show ?thesis using assms Turn by (auto simp: alive_def SVCServiceRunLoop_def)
  next
    case False
    then have "process_event junk e p = Running (p\<lparr>service := if fst (ProcessEventsServer ev) = 0
        then snd (CreateContextThread (the (snd (ProcessEventsServer ev))) (service p)) else service p\<rparr>)"
      using Turn by (simp add: SVCServiceRunLoop_def split_beta)
    then show ?thesis using assms False Turn by (simp add: alive_def deadly_def patience_def)
  qed
next
  case (Service f)
  then show ?thesis using assms by (auto simp: alive_def deadly_def patience_def)
qed

lemma buried_run: "buried a (process_event junk e p) \<Longrightarrow> buried a (daemon_run junk (e # es) p)"
  by (auto simp: buried_def)

lemma enough_signals:
  assumes "alive a p" "int (length (filter deadly es)) \<ge> patience p"
  shows "buried a (daemon_run junk es p)"
  using assms
proof (induction es arbitrary: p)
  case Nil
  then show ?case by (simp add: alive_def patience_def split: if_splits)
next
  case (Cons e es)
  from process_event_cases [OF Cons.prems(1), of junk e] show ?case
  proof (elim disjE exE conjE)
    fix p' assume "process_event junk e p = Running p'" "alive a p'"
      "if deadly e then MustExit p' \<and> patience p' = patience p - 1 else patience p' = patience p"
    with Cons.IH [of p'] Cons.prems(2) show ?case by (auto split: if_splits)
  qed (rule buried_run)
qed

lemma turn_after_signal:
  assumes "alive a p" "MustExit p" "Turn ev \<in> set es"
  shows "buried a (daemon_run junk es p)"
  using assms
proof (induction es arbitrary: p)
  case (Cons e es)
  from process_event_cases [OF Cons.prems(1), of junk e] show ?case
  proof (elim disjE exE conjE)
    fix p' assume "process_event junk e p = Running p'" "alive a p'" "MustExit p \<longrightarrow> MustExit p' \<and> (\<forall>ev. e \<noteq> Turn ev)"
    with Cons.IH [of p'] Cons.prems(2,3) show ?case by auto
  qed (rule buried_run)
qed simp

lemma daemon_run_append:
  "daemon_run junk (es @ fs) p = (case daemon_run junk es p of Running p' \<Rightarrow> daemon_run junk fs p' | r \<Rightarrow> r)"
  by (induction es arbitrary: p) (auto split: run.split)

lemma alive_run:
  assumes "alive a p"
  shows "buried a (daemon_run junk es p) \<or> (\<exists>p'. daemon_run junk es p = Running p' \<and> alive a p' \<and> patience p' \<le> patience p)"
  using assms
proof (induction es arbitrary: p)
  case (Cons e es)
  from process_event_cases [OF Cons.prems, of junk e] show ?case
  proof (elim disjE exE conjE)
    fix p' assume "process_event junk e p = Running p'" "alive a p'"
      "if deadly e then MustExit p' \<and> patience p' = patience p - 1 else patience p' = patience p"
    with Cons.IH [of p'] show ?case by (auto split: if_splits)
  next
    assume "buried a (process_event junk e p)"
    then show ?case using buried_run by blast
  qed
qed simp


section \<open>The start\<close>

text \<open>What the stages of the start make of a process that has to report to its father.\<close>

definition reporting :: "'d process \<Rightarrow> bool" where
  "reporting p \<longleftrightarrow> fatherPipe p \<and> toFather p = [] \<and> ExitValue p = EXIT_FAILURE"

definition reported :: "bool \<Rightarrow> string option \<Rightarrow> 'd run \<Rightarrow> bool" where
  "reported activated pid r =
     (case r of
        Returned code p \<Rightarrow> toFather p = []
      | Exited code p \<Rightarrow> code = EXIT_FAILURE \<and> toFather p = [EXIT_FAILURE] \<and> pidFile p = None \<and> (activated \<or> \<not> socketFile p)
      | Running p \<Rightarrow> toFather p = [EXIT_SUCCESS] \<and> \<not> Init p \<and> (activated \<or> socketFile p) \<and> pidFile p = pid
      | Blocked p \<Rightarrow> toFather p = [])"

lemma reported_at_exit [simp]: "reporting p \<Longrightarrow> SocketActivated p = a \<Longrightarrow> reported a pid (at_exit p)"
  by (simp add: reported_def reporting_def at_exit_def tell_father_def clean_temp_files_def)

lemma reporting_frame [simp]:
  "reporting (set_daemon w p) = reporting p" "reporting (set_hp h p) = reporting p" "reporting (p\<lparr>service := s\<rparr>) = reporting p"
  "reporting (p\<lparr>Init := b\<rparr>) = reporting p" "reporting (p\<lparr>commonSocket := fd\<rparr>) = reporting p" "reporting (p\<lparr>socketFile := b\<rparr>) = reporting p"
  "reporting (record_pid n o1 o2 p) = reporting p"
  by (simp_all add: reporting_def record_pid_def Let_def)

lemma reported_simps [simp]:
  "reporting p \<Longrightarrow> reported a pid (Blocked p)" "reporting p \<Longrightarrow> reported a pid (Returned code p)"
  "reporting p \<Longrightarrow> reported a pid (Running (tell_father EXIT_SUCCESS p)) \<longleftrightarrow> \<not> Init p \<and> (a \<or> socketFile p) \<and> pidFile p = pid"
  "reporting p \<Longrightarrow> reported a pid (Running (tell_father EXIT_SUCCESS p\<lparr>service := s\<rparr>)) \<longleftrightarrow>
    \<not> Init p \<and> (a \<or> socketFile p) \<and> pidFile p = pid"
  by (auto simp: reported_def reporting_def tell_father_def)

lemma main_hotplug_reported:
  assumes "reporting p" "\<not> Init p" "SocketActivated p = a" "a \<or> socketFile p"
  shows "reported a (pidFile p) (main_hotplug junk os p)"
  unfolding main_hotplug_def Let_def using assms
  by (auto split: sum.splits prod.splits option.splits)

lemma main_service_reported:
  assumes "reporting p" "SocketActivated p = a"
  shows "reported a (pidFile (record_pid (getpid os) (pidOpenOk os) (pidWriteOk os) p)) (main_service junk os c p)"
proof -
  let ?p = "(record_pid (getpid os) (pidOpenOk os) (pidWriteOk os) p)\<lparr>Init := False\<rparr>"
  obtain rv q where q: "(if SocketActivated ?p then ListenExistingSocket 3 (isUnixSocket os) ?p
      else InitializeSocket (socketFd os) (bindOk os) (listenOk os) ?p) = (rv, q)" by fastforce
  have act: "SocketActivated ?p = a" using assms(2) by (simp add: record_pid_def Let_def)
  have "reporting q \<and> \<not> Init q \<and> SocketActivated q = a \<and> pidFile q = pidFile ?p \<and> (rv = 0 \<longrightarrow> a \<or> socketFile q)"
    using q act assms(1)
    by (auto simp: ListenExistingSocket_def InitializeSocket_def Let_def split: if_splits)
  moreover obtain rv' s where s: "ContextsInitialize (customMaxThreadCounter c) (customMaxThreadCardHandles c) (service q) = (rv', s)"
    by fastforce
  have "main_service junk os c p = (if rv \<noteq> 0 then at_exit q
      else if rv' = - 1 then at_exit (q\<lparr>service := s\<rparr>) else main_hotplug junk os (q\<lparr>service := s\<rparr>))"
    by (simp only: main_service_def Let_def q s prod.case)
  ultimately show ?thesis
    using main_hotplug_reported [of "q\<lparr>service := s\<rparr>" a junk os] by auto
qed

lemma main_init_reported:
  assumes "reporting p" "SocketActivated p = a"
  shows "reported a (pidFile (record_pid (getpid os) (pidOpenOk os) (pidWriteOk os) p)) (main_init junk os c p)"
proof -
  have pid: "pidFile (record_pid n o1 o2 (set_daemon w p)) = pidFile (record_pid n o1 o2 p)" for n o1 o2 w p
    by (simp add: record_pid_def Let_def set_daemon_def)
  have m: "reported a (pidFile (record_pid (getpid os) (pidOpenOk os) (pidWriteOk os) p)) (main_service junk os c (set_daemon w p))" for w
    using main_service_reported [of "set_daemon w p" a os junk c] assms by (simp add: pid)
  have tw: "set_daemon w (set_daemon v p) = set_daemon w p" for v w by (simp add: set_daemon_def)
  show ?thesis
    unfolding main_init_def Let_def using assms m by (auto simp: tw split: prod.splits)
qed

lemma handle_options_frame:
  assumes "handle_options opts (c, p) = Inr (c', p')"
  shows "fatherPipe p' = fatherPipe p \<and> toFather p' = toFather p \<and> ExitValue p' = ExitValue p"
  using assms
proof (induction opts arbitrary: c p)
  case (Cons opt opts)
  then obtain c1 p1 where h: "handle_option opt (c, p) = Inr (c1, p1)" "handle_options opts (c1, p1) = Inr (c', p')"
    by (auto split: sum.splits)
  then have "fatherPipe p1 = fatherPipe p \<and> toFather p1 = toFather p \<and> ExitValue p1 = ExitValue p"
    by (cases opt) (auto simp: handle_option_def split: if_splits)
  with Cons.IH [OF h(2)] show ?case by simp
qed simp

lemma main_check_frame:
  assumes "main_check os c p = Inr p'"
  shows "fatherPipe p' = fatherPipe p" "toFather p' = toFather p" "ExitValue p' = ExitValue p" "SocketActivated p' = (listenFds os = 1)"
  using assms by (auto simp: main_check_def clean_temp_files_def Let_def split: if_splits kill_result.splits)


text \<open>
  The exception: a signal during the start. \<^verbatim>\<open>SIGTERM\<close> sets the exit value to success before \<^verbatim>\<open>at_exit\<close> passes it on, so
  the father reports success for a daemon that has gone.
\<close>

lemma terminated_start_reported_as_success:
  "fatherPipe p \<Longrightarrow> toFather p = [] \<Longrightarrow> father_code (signal_thread junk devs SIGTERM p) = Some EXIT_SUCCESS"
  by (simp add: signal_thread_def at_exit_def father_code_def tell_father_def clean_temp_files_def)

section \<open>An example\<close>

text \<open>A start in the background with no bundle directory, and a daemon that is asked to stop with Ctrl-C.\<close>

definition ex_process :: "unit process" where
  "ex_process = \<lparr>MustExit = False, Init = True, SocketActivated = False, ExitValue = EXIT_FAILURE, lives = 2,
     socketFile = False, pidFile = None, fatherPipe = False, toFather = [], commonSocket = 0, pollingSeconds = 0,
     service = ex_svc 0 [], hp = ex_hotplug\<lparr>driverSize := - 1\<rparr>\<rparr>"

definition ex_os :: "unit os" where
  "ex_os = \<lparr>extraArgument = False, listenFds = 0, statSocket = False, stackJunk = '''', killHotplug = True, killOld = Kill_ok,
     chdirOk = True, pipeOk = True, forkOk = True, signalPipeOk = True, signalThreadOk = True, ipcDirOk = True,
     serialReaders = (0, None), pidOpenOk = True, pidWriteOk = True, getpid = 4711, isUnixSocket = True, socketFd = 3,
     bindOk = True, listenOk = True, dropDir = ''/drivers'', bundleParse = ex_parse, bundleNames = None,
     udevStart = \<lparr>udevNew = True, monitorNew = True, filterOk = True, receivingOk = True, threadCreated = True\<rparr>,
     usbDevices = [], otherThreads = []\<rparr>"

lemma ex_os_fields:
  "handle_options [] (no_options, ex_process) = Inr (no_options, ex_process)" "main_check ex_os no_options ex_process = Inr ex_process"
  "\<not> setToForeground no_options" "chdirOk ex_os" "pipeOk ex_os" "forkOk ex_os" "\<not> fatherPipe ex_process" "toFather ex_process = []"
  "ExitValue ex_process = EXIT_FAILURE" "getpid ex_os < 2 ^ 31"
  by (simp_all add: no_options_def main_check_def ex_os_def ex_process_def Let_def)

lemma ex_start_runs: "\<exists>p'. pcscd_main ex_junk ex_os [] ex_process = Running p'"
  by (simp add: pcscd_main_def ex_os_fields main_fork_def)
    (simp add: no_options_def main_init_def main_service_def main_hotplug_def ex_os_def ex_process_def Let_def
      RFAllocateReaderSpace_def EHInitializeEventStructures_def RFStartSerialReaders_def record_pid_def InitializeSocket_def
      ContextsInitialize_def HPSearchHotPluggables_def HPReadBundleValues_def HPRegisterForHotplugEvents_def set_daemon_def set_hp_def
      hp_state_def need_to_wait_def new_slot_def list_ex_iff ex_pcscd_def)



end
