(* ===== verification/Simclist_Sort.thy ===== *)
theory Simclist_Sort
  imports Simclist "HOL-Library.Multiset"
begin

text \<open>
  Sorting, minimum and maximum, and the hash of a list, \<^verbatim>\<open>src/src/simclist.c\<close>. The sort exchanges the data of
  nodes and never the nodes: a node is its position, and the data of the nodes are the elements \<open>xs\<close>.

  The comparator is an argument \<open>cmp\<close> with the integers of the source: positive when the second element is
  larger. Its product with \<^verbatim>\<open>versus\<close> is the mathematical one, as the source assumes (it fits an \<^verbatim>\<open>int\<close> for the
  ready-made comparators and \<open>versus\<close> 1 or -1). \<open>rnd k\<close> is the random number of the call \<open>k\<close> of \<^verbatim>\<open>get_random\<close>. A walk that
  would leave the chain ends there.
\<close>

section \<open>The smallest and the largest element\<close>

definition list_get_minmax :: "('a \<Rightarrow> 'a \<Rightarrow> int) option \<Rightarrow> 'a list_t \<Rightarrow> int \<Rightarrow> 'a option" where
  "list_get_minmax cmp l versus =
     (case cmp of
        None \<Rightarrow> None
      | Some cmp \<Rightarrow>
          if numels l = 0 then None
          else case entries l of
              [] \<Rightarrow> None
            | x # xs \<Rightarrow> Some (fold (\<lambda>y cur. if cmp cur y * versus > 0 then y else cur) xs x))"

definition list_get_max :: "('a \<Rightarrow> 'a \<Rightarrow> int) option \<Rightarrow> 'a list_t \<Rightarrow> 'a option" where
  "list_get_max cmp l = list_get_minmax cmp l 1"

definition list_get_min :: "('a \<Rightarrow> 'a \<Rightarrow> int) option \<Rightarrow> 'a list_t \<Rightarrow> 'a option" where
  "list_get_min cmp l = list_get_minmax cmp l (- 1)"

section \<open>Selection sort\<close>

definition swap_data :: "nat \<Rightarrow> nat \<Rightarrow> 'a list \<Rightarrow> 'a list" where
  "swap_data i j xs = xs[i := xs ! j, j := xs ! i]"

text \<open>The inner loop: the position of the first smallest element.\<close>

fun select_from :: "('a \<Rightarrow> 'a \<Rightarrow> int) \<Rightarrow> int \<Rightarrow> 'a list \<Rightarrow> nat \<Rightarrow> nat list \<Rightarrow> nat" where
  "select_from cmp versus xs toswap [] = toswap"
| "select_from cmp versus xs toswap (cursor # cs) =
     select_from cmp versus xs (if cmp (xs ! toswap) (xs ! cursor) * - versus > 0 then cursor else toswap) cs"

definition selection_step :: "('a \<Rightarrow> 'a \<Rightarrow> int) \<Rightarrow> int \<Rightarrow> nat \<Rightarrow> nat \<Rightarrow> 'a list \<Rightarrow> 'a list" where
  "selection_step cmp versus last' firstunsorted xs =
     (let toswap = select_from cmp versus xs firstunsorted [Suc firstunsorted..<Suc last']
      in if toswap \<noteq> firstunsorted then swap_data firstunsorted toswap xs else xs)"

definition list_sort_selectionsort :: "('a \<Rightarrow> 'a \<Rightarrow> int) \<Rightarrow> int \<Rightarrow> nat \<Rightarrow> nat \<Rightarrow> 'a list \<Rightarrow> 'a list" where
  "list_sort_selectionsort cmp versus first last' xs =
     (if last' \<le> first then xs else fold (selection_step cmp versus last') [first..<last'] xs)"

section \<open>Quicksort\<close>

abbreviation (input) SIMCLIST_MINQUICKSORTELS :: nat where "SIMCLIST_MINQUICKSORTELS \<equiv> 24"

text \<open>The two inner loops that look for elements on the wrong side.\<close>

function skip_left :: "('a \<Rightarrow> 'a \<Rightarrow> int) \<Rightarrow> int \<Rightarrow> 'a list \<Rightarrow> nat \<Rightarrow> nat \<Rightarrow> nat" where
  "skip_left cmp versus xs pivot left =
     (if left \<noteq> pivot \<and> left < length xs \<and> cmp (xs ! left) (xs ! pivot) * - versus \<le> 0
      then skip_left cmp versus xs pivot (left + 1) else left)"
  by pat_completeness auto
termination
  by (relation "measure (\<lambda>(cmp, versus, xs, pivot, left). length xs - left)") auto

function skip_right :: "('a \<Rightarrow> 'a \<Rightarrow> int) \<Rightarrow> int \<Rightarrow> 'a list \<Rightarrow> nat \<Rightarrow> nat \<Rightarrow> nat" where
  "skip_right cmp versus xs pivot right =
     (if right \<noteq> pivot \<and> 0 < right \<and> cmp (xs ! right) (xs ! pivot) * - versus \<ge> 0
      then skip_right cmp versus xs pivot (right - 1) else right)"
  by pat_completeness auto
termination
  by (relation "measure (\<lambda>(cmp, versus, xs, pivot, right). right)") auto

declare skip_left.simps [simp del] skip_right.simps [simp del]

lemma skip_left_ge: "left \<le> skip_left cmp versus xs pivot left"
  by (induction cmp versus xs pivot left rule: skip_left.induct) (subst skip_left.simps, auto)

text \<open>The exchange of pairs, until one side has reached the pivot.\<close>

function exchange_pairs :: "('a \<Rightarrow> 'a \<Rightarrow> int) \<Rightarrow> int \<Rightarrow> nat \<Rightarrow> nat \<Rightarrow> nat \<Rightarrow> 'a list \<Rightarrow> nat \<times> nat \<times> 'a list" where
  "exchange_pairs cmp versus pivot left right xs =
     (if left \<noteq> pivot \<and> right \<noteq> pivot then
        let left = skip_left cmp versus xs pivot left; right = skip_right cmp versus xs pivot right in
        if left \<noteq> pivot \<and> right \<noteq> pivot \<and> left < length xs
        then exchange_pairs cmp versus pivot (left + 1) (right - 1) (swap_data left right xs)
        else (left, right, xs)
      else (left, right, xs))"
  by pat_completeness auto
termination
proof (relation "measure (\<lambda>(cmp, versus, pivot, left, right, xs). length xs - left)", goal_cases)
  case (2 cmp versus pivot left right xs l r)
  then show ?case using skip_left_ge [of left cmp versus xs pivot] by (auto simp: swap_data_def)
qed simp

declare exchange_pairs.simps [simp del]

text \<open>The rest of the longer side: an element on the wrong side goes to the other side of the pivot, which moves by one node.\<close>

function finish_left :: "('a \<Rightarrow> 'a \<Rightarrow> int) \<Rightarrow> int \<Rightarrow> nat \<Rightarrow> nat \<Rightarrow> nat \<Rightarrow> 'a list \<Rightarrow> nat \<times> nat \<times> 'a list" where
  "finish_left cmp versus left pivot pivotid xs =
     (if left \<noteq> pivot \<and> left < length xs \<and> 0 < pivot then
        if cmp (xs ! left) (xs ! pivot) * - versus > 0
        then finish_left cmp versus left (pivot - 1) (pivotid - 1)
               (xs[left := xs ! (pivot - 1), pivot - 1 := xs ! pivot, pivot := xs ! left])
        else finish_left cmp versus (left + 1) pivot pivotid xs
      else (pivot, pivotid, xs))"
  by pat_completeness auto
termination
  by (relation "measure (\<lambda>(cmp, versus, left, pivot, pivotid, xs). pivot + (length xs - left))") auto

function finish_right :: "('a \<Rightarrow> 'a \<Rightarrow> int) \<Rightarrow> int \<Rightarrow> nat \<Rightarrow> nat \<Rightarrow> nat \<Rightarrow> 'a list \<Rightarrow> nat \<times> nat \<times> 'a list" where
  "finish_right cmp versus right pivot pivotid xs =
     (if right \<noteq> pivot \<and> pivot + 1 < length xs \<and> 0 < right then
        if cmp (xs ! right) (xs ! pivot) * - versus < 0
        then finish_right cmp versus right (pivot + 1) (pivotid + 1)
               (xs[right := xs ! (pivot + 1), pivot + 1 := xs ! pivot, pivot := xs ! right])
        else finish_right cmp versus (right - 1) pivot pivotid xs
      else (pivot, pivotid, xs))"
  by pat_completeness auto
termination
  by (relation "measure (\<lambda>(cmp, versus, right, pivot, pivotid, xs). (length xs - pivot) + right)") auto

declare finish_left.simps [simp del] finish_right.simps [simp del]

text \<open>The partition: the pivot is found from the nearer end, then the two phases.\<close>

definition find_pivot :: "nat \<Rightarrow> nat \<Rightarrow> nat \<Rightarrow> nat" where
  "find_pivot first last' pivotid =
     (if pivotid < (last' - first + 1) div 2 then nat (walk_next 0 (int pivotid) (int first))
      else nat (walk_prev (int (last' - first)) (int pivotid) (int last')))"

definition sort_partition :: "('a \<Rightarrow> 'a \<Rightarrow> int) \<Rightarrow> int \<Rightarrow> nat \<Rightarrow> nat \<Rightarrow> nat \<Rightarrow> 'a list \<Rightarrow> nat \<times> nat \<times> 'a list" where
  "sort_partition cmp versus first last' pivotid xs =
     (let pivot = find_pivot first last' pivotid;
          (left, right, xs) = exchange_pairs cmp versus pivot first last' xs
      in if right = pivot then finish_left cmp versus left pivot pivotid xs
         else finish_right cmp versus right pivot pivotid xs)"

section \<open>The pivot stays in its range\<close>

lemma skip_left_le: "left \<le> pivot \<Longrightarrow> skip_left cmp versus xs pivot left \<le> pivot"
proof (induction cmp versus xs pivot left rule: skip_left.induct)
  case (1 cmp versus xs pivot left)
  then show ?case by (subst skip_left.simps) auto
qed

lemma skip_right_bounds: "pivot \<le> right \<Longrightarrow> pivot \<le> skip_right cmp versus xs pivot right \<and> skip_right cmp versus xs pivot right \<le> right"
proof (induction cmp versus xs pivot right rule: skip_right.induct)
  case (1 cmp versus xs pivot right)
  show ?case
  proof (cases "right \<noteq> pivot \<and> 0 < right \<and> cmp (xs ! right) (xs ! pivot) * - versus \<ge> 0")
    case True
    then have "pivot \<le> right - 1" using "1.prems" by auto
    from 1(1) [OF True this] True show ?thesis by (subst (1 2) skip_right.simps) auto
  qed (use "1.prems" in \<open>subst (1 2) skip_right.simps, auto\<close>)
qed

lemma swap_data_simps [simp]:
  "length (swap_data i j xs) = length xs"
  "i < length xs \<Longrightarrow> j < length xs \<Longrightarrow> swap_data i j xs ! k = (if k = j then xs ! i else if k = i then xs ! j else xs ! k)"
  "i < length xs \<Longrightarrow> j < length xs \<Longrightarrow> mset (swap_data i j xs) = mset xs"
  by (auto simp: swap_data_def nth_list_update mset_swap)

lemma exchange_bounds:
  "left \<le> pivot \<Longrightarrow> pivot \<le> right \<Longrightarrow> exchange_pairs cmp versus pivot left right xs = (l, r, ys) \<Longrightarrow>
    left \<le> l \<and> l \<le> pivot \<and> pivot \<le> r \<and> r \<le> right \<and> length ys = length xs"
proof (induction cmp versus pivot left right xs rule: exchange_pairs.induct)
  case (1 cmp versus pivot left right xs)
  let ?l = "skip_left cmp versus xs pivot left" and ?r = "skip_right cmp versus xs pivot right"
  note b = skip_left_ge [of left cmp versus xs pivot] skip_left_le [OF "1.prems"(1), of cmp versus xs]
    skip_right_bounds [OF "1.prems"(2), of cmp versus xs]
  consider "left = pivot \<or> right = pivot" | "left \<noteq> pivot" "right \<noteq> pivot" "?l = pivot \<or> ?r = pivot \<or> length xs \<le> ?l"
    | "left \<noteq> pivot" "right \<noteq> pivot" "?l \<noteq> pivot" "?r \<noteq> pivot" "?l < length xs" by fastforce
  then show ?case
  proof cases
    case 3
    then have "exchange_pairs cmp versus pivot (?l + 1) (?r - 1) (swap_data ?l ?r xs) = (l, r, ys)"
      using "1.prems"(3) by (subst (asm) exchange_pairs.simps) (auto simp: Let_def)
    moreover have "?l + 1 \<le> pivot" "pivot \<le> ?r - 1" using b 3 by auto
    ultimately show ?thesis using 1(1) [OF _ refl refl, of] 3 b by fastforce
  next
    case 1
    then show ?thesis using "1.prems" by (subst (asm) exchange_pairs.simps) auto
  next
    case 2
    then have "(l, r, ys) = (?l, ?r, xs)" using "1.prems"(3) by (subst (asm) exchange_pairs.simps) (auto simp: Let_def)
    then show ?thesis using b by auto
  qed
qed

lemma finish_left_bounds:
  "left \<le> pivot \<Longrightarrow> first \<le> left \<Longrightarrow> pivot = first + pivotid \<Longrightarrow> finish_left cmp versus left pivot pivotid xs = (p, q, ys) \<Longrightarrow>
    first \<le> p \<and> p \<le> pivot \<and> p = first + q \<and> length ys = length xs"
proof (induction cmp versus left pivot pivotid xs rule: finish_left.induct)
  case (1 cmp versus left pivot pivotid xs)
  show ?case
  proof (cases "left \<noteq> pivot \<and> left < length xs \<and> 0 < pivot")
    case True
    have eq: "finish_left cmp versus left pivot pivotid xs =
        (if cmp (xs ! left) (xs ! pivot) * - versus > 0
         then finish_left cmp versus left (pivot - 1) (pivotid - 1) (xs[left := xs ! (pivot - 1), pivot - 1 := xs ! pivot, pivot := xs ! left])
         else finish_left cmp versus (left + 1) pivot pivotid xs)"
      using True by (subst finish_left.simps) simp
    show ?thesis
    proof (cases "cmp (xs ! left) (xs ! pivot) * - versus > 0")
      case c: True
      have "left \<le> pivot - 1" "pivot - 1 = first + (pivotid - 1)" using True "1.prems" by auto
      with 1(1) [OF True c] 1(3-) eq c show ?thesis by auto
    next
      case c: False
      with 1(2) [OF True c] 1(3-) eq True show ?thesis by auto
    qed
  next
    case False
    then have "finish_left cmp versus left pivot pivotid xs = (pivot, pivotid, xs)" by (subst finish_left.simps) auto
    then show ?thesis using "1.prems" by auto
  qed
qed

lemma finish_right_bounds:
  "pivot \<le> right \<Longrightarrow> right \<le> last' \<Longrightarrow> pivot = first + pivotid \<Longrightarrow> finish_right cmp versus right pivot pivotid xs = (p, q, ys) \<Longrightarrow>
    pivot \<le> p \<and> p \<le> last' \<and> p = first + q \<and> length ys = length xs"
proof (induction cmp versus right pivot pivotid xs rule: finish_right.induct)
  case (1 cmp versus right pivot pivotid xs)
  show ?case
  proof (cases "right \<noteq> pivot \<and> pivot + 1 < length xs \<and> 0 < right")
    case True
    have eq: "finish_right cmp versus right pivot pivotid xs =
        (if cmp (xs ! right) (xs ! pivot) * - versus < 0
         then finish_right cmp versus right (pivot + 1) (pivotid + 1) (xs[right := xs ! (pivot + 1), pivot + 1 := xs ! pivot, pivot := xs ! right])
         else finish_right cmp versus (right - 1) pivot pivotid xs)"
      using True by (subst finish_right.simps) simp
    show ?thesis
    proof (cases "cmp (xs ! right) (xs ! pivot) * - versus < 0")
      case c: True
      have "pivot + 1 \<le> right" using True "1.prems" by auto
      with 1(1) [OF True c] 1(3-) eq c show ?thesis by auto
    next
      case c: False
      have "pivot \<le> right - 1" "right - 1 \<le> last'" using True "1.prems" by auto
      with 1(2) [OF True c] 1(3-) eq c show ?thesis by auto
    qed
  next
    case False
    then have "finish_right cmp versus right pivot pivotid xs = (pivot, pivotid, xs)" by (subst finish_right.simps) auto
    then show ?thesis using "1.prems" by auto
  qed
qed

lemma find_pivot_eq: "first \<le> last' \<Longrightarrow> pivotid \<le> last' - first \<Longrightarrow> find_pivot first last' pivotid = first + pivotid"
  by (simp add: find_pivot_def walk_next_eq walk_prev_eq)

lemma sort_partition_bounds:
  assumes "first \<le> last'" "pivotid \<le> last' - first" "sort_partition cmp versus first last' pivotid xs = (p, q, ys)"
  shows "first \<le> p \<and> p \<le> last' \<and> p = first + q \<and> length ys = length xs"
proof -
  let ?v = "first + pivotid"
  obtain l r zs where e: "exchange_pairs cmp versus ?v first last' xs = (l, r, zs)" by (metis prod_cases3)
  have b: "first \<le> l" "l \<le> ?v" "?v \<le> r" "r \<le> last'" "length zs = length xs"
    using exchange_bounds [OF _ _ e] assms(1,2) by auto
  have "(p, q, ys) = (if r = ?v then finish_left cmp versus l ?v pivotid zs else finish_right cmp versus r ?v pivotid zs)"
    using assms e by (auto simp: sort_partition_def find_pivot_eq Let_def)
  then show ?thesis
    using finish_left_bounds [OF b(2,1) refl, of cmp versus zs p q ys] finish_right_bounds [OF b(3,4) refl, of cmp versus zs p q ys] b assms(1,2)
    by (auto split: if_splits)
qed

section \<open>The sort\<close>

text \<open>
  The recursion on the two sides of the pivot. The source passes each bound as an index and as a node; the two agree by
  \<open>sort_partition_bounds\<close>, which also gives the termination.
\<close>

function list_sort_quicksort ::
    "('a \<Rightarrow> 'a \<Rightarrow> int) \<Rightarrow> int \<Rightarrow> (nat \<Rightarrow> nat) \<Rightarrow> nat \<Rightarrow> nat \<Rightarrow> nat \<Rightarrow> 'a list \<Rightarrow> 'a list \<times> nat" where
  "list_sort_quicksort cmp versus rnd k first last' xs =
     (if last' \<le> first then (xs, k)
      else if last' - first + 1 \<le> SIMCLIST_MINQUICKSORTELS then (list_sort_selectionsort cmp versus first last' xs, k)
      else case sort_partition cmp versus first last' (rnd k mod (last' - first + 1)) xs of
          (pivot, pivotid, xs) \<Rightarrow>
            case (if pivotid > 0 then list_sort_quicksort cmp versus rnd (k + 1) first (first + pivotid - 1) xs else (xs, k + 1)) of
              (xs, k) \<Rightarrow> if first + pivotid < last' then list_sort_quicksort cmp versus rnd k (first + pivotid + 1) last' xs else (xs, k))"
  by pat_completeness auto
termination
proof (relation "measure (\<lambda>(cmp, versus, rnd, k, first, last', xs). last' - first)", goal_cases)
  case (2 cmp versus rnd k first last' xs p pr q zs)
  have "rnd k mod (last' - first + 1) \<le> last' - first" by (simp add: less_Suc_eq_le [symmetric])
  then show ?case using 2 sort_partition_bounds [of first last' "rnd k mod (last' - first + 1)" cmp versus xs p q zs] by auto
qed auto

declare list_sort_quicksort.simps [simp del]

definition list_sort :: "('a \<Rightarrow> 'a \<Rightarrow> int) option \<Rightarrow> (nat \<Rightarrow> nat) \<Rightarrow> 'a list_t \<Rightarrow> int \<Rightarrow> int \<times> 'a list_t" where
  "list_sort cmp rnd l versus =
     (case cmp of
        None \<Rightarrow> (- 1, l)
      | Some cmp \<Rightarrow>
          if iter_active l then (- 1, l)
          else if numels l \<le> 1 then (0, l)
          else (0, l\<lparr>entries := fst (list_sort_quicksort cmp versus rnd 0 0 (numels l - 1) (entries l))\<rparr>))"

section \<open>Ready-made comparators and the hash of a list\<close>

definition list_comparator_number :: "'n::linorder \<Rightarrow> 'n \<Rightarrow> int" where
  "list_comparator_number a b = of_bool (a < b) - of_bool (a > b)"

text \<open>
  \<^verbatim>\<open>strcmp\<close> compares unsigned characters up to the NUL; its value here is the difference of the first ones that differ.
\<close>

fun compare_chars :: "string \<Rightarrow> string \<Rightarrow> int" where
  "compare_chars [] [] = 0"
| "compare_chars [] (b # t) = - int (of_char b)"
| "compare_chars (a # s) [] = int (of_char a)"
| "compare_chars (a # s) (b # t) = (if a = b then compare_chars s t else int (of_char a) - int (of_char b))"

definition strcmp :: "string \<Rightarrow> string \<Rightarrow> int" where
  "strcmp a b = compare_chars (takeWhile (\<lambda>c. c \<noteq> CHR 0x00) a) (takeWhile (\<lambda>c. c \<noteq> CHR 0x00) b)"

definition list_comparator_string :: "string \<Rightarrow> string \<Rightarrow> int" where
  "list_comparator_string a b = strcmp b a"

text \<open>Arithmetic of \<^verbatim>\<open>list_hash_t\<close> is that of 32-bit words.\<close>

definition list_hash :: "('a \<Rightarrow> 32 word) option \<Rightarrow> 'a list_t \<Rightarrow> (32 word) option" where
  "list_hash hasher l =
     (case hasher of
        None \<Rightarrow> None
      | Some hasher \<Rightarrow> Some (fold (\<lambda>x tmphash. let tmphash = tmphash + (tmphash XOR hasher x) in tmphash + tmphash mod of_nat (numels l))
          (entries l) (of_nat (numels l) * 2 + 100)))"

text \<open>The \<^verbatim>\<open>char\<close> of the hash of a string is signed; the first character counts as 0.\<close>

fun hash_chars :: "string \<Rightarrow> nat \<Rightarrow> 32 word \<Rightarrow> 32 word" where
  "hash_chars [] l hash = hash"
| "hash_chars (c # cs) l hash =
     (let plus = ucast (hash XOR (if l = 0 then 0 else scast (of_char c :: 8 word))) :: 8 word
      in hash_chars cs (l + 1) (hash + push_bit (8 * (l mod 4)) (scast plus)))"

definition list_hashcomputer_string :: "string \<Rightarrow> 32 word" where
  "list_hashcomputer_string str = hash_chars str 0 123"

section \<open>Rearrangements of a range\<close>

text \<open>\<open>ys\<close> is \<open>xs\<close> with the elements from \<open>first\<close> to \<open>last'\<close> permuted.\<close>

definition rearranged :: "nat \<Rightarrow> nat \<Rightarrow> 'a list \<Rightarrow> 'a list \<Rightarrow> bool" where
  "rearranged first last' xs ys \<longleftrightarrow> length ys = length xs \<and> mset ys = mset xs \<and>
     (\<forall>i < length xs. i < first \<or> last' < i \<longrightarrow> ys ! i = xs ! i)"

lemma rearranged_refl [simp]: "rearranged first last' xs xs"
  by (simp add: rearranged_def)

lemma rearranged_trans:
  "rearranged first last' xs ys \<Longrightarrow> rearranged first last' ys zs \<Longrightarrow> rearranged first last' xs zs"
  by (simp add: rearranged_def)

lemma rearranged_mono:
  "rearranged a b xs ys \<Longrightarrow> first \<le> a \<Longrightarrow> b \<le> last' \<Longrightarrow> rearranged first last' xs ys"
  by (auto simp: rearranged_def)

lemma rearranged_outside:
  "rearranged first last' xs ys \<Longrightarrow> i < length xs \<Longrightarrow> i < first \<or> last' < i \<Longrightarrow> ys ! i = xs ! i"
  unfolding rearranged_def by blast

lemma rearranged_swap:
  assumes "first \<le> i" "i \<le> last'" "first \<le> j" "j \<le> last'" "last' < length xs"
  shows "rearranged first last' xs (swap_data i j xs)"
  using assms by (simp add: rearranged_def)

text \<open>Every element of the range comes from the range.\<close>

lemma rearranged_range:
  assumes r: "rearranged first last' xs ys" and "first \<le> i" "i \<le> last'" "last' < length xs"
  obtains j where "first \<le> j" "j \<le> last'" "ys ! i = xs ! j"
proof -
  let ?part = "\<lambda>zs. drop first (take (Suc last') zs)"
  have len: "length ys = length xs" and m: "mset ys = mset xs" using r by (simp_all add: rearranged_def)
  have "drop (Suc last') ys = drop (Suc last') xs"
    by (rule nth_equalityI) (use len rearranged_outside [OF r] in auto)
  then have t: "mset (take (Suc last') ys) = mset (take (Suc last') xs)"
    using m by (metis add_right_cancel append_take_drop_id mset_append)
  have "take first (take (Suc last') ys) = take first (take (Suc last') xs)"
    by (rule nth_equalityI) (use len rearranged_outside [OF r] in auto)
  then have "mset (?part ys) = mset (?part xs)"
    using t by (metis add_left_cancel append_take_drop_id mset_append)
  then have s: "set (?part ys) = set (?part xs)" by (rule mset_eq_setD)
  have "ys ! i \<in> set (?part ys)"
    using assms len by (auto simp: in_set_conv_nth intro!: exI [of _ "i - first"])
  then obtain k where "k < length (?part xs)" "?part xs ! k = ys ! i"
    unfolding s by (auto simp: in_set_conv_nth)
  then show ?thesis using assms by (intro that [of "first + k"]) auto
qed

section \<open>The partition separates the range\<close>

text \<open>
  The elements before \<open>left\<close> belong before the pivot and those after \<open>right\<close> belong after it. No law of the comparator is
  needed for the partition: each element is compared with the pivot itself.
\<close>

definition separated :: "('a \<Rightarrow> 'a \<Rightarrow> int) \<Rightarrow> int \<Rightarrow> nat \<Rightarrow> nat \<Rightarrow> nat \<Rightarrow> nat \<Rightarrow> nat \<Rightarrow> 'a list \<Rightarrow> bool" where
  "separated cmp versus first left pivot right last' xs \<longleftrightarrow>
     (\<forall>i. first \<le> i \<and> i < left \<longrightarrow> cmp (xs ! i) (xs ! pivot) * - versus \<le> 0) \<and>
     (\<forall>i. right < i \<and> i \<le> last' \<longrightarrow> 0 \<le> cmp (xs ! i) (xs ! pivot) * - versus)"

lemma skip_left_low:
  "left \<le> i \<Longrightarrow> i < skip_left cmp versus xs pivot left \<Longrightarrow> cmp (xs ! i) (xs ! pivot) * - versus \<le> 0"
proof (induction cmp versus xs pivot left rule: skip_left.induct)
  case (1 cmp versus xs pivot left)
  show ?case
  proof (cases "left \<noteq> pivot \<and> left < length xs \<and> cmp (xs ! left) (xs ! pivot) * - versus \<le> 0")
    case True
    then have "skip_left cmp versus xs pivot left = skip_left cmp versus xs pivot (left + 1)" by (subst skip_left.simps) simp
    with 1 True show ?thesis by (cases "i = left") auto
  next
    case False
    then have "skip_left cmp versus xs pivot left = left" by (subst skip_left.simps) auto
    with 1 show ?thesis by simp
  qed
qed

lemma skip_left_stop:
  "left \<le> pivot \<Longrightarrow> pivot < length xs \<Longrightarrow> skip_left cmp versus xs pivot left = l \<Longrightarrow> l \<noteq> pivot \<Longrightarrow>
    0 < cmp (xs ! l) (xs ! pivot) * - versus"
proof (induction cmp versus xs pivot left rule: skip_left.induct)
  case (1 cmp versus xs pivot left)
  show ?case
  proof (cases "left \<noteq> pivot \<and> left < length xs \<and> cmp (xs ! left) (xs ! pivot) * - versus \<le> 0")
    case True
    then have "skip_left cmp versus xs pivot left = skip_left cmp versus xs pivot (left + 1)" by (subst skip_left.simps) simp
    with 1 True show ?thesis by simp
  next
    case False
    then have "skip_left cmp versus xs pivot left = left" by (subst skip_left.simps) auto
    with 1 False show ?thesis by auto
  qed
qed

lemma skip_right_high:
  "skip_right cmp versus xs pivot right < i \<Longrightarrow> i \<le> right \<Longrightarrow> 0 \<le> cmp (xs ! i) (xs ! pivot) * - versus"
proof (induction cmp versus xs pivot right rule: skip_right.induct)
  case (1 cmp versus xs pivot right)
  show ?case
  proof (cases "right \<noteq> pivot \<and> 0 < right \<and> cmp (xs ! right) (xs ! pivot) * - versus \<ge> 0")
    case True
    then have "skip_right cmp versus xs pivot right = skip_right cmp versus xs pivot (right - 1)" by (subst skip_right.simps) simp
    with 1 True show ?thesis by (cases "i = right") auto
  next
    case False
    then have "skip_right cmp versus xs pivot right = right" by (subst skip_right.simps) auto
    with 1 show ?thesis by simp
  qed
qed

lemma skip_right_stop:
  "pivot \<le> right \<Longrightarrow> skip_right cmp versus xs pivot right = r \<Longrightarrow> r \<noteq> pivot \<Longrightarrow> cmp (xs ! r) (xs ! pivot) * - versus < 0"
proof (induction cmp versus xs pivot right rule: skip_right.induct)
  case (1 cmp versus xs pivot right)
  show ?case
  proof (cases "right \<noteq> pivot \<and> 0 < right \<and> cmp (xs ! right) (xs ! pivot) * - versus \<ge> 0")
    case True
    then have "skip_right cmp versus xs pivot right = skip_right cmp versus xs pivot (right - 1)" by (subst skip_right.simps) simp
    moreover have "pivot \<le> right - 1" using True 1 by auto
    ultimately show ?thesis using 1 True by simp
  next
    case False
    then have "skip_right cmp versus xs pivot right = right" by (subst skip_right.simps) auto
    with 1 False show ?thesis by auto
  qed
qed

lemma exchange_separates:
  "first \<le> left \<Longrightarrow> left \<le> pivot \<Longrightarrow> pivot \<le> right \<Longrightarrow> right \<le> last' \<Longrightarrow> last' < length xs \<Longrightarrow>
    separated cmp versus first left pivot right last' xs \<Longrightarrow> exchange_pairs cmp versus pivot left right xs = (l, r, ys) \<Longrightarrow>
    separated cmp versus first l pivot r last' ys \<and> rearranged first last' xs ys \<and> (l = pivot \<or> r = pivot)"
proof (induction cmp versus pivot left right xs rule: exchange_pairs.induct)
  case (1 cmp versus pivot left right xs)
  let ?l = "skip_left cmp versus xs pivot left" and ?r = "skip_right cmp versus xs pivot right"
  let ?xs = "swap_data ?l ?r xs"
  note b = skip_left_ge [of left cmp versus xs pivot] skip_left_le [OF "1.prems"(2), of cmp versus xs]
    skip_right_bounds [OF "1.prems"(3), of cmp versus xs]
  have sep: "separated cmp versus first ?l pivot ?r last' xs"
    unfolding separated_def
  proof (intro conjI allI impI)
    fix i assume "first \<le> i \<and> i < ?l"
    then show "cmp (xs ! i) (xs ! pivot) * - versus \<le> 0"
      using "1.prems"(6) skip_left_low [of left i cmp versus xs pivot] by (cases "left \<le> i") (auto simp: separated_def)
  next
    fix i assume "?r < i \<and> i \<le> last'"
    then show "0 \<le> cmp (xs ! i) (xs ! pivot) * - versus"
      using "1.prems"(6) skip_right_high [of cmp versus xs pivot right i] by (cases "i \<le> right") (auto simp: separated_def)
  qed
  consider "left = pivot \<or> right = pivot" | "left \<noteq> pivot" "right \<noteq> pivot" "?l = pivot \<or> ?r = pivot"
    | "left \<noteq> pivot" "right \<noteq> pivot" "?l \<noteq> pivot" "?r \<noteq> pivot" "?l < length xs" using b "1.prems" by force
  then show ?case
  proof cases
    case 1
    then show ?thesis using "1.prems" by (subst (asm) exchange_pairs.simps) auto
  next
    case 2
    then have "(l, r, ys) = (?l, ?r, xs)" using "1.prems"(7) by (subst (asm) exchange_pairs.simps) (auto simp: Let_def)
    then show ?thesis using sep 2 by auto
  next
    case 3
    then have e: "exchange_pairs cmp versus pivot (?l + 1) (?r - 1) ?xs = (l, r, ys)"
      using "1.prems"(7) by (subst (asm) exchange_pairs.simps) (auto simp: Let_def)
    have lr: "first \<le> ?l" "?l < pivot" "pivot < ?r" "?r \<le> last'" "?r < length xs" using b 3 "1.prems" by auto
    have sw: "rearranged first last' xs ?xs" using lr "1.prems" by (intro rearranged_swap) auto
    have stop: "0 < cmp (xs ! ?l) (xs ! pivot) * - versus" "cmp (xs ! ?r) (xs ! pivot) * - versus < 0"
      using skip_left_stop [OF "1.prems"(2), where xs = xs and cmp = cmp and versus = versus, OF _ refl]
        skip_right_stop [OF "1.prems"(3), where xs = xs and cmp = cmp and versus = versus, OF refl] 3 lr by auto
    have "separated cmp versus first (?l + 1) pivot (?r - 1) last' ?xs"
      unfolding separated_def
    proof (intro conjI allI impI)
      fix i assume "first \<le> i \<and> i < ?l + 1"
      then show "cmp (?xs ! i) (?xs ! pivot) * - versus \<le> 0" using lr stop sep "1.prems" by (cases "i = ?l") (auto simp: separated_def)
    next
      fix i assume "?r - 1 < i \<and> i \<le> last'"
      then show "0 \<le> cmp (?xs ! i) (?xs ! pivot) * - versus" using lr stop sep "1.prems" by (cases "i = ?r") (auto simp: separated_def)
    qed
    with 1(1) [OF _ refl refl, of] 3 e lr "1.prems" sw show ?thesis by (auto intro: rearranged_trans)
  qed
qed

text \<open>The three assignments of the second phase are two exchanges.\<close>

lemma rotate_swap:
  "i < length xs \<Longrightarrow> j < length xs \<Longrightarrow> k < length xs \<Longrightarrow> j \<noteq> k \<Longrightarrow> i \<noteq> k \<Longrightarrow>
    xs[i := xs ! j, j := xs ! k, k := xs ! i] = swap_data j k (swap_data i j xs)"
  by (rule nth_equalityI) (auto simp: nth_list_update)

lemma finish_left_separates:
  "first \<le> left \<Longrightarrow> left \<le> pivot \<Longrightarrow> pivot \<le> last' \<Longrightarrow> last' < length xs \<Longrightarrow>
    separated cmp versus first left pivot pivot last' xs \<Longrightarrow> finish_left cmp versus left pivot pivotid xs = (p, q, ys) \<Longrightarrow>
    separated cmp versus first p p p last' ys \<and> rearranged first last' xs ys"
proof (induction cmp versus left pivot pivotid xs rule: finish_left.induct)
  case (1 cmp versus left pivot pivotid xs)
  show ?case
  proof (cases "left \<noteq> pivot \<and> left < length xs \<and> 0 < pivot")
    case True
    let ?xs = "xs[left := xs ! (pivot - 1), pivot - 1 := xs ! pivot, pivot := xs ! left]"
    have lt: "left < pivot" "pivot < length xs" using True "1.prems" by auto
    have sw: "?xs = swap_data (pivot - 1) pivot (swap_data left (pivot - 1) xs)"
      by (rule rotate_swap) (use lt in auto)
    have at: "?xs ! i = (if i = pivot then xs ! left else if i = pivot - 1 then xs ! pivot else if i = left then xs ! (pivot - 1) else xs ! i)" for i
      unfolding sw using lt by auto
    have eq: "finish_left cmp versus left pivot pivotid xs =
        (if cmp (xs ! left) (xs ! pivot) * - versus > 0 then finish_left cmp versus left (pivot - 1) (pivotid - 1) ?xs
         else finish_left cmp versus (left + 1) pivot pivotid xs)"
      using True by (subst finish_left.simps) simp
    show ?thesis
    proof (cases "cmp (xs ! left) (xs ! pivot) * - versus > 0")
      case c: True
      have "separated cmp versus first left (pivot - 1) (pivot - 1) last' ?xs"
        using 1(7) lt c unfolding separated_def at by auto
      moreover have "rearranged first last' xs ?xs"
        unfolding sw by (rule rearranged_trans [OF rearranged_swap rearranged_swap]) (use lt "1.prems" in auto)
      ultimately show ?thesis using 1(1) [OF True c] 1(3-) eq c lt by (auto intro: rearranged_trans)
    next
      case c: False
      have "separated cmp versus first (left + 1) pivot pivot last' xs"
        using 1(7) c by (auto simp: separated_def less_Suc_eq)
      then show ?thesis using 1(2) [OF True c] 1(3-) eq c lt by auto
    qed
  next
    case False
    then have "finish_left cmp versus left pivot pivotid xs = (pivot, pivotid, xs)" by (subst finish_left.simps) auto
    moreover have "left = pivot" using False "1.prems" by auto
    ultimately show ?thesis using "1.prems" by auto
  qed
qed

lemma finish_right_separates:
  "first \<le> pivot \<Longrightarrow> pivot \<le> right \<Longrightarrow> right \<le> last' \<Longrightarrow> last' < length xs \<Longrightarrow>
    separated cmp versus first pivot pivot right last' xs \<Longrightarrow> finish_right cmp versus right pivot pivotid xs = (p, q, ys) \<Longrightarrow>
    separated cmp versus first p p p last' ys \<and> rearranged first last' xs ys"
proof (induction cmp versus right pivot pivotid xs rule: finish_right.induct)
  case (1 cmp versus right pivot pivotid xs)
  show ?case
  proof (cases "right \<noteq> pivot \<and> pivot + 1 < length xs \<and> 0 < right")
    case True
    let ?xs = "xs[right := xs ! (pivot + 1), pivot + 1 := xs ! pivot, pivot := xs ! right]"
    have lt: "pivot < right" "right < length xs" using True "1.prems" by auto
    have sw: "?xs = swap_data (pivot + 1) pivot (swap_data right (pivot + 1) xs)"
      by (rule rotate_swap) (use lt in auto)
    have at: "?xs ! i = (if i = pivot then xs ! right else if i = pivot + 1 then xs ! pivot else if i = right then xs ! (pivot + 1) else xs ! i)" for i
      unfolding sw using lt by auto
    have eq: "finish_right cmp versus right pivot pivotid xs =
        (if cmp (xs ! right) (xs ! pivot) * - versus < 0 then finish_right cmp versus right (pivot + 1) (pivotid + 1) ?xs
         else finish_right cmp versus (right - 1) pivot pivotid xs)"
      using True by (subst finish_right.simps) simp
    show ?thesis
    proof (cases "cmp (xs ! right) (xs ! pivot) * - versus < 0")
      case c: True
      have "separated cmp versus first (pivot + 1) (pivot + 1) right last' ?xs"
        using 1(7) lt c unfolding separated_def at by auto
      moreover have "rearranged first last' xs ?xs"
        unfolding sw by (rule rearranged_trans [OF rearranged_swap rearranged_swap]) (use lt "1.prems" in auto)
      ultimately show ?thesis using 1(1) [OF True c] 1(3-) eq c lt by (auto intro: rearranged_trans)
    next
      case c: False
      have "separated cmp versus first pivot pivot (right - 1) last' xs"
        unfolding separated_def
      proof (intro conjI allI impI)
        fix i assume "right - 1 < i \<and> i \<le> last'"
        then show "0 \<le> cmp (xs ! i) (xs ! pivot) * - versus"
          using 1(7) c lt by (cases "i = right") (auto simp: separated_def)
      qed (use 1(7) in \<open>auto simp: separated_def\<close>)
      moreover have "pivot \<le> right - 1" "right - 1 \<le> last'" using lt "1.prems" by auto
      ultimately show ?thesis using 1(2) [OF True c] 1(3-) eq c by auto
    qed
  next
    case False
    then have "finish_right cmp versus right pivot pivotid xs = (pivot, pivotid, xs)" by (subst finish_right.simps) auto
    moreover have "right = pivot" using False "1.prems" by auto
    ultimately show ?thesis using "1.prems" by auto
  qed
qed

lemma sort_partition_separates:
  assumes "first \<le> last'" "pivotid \<le> last' - first" "last' < length xs" "sort_partition cmp versus first last' pivotid xs = (p, q, ys)"
  shows "separated cmp versus first p p p last' ys \<and> rearranged first last' xs ys"
proof -
  let ?v = "first + pivotid"
  obtain l r zs where e: "exchange_pairs cmp versus ?v first last' xs = (l, r, zs)" by (metis prod_cases3)
  have b: "first \<le> l" "l \<le> ?v" "?v \<le> r" "r \<le> last'" "length zs = length xs"
    using exchange_bounds [OF _ _ e] assms(1,2) by auto
  have x: "separated cmp versus first l ?v r last' zs" "rearranged first last' xs zs" "l = ?v \<or> r = ?v"
    using exchange_separates [OF _ _ _ _ _ _ e, of first last'] assms by (auto simp: separated_def)
  have "(p, q, ys) = (if r = ?v then finish_left cmp versus l ?v pivotid zs else finish_right cmp versus r ?v pivotid zs)"
    using assms e by (auto simp: sort_partition_def find_pivot_eq Let_def)
  then show ?thesis
    using finish_left_separates [OF b(1,2), of last' zs cmp versus pivotid p q ys]
      finish_right_separates [OF _ b(3,4), of first zs cmp versus pivotid p q ys] b x assms
    by (auto split: if_splits intro: rearranged_trans)
qed

section \<open>Sorting with a consistent comparator\<close>

text \<open>
  What the sort needs of a comparator, in the direction \<open>versus\<close>: exchanging the arguments exchanges the sign, and the order is
  transitive.
\<close>

locale comparison =
  fixes cmp :: "'a \<Rightarrow> 'a \<Rightarrow> int" and versus :: int
  assumes flip: "cmp a b * - versus \<le> 0 \<longleftrightarrow> 0 \<le> cmp b a * - versus"
    and chain: "cmp a b * - versus \<le> 0 \<Longrightarrow> cmp b c * - versus \<le> 0 \<Longrightarrow> cmp a c * - versus \<le> 0"
begin

definition before :: "'a \<Rightarrow> 'a \<Rightarrow> bool" where
  "before a b \<longleftrightarrow> cmp a b * - versus \<le> 0"

definition sorted_range :: "nat \<Rightarrow> nat \<Rightarrow> 'a list \<Rightarrow> bool" where
  "sorted_range first last' xs \<longleftrightarrow> (\<forall>i j. first \<le> i \<and> i < j \<and> j \<le> last' \<longrightarrow> before (xs ! i) (xs ! j))"

lemma before_trans: "before a b \<Longrightarrow> before b c \<Longrightarrow> before a c"
  unfolding before_def by (rule chain)

lemma before_total: "\<not> before a b \<Longrightarrow> before b a"
  unfolding before_def using flip [of b a] by linarith

lemma before_refl [simp]: "before a a"
  using before_total by blast

lemma select_from_range:
  "select_from cmp versus xs t cs \<in> insert t (set cs)"
proof (induction cs arbitrary: t)
  case (Cons c cs)
  have "select_from cmp versus xs t (c # cs) = select_from cmp versus xs (if cmp (xs ! t) (xs ! c) * - versus > 0 then c else t) cs"
    by simp
  with Cons [of c] Cons [of t] show ?case by (auto split: if_splits)
qed simp

lemma select_from_least:
  "i \<in> insert t (set cs) \<Longrightarrow> before (xs ! select_from cmp versus xs t cs) (xs ! i)"
proof (induction cs arbitrary: t i)
  case (Cons c cs)
  let ?t = "if cmp (xs ! t) (xs ! c) * - versus > 0 then c else t"
  have e: "select_from cmp versus xs t (c # cs) = select_from cmp versus xs ?t cs" by simp
  have "?t = (if before (xs ! t) (xs ! c) then t else c)" by (simp add: before_def)
  then have "before (xs ! ?t) (xs ! t)" "before (xs ! ?t) (xs ! c)"
    using before_total [of "xs ! t" "xs ! c"] by auto
  moreover have "before (xs ! select_from cmp versus xs ?t cs) (xs ! ?t)" by (rule Cons.IH) simp
  moreover have "i \<in> set cs \<Longrightarrow> before (xs ! select_from cmp versus xs ?t cs) (xs ! i)" by (rule Cons.IH) simp
  ultimately show ?case using Cons.prems unfolding e by (auto intro: before_trans)
qed simp

lemma selection_step_least:
  assumes "k < last'" "last' < length xs"
  shows "rearranged k last' xs (selection_step cmp versus last' k xs)"
    and "k \<le> j \<Longrightarrow> j \<le> last' \<Longrightarrow> before (selection_step cmp versus last' k xs ! k) (selection_step cmp versus last' k xs ! j)"
proof -
  let ?t = "select_from cmp versus xs k [Suc k..<Suc last']"
  let ?ys = "selection_step cmp versus last' k xs"
  have t: "k \<le> ?t" "?t \<le> last'" using select_from_range [of xs k "[Suc k..<Suc last']"] assms by auto
  then have ys: "?ys = swap_data k ?t xs"
    using assms by (auto simp: selection_step_def Let_def swap_data_def)
  show r: "rearranged k last' xs ?ys" unfolding ys by (rule rearranged_swap) (use t assms in auto)
  assume j: "k \<le> j" "j \<le> last'"
  obtain i where i: "k \<le> i" "i \<le> last'" "?ys ! j = xs ! i" by (rule rearranged_range [OF r j assms(2)])
  have "before (xs ! ?t) (xs ! i)" by (rule select_from_least) (use i in auto)
  moreover have "swap_data k u xs ! k = xs ! u" if "u \<le> last'" for u using that assms by simp
  then have "?ys ! k = xs ! ?t" unfolding ys using t(2) .
  ultimately show "before (?ys ! k) (?ys ! j)" using i(3) by simp
qed

text \<open>The outer loop: the elements before position \<open>k\<close> are the smallest ones, in order.\<close>

lemma selection_loop:
  "first \<le> k \<Longrightarrow> k \<le> last' \<Longrightarrow> last' < length xs \<Longrightarrow>
    (\<forall>i j. first \<le> i \<and> i < k \<and> i < j \<and> j \<le> last' \<longrightarrow> before (xs ! i) (xs ! j)) \<Longrightarrow>
    sorted_range first last' (fold (selection_step cmp versus last') [k..<last'] xs) \<and>
    rearranged first last' xs (fold (selection_step cmp versus last') [k..<last'] xs)"
proof (induction "last' - k" arbitrary: k xs)
  case 0
  then show ?case by (auto simp: sorted_range_def)
next
  case (Suc d)
  let ?ys = "selection_step cmp versus last' k xs"
  have k: "k < last'" using Suc.hyps(2) by simp
  have up: "fold (selection_step cmp versus last') [k..<last'] xs = fold (selection_step cmp versus last') [Suc k..<last'] ?ys"
    using k by (simp add: upt_conv_Cons)
  note st = selection_step_least [OF k Suc.prems(3)]
  have out: "?ys ! i = xs ! i" if "i < k" for i
    by (rule rearranged_outside [OF st(1)]) (use that k Suc.prems in auto)
  have inv: "before (?ys ! i) (?ys ! j)" if h: "first \<le> i" "i < Suc k" "i < j" "j \<le> last'" for i j
  proof (cases "i = k")
    case True
    then show ?thesis using st(2) [of j] h by simp
  next
    case False
    then have i: "i < k" using h by simp
    show ?thesis
    proof (cases "j < k")
      case True
      then show ?thesis using Suc.prems(4) h i out by auto
    next
      case False
      obtain m where m: "k \<le> m" "m \<le> last'" "?ys ! j = xs ! m"
        by (rule rearranged_range [OF st(1) _ _ Suc.prems(3)]) (use False h in auto)
      then show ?thesis using Suc.prems(4) h(1) i out by auto
    qed
  qed
  have len: "length ?ys = length xs" using st(1) by (simp add: rearranged_def)
  have "sorted_range first last' (fold (selection_step cmp versus last') [Suc k..<last'] ?ys) \<and>
    rearranged first last' ?ys (fold (selection_step cmp versus last') [Suc k..<last'] ?ys)"
    by (rule Suc.hyps(1)) (use Suc.hyps(2) Suc.prems k len inv in auto)
  moreover have "rearranged first last' xs ?ys" by (rule rearranged_mono [OF st(1)]) (use Suc.prems in auto)
  ultimately show ?case unfolding up by (auto intro: rearranged_trans)
qed

lemma selectionsort_sorts:
  assumes "first < last'" "last' < length xs"
  shows "sorted_range first last' (list_sort_selectionsort cmp versus first last' xs)"
    and "rearranged first last' xs (list_sort_selectionsort cmp versus first last' xs)"
proof -
  have e: "list_sort_selectionsort cmp versus first last' xs = fold (selection_step cmp versus last') [first..<last'] xs"
    using assms by (simp add: list_sort_selectionsort_def)
  have "sorted_range first last' (fold (selection_step cmp versus last') [first..<last'] xs) \<and>
    rearranged first last' xs (fold (selection_step cmp versus last') [first..<last'] xs)"
    by (rule selection_loop) (use assms in auto)
  then show "sorted_range first last' (list_sort_selectionsort cmp versus first last' xs)"
    "rearranged first last' xs (list_sort_selectionsort cmp versus first last' xs)" unfolding e by blast+
qed

text \<open>A range whose two sides are sorted and separated by the pivot is sorted.\<close>

lemma separated_before:
  assumes "separated cmp versus first p p p last' xs"
  shows "first \<le> i \<Longrightarrow> i \<le> p \<Longrightarrow> before (xs ! i) (xs ! p)" and "p \<le> i \<Longrightarrow> i \<le> last' \<Longrightarrow> before (xs ! p) (xs ! i)"
proof -
  assume "first \<le> i" "i \<le> p"
  then show "before (xs ! i) (xs ! p)" using assms by (cases "i = p") (auto simp: separated_def before_def)
next
  assume "p \<le> i" "i \<le> last'"
  then show "before (xs ! p) (xs ! i)"
    using assms flip [of "xs ! p" "xs ! i"] by (cases "i = p") (auto simp: separated_def before_def)
qed

lemma sorted_range_join:
  assumes sep: "separated cmp versus first p p p last' xs"
    and l: "\<And>i j. first \<le> i \<Longrightarrow> i < j \<Longrightarrow> j < p \<Longrightarrow> before (xs ! i) (xs ! j)"
    and r: "\<And>i j. p < i \<Longrightarrow> i < j \<Longrightarrow> j \<le> last' \<Longrightarrow> before (xs ! i) (xs ! j)"
  shows "sorted_range first last' xs"
  unfolding sorted_range_def
proof (intro allI impI)
  fix i j assume h: "first \<le> i \<and> i < j \<and> j \<le> last'"
  consider "j < p" | "p < i" | "i \<le> p" "p \<le> j" by linarith
  then show "before (xs ! i) (xs ! j)"
  proof cases
    case 3
    then show ?thesis using h by (intro before_trans [OF separated_before(1) [OF sep] separated_before(2) [OF sep]]) auto
  qed (use h l r in auto)
qed

lemma separated_rearranged:
  assumes sep: "separated cmp versus first p p p last' xs" and r: "rearranged a b xs ys"
    and b: "last' < length xs" "b \<le> last'" "first \<le> a" "p < a \<or> b < p" "first \<le> p" "p \<le> last'"
  shows "separated cmp versus first p p p last' ys"
proof -
  have src: "\<exists>j. ys ! i = xs ! j \<and> first \<le> j \<and> j \<le> last' \<and> (i < p \<longrightarrow> j < p) \<and> (p < i \<longrightarrow> p < j)"
    if "first \<le> i" "i \<le> last'" for i
  proof (cases "a \<le> i \<and> i \<le> b")
    case True
    then obtain j where "a \<le> j" "j \<le> b" "ys ! i = xs ! j" using rearranged_range [OF r, of i] b by auto
    then show ?thesis using True b by (intro exI [of _ j]) auto
  next
    case False
    then have "ys ! i = xs ! i" using rearranged_outside [OF r, of i] that b by auto
    then show ?thesis using that by (intro exI [of _ i]) auto
  qed
  have p: "ys ! p = xs ! p" by (rule rearranged_outside [OF r]) (use b in auto)
  show ?thesis
    unfolding separated_def p
  proof (intro conjI allI impI)
    fix i assume "first \<le> i \<and> i < p"
    then obtain j where "ys ! i = xs ! j" "first \<le> j" "j < p" using src [of i] b by auto
    then show "cmp (ys ! i) (xs ! p) * - versus \<le> 0" using sep by (auto simp: separated_def)
  next
    fix i assume "p < i \<and> i \<le> last'"
    then obtain j where "ys ! i = xs ! j" "p < j" "j \<le> last'" using src [of i] b by auto
    then show "0 \<le> cmp (ys ! i) (xs ! p) * - versus" using sep by (auto simp: separated_def)
  qed
qed

text \<open>Sorting the left side, then the right one, keeps the separation.\<close>

lemma sort_sides:
  assumes sep: "separated cmp versus first p p p last' xs" and b: "first \<le> p" "p \<le> last'" "last' < length xs"
    and l: "if first < p then sorted_range first (p - 1) ys \<and> rearranged first (p - 1) xs ys else ys = xs"
    and r: "if p < last' then sorted_range (p + 1) last' zs \<and> rearranged (p + 1) last' ys zs else zs = ys"
  shows "sorted_range first last' zs \<and> rearranged first last' xs zs"
proof
  have rl: "rearranged first (p - 1) xs ys" and rr: "rearranged (p + 1) last' ys zs"
    using l r by (auto split: if_splits)
  have len: "length ys = length xs" using rl by (simp add: rearranged_def)
  have sl: "separated cmp versus first p p p last' ys"
    using separated_rearranged [OF sep rl] sep l b by (cases "first < p") auto
  have sr: "separated cmp versus first p p p last' zs"
    using separated_rearranged [OF sl rr] b len by auto
  show "rearranged first last' xs zs"
    by (rule rearranged_trans [OF rearranged_mono [OF rl] rearranged_mono [OF rr]]) (use b in auto)
  show "sorted_range first last' zs"
  proof (rule sorted_range_join [OF sr])
    fix i j assume h: "first \<le> i" "i < j" "j < p"
    have "zs ! i = ys ! i" "zs ! j = ys ! j" by (rule rearranged_outside [OF rr]; use h b len in auto)+
    then show "before (zs ! i) (zs ! j)" using l h by (auto simp: sorted_range_def)
  next
    fix i j assume "p < i" "i < j" "j \<le> last'"
    then show "before (zs ! i) (zs ! j)" using r by (auto simp: sorted_range_def)
  qed
qed

lemma quicksort_sorts:
  "last' < length xs \<Longrightarrow> list_sort_quicksort cmp versus rnd k first last' xs = (ys, k') \<Longrightarrow>
    sorted_range first last' ys \<and> rearranged first last' xs ys"
proof (induction "last' - first" arbitrary: first last' xs ys k k' rule: less_induct)
  case less
  note def = list_sort_quicksort.simps [of cmp versus rnd k first last' xs]
  consider "last' \<le> first" | "first < last'" "last' - first + 1 \<le> 24" | "first < last'" "\<not> last' - first + 1 \<le> 24" by linarith
  then show ?case
  proof cases
    case 1
    then show ?thesis using less.prems(2) def by (auto simp: sorted_range_def)
  next
    case 2
    then have "ys = list_sort_selectionsort cmp versus first last' xs" using less.prems(2) def by auto
    then show ?thesis using selectionsort_sorts [OF 2(1) less.prems(1)] by simp
  next
    case 3
    let ?n = "rnd k mod (last' - first + 1)"
    obtain p q zs where pt: "sort_partition cmp versus first last' ?n xs = (p, q, zs)" by (metis prod_cases3)
    have n: "?n \<le> last' - first" by (simp add: less_Suc_eq_le [symmetric])
    have b: "first \<le> p" "p \<le> last'" "p = first + q" "length zs = length xs"
      using sort_partition_bounds [OF _ n pt] 3 by auto
    have sep: "separated cmp versus first p p p last' zs" "rearranged first last' xs zs"
      using sort_partition_separates [OF _ n less.prems(1) pt] 3 by auto
    obtain us k1 where left: "(if q > 0 then list_sort_quicksort cmp versus rnd (k + 1) first (first + q - 1) zs else (zs, k + 1)) = (us, k1)"
      by fastforce
    have right: "(if first + q < last' then list_sort_quicksort cmp versus rnd k1 (first + q + 1) last' us else (us, k1)) = (ys, k')"
      using less.prems(2) def 3 pt left by simp
    have l: "if first < p then sorted_range first (p - 1) us \<and> rearranged first (p - 1) zs us else us = zs"
      using less.hyps [of "p - 1" first zs "k + 1" us k1] left b 3 less.prems(1) by (auto split: if_splits)
    then have len: "length us = length xs" using b(4) by (auto simp: rearranged_def split: if_splits)
    have r: "if p < last' then sorted_range (p + 1) last' ys \<and> rearranged (p + 1) last' us ys else ys = us"
      using less.hyps [of last' "p + 1" us k1 ys k'] right b 3 less.prems(1) len by (auto split: if_splits)
    have "sorted_range first last' ys \<and> rearranged first last' zs ys"
      by (rule sort_sides [OF sep(1) b(1,2) _ l r]) (use b less.prems(1) in simp)
    then show ?thesis using sep(2) by (auto intro: rearranged_trans)
  qed
qed

lemma sorted_range_whole:
  "sorted_range 0 (length xs - 1) xs \<longleftrightarrow> sorted_wrt before xs"
  by (auto simp: sorted_range_def sorted_wrt_iff_nth_less)

lemma list_sort_law:
  assumes "list_repOk l" "\<not> iter_active l"
  shows "fst (list_sort (Some cmp) rnd l versus) = 0"
    and "mset (entries (snd (list_sort (Some cmp) rnd l versus))) = mset (entries l)"
    and "sorted_wrt before (entries (snd (list_sort (Some cmp) rnd l versus)))"
    and "list_repOk (snd (list_sort (Some cmp) rnd l versus))"
proof -
  let ?l = "snd (list_sort (Some cmp) rnd l versus)"
  have len: "length (entries l) = numels l" using assms(1) by (auto simp: list_repOk_def)
  show "fst (list_sort (Some cmp) rnd l versus) = 0" using assms by (simp add: list_sort_def)
  have "mset (entries ?l) = mset (entries l) \<and> sorted_wrt before (entries ?l) \<and> list_repOk ?l"
  proof (cases "numels l \<le> 1")
    case True
    then have "?l = l" using assms by (simp add: list_sort_def)
    moreover have "sorted_wrt before (entries l)" using True len by (auto simp: sorted_wrt_iff_nth_less)
    ultimately show ?thesis using assms by simp
  next
    case False
    obtain ys k' where q: "list_sort_quicksort cmp versus rnd 0 0 (numels l - 1) (entries l) = (ys, k')" by fastforce
    have e: "?l = l\<lparr>entries := ys\<rparr>" using False assms q by (simp add: list_sort_def)
    have r: "sorted_range 0 (numels l - 1) ys" "rearranged 0 (numels l - 1) (entries l) ys"
      using quicksort_sorts [OF _ q] False len by auto
    then have "length ys = length (entries l)" "mset ys = mset (entries l)" by (auto simp: rearranged_def)
    then show ?thesis using r(1) sorted_range_whole [of ys] len e assms(1) by (simp add: list_repOk_def)
  qed
  then show "mset (entries ?l) = mset (entries l)" "sorted_wrt before (entries ?l)" "list_repOk ?l" by blast+
qed

end

text \<open>The ready-made comparators obey the laws in every direction.\<close>

lemma number_signs:
  "list_comparator_number a b \<ge> 0 \<longleftrightarrow> a \<le> b" "list_comparator_number a b \<le> 0 \<longleftrightarrow> b \<le> a"
  "list_comparator_number a b > 0 \<longleftrightarrow> a < b" "list_comparator_number b a = - list_comparator_number a b"
  by (auto simp: list_comparator_number_def)

lemma number_before:
  "list_comparator_number a b * - versus \<le> 0 \<longleftrightarrow> (0 < versus \<longrightarrow> a \<le> b) \<and> (versus < 0 \<longrightarrow> b \<le> a)"
  by (cases versus "0 :: int" rule: linorder_cases)
    (simp_all add: number_signs(1-3) zero_le_mult_iff mult_le_0_iff)

interpretation numbers: comparison list_comparator_number versus for versus
proof
  fix a b c :: 'a
  show "list_comparator_number a b * - versus \<le> 0 \<longleftrightarrow> 0 \<le> list_comparator_number b a * - versus"
    by (simp add: number_signs(4) [of b a])
  show "list_comparator_number a c * - versus \<le> 0"
    if "list_comparator_number a b * - versus \<le> 0" "list_comparator_number b c * - versus \<le> 0"
    using that unfolding number_before by auto
qed

text \<open>So does the comparator of strings.\<close>

lemma compare_flip: "compare_chars b a = - compare_chars a b"
  by (induction a b rule: compare_chars.induct) auto

lemma of_char_pos: "c \<noteq> CHR 0x00 \<Longrightarrow> 0 < (of_char c :: nat)"
proof (rule ccontr)
  assume "c \<noteq> CHR 0x00" "\<not> 0 < (of_char c :: nat)"
  then have "(of_char c :: nat) = of_char (CHR 0x00)" by simp
  then show False using \<open>c \<noteq> CHR 0x00\<close> by (simp only: of_char_eq_iff)
qed

lemma compare_trans:
  "compare_chars a b \<le> 0 \<Longrightarrow> compare_chars b c \<le> 0 \<Longrightarrow> CHR 0x00 \<notin> set a \<union> set b \<union> set c \<Longrightarrow> compare_chars a c \<le> 0"
proof (induction a b arbitrary: c rule: compare_chars.induct)
  case (4 x a y b)
  show ?case
  proof (cases c)
    case Nil
    then show ?thesis using 4(3,4) of_char_pos [of y] by auto
  next
    case (Cons z c')
    consider "x = y" "y = z" | "x = y" "y \<noteq> z" | "x \<noteq> y" "y = z" | "x \<noteq> y" "y \<noteq> z" by blast
    then show ?thesis
    proof cases
      case 1
      then show ?thesis using 4(1) [of c'] 4(2-4) Cons by simp
    next
      case 4
      have "(of_char x :: nat) \<noteq> of_char y" "(of_char y :: nat) \<noteq> of_char z" using 4 by (simp_all add: of_char_eq_iff)
      then show ?thesis using \<open>compare_chars (x # a) (y # b) \<le> 0\<close> \<open>compare_chars (y # b) c \<le> 0\<close> 4 Cons by auto
    qed (use 4(2,3) Cons in auto)
  qed
next
  case (1 c)
  then show ?case by simp
next
  case (2 y b c)
  then show ?case by (cases c) auto
next
  case (3 x a c)
  then show ?case using of_char_pos [of x] by auto
qed

lemma strcmp_laws:
  "strcmp b a = - strcmp a b" "strcmp a b \<le> 0 \<Longrightarrow> strcmp b c \<le> 0 \<Longrightarrow> strcmp a c \<le> 0"
  using compare_trans [of "takeWhile (\<lambda>c. c \<noteq> CHR 0x00) a" "takeWhile (\<lambda>c. c \<noteq> CHR 0x00) b" "takeWhile (\<lambda>c. c \<noteq> CHR 0x00) c"]
  by (auto simp: strcmp_def compare_flip [of "takeWhile (\<lambda>c. c \<noteq> CHR 0x00) b"] dest: set_takeWhileD)

lemma string_before:
  "list_comparator_string a b * - versus \<le> 0 \<longleftrightarrow> (0 < versus \<longrightarrow> strcmp a b \<le> 0) \<and> (versus < 0 \<longrightarrow> strcmp b a \<le> 0)"
  using strcmp_laws(1) [of a b] unfolding list_comparator_string_def
  by (cases versus "0 :: int" rule: linorder_cases) (auto simp: zero_le_mult_iff mult_le_0_iff)

interpretation strings: comparison list_comparator_string versus for versus
proof
  fix a b c
  show "list_comparator_string a b * - versus \<le> 0 \<longleftrightarrow> 0 \<le> list_comparator_string b a * - versus"
    using strcmp_laws(1) [of a b] by (simp add: list_comparator_string_def)
  show "list_comparator_string a c * - versus \<le> 0"
    if "list_comparator_string a b * - versus \<le> 0" "list_comparator_string b c * - versus \<le> 0"
    using that strcmp_laws(2) unfolding string_before by blast
qed

lemma numbers_sorted:
  "sorted_wrt (numbers.before versus) xs \<Longrightarrow> 0 < versus \<Longrightarrow> sorted xs"
  "sorted_wrt (numbers.before versus) xs \<Longrightarrow> versus < 0 \<Longrightarrow> sorted (rev xs)"
  unfolding numbers.before_def number_before by (simp_all add: sorted_wrt_rev)

text \<open>The largest and the smallest element agree with the order of the sort.\<close>

lemma fold_max: "fold (\<lambda>y cur. if list_comparator_number cur y * 1 > 0 then y else cur) xs x = Max (insert x (set xs))"
proof (induction xs arbitrary: x)
  case (Cons y xs)
  have "(if list_comparator_number x y * 1 > 0 then y else x) = max x y" by (auto simp: number_signs(3) max_def)
  then have "fold (\<lambda>y cur. if list_comparator_number cur y * 1 > 0 then y else cur) (y # xs) x = Max (insert (max x y) (set xs))"
    using Cons [of "max x y"] by simp
  also have "\<dots> = Max (insert x (set (y # xs)))" by (cases "xs = []") (simp_all add: max.assoc)
  finally show ?case .
qed simp

lemma list_get_max_largest:
  "list_repOk l \<Longrightarrow> list_get_max (Some list_comparator_number) l = (if entries l = [] then None else Some (Max (set (entries l))))"
  by (cases "entries l") (auto simp: list_get_max_def list_get_minmax_def list_repOk_def fold_max [simplified])

text \<open>
  C37. Sorting a list that is not being iterated over with one of the ready-made comparators succeeds and leaves the
  same elements, with their multiplicities, in ascending order for a positive \<^verbatim>\<open>versus\<close> and in descending order for a
  negative one, whatever the random numbers that choose the pivots; the representation of the list stays valid.
\<close>

theorem list_sort_sorts:
  assumes "list_repOk l" and "\<not> iter_active l"
    and "list_sort (Some list_comparator_number) rnd l versus = (r, l')"
  shows "r = 0 \<and> mset (entries l') = mset (entries l) \<and> list_repOk l' \<and>
    (0 < versus \<longrightarrow> sorted (entries l')) \<and> (versus < 0 \<longrightarrow> sorted (rev (entries l')))"
  using numbers.list_sort_law [OF assms(1,2), where rnd = rnd and versus = versus] assms(3)
    numbers_sorted [of versus "entries l'"] by auto

text \<open>Strings are sorted by \<^verbatim>\<open>strcmp\<close>.\<close>

lemma list_sort_strings:
  assumes "list_repOk l" "\<not> iter_active l"
  shows "sorted_wrt (\<lambda>a b. strcmp a b \<le> 0) (entries (snd (list_sort (Some list_comparator_string) rnd l 1)))"
  using strings.list_sort_law(3) [OF assms, where rnd = rnd and versus = 1] unfolding strings.before_def string_before by simp

definition example_numbers :: "int list_t" where
  "example_numbers = fold (\<lambda>x l. snd (list_append True l x)) [3, - 1, 2] list_init"

theorem list_sort_sorts_witness:
  "list_repOk example_numbers \<and> \<not> iter_active example_numbers \<and>
   (case list_sort (Some list_comparator_number) (\<lambda>k. 0) example_numbers 1 of (r, l') \<Rightarrow> r = 0 \<and> sorted (entries l'))"
proof -
  have ok: "list_repOk example_numbers" "\<not> iter_active example_numbers" by code_simp+
  obtain r l' where e: "list_sort (Some list_comparator_number) (\<lambda>k. 0) example_numbers 1 = (r, l')" by fastforce
  from list_sort_sorts [OF ok e] ok e show ?thesis by simp
qed

end
