(* ===== verification/Simclist_Dump.thy ===== *)
theory Simclist_Dump
  imports Simclist_Sort Winscard_Msg
begin

text \<open>
  Dump and restore of a list, \<^verbatim>\<open>src/src/simclist.c\<close>. A file is its bytes with the position of the descriptor;
  \<open>opsLeft\<close> is the number of reads and writes that still succeed (\<open>None\<close>: all of them), and a write that succeeds is
  complete, as on a regular file. A failed call gives \<open>Inl\<close> with the file as it was left. The machine is little-endian with a 64-bit
  \<^verbatim>\<open>time_t\<close>: a value that went through \<^verbatim>\<open>htonl\<close> is written most significant byte first.
\<close>

section \<open>Files\<close>

record file_t =
  content :: bytes
  fpos :: nat
  seekable :: bool
  opsLeft :: "nat option"

definition count_op :: "file_t \<Rightarrow> file_t" where
  "count_op f = f\<lparr>opsLeft := map_option (\<lambda>n. n - 1) (opsLeft f)\<rparr>"

definition write_file :: "bytes \<Rightarrow> file_t \<Rightarrow> file_t + unit \<times> file_t" where
  "write_file bs f =
     (if opsLeft f = Some 0 then Inl f
      else Inr ((), (count_op f)\<lparr>
        content := (if bs = [] then content f
          else take (fpos f) (content f) @ replicate (fpos f - length (content f)) 0 @ bs @ drop (fpos f + length bs) (content f)),
        fpos := fpos f + length bs\<rparr>))"

text \<open>\<^verbatim>\<open>READ_ERRCHECK\<close>: fewer bytes than asked for are a failure.\<close>

definition read_file :: "nat \<Rightarrow> file_t \<Rightarrow> file_t + bytes \<times> file_t" where
  "read_file n f =
     (if opsLeft f = Some 0 then Inl f
      else
        let bs = take n (drop (fpos f) (content f)); f = (count_op f)\<lparr>fpos := fpos f + length bs\<rparr>
        in if length bs \<noteq> n then Inl f else Inr (bs, f))"

definition lseek_set :: "nat \<Rightarrow> file_t \<Rightarrow> file_t + unit \<times> file_t" where
  "lseek_set n f = (if seekable f then Inr ((), f\<lparr>fpos := n\<rparr>) else Inl f)"

definition io :: "file_t + 'x \<times> file_t \<Rightarrow> ('x \<Rightarrow> file_t \<Rightarrow> file_t + 'y \<times> file_t) \<Rightarrow> file_t + 'y \<times> file_t" where
  "io r k = (case r of Inl f \<Rightarrow> Inl f | Inr (x, f) \<Rightarrow> k x f)"

fun write_all :: "bytes list \<Rightarrow> file_t \<Rightarrow> file_t + unit \<times> file_t" where
  "write_all [] f = Inr ((), f)"
| "write_all (bs # bss) f = io (write_file bs f) (\<lambda>_. write_all bss)"

definition be32 :: "u32 \<Rightarrow> bytes" where
  "be32 x = rev (le32 x)"

definition from_be32 :: "bytes \<Rightarrow> u32" where
  "from_be32 b = word32 (rev b)"

section \<open>Dump\<close>

text \<open>
  The attributes of a list the dump uses. \<open>meter\<close> gives the bytes of an element as the meter measures them, \<open>buffer\<close> is
  the element a buffer with given bytes is, and an unserializer returns the element and its size in memory.
\<close>

record 'a codec =
  meter :: "('a \<Rightarrow> bytes) option"
  serializer :: "('a \<Rightarrow> bytes) option"
  unserializer :: "(bytes \<Rightarrow> 'a \<times> u32) option"
  buffer :: "bytes \<Rightarrow> 'a"
  hasher :: "('a \<Rightarrow> u32) option"

definition list_attributes_setdefaults :: "(bytes \<Rightarrow> 'a) \<Rightarrow> 'a codec" where
  "list_attributes_setdefaults buf = \<lparr>meter = None, serializer = None, unserializer = None, buffer = buf, hasher = None\<rparr>"

definition list_attributes_hash_computer :: "('a \<Rightarrow> u32) \<Rightarrow> 'a codec \<Rightarrow> int \<times> 'a codec" where
  "list_attributes_hash_computer f c = (0, c\<lparr>hasher := Some f\<rparr>)"

definition list_attributes_serializer :: "('a \<Rightarrow> bytes) \<Rightarrow> 'a codec \<Rightarrow> int \<times> 'a codec" where
  "list_attributes_serializer f c = (0, c\<lparr>serializer := Some f\<rparr>)"

definition list_attributes_unserializer :: "(bytes \<Rightarrow> 'a \<times> u32) \<Rightarrow> 'a codec \<Rightarrow> int \<times> 'a codec" where
  "list_attributes_unserializer f c = (0, c\<lparr>unserializer := Some f\<rparr>)"

abbreviation (input) SIMCLIST_DUMPFORMAT_HEADERLEN :: nat where "SIMCLIST_DUMPFORMAT_HEADERLEN \<equiv> 30"

text \<open>
  The loop over the elements, which speculates that all have the size of the first one. When one differs it starts
  again with sizes before the elements; only the branch of the serializer (\<open>rewind\<close>) goes back in the file.
\<close>

function dump_elements ::
  "bool \<Rightarrow> ('a \<Rightarrow> bytes) \<Rightarrow> 'a list \<Rightarrow> 'a list \<Rightarrow> u32 \<Rightarrow> u32 \<Rightarrow> file_t \<Rightarrow> file_t + (u32 \<times> u32) \<times> file_t" where
  "dump_elements rewind enc all [] elemlen tot f = Inr ((elemlen, tot), f)"
| "dump_elements rewind enc all (x # xs) elemlen tot f =
     (let bufsize = of_nat (length (enc x)); ser_buf = take (unat bufsize) (enc x) in
      if elemlen \<noteq> 0 then
        if elemlen \<noteq> bufsize then
          io (if rewind then lseek_set SIMCLIST_DUMPFORMAT_HEADERLEN f else Inr ((), f)) (\<lambda>_. dump_elements rewind enc all all 0 0)
        else io (write_file ser_buf f) (\<lambda>_. dump_elements rewind enc all xs elemlen (tot + bufsize))
      else io (write_all [le32 bufsize, ser_buf] f) (\<lambda>_. dump_elements rewind enc all xs elemlen (tot + bufsize)))"
  by pat_completeness auto
termination
  by (relation "measures [\<lambda>(rewind, enc, all, xs, elemlen, tot, f). if elemlen = 0 then 0 else 1,
      \<lambda>(rewind, enc, all, xs, elemlen, tot, f). length xs]") auto

text \<open>The content, or nothing for an empty list.\<close>

definition dump_content :: "'a codec \<Rightarrow> 'a list_t \<Rightarrow> file_t \<Rightarrow> file_t + (u32 \<times> u32) \<times> file_t" where
  "dump_content c l f =
     (case entries l of
        [] \<Rightarrow> Inr ((0, 0), f)
      | x # _ \<Rightarrow>
          (case serializer c of
             Some enc \<Rightarrow> dump_elements True enc (entries l) (entries l) (of_nat (length (enc x))) 0 f
           | None \<Rightarrow>
               (case meter c of
                  Some enc \<Rightarrow> dump_elements False enc (entries l) (entries l) (of_nat (length (enc x))) 0 f
                | None \<Rightarrow> Inr ((0, 0), f))))"

definition dump_header :: "u32 \<Rightarrow> u32 \<Rightarrow> u32 \<Rightarrow> u32 \<Rightarrow> u32 \<Rightarrow> u32 \<Rightarrow> u32 \<Rightarrow> bytes list" where
  "dump_header sec usec rndterm tot n elemlen hash =
     [[0, 1], be32 sec, be32 usec, be32 rndterm, be32 tot, be32 n, be32 elemlen, le32 hash]"

text \<open>
  \<open>sec\<close> and \<open>usec\<close> are the time of day, \<open>rnd\<close> is the random terminator. The result on success is the length that is reported:
  \<^verbatim>\<open>sizeof(header)\<close>, which is 32 with its padding, and the length of the elements.
\<close>

definition list_dump_filedescriptor :: "'a codec \<Rightarrow> u32 \<Rightarrow> u32 \<Rightarrow> u32 \<Rightarrow> 'a list_t \<Rightarrow> file_t \<Rightarrow> file_t + nat \<times> file_t" where
  "list_dump_filedescriptor c sec usec rnd l f =
     (if meter c = None \<and> serializer c = None then Inl f
      else
        let hash = (case hasher c of None \<Rightarrow> 0 | Some h \<Rightarrow> the (list_hash (Some h) l)) in
        io (lseek_set SIMCLIST_DUMPFORMAT_HEADERLEN f) (\<lambda>_ f.
        io (dump_content c l f) (\<lambda>(elemlen, tot) f.
        io (write_file (be32 rnd) f) (\<lambda>_ f.
        io (write_all (dump_header sec usec rnd tot (of_nat (numels l)) elemlen hash) (f\<lparr>fpos := 0\<rparr>)) (\<lambda>_ f.
        Inr (32 + unat tot, f))))))"

text \<open>The descriptor of a file that \<^verbatim>\<open>open\<close> has truncated; the result of the dump is not looked at.\<close>

definition list_dump_file :: "bool \<Rightarrow> 'a codec \<Rightarrow> u32 \<Rightarrow> u32 \<Rightarrow> u32 \<Rightarrow> 'a list_t \<Rightarrow> file_t \<Rightarrow> int \<times> file_t" where
  "list_dump_file openOk c sec usec rnd l f =
     (if \<not> openOk then (- 1, f)
      else (0, case list_dump_filedescriptor c sec usec rnd l (f\<lparr>content := [], fpos := 0\<rparr>) of Inl f \<Rightarrow> f | Inr (n, f) \<Rightarrow> f))"

section \<open>Restore\<close>

fun restore_elements ::
  "bool \<Rightarrow> 'a codec \<Rightarrow> u32 \<Rightarrow> nat \<Rightarrow> u32 \<Rightarrow> u32 \<Rightarrow> 'a list_t \<Rightarrow> file_t \<Rightarrow> 'a list_t \<times> (file_t + (u32 \<times> u32) \<times> file_t)" where
  "restore_elements mem c elemlen 0 totreadlen totmemorylen l f = (l, Inr ((totreadlen, totmemorylen), f))"
| "restore_elements mem c elemlen (Suc n) totreadlen totmemorylen l f =
     (case (if elemlen > 0 then Inr (elemlen, f) else io (read_file 4 f) (\<lambda>b f. Inr (word32 b, f))) of
        Inl f \<Rightarrow> (l, Inl f)
      | Inr (elsize, f) \<Rightarrow>
          if \<not> mem then (l, Inl f)
          else case read_file (unat elsize) f of
              Inl f \<Rightarrow> (l, Inl f)
            | Inr (buf, f) \<Rightarrow>
                (case (case unserializer c of Some u \<Rightarrow> u buf | None \<Rightarrow> (buffer c buf, elsize)) of
                   (x, memsize) \<Rightarrow> restore_elements mem c elemlen n (totreadlen + elsize) (totmemorylen + memsize)
                     (snd (list_append mem l x)) f))"

text \<open>The header as it is read: the terminator, the length and the number of the elements, and the size of each.\<close>

definition restore_header :: "file_t \<Rightarrow> file_t + (u32 \<times> u32 \<times> u32 \<times> u32) \<times> file_t" where
  "restore_header f =
     io (read_file 2 f) (\<lambda>ver f.
     if ver \<noteq> [0, 1] then Inl f
     else io (read_file 4 f) (\<lambda>_ f. io (read_file 4 f) (\<lambda>_ f.
     io (read_file 4 f) (\<lambda>rndterm f. io (read_file 4 f) (\<lambda>totlistlen f. io (read_file 4 f) (\<lambda>n f.
     io (read_file 4 f) (\<lambda>elemlen f. io (read_file 4 f) (\<lambda>_ f.
     Inr ((from_be32 rndterm, from_be32 totlistlen, from_be32 n, from_be32 elemlen), f)))))))))"

definition list_restore_filedescriptor :: "bool \<Rightarrow> 'a codec \<Rightarrow> 'a list_t \<Rightarrow> file_t \<Rightarrow> 'a list_t \<times> (file_t + u32 \<times> file_t)" where
  "list_restore_filedescriptor mem c l f =
     (case restore_header f of
        Inl f \<Rightarrow> (l, Inl f)
      | Inr ((rndterm, totlistlen, n, elemlen), f) \<Rightarrow>
          if elemlen > 0 \<and> unserializer c \<noteq> None \<and> \<not> mem then (l, Inl f)
          else case restore_elements mem c elemlen (unat n) 0 0 l f of
              (l, Inl f) \<Rightarrow> (l, Inl f)
            | (l, Inr ((totreadlen, totmemorylen), f)) \<Rightarrow>
                (case read_file 4 f of
                   Inl f \<Rightarrow> (l, Inl f)
                 | Inr (trm, f) \<Rightarrow>
                     if totreadlen \<noteq> totlistlen \<and> from_be32 trm = rndterm then (l, Inl f)
                     else if seekable f \<and> fpos f \<noteq> length (content f) then (l, Inl f)
                     else (l, Inr (totmemorylen, f))))"

definition list_restore_file :: "bool \<Rightarrow> bool \<Rightarrow> 'a codec \<Rightarrow> 'a list_t \<Rightarrow> file_t \<Rightarrow> int \<times> 'a list_t" where
  "list_restore_file openOk mem c l f =
     (if \<not> openOk then (- 1, l) else (0, fst (list_restore_filedescriptor mem c l (f\<lparr>fpos := 0\<rparr>))))"

section \<open>Information on a dump\<close>

record list_dump_info_t =
  di_version :: nat
  di_sec :: u32
  di_usec :: u32
  di_list_size :: u32
  list_numels :: u32
  di_list_hash :: u32
  consistent :: bool

text \<open>
  The two parts of the time are read with the sizes of \<^verbatim>\<open>struct timeval\<close>; \<^verbatim>\<open>ntohl\<close> takes the low half. The member
  \<^verbatim>\<open>dumpsize\<close> is never written.
\<close>

definition list_dump_getinfo_filedescriptor :: "file_t \<Rightarrow> file_t + list_dump_info_t \<times> file_t" where
  "list_dump_getinfo_filedescriptor f =
     io (read_file 2 f) (\<lambda>ver f.
     if ver \<notin> {[0, 0], [0, 1]} then Inl f
     else io (read_file 8 f) (\<lambda>sec f. io (read_file 8 f) (\<lambda>usec f.
     io (read_file 4 f) (\<lambda>term f. io (read_file 4 f) (\<lambda>sz f. io (read_file 4 f) (\<lambda>n f.
     io (read_file 4 f) (\<lambda>elemlen f. io (read_file 4 f) (\<lambda>hash f.
     let hop = (if from_be32 elemlen > 0 then from_be32 sz else from_be32 sz + from_be32 elemlen * from_be32 n) in
     io (lseek_set (fpos f + unat hop) f) (\<lambda>_ f.
     io (read_file 4 f) (\<lambda>tail f.
     Inr (\<lparr>di_version = unat (ver ! 1), di_sec = from_be32 (take 4 sec), di_usec = from_be32 (take 4 usec), di_list_size = from_be32 sz, list_numels = from_be32 n, di_list_hash = from_be32 hash,
            consistent = (term = tail)\<rparr>, f)))))))))))"

definition list_dump_getinfo_file :: "bool \<Rightarrow> file_t \<Rightarrow> list_dump_info_t option" where
  "list_dump_getinfo_file openOk f =
     (if \<not> openOk then None
      else case list_dump_getinfo_filedescriptor (f\<lparr>fpos := 0\<rparr>) of Inl f \<Rightarrow> None | Inr (info, f) \<Rightarrow> Some info)"

section \<open>A file with its position\<close>

text \<open>A file on which every call succeeds, with the bytes before and after the position.\<close>

definition placed :: "bytes \<Rightarrow> bytes \<Rightarrow> file_t" where
  "placed P R = \<lparr>content = P @ R, fpos = length P, seekable = True, opsLeft = None\<rparr>"

lemma io_simps [simp]: "io (Inl f) k = Inl f" "io (Inr (x, f)) k = k x f"
  by (simp_all add: io_def)

lemma write_placed [simp]:
  "write_file bs (placed P R) = Inr ((), placed (P @ bs) (drop (length bs) R))"
  by (simp add: write_file_def placed_def count_op_def)

lemma read_placed:
  "length B = n \<Longrightarrow> read_file n (placed P (B @ R)) = Inr (B, placed (P @ B) R)"
  by (auto simp: read_file_def placed_def count_op_def Let_def)

lemma seek_placed:
  "length P = n \<Longrightarrow> lseek_set n (placed (P @ Q) R) = Inr ((), placed P (Q @ R))"
  by (simp add: lseek_set_def placed_def)

lemma write_all_placed [simp]:
  "write_all bss (placed P R) = Inr ((), placed (P @ concat bss) (drop (length (concat bss)) R))"
  by (induction bss arbitrary: P R) (simp_all add: add.commute)

lemma be32_simps [simp]: "length (be32 x) = 4" "from_be32 (be32 x) = x" "be32 x \<noteq> []"
  using word32_le32 [of x "[]"] length_le32 [of x] by (auto simp: be32_def from_be32_def simp del: length_le32)

lemma le32_nonempty [simp]: "le32 x \<noteq> []"
  by (simp add: le32_def)

text \<open>A position behind the end of an empty file: the first bytes written fill the gap with zeros.\<close>

lemma write_gap:
  "bs \<noteq> [] \<Longrightarrow> write_file bs \<lparr>content = [], fpos = n, seekable = True, opsLeft = None\<rparr> = write_file bs (placed (replicate n 0) [])"
  by (simp add: write_file_def placed_def count_op_def)

section \<open>What a dump looks like\<close>

definition dump_body :: "('a \<Rightarrow> bytes) \<Rightarrow> bool \<Rightarrow> 'a list \<Rightarrow> bytes" where
  "dump_body enc same xs = concat (map (\<lambda>x. if same then enc x else le32 (of_nat (length (enc x))) @ enc x) xs)"

definition total_length :: "('a \<Rightarrow> bytes) \<Rightarrow> 'a list \<Rightarrow> u32" where
  "total_length enc xs = (\<Sum>x \<leftarrow> xs. of_nat (length (enc x)))"

lemma dump_body_simps [simp]:
  "dump_body enc same [] = []"
  "dump_body enc True (x # xs) = enc x @ dump_body enc True xs"
  "dump_body enc False (x # xs) = le32 (of_nat (length (enc x))) @ enc x @ dump_body enc False xs"
  "dump_body enc same (xs @ ys) = dump_body enc same xs @ dump_body enc same ys"
  by (simp_all add: dump_body_def)

lemma total_length_simps [simp]:
  "total_length enc [] = 0" "total_length enc (x # xs) = of_nat (length (enc x)) + total_length enc xs"
  by (simp_all add: total_length_def)

definition small :: "('a \<Rightarrow> bytes) \<Rightarrow> 'a list \<Rightarrow> bool" where
  "small enc xs \<longleftrightarrow> (\<forall>x \<in> set xs. length (enc x) < 2 ^ 32)"

lemma small_simps [simp]: "small enc (x # xs) \<longleftrightarrow> length (enc x) < 2 ^ 32 \<and> small enc xs" "small enc []"
  by (auto simp: small_def)

lemma small_length: "n < 2 ^ 32 \<Longrightarrow> unat (of_nat n :: u32) = n"
  by (simp add: unat_of_nat take_bit_nat_eq_self)

lemma small_zero: "n < 2 ^ 32 \<Longrightarrow> (of_nat n :: u32) = 0 \<longleftrightarrow> n = 0"
proof -
  assume "n < 2 ^ 32"
  then have "unat (of_nat n :: u32) = n" by (rule small_length)
  then show ?thesis by (cases "n = 0") auto
qed

lemma dump_sizes:
  "small enc xs \<Longrightarrow> dump_elements r enc all xs 0 tot (placed P R) =
    Inr ((0, tot + total_length enc xs), placed (P @ dump_body enc False xs) (drop (length (dump_body enc False xs)) R))"
  by (induction xs arbitrary: tot P R) (simp_all add: Let_def small_length add_ac)

lemma dump_constant:
  "small enc xs \<Longrightarrow> \<forall>x \<in> set xs. length (enc x) = n \<Longrightarrow> n \<noteq> 0 \<Longrightarrow> n < 2 ^ 32 \<Longrightarrow>
    dump_elements r enc all (xs @ ys) (of_nat n) tot (placed P R) =
    dump_elements r enc all ys (of_nat n) (tot + total_length enc xs)
      (placed (P @ dump_body enc True xs) (drop (length (dump_body enc True xs)) R))"
proof (induction xs arbitrary: tot P R)
  case (Cons x xs)
  moreover have "(of_nat n :: u32) \<noteq> 0" using Cons.prems small_length [of n] by auto
  ultimately show ?case by (simp add: Let_def small_length add_ac)
qed simp

lemma length_dump_body:
  "length (dump_body enc True ys) \<le> length (dump_body enc False (ys @ zs))"
  by (induction ys) simp_all

text \<open>The content after the loop, which starts at the position \<open>P\<close> behind the room for the header.\<close>

lemma dump_elements_content:
  assumes "small enc (x # xs)" "length P = SIMCLIST_DUMPFORMAT_HEADERLEN"
    and "same \<longleftrightarrow> enc x \<noteq> [] \<and> (\<forall>y \<in> set xs. length (enc y) = length (enc x))" "rewind \<or> same \<or> enc x = []"
  shows "dump_elements rewind enc (x # xs) (x # xs) (of_nat (length (enc x))) 0 (placed P []) =
    Inr ((if same then of_nat (length (enc x)) else 0, total_length enc (x # xs)), placed (P @ dump_body enc same (x # xs)) [])"
proof (cases "same \<or> enc x = []")
  case True
  show ?thesis
  proof (cases "enc x = []")
    case True
    then show ?thesis using dump_sizes [OF assms(1), of rewind "x # xs" 0 P "[]"] assms(3) by (simp del: dump_elements.simps)
  next
    case False
    then have "same" "\<forall>y \<in> set (x # xs). length (enc y) = length (enc x)" "length (enc x) \<noteq> 0" "length (enc x) < 2 ^ 32"
      using True assms(1,3) by auto
    then show ?thesis
      using dump_constant [OF assms(1), of "length (enc x)" rewind "x # xs" "[]" 0 P "[]"] by (simp del: dump_elements.simps(2))
  qed
next
  case False
  let ?n = "length (enc x)"
  have "\<not> (\<forall>y \<in> set (x # xs). length (enc y) = ?n)" using False assms(3) by auto
  then obtain ys z zs where sp: "x # xs = ys @ z # zs" "\<forall>y \<in> set ys. length (enc y) = ?n" "length (enc z) \<noteq> ?n"
    using split_list_first_prop [of "x # xs" "\<lambda>y. length (enc y) \<noteq> ?n"] by blast
  have "set (x # xs) = set ys \<union> insert z (set zs)" unfolding sp(1) by simp
  then have sm: "small enc ys" "length (enc z) < 2 ^ 32" "?n < 2 ^ 32" "?n \<noteq> 0"
    using assms(1) False unfolding small_def by auto
  have ne: "(of_nat ?n :: u32) \<noteq> of_nat (length (enc z))" "(of_nat ?n :: u32) \<noteq> 0"
    using small_length [OF sm(2)] small_length [OF sm(3)] sp(3) sm(4) by (metis, metis unat_0)
  have "dump_elements rewind enc (x # xs) (ys @ z # zs) (of_nat ?n) 0 (placed P []) =
    dump_elements rewind enc (x # xs) (z # zs) (of_nat ?n) (total_length enc ys) (placed (P @ dump_body enc True ys) [])"
    using dump_constant [OF sm(1) sp(2) sm(4,3), of rewind "x # xs" "z # zs" 0 P "[]"] by simp
  also have "\<dots> = dump_elements rewind enc (x # xs) (x # xs) 0 0 (placed P (dump_body enc True ys))"
    using ne assms(2,4) False by (simp add: Let_def seek_placed)
  also have "\<dots> = Inr ((0, total_length enc (x # xs)), placed (P @ dump_body enc False (x # xs)) [])"
    using dump_sizes [OF assms(1)] length_dump_body [of enc ys "z # zs"] unfolding sp(1) [symmetric] by (simp del: dump_elements.simps)
  finally show ?thesis using False sp(1) by simp
qed

text \<open>What can be dumped: the elements with a serializer, or with a meter that finds all of them equally long.\<close>

definition dumpable :: "'a codec \<Rightarrow> ('a \<Rightarrow> bytes) \<Rightarrow> 'a list \<Rightarrow> bool" where
  "dumpable c enc xs \<longleftrightarrow>
     (serializer c = Some enc \<or> serializer c = None \<and> meter c = Some enc \<and> (\<exists>n. \<forall>x \<in> set xs. length (enc x) = n)) \<and>
     small enc xs \<and> length xs < 2 ^ 32"

definition constant_size :: "('a \<Rightarrow> bytes) \<Rightarrow> 'a list \<Rightarrow> u32" where
  "constant_size enc xs =
     (case xs of [] \<Rightarrow> 0 | x # ys \<Rightarrow> if enc x \<noteq> [] \<and> (\<forall>y \<in> set ys. length (enc y) = length (enc x)) then of_nat (length (enc x)) else 0)"

abbreviation (input) gap :: file_t where
  "gap \<equiv> \<lparr>content = [], fpos = SIMCLIST_DUMPFORMAT_HEADERLEN, seekable = True, opsLeft = None\<rparr>"

lemma dump_elements_gap:
  assumes "length (enc x) < 2 ^ 32"
  shows "dump_elements r enc all (x # xs) (of_nat (length (enc x))) 0 gap =
    dump_elements r enc all (x # xs) (of_nat (length (enc x))) 0 (placed (replicate SIMCLIST_DUMPFORMAT_HEADERLEN 0) [])"
proof (cases "enc x = []")
  case False
  then have "take (unat (of_nat (length (enc x)) :: u32)) (enc x) \<noteq> []" using small_length [OF assms] by simp
  from write_gap [OF this, of SIMCLIST_DUMPFORMAT_HEADERLEN] show ?thesis
    using write_gap [OF le32_nonempty, of _ SIMCLIST_DUMPFORMAT_HEADERLEN] by (simp add: Let_def)
qed (simp add: Let_def write_gap)

lemma constant_size_iff:
  "small enc xs \<Longrightarrow> constant_size enc xs \<noteq> 0 \<longleftrightarrow>
    (case xs of [] \<Rightarrow> False | x # ys \<Rightarrow> enc x \<noteq> [] \<and> (\<forall>y \<in> set ys. length (enc y) = length (enc x)))"
  by (auto simp: constant_size_def small_zero split: list.splits)

lemma dump_content_gap:
  assumes "dumpable c enc (entries l)" "entries l \<noteq> []"
  shows "dump_content c l gap = Inr ((constant_size enc (entries l), total_length enc (entries l)),
    placed (replicate SIMCLIST_DUMPFORMAT_HEADERLEN 0 @ dump_body enc (constant_size enc (entries l) \<noteq> 0) (entries l)) [])"
proof -
  obtain x xs where l: "entries l = x # xs" using assms(2) by (cases "entries l") auto
  define same where "same \<longleftrightarrow> enc x \<noteq> [] \<and> (\<forall>y \<in> set xs. length (enc y) = length (enc x))"
  have sm: "small enc (x # xs)" "length (enc x) < 2 ^ 32" using assms(1) by (auto simp: dumpable_def l)
  have cs: "constant_size enc (x # xs) \<noteq> 0 \<longleftrightarrow> same" "constant_size enc (x # xs) = (if same then of_nat (length (enc x)) else 0)"
    using constant_size_iff [OF sm(1)] by (simp_all add: same_def constant_size_def)
  have run: "dump_elements r enc (x # xs) (x # xs) (of_nat (length (enc x))) 0 gap =
      Inr ((constant_size enc (x # xs), total_length enc (x # xs)), placed (replicate 30 0 @ dump_body enc same (x # xs)) [])"
    if "r \<or> same \<or> enc x = []" for r
    unfolding dump_elements_gap [of enc x, OF sm(2)] cs(2)
    by (rule dump_elements_content [OF sm(1) _ same_def that]) simp
  have "serializer c = Some enc \<or> serializer c = None \<and> meter c = Some enc \<and> (same \<or> enc x = [])"
    using assms(1) by (auto simp: dumpable_def l same_def)
  then have eq: "dump_content c l gap = dump_elements (serializer c = Some enc) enc (x # xs) (x # xs) (of_nat (length (enc x))) 0 gap"
    and ok: "serializer c = Some enc \<or> same \<or> enc x = []"
    by (auto simp: dump_content_def l simp del: dump_elements.simps)
  show ?thesis unfolding eq run [OF ok] l cs(1) by (rule refl)
qed

text \<open>The whole file.\<close>

lemma dump_file_content:
  assumes "list_repOk l" "dumpable c enc (entries l)" "seekable f" "opsLeft f = None"
  shows "\<exists>hash. list_dump_file True c sec usec rnd l f = (0, placed (concat (dump_header sec usec rnd (total_length enc (entries l))
      (of_nat (length (entries l))) (constant_size enc (entries l)) hash))
    (dump_body enc (constant_size enc (entries l) \<noteq> 0) (entries l) @ be32 rnd))"
proof -
  let ?xs = "entries l" and ?z = "replicate 30 0"
  let ?body = "dump_body enc (constant_size enc ?xs \<noteq> 0) ?xs"
  let ?hash = "case hasher c of None \<Rightarrow> 0 | Some h \<Rightarrow> the (list_hash (Some h) l)"
  let ?h = "dump_header sec usec rnd (total_length enc ?xs) (of_nat (length ?xs)) (constant_size enc ?xs) ?hash"
  have n: "numels l = length ?xs" using assms(1) by (auto simp: list_repOk_def)
  have f: "f\<lparr>content := [], fpos := 0\<rparr> = placed [] []" using assms(3,4) by (cases f) (simp add: placed_def)
  have s: "lseek_set SIMCLIST_DUMPFORMAT_HEADERLEN (placed [] []) = Inr ((), gap)" by (simp add: lseek_set_def placed_def)
  have c: "\<not> (meter c = None \<and> serializer c = None)" using assms(2) by (auto simp: dumpable_def)
  have w: "io (dump_content c l gap) (\<lambda>r f. io (write_file (be32 rnd) f) (\<lambda>_ f. k r f)) =
      k (constant_size enc ?xs, total_length enc ?xs) (placed (?z @ ?body @ be32 rnd) [])" for k :: "u32 \<times> u32 \<Rightarrow> file_t \<Rightarrow> file_t + nat \<times> file_t"
  proof (cases "?xs = []")
    case True
    then have "dump_content c l gap = Inr ((0, 0), gap)" by (simp add: dump_content_def)
    then show ?thesis using True write_gap [of "be32 rnd" 30] by (simp add: constant_size_def)
  qed (simp add: dump_content_gap [OF assms(2)])
  have z: "(placed (?z @ ?body @ be32 rnd) [])\<lparr>fpos := 0\<rparr> = placed [] (?z @ ?body @ be32 rnd)" by (simp add: placed_def)
  have len: "length (concat ?h) = 30" by (simp add: dump_header_def)
  then have "write_all ?h (placed [] (?z @ ?body @ be32 rnd)) = Inr ((), placed (concat ?h) (?body @ be32 rnd))" by simp
  then have "list_dump_filedescriptor c sec usec rnd l (placed [] []) = Inr (32 + unat (total_length enc ?xs), placed (concat ?h) (?body @ be32 rnd))"
    using c by (simp only: list_dump_filedescriptor_def Let_def s io_simps split_def w) (simp add: n z del: write_all.simps)
  then show ?thesis by (intro exI [of _ ?hash]) (simp add: list_dump_file_def f)
qed

section \<open>Restoring what was dumped\<close>

definition decoded :: "'a codec \<Rightarrow> bytes \<Rightarrow> 'a" where
  "decoded c b = (case unserializer c of Some u \<Rightarrow> fst (u b) | None \<Rightarrow> buffer c b)"

lemma restore_elements_body:
  assumes "list_ok l" "small enc xs" "\<forall>x \<in> set xs. decoded c (enc x) = x"
    and "e \<noteq> 0 \<Longrightarrow> \<forall>x \<in> set xs. of_nat (length (enc x)) = e"
  shows "\<exists>l' tm'. restore_elements True c e (length xs) tr tm l (placed P (dump_body enc (e \<noteq> 0) xs @ R)) =
    (l', Inr ((tr + total_length enc xs, tm'), placed (P @ dump_body enc (e \<noteq> 0) xs) R)) \<and>
    list_ok l' \<and> entries l' = entries l @ xs"
  using assms
proof (induction xs arbitrary: l tr tm P)
  case (Cons x xs)
  let ?n = "of_nat (length (enc x)) :: u32"
  have n: "unat ?n = length (enc x)" using Cons.prems(2) by (simp add: small_length)
  have "fst (case unserializer c of Some u \<Rightarrow> u (enc x) | None \<Rightarrow> (buffer c (enc x), ?n)) = x"
    using Cons.prems(3) by (cases "unserializer c") (auto simp: decoded_def)
  then obtain memsize where d: "(case unserializer c of Some u \<Rightarrow> u (enc x) | None \<Rightarrow> (buffer c (enc x), ?n)) = (x, memsize)"
    by (metis prod.collapse)
  let ?l = "snd (list_append True l x)"
  have ok: "list_ok ?l" "entries ?l = entries l @ [x]" by (rule list_append_repOk [OF Cons.prems(1)])+
  let ?P = "P @ (if e \<noteq> 0 then [] else le32 ?n)"
  have body: "dump_body enc (e \<noteq> 0) (x # xs) = (if e \<noteq> 0 then [] else le32 ?n) @ enc x @ dump_body enc (e \<noteq> 0) xs"
    by (cases "e = 0") simp_all
  have sz: "(if e > 0 then Inr (e, placed P (dump_body enc (e \<noteq> 0) (x # xs) @ R))
      else io (read_file 4 (placed P (dump_body enc (e \<noteq> 0) (x # xs) @ R))) (\<lambda>b f. Inr (word32 b, f))) =
      Inr (?n, placed ?P (enc x @ dump_body enc (e \<noteq> 0) xs @ R))"
  proof (cases "e = 0")
    case True
    then show ?thesis using read_placed [of "le32 ?n" 4 P] word32_le32 [of ?n "[]"] by simp
  qed (use Cons.prems(4) in \<open>simp add: word_neq_0_conv\<close>)
  have rd: "read_file (unat ?n) (placed ?P (enc x @ dump_body enc (e \<noteq> 0) xs @ R)) =
      Inr (enc x, placed (?P @ enc x) (dump_body enc (e \<noteq> 0) xs @ R))"
    by (rule read_placed) (simp add: n)
  have "restore_elements True c e (length (x # xs)) tr tm l (placed P (dump_body enc (e \<noteq> 0) (x # xs) @ R)) =
    restore_elements True c e (length xs) (tr + ?n) (tm + memsize) ?l (placed (?P @ enc x) (dump_body enc (e \<noteq> 0) xs @ R))"
    unfolding list.size(4) One_nat_def add_Suc_right add_0_right restore_elements.simps(2) sz by (simp add: rd d)
  moreover obtain l' tm' where "restore_elements True c e (length xs) (tr + ?n) (tm + memsize) ?l (placed (?P @ enc x) (dump_body enc (e \<noteq> 0) xs @ R)) =
      (l', Inr ((tr + ?n + total_length enc xs, tm'), placed ((?P @ enc x) @ dump_body enc (e \<noteq> 0) xs) R))"
      "list_ok l'" "entries l' = entries ?l @ xs"
    using Cons.IH [OF ok(1), of "tr + ?n" "tm + memsize" "?P @ enc x"] Cons.prems by auto
  ultimately show ?case using body ok(2) by (auto simp: add_ac)
qed simp

lemma restore_header_placed:
  "restore_header (placed [] (concat (dump_header sec usec rnd tot n e hash) @ R)) =
    Inr ((rnd, tot, n, e), placed (concat (dump_header sec usec rnd tot n e hash)) R)"
  by (simp add: restore_header_def dump_header_def read_placed [of "[0, 1]" 2 "[]", simplified] read_placed)


section \<open>Examples\<close>

text \<open>Byte strings, with a serializer, and with a meter only.\<close>

definition serialized :: "bytes codec" where
  "serialized = snd (list_attributes_unserializer (\<lambda>b. (b, of_nat (length b)))
     (snd (list_attributes_serializer (\<lambda>b. b) (list_attributes_setdefaults (\<lambda>b. b)))))"

lemmas attribute_setters = list_attributes_setdefaults_def list_attributes_serializer_def list_attributes_unserializer_def

definition metered :: "bytes codec" where
  "metered = \<lparr>meter = Some (\<lambda>b. b), serializer = None, unserializer = None, buffer = (\<lambda>b. b), hasher = None\<rparr>"

definition example_bytes :: "bytes list_t" where
  "example_bytes = fold (\<lambda>x l. snd (list_append True l x)) [[1], [2, 3]] list_init"

definition new_file :: file_t where
  "new_file = \<lparr>content = [], fpos = 0, seekable = True, opsLeft = None\<rparr>"


text \<open>
  With a meter only, the loop starts again without going back in the file: what it wrote before stays in front of the
  sizes, and the dump of elements of different sizes can not be restored. \<^verbatim>\<open>list_restore_file\<close> reports success all the same.
\<close>

lemma metered_dump_lost:
  "map_prod id entries (list_restore_file True True metered list_init (snd (list_dump_file True metered 7 8 9 example_bytes new_file))) = (0, [])"
  by code_simp

text \<open>The length that is reported differs from the length of the file.\<close>

lemma dump_length_wrong:
  "map_sum (\<lambda>_. ()) (\<lambda>(n, f). (n, length (content f))) (list_dump_filedescriptor serialized 7 8 9 example_bytes new_file) = Inr (35, 45)"
  by code_simp

text \<open>The information on a dump is read at wrong places, since the two parts of the time have other sizes in the file.\<close>

lemma dump_info_wrong:
  "map_option (\<lambda>info. (list_numels info, consistent info))
     (list_dump_getinfo_file True (snd (list_dump_file True serialized 7 8 9 example_bytes new_file))) = Some (0, False)"
  by code_simp

text \<open>A dump that fails is reported as a success.\<close>

lemma failed_dump_reported_as_success:
  "fst (list_dump_file True c sec usec rnd l f) = 0"
  by (simp add: list_dump_file_def)

end
