(* ===== verification/Libpcscspy.thy ===== *)
theory Libpcscspy
  imports Hotplug_Libudev
begin

text \<open>
  The spying library \<^verbatim>\<open>src/src/spy/libpcscspy.c\<close>, which stands between an application and the client library and
  writes every call to a pipe. An application hands it pointers, so the memory of the process is explicit: a map from
  addresses to bytes, undefined where nothing is mapped. Every function that looks at memory gives \<open>None\<close> when it reads an
  address that is not mapped, which ends the process. The real library is an argument \<open>real\<close>; it may do anything to the memory and
  to a state of its own.

  Pointers and \<^verbatim>\<open>unsigned long\<close> have 64 bits. The messages for the standard output and error are left out.
\<close>

section \<open>Memory\<close>

type_synonym memory64 = "DWORD \<Rightarrow> UCHAR option"

fun read_bytes :: "nat \<Rightarrow> DWORD \<Rightarrow> memory64 \<Rightarrow> bytes option" where
  "read_bytes 0 p m = Some []"
| "read_bytes (Suc n) p m = (case m p of None \<Rightarrow> None | Some b \<Rightarrow> map_option ((#) b) (read_bytes n (p + 1) m))"

definition read_ulong :: "DWORD \<Rightarrow> memory64 \<Rightarrow> DWORD option" where
  "read_ulong p m = map_option (\<lambda>bs. foldr (\<lambda>b v. v * 256 + ucast b) bs 0) (read_bytes 8 p m)"

text \<open>The characters before the NUL.\<close>

lemma unat_64: "unat (p :: DWORD) < 2 ^ 64"
  using unsigned_less [of p] by simp

lemma next_address: "p \<noteq> - 1 \<Longrightarrow> unat (p + 1 :: DWORD) = unat p + 1"
  by (metis add.commute add_eq_0_iff2 unatSuc Suc_eq_plus1)

function read_str :: "DWORD \<Rightarrow> memory64 \<Rightarrow> string option" where
  "read_str p m =
     (case m p of
        None \<Rightarrow> None
      | Some b \<Rightarrow>
          if b = 0 then Some []
          else if p = - 1 then None
          else map_option ((#) (char_of (unat b))) (read_str (p + 1) m))"
  by pat_completeness auto

termination
proof (relation "measure (\<lambda>(p, m). 2 ^ 64 - unat p)", goal_cases)
  case (2 p m b)
  then show ?case using next_address [of p] unat_64 [of p] by simp
qed simp

declare read_str.simps [simp del]

section \<open>The log\<close>

text \<open>
  \<open>Log_fd\<close>: the pipe is open; \<open>pipeText\<close>: what was written to it. \<open>threadId\<close> is the calling thread and \<open>clock k\<close> the
  time of day at the call \<open>k\<close> of \<^verbatim>\<open>gettimeofday\<close>. \<open>loaded\<close> are the entries of the table \<^verbatim>\<open>spy\<close> that point to the real library and
  \<open>nullEntry\<close> is one that was overwritten with a null pointer; the others point to \<^verbatim>\<open>internal_error\<close>.
\<close>

record spy_t =
  Log_fd :: bool
  pipeText :: string
  threadId :: DWORD
  clock :: "nat \<Rightarrow> DWORD \<times> DWORD"
  ticks :: nat
  initialised :: bool
  loaded :: "string list"
  nullEntry :: "string option"

definition hex8 :: "DWORD \<Rightarrow> string" where
  "hex8 v = (let digits = hex_digits (unat v) in replicate (8 - length digits) (CHR ''0'') @ digits)"

definition spy_line_direct :: "string \<Rightarrow> spy_t \<Rightarrow> spy_t" where
  "spy_line_direct line s =
     (if \<not> Log_fd s then s
      else s\<lparr>pipeText := pipeText s @ hex_digits (unat (threadId s)) @ ''@'' @ line @ [CHR 0x0A]\<rparr>)"

definition spy_line :: "string \<Rightarrow> spy_t \<Rightarrow> spy_t" where
  "spy_line line s = (if length line \<ge> 256 then s else spy_line_direct line s)"

text \<open>The line with which a call begins and the one with which it ends.\<close>

definition enter_line :: "string \<Rightarrow> spy_t \<Rightarrow> string" where
  "enter_line fname s = (case clock s (ticks s) of (sec, usec) \<Rightarrow>
     ''>|'' @ decimal (unat sec) @ ''|'' @ decimal (unat usec) @ ''|'' @ fname)"

definition quit_line :: "string \<Rightarrow> LONG \<Rightarrow> spy_t \<Rightarrow> string" where
  "quit_line fname rv s = (case clock s (ticks s) of (sec, usec) \<Rightarrow>
     ''<|'' @ decimal (unat sec) @ ''|'' @ decimal (unat usec) @ ''|'' @ fname @ ''|0x'' @ hex8 (word_of_int rv))"

definition spy_enter :: "string \<Rightarrow> spy_t \<Rightarrow> spy_t" where
  "spy_enter fname s = spy_line (enter_line fname s) (s\<lparr>ticks := ticks s + 1\<rparr>)"

definition spy_quit :: "string \<Rightarrow> LONG \<Rightarrow> spy_t \<Rightarrow> spy_t" where
  "spy_quit fname rv s = spy_line (quit_line fname rv s) (s\<lparr>ticks := ticks s + 1\<rparr>)"

section \<open>Arguments\<close>

definition spy_long :: "DWORD \<Rightarrow> memory64 \<Rightarrow> spy_t \<Rightarrow> spy_t option" where
  "spy_long v m s = Some (spy_line (''0x'' @ hex8 v) s)"

definition spy_text :: "string \<Rightarrow> memory64 \<Rightarrow> spy_t \<Rightarrow> spy_t option" where
  "spy_text line m s = Some (spy_line line s)"

definition spy_ptr_ulong :: "DWORD \<Rightarrow> memory64 \<Rightarrow> spy_t \<Rightarrow> spy_t option" where
  "spy_ptr_ulong p m s =
     (if p = 0 then spy_text ''NULL'' m s else Option.bind (read_ulong p m) (\<lambda>v. spy_long v m s))"

definition spy_ptr_long :: "DWORD \<Rightarrow> memory64 \<Rightarrow> spy_t \<Rightarrow> spy_t option" where
  "spy_ptr_long p m s =
     (if p = 0 then spy_text ''NULL'' m s else Option.bind (read_ulong p m) (\<lambda>v. spy_long v m s))"

definition spy_pvoid :: "DWORD \<Rightarrow> memory64 \<Rightarrow> spy_t \<Rightarrow> spy_t option" where
  "spy_pvoid p m s = spy_text (if p = 0 then ''(nil)'' else ''0x'' @ lower_hex (unat p)) m s"

definition spy_buffer :: "DWORD \<Rightarrow> DWORD \<Rightarrow> memory64 \<Rightarrow> spy_t \<Rightarrow> spy_t option" where
  "spy_buffer p len m s =
     Option.bind (spy_long len m s) (\<lambda>s.
     if p = 0 then spy_text ''NULL'' m s
     else map_option (\<lambda>bs. spy_line_direct (concat (map (\<lambda>b. hex2 (unat b) @ '' '') bs)) s) (read_bytes (unat len) p m))"

text \<open>A string is read only when there is a log; \<^verbatim>\<open>printf\<close> shows a null pointer as text.\<close>

definition spy_str :: "DWORD \<Rightarrow> memory64 \<Rightarrow> spy_t \<Rightarrow> spy_t option" where
  "spy_str p m s =
     (if \<not> Log_fd s then Some s
      else if p = 0 then spy_text ''(null)'' m s
      else map_option (\<lambda>line. spy_line line s) (read_str p m))"

text \<open>The strings of a multi-string, until the \<^verbatim>\<open>unsigned int\<close> count reaches the length.\<close>

function n_str_loop :: "DWORD \<Rightarrow> u32 \<Rightarrow> DWORD \<Rightarrow> memory64 \<Rightarrow> spy_t \<Rightarrow> spy_t option" where
  "n_str_loop p length' len m s =
     (case read_str p m of
        None \<Rightarrow> None
      | Some line \<Rightarrow>
          let s = spy_line line s; length' = length' + of_nat (length line + 1) in
          if ucast length' < len then
            (if unat p + length line + 1 < 2 ^ 64 then n_str_loop (p + of_nat (length line + 1)) length' len m s else None)
          else Some s)"
  by pat_completeness auto

termination
proof (relation "measure (\<lambda>(p, length', len, m, s). 2 ^ 64 - unat p)", goal_cases)
  case (2 p length' len m s line s' length'')
  have n: "length line + 1 < 2 ^ 64" and b: "unat p + (length line + 1) < 2 ^ 64" using 2(5) by simp_all
  have "unat (of_nat (length line + 1) :: DWORD) = length line + 1"
    using n by (simp only: unat_of_nat) (simp add: take_bit_nat_eq_self)
  then have "unat (p + of_nat (length line + 1)) = unat p + (length line + 1)"
    using b by (subst unat_add_lem [THEN iffD1]) simp_all
  then show ?case using b by simp
qed simp

declare n_str_loop.simps [simp del]

definition spy_n_str :: "DWORD \<Rightarrow> DWORD \<Rightarrow> bool \<Rightarrow> memory64 \<Rightarrow> spy_t \<Rightarrow> spy_t option" where
  "spy_n_str str len autoallocate m s =
     Option.bind (spy_ptr_ulong len m s) (\<lambda>s.
     if len = 0 then spy_text [CHR 0x22, CHR 0x22] m s
     else if str = 0 then spy_text ''NULL'' m s
     else Option.bind (if autoallocate then read_ulong str m else Some str) (\<lambda>p.
       Option.bind (read_ulong len m) (\<lambda>n. n_str_loop p 0 n m s)))"

definition spy_readerstate1 :: "DWORD \<Rightarrow> nat \<Rightarrow> memory64 \<Rightarrow> spy_t \<Rightarrow> spy_t option" where
  "spy_readerstate1 rgReaderStates i m s =
     (let p = rgReaderStates + of_nat (80 * i) in
      Option.bind (read_ulong p m) (\<lambda>szReader. Option.bind (spy_str szReader m s) (\<lambda>s.
      Option.bind (read_ulong (p + 16) m) (\<lambda>dwCurrentState. Option.bind (spy_long dwCurrentState m s) (\<lambda>s.
      Option.bind (read_ulong (p + 24) m) (\<lambda>dwEventState. Option.bind (spy_long dwEventState m s) (\<lambda>s.
      Option.bind (read_ulong (p + 32) m) (\<lambda>cbAtr.
      spy_buffer (if cbAtr \<le> of_nat MAX_ATR_SIZE then p + 40 else 0) cbAtr m s))))))))"

text \<open>The calls of a list, one after the other.\<close>

fun run_log :: "(memory64 \<Rightarrow> spy_t \<Rightarrow> spy_t option) list \<Rightarrow> memory64 \<Rightarrow> spy_t \<Rightarrow> spy_t option" where
  "run_log [] m s = Some s"
| "run_log (a # as) m s = Option.bind (a m s) (run_log as m)"

text \<open>The array of reader states: 80 bytes each, and as many as \<open>cReaders\<close> is as an \<^verbatim>\<open>int\<close>.\<close>

definition spy_readerstate :: "DWORD \<Rightarrow> DWORD \<Rightarrow> memory64 \<Rightarrow> spy_t \<Rightarrow> spy_t option" where
  "spy_readerstate rgReaderStates cReaders =
     run_log (map (spy_readerstate1 rgReaderStates) [0..<nat (int32 (uint cReaders))])"

section \<open>The functions\<close>

text \<open>
  A call of the API with its arguments, as they are passed on to the real library. The result of a real function is its return value
  with the memory and the state it leaves.
\<close>

datatype api_call =
    SCardEstablishContext_call DWORD DWORD DWORD DWORD
  | SCardReleaseContext_call DWORD
  | SCardIsValidContext_call DWORD
  | SCardConnect_call DWORD DWORD DWORD DWORD DWORD DWORD
  | SCardReconnect_call DWORD DWORD DWORD DWORD DWORD
  | SCardDisconnect_call DWORD DWORD
  | SCardBeginTransaction_call DWORD
  | SCardEndTransaction_call DWORD DWORD
  | SCardStatus_call DWORD DWORD DWORD DWORD DWORD DWORD DWORD
  | SCardGetStatusChange_call DWORD DWORD DWORD DWORD
  | SCardControl_call DWORD DWORD DWORD DWORD DWORD DWORD DWORD
  | SCardTransmit_call DWORD DWORD DWORD DWORD DWORD DWORD DWORD
  | SCardListReaderGroups_call DWORD DWORD DWORD
  | SCardListReaders_call DWORD DWORD DWORD DWORD
  | SCardFreeMemory_call DWORD DWORD
  | SCardCancel_call DWORD
  | SCardGetAttrib_call DWORD DWORD DWORD DWORD
  | SCardSetAttrib_call DWORD DWORD DWORD DWORD

type_synonym 'w real = "api_call \<Rightarrow> memory64 \<Rightarrow> 'w \<Rightarrow> LONG \<times> memory64 \<times> 'w"
type_synonym 'w spied = "spy_t \<Rightarrow> memory64 \<Rightarrow> 'w \<Rightarrow> (LONG \<times> spy_t \<times> memory64 \<times> 'w) option"

text \<open>What all functions have in common: the log before, the call through the table, and the log after.\<close>

definition spied :: "string \<Rightarrow> (memory64 \<Rightarrow> spy_t \<Rightarrow> spy_t option) list \<Rightarrow> (memory64 \<Rightarrow> 'w \<Rightarrow> LONG \<times> memory64 \<times> 'w) \<Rightarrow>
    (LONG \<Rightarrow> (memory64 \<Rightarrow> spy_t \<Rightarrow> spy_t option) list) \<Rightarrow> 'w spied" where
  "spied fname pre call post s m w =
     Option.bind (run_log pre m (spy_enter fname s)) (\<lambda>s.
     if nullEntry s = Some fname then None
     else case (if fname \<in> set (loaded s) then call m w else (SCARD_F_INTERNAL_ERROR, m, w)) of
       (rv, m, w) \<Rightarrow> map_option (\<lambda>s. (rv, spy_quit fname rv s, m, w)) (run_log (post rv) m s))"

text \<open>Loading the library: the symbols in order, up to the first that is missing, whose entry becomes a null pointer.\<close>

definition spy_symbols :: "(string \<Rightarrow> bool) \<Rightarrow> string list" where
  "spy_symbols dlsym =
     [''SCardEstablishContext'', ''SCardReleaseContext'', ''SCardIsValidContext'', ''SCardConnect'', ''SCardReconnect'',
      ''SCardDisconnect'', ''SCardBeginTransaction'', ''SCardEndTransaction'', ''SCardStatus'', ''SCardGetStatusChange'',
      ''SCardControl'', ''SCardTransmit'', ''SCardListReaderGroups'', ''SCardListReaders''] @
     (if dlsym ''SCardFreeMemory'' then [''SCardFreeMemory''] else []) @
     [''SCardCancel'', ''SCardGetAttrib'', ''SCardSetAttrib'']"

text \<open>\<open>lib\<close>: the symbols of the library, \<open>None\<close> when it can not be loaded. \<open>itself\<close>: the library is the spying one.\<close>

definition load_lib :: "(string \<Rightarrow> bool) option \<Rightarrow> bool \<Rightarrow> spy_t \<Rightarrow> LONG \<times> spy_t" where
  "load_lib lib itself s =
     (case lib of
        None \<Rightarrow> (SCARD_F_INTERNAL_ERROR, s)
      | Some dlsym \<Rightarrow>
          if itself then (SCARD_F_INTERNAL_ERROR, s)
          else (if list_all dlsym (spy_symbols dlsym) then SCARD_S_SUCCESS else SCARD_F_INTERNAL_ERROR,
                s\<lparr>loaded := takeWhile dlsym (spy_symbols dlsym), nullEntry := find (\<lambda>n. \<not> dlsym n) (spy_symbols dlsym)\<rparr>))"

definition init :: "(string \<Rightarrow> bool) option \<Rightarrow> bool \<Rightarrow> bool \<Rightarrow> spy_t \<Rightarrow> spy_t" where
  "init lib itself pipeOk s =
     (case load_lib lib itself s of
        (rv, s) \<Rightarrow> if rv \<noteq> SCARD_S_SUCCESS then s else s\<lparr>Log_fd := pipeOk\<rparr>)"

definition SCardEstablishContext_spy :: "(spy_t \<Rightarrow> spy_t) \<Rightarrow> 'w real \<Rightarrow> DWORD \<Rightarrow> DWORD \<Rightarrow> DWORD \<Rightarrow> DWORD \<Rightarrow> 'w spied" where
  "SCardEstablishContext_spy once real dwScope pvReserved1 pvReserved2 phContext s =
     (let s = (if initialised s then s else once (s\<lparr>initialised := True\<rparr>)) in
      spied ''SCardEstablishContext'' [spy_long dwScope] (real (SCardEstablishContext_call dwScope pvReserved1 pvReserved2 phContext))
        (\<lambda>rv. [spy_ptr_long phContext]) s)"

definition SCardReleaseContext_spy :: "'w real \<Rightarrow> DWORD \<Rightarrow> 'w spied" where
  "SCardReleaseContext_spy real hcontext =
     spied ''SCardReleaseContext'' [spy_long hcontext] (real (SCardReleaseContext_call hcontext)) (\<lambda>rv. [])"

definition SCardIsValidContext_spy :: "'w real \<Rightarrow> DWORD \<Rightarrow> 'w spied" where
  "SCardIsValidContext_spy real hcontext =
     spied ''SCardIsValidContext'' [spy_long hcontext] (real (SCardIsValidContext_call hcontext)) (\<lambda>rv. [])"

definition SCardConnect_spy :: "'w real \<Rightarrow> DWORD \<Rightarrow> DWORD \<Rightarrow> DWORD \<Rightarrow> DWORD \<Rightarrow> DWORD \<Rightarrow> DWORD \<Rightarrow> 'w spied" where
  "SCardConnect_spy real hcontext szReader dwShareMode dwPreferredProtocols phCard pdwActiveProtocol =
     spied ''SCardConnect'' [spy_long hcontext, spy_str szReader, spy_long dwShareMode, spy_long dwPreferredProtocols, spy_ptr_long phCard, spy_ptr_ulong pdwActiveProtocol] (real (SCardConnect_call hcontext szReader dwShareMode dwPreferredProtocols phCard pdwActiveProtocol)) (\<lambda>rv. [spy_ptr_long phCard, spy_ptr_ulong pdwActiveProtocol])"

definition SCardReconnect_spy :: "'w real \<Rightarrow> DWORD \<Rightarrow> DWORD \<Rightarrow> DWORD \<Rightarrow> DWORD \<Rightarrow> DWORD \<Rightarrow> 'w spied" where
  "SCardReconnect_spy real hcard dwShareMode dwPreferredProtocols dwInitialization pdwActiveProtocol =
     spied ''SCardReconnect'' [spy_long hcard, spy_long dwShareMode, spy_long dwPreferredProtocols, spy_long dwInitialization] (real (SCardReconnect_call hcard dwShareMode dwPreferredProtocols dwInitialization pdwActiveProtocol)) (\<lambda>rv. [spy_ptr_ulong pdwActiveProtocol])"

definition SCardDisconnect_spy :: "'w real \<Rightarrow> DWORD \<Rightarrow> DWORD \<Rightarrow> 'w spied" where
  "SCardDisconnect_spy real hcard dwDisposition =
     spied ''SCardDisconnect'' [spy_long hcard, spy_long dwDisposition] (real (SCardDisconnect_call hcard dwDisposition)) (\<lambda>rv. [])"

definition SCardBeginTransaction_spy :: "'w real \<Rightarrow> DWORD \<Rightarrow> 'w spied" where
  "SCardBeginTransaction_spy real hcard =
     spied ''SCardBeginTransaction'' [spy_long hcard] (real (SCardBeginTransaction_call hcard)) (\<lambda>rv. [])"

definition SCardEndTransaction_spy :: "'w real \<Rightarrow> DWORD \<Rightarrow> DWORD \<Rightarrow> 'w spied" where
  "SCardEndTransaction_spy real hcard dwDisposition =
     spied ''SCardEndTransaction'' [spy_long hcard, spy_long dwDisposition] (real (SCardEndTransaction_call hcard dwDisposition)) (\<lambda>rv. [])"

text \<open>Whether a length asks for a buffer to be allocated.\<close>

definition autoallocate :: "DWORD \<Rightarrow> memory64 \<Rightarrow> bool option" where
  "autoallocate p m = (if p = 0 then Some False else map_option (\<lambda>n. n = - 1) (read_ulong p m))"

text \<open>A buffer whose length is behind a pointer, and that may have been allocated by the library.\<close>

definition spy_out_buffer :: "bool \<Rightarrow> DWORD \<Rightarrow> DWORD \<Rightarrow> memory64 \<Rightarrow> spy_t \<Rightarrow> spy_t option" where
  "spy_out_buffer auto p len m s =
     Option.bind (if auto then read_ulong p m else Some p) (\<lambda>buf.
     Option.bind (read_ulong len m) (\<lambda>n. spy_buffer buf n m s))"

definition SCardStatus_spy :: "'w real \<Rightarrow> DWORD \<Rightarrow> DWORD \<Rightarrow> DWORD \<Rightarrow> DWORD \<Rightarrow> DWORD \<Rightarrow> DWORD \<Rightarrow> DWORD \<Rightarrow> 'w spied" where
  "SCardStatus_spy real hcard mszReaderName pcchReaderLen pdwState pdwProtocol pbAtr pcbAtrLen s m w =
     Option.bind (autoallocate pcchReaderLen m) (\<lambda>autoallocate_ReaderName.
     Option.bind (autoallocate pcbAtrLen m) (\<lambda>autoallocate_Atr.
     spied ''SCardStatus'' [spy_long hcard, spy_ptr_ulong pcchReaderLen, spy_ptr_ulong pcbAtrLen]
       (real (SCardStatus_call hcard mszReaderName pcchReaderLen pdwState pdwProtocol pbAtr pcbAtrLen))
       (\<lambda>rv. [spy_n_str mszReaderName pcchReaderLen autoallocate_ReaderName, spy_ptr_ulong pdwState, spy_ptr_ulong pdwProtocol,
          if pcbAtrLen = 0 then spy_text ''NULL'' else spy_out_buffer autoallocate_Atr pbAtr pcbAtrLen]) s m w))"

definition SCardGetStatusChange_spy :: "'w real \<Rightarrow> DWORD \<Rightarrow> DWORD \<Rightarrow> DWORD \<Rightarrow> DWORD \<Rightarrow> 'w spied" where
  "SCardGetStatusChange_spy real hcontext dwTimeout rgReaderStates cReaders =
     spied ''SCardGetStatusChange'' [spy_long hcontext, spy_long dwTimeout, spy_long cReaders, spy_readerstate rgReaderStates cReaders]
       (real (SCardGetStatusChange_call hcontext dwTimeout rgReaderStates cReaders)) (\<lambda>rv. [spy_readerstate rgReaderStates cReaders])"

text \<open>The answer of a card or a driver: its bytes only when the call succeeded.\<close>

definition spy_answer :: "LONG \<Rightarrow> DWORD \<Rightarrow> DWORD \<Rightarrow> memory64 \<Rightarrow> spy_t \<Rightarrow> spy_t option" where
  "spy_answer rv p len m s =
     (if len = 0 then spy_buffer 0 0 m s
      else Option.bind (read_ulong len m) (\<lambda>n. spy_buffer (if rv = SCARD_S_SUCCESS then p else 0) n m s))"

definition SCardControl_spy :: "'w real \<Rightarrow> DWORD \<Rightarrow> DWORD \<Rightarrow> DWORD \<Rightarrow> DWORD \<Rightarrow> DWORD \<Rightarrow> DWORD \<Rightarrow> DWORD \<Rightarrow> 'w spied" where
  "SCardControl_spy real hcard dwControlCode pbSendBuffer cbSendLength pbRecvBuffer cbRecvLength lpBytesReturned =
     spied ''SCardControl'' [spy_long hcard, spy_long dwControlCode, spy_buffer pbSendBuffer cbSendLength]
       (real (SCardControl_call hcard dwControlCode pbSendBuffer cbSendLength pbRecvBuffer cbRecvLength lpBytesReturned))
       (\<lambda>rv. [spy_answer rv pbRecvBuffer lpBytesReturned])"

text \<open>The two members of a \<^verbatim>\<open>SCARD_IO_REQUEST\<close>.\<close>

definition spy_pci :: "DWORD \<Rightarrow> memory64 \<Rightarrow> spy_t \<Rightarrow> spy_t option" where
  "spy_pci p m s =
     (if p = 0 then Option.bind (spy_long (- 1) m s) (spy_long (- 1) m)
      else Option.bind (read_ulong p m) (\<lambda>dwProtocol. Option.bind (spy_long dwProtocol m s) (\<lambda>s.
        Option.bind (read_ulong (p + 8) m) (\<lambda>cbPciLength. spy_long cbPciLength m s))))"

definition SCardTransmit_spy :: "'w real \<Rightarrow> DWORD \<Rightarrow> DWORD \<Rightarrow> DWORD \<Rightarrow> DWORD \<Rightarrow> DWORD \<Rightarrow> DWORD \<Rightarrow> DWORD \<Rightarrow> 'w spied" where
  "SCardTransmit_spy real hcard pioSendPci pbSendBuffer cbSendLength pioRecvPci pbRecvBuffer pcbRecvLength =
     spied ''SCardTransmit'' [spy_long hcard, spy_pci pioSendPci, spy_buffer pbSendBuffer cbSendLength]
       (real (SCardTransmit_call hcard pioSendPci pbSendBuffer cbSendLength pioRecvPci pbRecvBuffer pcbRecvLength))
       (\<lambda>rv. [spy_pci pioRecvPci, spy_answer rv pbRecvBuffer pcbRecvLength])"

text \<open>The multi-string a call has filled, when it succeeded.\<close>

definition spy_names :: "LONG \<Rightarrow> DWORD \<Rightarrow> DWORD \<Rightarrow> bool \<Rightarrow> memory64 \<Rightarrow> spy_t \<Rightarrow> spy_t option" where
  "spy_names rv str len auto = (if rv = SCARD_S_SUCCESS then spy_n_str str len auto else spy_n_str 0 len False)"

definition SCardListReaderGroups_spy :: "'w real \<Rightarrow> DWORD \<Rightarrow> DWORD \<Rightarrow> DWORD \<Rightarrow> 'w spied" where
  "SCardListReaderGroups_spy real hcontext mszGroups pcchGroups s m w =
     Option.bind (autoallocate pcchGroups m) (\<lambda>auto.
     spied ''SCardListReaderGroups'' [spy_long hcontext, spy_ptr_ulong pcchGroups]
       (real (SCardListReaderGroups_call hcontext mszGroups pcchGroups)) (\<lambda>rv. [spy_names rv mszGroups pcchGroups auto]) s m w)"

definition SCardListReaders_spy :: "'w real \<Rightarrow> DWORD \<Rightarrow> DWORD \<Rightarrow> DWORD \<Rightarrow> DWORD \<Rightarrow> 'w spied" where
  "SCardListReaders_spy real hcontext mszGroups mszReaders pcchReaders s m w =
     Option.bind (autoallocate pcchReaders m) (\<lambda>auto.
     spied ''SCardListReaders'' [spy_long hcontext, spy_str mszGroups]
       (real (SCardListReaders_call hcontext mszGroups mszReaders pcchReaders)) (\<lambda>rv. [spy_names rv mszReaders pcchReaders auto]) s m w)"

definition SCardFreeMemory_spy :: "'w real \<Rightarrow> DWORD \<Rightarrow> DWORD \<Rightarrow> 'w spied" where
  "SCardFreeMemory_spy real hcontext pvMem =
     spied ''SCardFreeMemory'' [spy_long hcontext, spy_pvoid pvMem] (real (SCardFreeMemory_call hcontext pvMem)) (\<lambda>rv. [])"

definition SCardCancel_spy :: "'w real \<Rightarrow> DWORD \<Rightarrow> 'w spied" where
  "SCardCancel_spy real hcontext =
     spied ''SCardCancel'' [spy_long hcontext] (real (SCardCancel_call hcontext)) (\<lambda>rv. [])"

definition SCardGetAttrib_spy :: "'w real \<Rightarrow> DWORD \<Rightarrow> DWORD \<Rightarrow> DWORD \<Rightarrow> DWORD \<Rightarrow> 'w spied" where
  "SCardGetAttrib_spy real hcard dwAttrId pbAttr pcbAttrLen s m w =
     Option.bind (autoallocate pcbAttrLen m) (\<lambda>auto.
     spied ''SCardGetAttrib'' [spy_long hcard, spy_long dwAttrId] (real (SCardGetAttrib_call hcard dwAttrId pbAttr pcbAttrLen))
       (\<lambda>rv. [if pcbAttrLen = 0 \<or> rv \<noteq> SCARD_S_SUCCESS then spy_answer rv 0 pcbAttrLen
              else spy_out_buffer auto pbAttr pcbAttrLen]) s m w)"

definition SCardSetAttrib_spy :: "'w real \<Rightarrow> DWORD \<Rightarrow> DWORD \<Rightarrow> DWORD \<Rightarrow> DWORD \<Rightarrow> 'w spied" where
  "SCardSetAttrib_spy real hcard dwAttrId pbAttr cbAttrLen =
     spied ''SCardSetAttrib'' [spy_long hcard, spy_long dwAttrId, spy_buffer pbAttr cbAttrLen]
       (real (SCardSetAttrib_call hcard dwAttrId pbAttr cbAttrLen)) (\<lambda>rv. [])"

text \<open>The function an application reaches with a call, and its name.\<close>

fun spy_call :: "(spy_t \<Rightarrow> spy_t) \<Rightarrow> 'w real \<Rightarrow> api_call \<Rightarrow> 'w spied" where
  "spy_call once real (SCardEstablishContext_call a b c d) = SCardEstablishContext_spy once real a b c d"
| "spy_call once real (SCardReleaseContext_call a) = SCardReleaseContext_spy real a"
| "spy_call once real (SCardIsValidContext_call a) = SCardIsValidContext_spy real a"
| "spy_call once real (SCardConnect_call a b c d e f) = SCardConnect_spy real a b c d e f"
| "spy_call once real (SCardReconnect_call a b c d e) = SCardReconnect_spy real a b c d e"
| "spy_call once real (SCardDisconnect_call a b) = SCardDisconnect_spy real a b"
| "spy_call once real (SCardBeginTransaction_call a) = SCardBeginTransaction_spy real a"
| "spy_call once real (SCardEndTransaction_call a b) = SCardEndTransaction_spy real a b"
| "spy_call once real (SCardStatus_call a b c d e f g) = SCardStatus_spy real a b c d e f g"
| "spy_call once real (SCardGetStatusChange_call a b c d) = SCardGetStatusChange_spy real a b c d"
| "spy_call once real (SCardControl_call a b c d e f g) = SCardControl_spy real a b c d e f g"
| "spy_call once real (SCardTransmit_call a b c d e f g) = SCardTransmit_spy real a b c d e f g"
| "spy_call once real (SCardListReaderGroups_call a b c) = SCardListReaderGroups_spy real a b c"
| "spy_call once real (SCardListReaders_call a b c d) = SCardListReaders_spy real a b c d"
| "spy_call once real (SCardFreeMemory_call a b) = SCardFreeMemory_spy real a b"
| "spy_call once real (SCardCancel_call a) = SCardCancel_spy real a"
| "spy_call once real (SCardGetAttrib_call a b c d) = SCardGetAttrib_spy real a b c d"
| "spy_call once real (SCardSetAttrib_call a b c d) = SCardSetAttrib_spy real a b c d"

fun call_name :: "api_call \<Rightarrow> string" where
  "call_name (SCardEstablishContext_call a b c d) = ''SCardEstablishContext''"
| "call_name (SCardReleaseContext_call a) = ''SCardReleaseContext''"
| "call_name (SCardIsValidContext_call a) = ''SCardIsValidContext''"
| "call_name (SCardConnect_call a b c d e f) = ''SCardConnect''"
| "call_name (SCardReconnect_call a b c d e) = ''SCardReconnect''"
| "call_name (SCardDisconnect_call a b) = ''SCardDisconnect''"
| "call_name (SCardBeginTransaction_call a) = ''SCardBeginTransaction''"
| "call_name (SCardEndTransaction_call a b) = ''SCardEndTransaction''"
| "call_name (SCardStatus_call a b c d e f g) = ''SCardStatus''"
| "call_name (SCardGetStatusChange_call a b c d) = ''SCardGetStatusChange''"
| "call_name (SCardControl_call a b c d e f g) = ''SCardControl''"
| "call_name (SCardTransmit_call a b c d e f g) = ''SCardTransmit''"
| "call_name (SCardListReaderGroups_call a b c) = ''SCardListReaderGroups''"
| "call_name (SCardListReaders_call a b c d) = ''SCardListReaders''"
| "call_name (SCardFreeMemory_call a b) = ''SCardFreeMemory''"
| "call_name (SCardCancel_call a) = ''SCardCancel''"
| "call_name (SCardGetAttrib_call a b c d) = ''SCardGetAttrib''"
| "call_name (SCardSetAttrib_call a b c d) = ''SCardSetAttrib''"

end
