(* ===== verification/Spy_Props.thy ===== *)
theory Spy_Props
  imports Libpcscspy
begin

text \<open>
  The spying library is transparent: what it adds to a call is text in the pipe. The contract of a log function is that it
  only appends to the pipe; \<open>logs_only\<close> states it, and every function of the log has it.
\<close>

section \<open>Log functions only log\<close>

definition logged :: "spy_t \<Rightarrow> spy_t \<Rightarrow> bool" where
  "logged s s' \<longleftrightarrow> (\<exists>t. s' = s\<lparr>pipeText := pipeText s @ t\<rparr> \<and> (\<not> Log_fd s \<longrightarrow> t = []))"

definition logs_only :: "(memory64 \<Rightarrow> spy_t \<Rightarrow> spy_t option) \<Rightarrow> bool" where
  "logs_only a \<longleftrightarrow> (\<forall>m s s'. a m s = Some s' \<longrightarrow> logged s s')"

lemma logged_refl [simp]: "logged s s"
  unfolding logged_def by (intro exI [of _ "[]"]) simp

lemma logged_trans: "logged s s' \<Longrightarrow> logged s' s'' \<Longrightarrow> logged s s''"
proof -
  assume "logged s s'" "logged s' s''"
  then obtain t u where "s' = s\<lparr>pipeText := pipeText s @ t\<rparr>" "s'' = s'\<lparr>pipeText := pipeText s' @ u\<rparr>"
    "\<not> Log_fd s \<longrightarrow> t = []" "\<not> Log_fd s' \<longrightarrow> u = []" unfolding logged_def by blast
  then show ?thesis unfolding logged_def by (intro exI [of _ "t @ u"]) simp
qed

lemma logged_line [simp]: "logged s (spy_line_direct line s)" "logged s (spy_line line s)"
proof -
  show "logged s (spy_line_direct line s)" for line by (auto simp: logged_def spy_line_direct_def)
  then show "logged s (spy_line line s)" by (simp add: spy_line_def)
qed

lemma logs_onlyI: "(\<And>m s s'. a m s = Some s' \<Longrightarrow> logged s s') \<Longrightarrow> logs_only a"
  by (simp add: logs_only_def)

lemma logs_onlyD: "logs_only a \<Longrightarrow> a m s = Some s' \<Longrightarrow> logged s s'"
  by (simp add: logs_only_def)

text \<open>The ways in which log functions are put together.\<close>

lemma logs_only_read: "(\<And>v. logs_only (f v)) \<Longrightarrow> logs_only (\<lambda>m s. Option.bind (g m) (\<lambda>v. f v m s))"
  by (auto simp: logs_only_def bind_eq_Some_conv)

lemma logs_only_then: "logs_only a \<Longrightarrow> logs_only b \<Longrightarrow> logs_only (\<lambda>m s. Option.bind (a m s) (\<lambda>s. b m s))"
  unfolding logs_only_def bind_eq_Some_conv by (blast intro: logged_trans)

lemma logs_only_if: "logs_only a \<Longrightarrow> logs_only b \<Longrightarrow> logs_only (\<lambda>m s. if c s then a m s else b m s)"
  by (simp add: logs_only_def)

lemma logs_only_map: "(\<And>s v. logged s (h v s)) \<Longrightarrow> logs_only (\<lambda>m s. map_option (\<lambda>v. h v s) (g m))"
  by (auto simp: logs_only_def)

lemma logs_only_some: "(\<And>s. logged s (h s)) \<Longrightarrow> logs_only (\<lambda>m s. Some (h s))"
  by (auto simp: logs_only_def)

lemmas logs_only_rules = logs_only_read logs_only_then logs_only_if logs_only_map logs_only_some

lemma logs_only_simple [simp]:
  "logs_only (spy_long v)" "logs_only (spy_text line)" "logs_only (spy_ptr_ulong p)" "logs_only (spy_ptr_long p)" "logs_only (spy_pvoid p)"
proof -
  show l: "logs_only (spy_long v)" for v unfolding spy_long_def [abs_def] by (intro logs_only_rules) simp
  show t: "logs_only (spy_text line)" for line unfolding spy_text_def [abs_def] by (intro logs_only_rules) simp
  show "logs_only (spy_ptr_ulong p)" unfolding spy_ptr_ulong_def [abs_def] by (intro logs_only_rules l t)
  show "logs_only (spy_ptr_long p)" unfolding spy_ptr_long_def [abs_def] by (intro logs_only_rules l t)
  show "logs_only (spy_pvoid p)" unfolding spy_pvoid_def [abs_def] by (rule t)
qed

lemma logs_only_buffer [simp]: "logs_only (spy_buffer p len)"
  unfolding spy_buffer_def [abs_def] by (intro logs_only_rules logs_only_simple logged_line)

lemma logs_only_str [simp]: "logs_only (spy_str p)"
  unfolding spy_str_def [abs_def] by (intro logs_only_rules logs_only_simple logged_line logged_refl)

lemma logged_n_str_loop: "n_str_loop p n len m s = Some s' \<Longrightarrow> logged s s'"
proof (induction p n len m s rule: n_str_loop.induct)
  case (1 p n len m s)
  note unf = n_str_loop.simps [of p n len m s]
  from "1.prems" obtain line where l: "read_str p m = Some line" unfolding unf by (auto split: option.splits)
  let ?n = "n + of_nat (length line + 1)"
  show ?case
  proof (cases "ucast ?n < len")
    case True
    then have b: "unat p + length line + 1 < 2 ^ 64"
      and "n_str_loop (p + of_nat (length line + 1)) ?n len m (spy_line line s) = Some s'"
      using "1.prems" l unfolding unf by (auto simp: Let_def split: if_splits)
    from 1(1) [OF l refl refl True b this(2)] show ?thesis by (rule logged_trans [OF logged_line(2)])
  next
    case False
    then have "s' = spy_line line s" using "1.prems" l unfolding unf by (simp add: Let_def)
    then show ?thesis by simp
  qed
qed

lemma logs_only_n_str [simp]: "logs_only (spy_n_str str len auto)"
  unfolding spy_n_str_def [abs_def]
  by (intro logs_only_rules logs_only_simple) (rule logs_onlyI, erule logged_n_str_loop)

lemma logged_run: "\<forall>a \<in> set as. logs_only a \<Longrightarrow> run_log as m s = Some s' \<Longrightarrow> logged s s'"
  by (induction as arbitrary: s) (auto simp: bind_eq_Some_conv dest: logs_onlyD intro: logged_trans)

lemma logs_only_parts [simp]:
  "logs_only (spy_out_buffer auto p len)" "logs_only (spy_answer rv p len)" "logs_only (spy_pci p)" "logs_only (spy_names rv str len auto)"
proof -
  show "logs_only (spy_out_buffer auto p len)" unfolding spy_out_buffer_def [abs_def] by (intro logs_only_rules logs_only_buffer)
  show "logs_only (spy_answer rv p len)" unfolding spy_answer_def [abs_def] by (intro logs_only_rules logs_only_buffer)
  show "logs_only (spy_pci p)" unfolding spy_pci_def [abs_def] by (intro logs_only_rules logs_only_simple)
  show "logs_only (spy_names rv str len auto)" by (simp add: spy_names_def)
qed

lemma logs_only_readerstate1 [simp]: "logs_only (spy_readerstate1 p i)"
  unfolding spy_readerstate1_def [abs_def] Let_def
  by (intro logs_only_rules logs_only_simple logs_only_buffer logs_only_str)

lemma logs_only_readerstate [simp]: "logs_only (spy_readerstate p n)"
  unfolding spy_readerstate_def by (rule logs_onlyI, rule logged_run) auto

section \<open>Transparency\<close>

text \<open>A line of the log with its thread, and the frame of the first and the last line of a call.\<close>

definition log_text :: "spy_t \<Rightarrow> string \<Rightarrow> string" where
  "log_text s line = hex_digits (unat (threadId s)) @ ''@'' @ line @ [CHR 0x0A]"

lemma length_hex_digits: "n < 16 ^ k \<Longrightarrow> 0 < k \<Longrightarrow> length (hex_digits n) \<le> k"
proof (induction n arbitrary: k rule: hex_digits.induct)
  case (1 n)
  show ?case
  proof (cases "n < 16")
    case False
    then obtain j where j: "k = Suc j" "0 < j" using "1.prems" by (cases k; cases "k - 1") auto
    then have "n div 16 < 16 ^ j" using "1.prems"(1) by (simp add: less_mult_imp_div_less mult.commute)
    with 1(1) [OF False, of j] j False show ?thesis by (simp add: hex_digits.simps [of n])
  qed (use "1.prems" in \<open>simp add: hex_digits.simps [of n]\<close>)
qed

lemma length_fields: "length (decimal (unat (v :: DWORD))) \<le> 20" "length (hex8 v) \<le> 16"
  using length_decimal [of "unat v" 20] length_hex_digits [of "unat v" 16] unat_64 [of v] by (auto simp: hex8_def Let_def)

lemma length_call_name: "length (call_name c) \<le> 21"
  by (cases c) simp_all

lemma spy_enter_text:
  assumes "length fname \<le> 21"
  shows "spy_enter fname s = s\<lparr>ticks := ticks s + 1, pipeText := pipeText s @ (if Log_fd s then log_text s (enter_line fname s) else [])\<rparr>"
proof -
  have "length (enter_line fname s) < 256"
    using assms length_fields(1) [of "fst (clock s (ticks s))"] length_fields(1) [of "snd (clock s (ticks s))"]
    by (simp add: enter_line_def split_def)
  then show ?thesis by (simp add: spy_enter_def spy_line_def spy_line_direct_def log_text_def)
qed

lemma spy_quit_text:
  assumes "length fname \<le> 21"
  shows "spy_quit fname rv s = s\<lparr>ticks := ticks s + 1, pipeText := pipeText s @ (if Log_fd s then log_text s (quit_line fname rv s) else [])\<rparr>"
proof -
  have "length (quit_line fname rv s) < 256"
    using assms length_fields(1) [of "fst (clock s (ticks s))"] length_fields(1) [of "snd (clock s (ticks s))"] length_fields(2) [of "word_of_int rv"]
    by (simp add: quit_line_def split_def)
  then show ?thesis by (simp add: spy_quit_def spy_line_def spy_line_direct_def log_text_def)
qed

text \<open>What a spied call does, for a function of that name.\<close>

definition transparent :: "string \<Rightarrow> (memory64 \<Rightarrow> 'w \<Rightarrow> LONG \<times> memory64 \<times> 'w) \<Rightarrow> 'w spied \<Rightarrow> bool" where
  "transparent fname call f \<longleftrightarrow> (\<forall>s m w rv s' m' w'. f s m w = Some (rv, s', m', w') \<longrightarrow>
     (rv, m', w') = (if fname \<in> set (loaded s) then call m w else (SCARD_F_INTERNAL_ERROR, m, w)) \<and>
     (\<exists>mid. pipeText s' = pipeText s @ (if Log_fd s then log_text s (enter_line fname s) @ mid @
        log_text s (quit_line fname rv (s\<lparr>ticks := ticks s + 1\<rparr>)) else [])) \<and>
     s' = s\<lparr>ticks := ticks s + 2, pipeText := pipeText s'\<rparr>)"

lemma spied_transparent:
  assumes "length fname \<le> 21" "\<forall>a \<in> set pre. logs_only a" "\<And>rv. \<forall>a \<in> set (post rv). logs_only a"
  shows "transparent fname call (spied fname pre call post)"
  unfolding transparent_def
proof (intro allI impI)
  fix s m w rv s' m' w'
  assume "spied fname pre call post s m w = Some (rv, s', m', w')"
  then obtain s1 s2 where r: "run_log pre m (spy_enter fname s) = Some s1"
      "(rv, m', w') = (if fname \<in> set (loaded s1) then call m w else (SCARD_F_INTERNAL_ERROR, m, w))"
      "run_log (post rv) m' s1 = Some s2" "s' = spy_quit fname rv s2"
    by (auto simp: spied_def bind_eq_Some_conv split: if_splits prod.splits)
  obtain t where t: "s1 = (spy_enter fname s)\<lparr>pipeText := pipeText (spy_enter fname s) @ t\<rparr>" "\<not> Log_fd (spy_enter fname s) \<longrightarrow> t = []"
    using logged_run [OF assms(2) r(1)] unfolding logged_def by blast
  obtain u where u: "s2 = s1\<lparr>pipeText := pipeText s1 @ u\<rparr>" "\<not> Log_fd s1 \<longrightarrow> u = []"
    using logged_run [OF assms(3) r(3)] unfolding logged_def by blast
  note st = spy_enter_text [OF assms(1), of s] spy_quit_text [OF assms(1), of rv s2]
  have lg: "Log_fd s1 = Log_fd s" "loaded s1 = loaded s" using t(1) by (simp_all add: st(1))
  have "(\<exists>mid. pipeText s' = pipeText s @ (if Log_fd s then log_text s (enter_line fname s) @ mid @
      log_text s (quit_line fname rv (s\<lparr>ticks := ticks s + 1\<rparr>)) else []))"
    using t u lg unfolding r(4) st by (intro exI [of _ "t @ u"]) (simp add: log_text_def quit_line_def)
  moreover have "s' = s\<lparr>ticks := ticks s + 2, pipeText := pipeText s'\<rparr>"
    using t(1) u(1) unfolding r(4) st by simp
  ultimately show "(rv, m', w') = (if fname \<in> set (loaded s) then call m w else (SCARD_F_INTERNAL_ERROR, m, w)) \<and>
     (\<exists>mid. pipeText s' = pipeText s @ (if Log_fd s then log_text s (enter_line fname s) @ mid @
        log_text s (quit_line fname rv (s\<lparr>ticks := ticks s + 1\<rparr>)) else [])) \<and>
     s' = s\<lparr>ticks := ticks s + 2, pipeText := pipeText s'\<rparr>" using r(2) lg(2) by simp
qed

lemma transparent_read:
  "(\<And>v. transparent fname call (f v)) \<Longrightarrow> transparent fname call (\<lambda>s m w. Option.bind (g m) (\<lambda>v. f v s m w))"
  unfolding transparent_def bind_eq_Some_conv by blast

lemmas spy_functions = SCardReleaseContext_spy_def SCardIsValidContext_spy_def SCardConnect_spy_def SCardReconnect_spy_def
  SCardDisconnect_spy_def SCardBeginTransaction_spy_def SCardEndTransaction_spy_def SCardStatus_spy_def SCardGetStatusChange_spy_def
  SCardControl_spy_def SCardTransmit_spy_def SCardListReaderGroups_spy_def SCardListReaders_spy_def SCardFreeMemory_spy_def
  SCardCancel_spy_def SCardGetAttrib_spy_def SCardSetAttrib_spy_def

lemma call_transparent:
  assumes "\<And>a b c d. call \<noteq> SCardEstablishContext_call a b c d"
  shows "transparent (call_name call) (real call) (spy_call once real call)"
proof (cases call)
  case SCardEstablishContext_call
  then show ?thesis using assms by blast
qed (simp only: spy_call.simps call_name.simps spy_functions [abs_def];
    (intro transparent_read)?; rule spied_transparent; auto)+


text \<open>With a complete library every function is passed on.\<close>

lemma init_loads:
  "init (Some (\<lambda>n. True)) False pipeOk s = s\<lparr>loaded := spy_symbols (\<lambda>n. True), nullEntry := None, Log_fd := pipeOk\<rparr>"
proof -
  have "takeWhile (\<lambda>n. True) xs = xs" "find (\<lambda>n. \<not> True) xs = None" "list_all (\<lambda>n. True) xs" for xs :: "string list"
    by (simp_all add: takeWhile_eq_all_conv find_None_iff list_all_iff)
  then show ?thesis by (simp add: init_def load_lib_def)
qed

lemma init_complete:
  "call_name call \<in> set (loaded (init (Some (\<lambda>n. True)) False pipeOk s))"
  unfolding init_loads by (cases call) (simp_all add: spy_symbols_def)

section \<open>Examples\<close>

definition fresh_spy :: spy_t where
  "fresh_spy = \<lparr>Log_fd = False, pipeText = '''', threadId = 0xAB, clock = (\<lambda>k. (of_nat k, 7)), ticks = 0, initialised = True,
     loaded = [], nullEntry = None\<rparr>"

definition ready_spy :: spy_t where
  "ready_spy = init (Some (\<lambda>n. True)) False True fresh_spy"

text \<open>A library that counts its calls and always succeeds, and one that always fails.\<close>

definition counting :: "nat real" where
  "counting call m w = (SCARD_S_SUCCESS, m, w + 1)"

definition failing :: "nat real" where
  "failing call m w = (SCARD_F_INTERNAL_ERROR, m, w)"

lemma loaded_line [simp]: "loaded (spy_line line s) = loaded s" "nullEntry (spy_line line s) = nullEntry s"
  by (simp_all add: spy_line_def spy_line_direct_def)

text \<open>A call without pointers always returns.\<close>

lemma release_returns:
  assumes "''SCardReleaseContext'' \<in> set (loaded s)" "nullEntry s = None" "real (SCardReleaseContext_call h) m w = (rv, m', w')"
  shows "\<exists>s'. spy_call once real (SCardReleaseContext_call h) s m w = Some (rv, s', m', w')"
  using assms by (simp add: SCardReleaseContext_spy_def spied_def spy_long_def spy_enter_def)

lemma ready_spy_fields: "initialised ready_spy" "Log_fd ready_spy" "nullEntry ready_spy = None" "loaded ready_spy = spy_symbols (\<lambda>n. True)"
  by (simp_all add: ready_spy_def fresh_spy_def init_loads)


text \<open>
  \<^verbatim>\<open>SCardStatus\<close> is logged as if it had succeeded. When the application asks for an allocated ATR and the call fails, the pointer behind
  \<open>pbAtr\<close> was never set, and the spying library follows it: the process ends where it would have got an error code.
\<close>

definition status_memory :: memory64 where
  "status_memory p = (if 0x100 \<le> p \<and> p < 0x108 then Some 0xFF else if 0x200 \<le> p \<and> p < 0x208 then Some 0xAA else None)"

lemma spied_status_crashes:
  "failing (SCardStatus_call 5 0 0 0 0 0x200 0x100) status_memory 0 = (SCARD_F_INTERNAL_ERROR, status_memory, 0)"
  "spy_call id failing (SCardStatus_call 5 0 0 0 0 0x200 0x100) ready_spy status_memory 0 = None"
proof -
  show "failing (SCardStatus_call 5 0 0 0 0 0x200 0x100) status_memory 0 = (SCARD_F_INTERNAL_ERROR, status_memory, 0)"
    by (simp add: failing_def)
  have r: "read_ulong 0x100 status_memory = Some (- 1)" "read_ulong 0x200 status_memory = Some 0xAAAAAAAAAAAAAAAA"
    by code_simp+
  have u: "read_bytes n 0xAAAAAAAAAAAAAAAA status_memory = None" if "0 < n" for n
    using that by (cases n) (simp_all add: status_memory_def)
  have "unat (- 1 :: DWORD) = 2 ^ 64 - 1" by (simp add: unsigned_minus_1_eq_mask mask_eq_exp_minus_1)
  then show "spy_call id failing (SCardStatus_call 5 0 0 0 0 0x200 0x100) ready_spy status_memory 0 = None"
    by (simp add: SCardStatus_spy_def spied_def autoallocate_def r spy_long_def spy_ptr_ulong_def spy_text_def failing_def
        spy_n_str_def spy_out_buffer_def spy_buffer_def u split: prod.splits)
qed

text \<open>A symbol that is missing leaves a null pointer in the table; a call of that function ends the process.\<close>

lemma missing_symbol_crashes:
  "spy_call id counting (SCardCancel_call 5) (init (Some (\<lambda>n. n \<noteq> ''SCardCancel'')) False True fresh_spy) m 0 = None"
proof -
  have "nullEntry (init (Some (\<lambda>n. n \<noteq> ''SCardCancel'')) False True fresh_spy) = Some ''SCardCancel''" by code_simp
  then show ?thesis by (simp add: SCardCancel_spy_def spied_def spy_long_def spy_enter_def)
qed

end
