(* ===== verification/Spec2Isabelle.thy ===== *)
theory Spec2Isabelle
  imports Daemon_Props Library_Props Registry_Findings Svc_Findings Status_Props Clnt_Props Hotplug_Props
    Libusb_Props Pcscdaemon_Props Simclist_Dump Spy_Props
begin

text \<open>
  \<^bold>\<open>PC/SC Lite: the smart card daemon and its client library.\<close>

  \<^bold>\<open>The program.\<close> An application calls the functions of the client library (\<^verbatim>\<open>src/src/winscard_clnt.c\<close>), which
  packs every call into a message (\<^verbatim>\<open>winscard_msg.h\<close>), sends it over a local socket (\<^verbatim>\<open>winscard_msg.c\<close>) and
  unpacks the answer. In the daemon one thread per client (\<^verbatim>\<open>ContextThread\<close> of \<^verbatim>\<open>winscard_svc.c\<close>) reads the
  messages, checks that a client only names handles of its own and calls the server side of the API
  (\<^verbatim>\<open>winscard.c\<close>), which looks the reader up, checks the transaction lock and pending events
  (\<^verbatim>\<open>readerfactory.c\<close>) and reaches the card through the wrappers (\<^verbatim>\<open>ifdwrapper.c\<close>) of the driver. For each
  reader a further thread polls the card (\<^verbatim>\<open>eventhandler.c\<close>) and wakes the clients that wait for an event. Readers come and
  go through a hotplug back end (\<^verbatim>\<open>hotplug_libudev.c\<close> or \<^verbatim>\<open>hotplug_libusb.c\<close>, chosen by the build), which gives them to the
  registry of readers (\<^verbatim>\<open>readerfactory.c\<close>). \<^verbatim>\<open>pcscdaemon.c\<close> is the process: its options, its start in the background, its
  signals, and the loop that waits for clients on the socket of \<^verbatim>\<open>winscard_msg_srv.c\<close>. Two parts stand alone: the ATR decoder with the choice of the protocol (\<^verbatim>\<open>atrhandler.c\<close>,
  \<^verbatim>\<open>prothandler.c\<close>) and the linked lists (\<^verbatim>\<open>simclist.c\<close>) that everything else keeps its books in.

  \<^bold>\<open>How the code is modelled.\<close> A \<^verbatim>\<open>struct\<close> is a record, a function of the source is a definition with its name (a suffix
  \<open>_clnt\<close> where client and server use the same name), and the statics of a file are a record that the functions
  take and return: \<open>pcscd\<close> (readers, waiting clients, random numbers, driver libraries), \<open>svc\<close> (the daemon
  with the contexts and sockets of its clients), \<open>clnt\<close> (an application), \<open>hotplug\<close> and \<open>usb_bus\<close> (the back ends) and
  \<open>process\<close> (the daemon as its father process and the operating system see it). Integers whose width matters are
  words (\<open>DWORD\<close> has 64 bits, the members of messages 32, bytes 8), or \<open>int\<close> cut by \<open>int32\<close> where the source stores them
  in 32 bits. Every error path is a branch; a result \<open>None\<close> of a \<^theory_text>\<open>partial_function (option)\<close> is a
  call that does not return. Threads are interleaved at the points where the source waits or unlocks: the body of the event
  thread is split there, and an API call is one step on the reader whose mutex it holds.

  Code outside the repository is an argument: the functions of a driver with a state of a type \<open>'d\<close> of their
  own, the reads and writes on sockets (any sequence of partial transfers, interruptions and failures), \<^verbatim>\<open>malloc\<close>
  (\<open>memOk\<close>), random numbers, the clock, \<^verbatim>\<open>dlopen\<close>, udev, libusb, and the scanner of the bundles.

  \<^bold>\<open>The theories and what they show.\<close>

  \<^item> \<open>Pcsc_Prelude\<close>: machine types, constants of the API and facts on lists and words.
  \<^item> \<open>Simclist\<close>: \<^verbatim>\<open>simclist.c\<close>, with the cached middle node and the walks from the nearer end; every
    operation refines the one on sequences and keeps \<open>list_repOk\<close>; the locales \<open>sequence\<close> and \<open>keyed_sequence\<close> are what
    the clients of the lists rely on. \<open>Library_Props\<close> states this, and what holds of
    \<open>Atrhandler\<close> (\<^verbatim>\<open>atrhandler.c\<close>) and \<open>Prothandler\<close> (\<^verbatim>\<open>prothandler.c\<close>): the masks and reads of the decoder
    are bounded, and a negotiated protocol is one that both sides accept. \<open>Simclist_Sort\<close>: the sort of a list, selection
    sort for short ranges and quicksort with random pivots for long ones; the locale \<open>comparison\<close> is what it needs of a
    comparator, interpreted on the ready-made ones. \<open>Simclist_Dump\<close>: a list that is dumped to a file is restored from it.
  \<^item> \<open>Reader_Types\<close>, \<open>Ifdwrapper\<close>: the reader structures of \<^verbatim>\<open>readers.h\<close> and the driver wrappers.
  \<^item> \<open>Lock_Spec\<close>, \<open>Reader_Sharing\<close>: the locale \<open>reentrant_lock\<close> is the contract of the transaction
    lock; it is interpreted on \<^verbatim>\<open>RFLockSharing\<close> and \<^verbatim>\<open>RFUnlockSharing\<close>. The list of the handles of a reader, with the
    events pending for each.
  \<^item> \<open>Eventhandler\<close>: the event thread and the list of waiting clients. \<open>Daemon_Props\<close>: a removed card is seen by every
    client, the published states are of three kinds only, and the lock excludes in every interleaving.
  \<^item> \<open>Reader_Driver\<close>, \<open>Reader_Registry\<close>, \<open>Registry_Inv\<close>, \<open>Registry_Props\<close>: the life of a reader from its driver
    library to its removal, the names of readers, multi-slot readers with shared counters, configuration files; the
    invariant of the daemon in every reachable state. \<open>Registry_Findings\<close> shows inputs on which the code misses its aim.
  \<^item> \<open>Winscard\<close> with \<open>Winscard_Inv\<close>, \<open>Winscard_Effects\<close>, \<open>Winscard_Props\<close>, \<open>Winscard_Trans\<close>, \<open>Winscard_Life\<close>,
    \<open>Winscard_Spares\<close>, \<open>Winscard_Random\<close>: the functions of \<^verbatim>\<open>winscard.c\<close>, that each keeps the invariant, what each
    does on success and on failure, and what it leaves to other clients.
  \<^item> \<open>Winscard_Msg\<close>: the structures on the wire (the locale \<open>wire_struct\<close> is interpreted for each) and the transfer
    loops, which deliver exactly the bytes that were sent however they are cut.
  \<^item> \<open>Winscard_Svc\<close>, \<open>Context_Thread\<close>, \<open>Svc_Inv\<close>, \<open>Svc_Cleanup\<close>, \<open>Svc_Props\<close>, \<open>Svc_Findings\<close>: the dispatcher; clients
    are isolated from each other whatever bytes they send, and a client that dies leaves nothing behind.
  \<^item> \<open>Winscard_Clnt\<close>, \<open>Clnt_Exchange\<close>, \<open>Clnt_Inv\<close>, \<open>Clnt_Books\<close>, \<open>Clnt_States\<close>, \<open>Clnt_Transmit\<close>, \<open>Clnt_Props\<close>: the
    client library; its lists of pointers refine an abstract table of contexts and cards, and a command travels through
    library, wire, dispatcher and server and back.
  \<^item> \<open>Status_Change\<close>, \<open>Status_Props\<close>: \<^verbatim>\<open>SCardGetStatusChange\<close> against a specification of what differs.
  \<^item> \<open>Hotplug_Libudev\<close>, \<open>Hotplug_Props\<close>: \<^verbatim>\<open>hotplug_libudev.c\<close>; the driver of a device, and the removal of its readers.
    \<open>Hotplug_Libusb\<close>, \<open>Libusb_Props\<close>: \<^verbatim>\<open>hotplug_libusb.c\<close>; after each roll call the tracker agrees with the bus.
  \<^item> \<open>Pcscdaemon\<close>, \<open>Pcscdaemon_Props\<close>: the process; a signal ends it within two more signals or one turn of its loop, and the
    father process reports how the start ended.
  \<^item> \<open>Libpcscspy\<close>, \<open>Spy_Props\<close>: the spying library \<^verbatim>\<open>spy/libpcscspy.c\<close> over an explicit memory; a call through it does
    what the real function does, and the log is framed by the name of the function and its return value.
  \<^item> \<open>Examples\<close>: concrete daemons on which the theorems are instantiated.

  \<^bold>\<open>Bounds.\<close> No loop of the model has a bound that the source does not have. \<^verbatim>\<open>RFCreateReaderHandle\<close>, the wait for the
  lock in \<^verbatim>\<open>SCardConnect\<close>, the transfer loops and the repeated requests of the client are
  partial functions; their theorems say under which conditions they return. Random numbers, the events of sockets and the
  work of other threads are finite lists, whose end is a wait that never ends. The quotients that \<^verbatim>\<open>list_findpos\<close> compares in
  single precision are exact below \<open>2 ^ 23\<close> elements.

  \<^bold>\<open>Not modelled.\<close> Logging, the hotplug back ends for other systems, the scanners generated from \<^verbatim>\<open>configfile.l\<close> and \<^verbatim>\<open>tokenparser.l\<close>, polkit, the libraries that only pass calls on and the test programs. They are
  operating system services, output or generated code. Static linking of a single driver is a compile option that is
  not modelled. Weak memory effects between threads are outside the model: shared fields are read and written in one step.
\<close>

end
